(* ===== verification/Chat_Prelude.thy ===== *)
theory Chat_Prelude
  imports Main "HOL-Library.Word" "HOL-Library.Char_ord" "HOL-Library.List_Lexorder"
    "HOL-Library.Signed_Division"
begin

text \<open>
  The shared layer of the development: the machine integers of the C++ code, exceptions and
  crashes as values, and the pieces of the C++ standard library that several components call
  (\<open>std::to_string\<close>, \<open>std::stoi\<close>, \<open>std::stoll\<close>), with the generic lemmas about them.
\<close>

section \<open>Collections of facts\<close>

named_theorems res_simps \<open>evaluation of the result monad\<close>
named_theorems cpp_defs \<open>definitions of modelled C++ functions, for evaluation\<close>

section \<open>Machine integers\<close>

type_synonym int64 = "64 word"
type_synonym int32 = "32 word"

section \<open>Exceptions and crashes\<close>

text \<open>
  A C++ exception can be caught by \<open>catch(...)\<close>; a crash (failed assertion, arithmetic trap,
  dereference of a null pointer) cannot. \<open>Diverges\<close> marks a loop that never
  ends, or a bounded unfolding of a loop or a recursion that ran out of its bound.
\<close>

datatype exn = Parse_error | Type_error | Out_of_range | Invalid_argument | Filesystem_error
datatype crash = Assertion_failed | Division_by_zero | Null_pointer
datatype fault = Throw exn | Crash crash | Diverges

type_synonym 'a res = "fault + 'a"

definition rbind :: "'a res \<Rightarrow> ('a \<Rightarrow> 'b res) \<Rightarrow> 'b res" where
  "rbind m f = (case m of Inl e \<Rightarrow> Inl e | Inr x \<Rightarrow> f x)"

text \<open>\<open>try { m } catch(...) { h }\<close>\<close>

definition catch_all :: "'a res \<Rightarrow> 'a res \<Rightarrow> 'a res" where
  "catch_all m h = (case m of Inl (Throw x) \<Rightarrow> h | _ \<Rightarrow> m)"

lemma rbind_Inr [simp, res_simps]: "rbind (Inr x) f = f x"
  by (simp add: rbind_def)

lemma rbind_Inl [simp, res_simps]: "rbind (Inl e) f = Inl e"
  by (simp add: rbind_def)

lemma rbind_eq_Inr: "rbind m f = Inr y \<longleftrightarrow> (\<exists>x. m = Inr x \<and> f x = Inr y)"
  by (cases m) auto

lemma rbind_eq_Inl: "rbind m f = Inl e \<longleftrightarrow> m = Inl e \<or> (\<exists>x. m = Inr x \<and> f x = Inl e)"
  by (cases m) auto

lemma rbind_cong [fundef_cong]:
  "m = m' \<Longrightarrow> (\<And>x. m' = Inr x \<Longrightarrow> f x = f' x) \<Longrightarrow> rbind m f = rbind m' f'"
  by (cases m') auto

lemma rbind_assoc: "rbind (rbind m f) g = rbind m (\<lambda>x. rbind (f x) g)"
  by (cases m) auto

lemma catch_all_simps [simp, res_simps]:
  "catch_all (Inr x) h = Inr x"
  "catch_all (Inl (Throw e)) h = h"
  "catch_all (Inl (Crash c)) h = Inl (Crash c)"
  "catch_all (Inl Diverges) h = Inl Diverges"
  by (simp_all add: catch_all_def)

lemma catch_all_Inr_iff:
  "catch_all m h = Inr y \<longleftrightarrow> m = Inr y \<or> (\<exists>x. m = Inl (Throw x)) \<and> h = Inr y"
  by (auto simp: catch_all_def split: sum.splits fault.splits)

section \<open>Decimal text of integers\<close>

definition is_digit :: "char \<Rightarrow> bool" where
  "is_digit c \<longleftrightarrow> 48 \<le> (of_char c :: nat) \<and> (of_char c :: nat) \<le> 57"

definition digit_char :: "nat \<Rightarrow> char" where
  "digit_char n = char_of (48 + n)"

definition digit_val :: "char \<Rightarrow> nat" where
  "digit_val c = of_char c - 48"

fun nat_digits :: "nat \<Rightarrow> string" where
  "nat_digits n = (if n < 10 then [digit_char n] else nat_digits (n div 10) @ [digit_char (n mod 10)])"

declare nat_digits.simps [simp del]

definition int_to_string :: "int \<Rightarrow> string" where
  "int_to_string i = (if i < 0 then CHR ''-'' # nat_digits (nat (- i)) else nat_digits (nat i))"

text \<open>\<open>std::to_string(long long)\<close>\<close>

definition to_string64 :: "int64 \<Rightarrow> string" where
  "to_string64 w = int_to_string (sint w)"

text \<open>
  \<open>std::stoi\<close> and \<open>std::stoll\<close>: white space is skipped, then an optional sign and the longest
  run of digits are read; the rest of the text is ignored. No digit is
  \<open>std::invalid_argument\<close>, a value out of the type's range \<open>std::out_of_range\<close>.
\<close>

definition is_space :: "char \<Rightarrow> bool" where
  "is_space c \<longleftrightarrow> (of_char c :: nat) = 32 \<or> (9 \<le> (of_char c :: nat) \<and> (of_char c :: nat) \<le> 13)"

definition digits_value :: "string \<Rightarrow> nat" where
  "digits_value ds = foldl (\<lambda>acc c. acc * 10 + digit_val c) 0 ds"

definition read_digits :: "string \<Rightarrow> nat option" where
  "read_digits s = (let ds = takeWhile is_digit s in if ds = [] then None else Some (digits_value ds))"

definition strto_int :: "string \<Rightarrow> int option" where
  "strto_int s =
     (case dropWhile is_space s of
        [] \<Rightarrow> None
      | c # r \<Rightarrow>
          if c = CHR ''-'' then map_option (\<lambda>n. - int n) (read_digits r)
          else if c = CHR ''+'' then map_option int (read_digits r)
          else map_option int (read_digits (c # r)))"

definition stoi :: "string \<Rightarrow> int32 res" where
  "stoi s = (case strto_int s of
       None \<Rightarrow> Inl (Throw Invalid_argument)
     | Some i \<Rightarrow> if - (2 ^ 31) \<le> i \<and> i < 2 ^ 31 then Inr (word_of_int i) else Inl (Throw Out_of_range))"

definition stoll :: "string \<Rightarrow> int64 res" where
  "stoll s = (case strto_int s of
       None \<Rightarrow> Inl (Throw Invalid_argument)
     | Some i \<Rightarrow> if - (2 ^ 63) \<le> i \<and> i < 2 ^ 63 then Inr (word_of_int i) else Inl (Throw Out_of_range))"

lemma digit_char_eval:
  "digit_char 0 = CHR ''0''" "digit_char 1 = CHR ''1''" "digit_char (Suc 0) = CHR ''1''"
  "digit_char 2 = CHR ''2''" "digit_char 3 = CHR ''3''" "digit_char 4 = CHR ''4''"
  "digit_char 5 = CHR ''5''" "digit_char 6 = CHR ''6''" "digit_char 7 = CHR ''7''"
  "digit_char 8 = CHR ''8''" "digit_char 9 = CHR ''9''"
  by code_simp+

lemmas digits_eval = digit_char_eval nat_digits.simps int_to_string_def to_string64_def

lemma of_char_digit_char: "n < 10 \<Longrightarrow> of_char (digit_char n) = 48 + n"
  by (simp add: digit_char_def)

lemma is_digit_digit_char [simp]: "n < 10 \<Longrightarrow> is_digit (digit_char n)"
  by (simp add: is_digit_def of_char_digit_char)

lemma digit_val_digit_char [simp]: "n < 10 \<Longrightarrow> digit_val (digit_char n) = n"
  by (simp add: digit_val_def of_char_digit_char)

lemma nat_digits_not_Nil [simp]: "nat_digits n \<noteq> []"
  by (subst nat_digits.simps) simp

lemma nat_digits_digits: "\<forall>c \<in> set (nat_digits n). is_digit c"
proof (induction n rule: nat_digits.induct)
  case (1 n)
  then show ?case by (subst nat_digits.simps) auto
qed

lemma digits_value_snoc: "digits_value (ds @ [c]) = digits_value ds * 10 + digit_val c"
  by (simp add: digits_value_def)

lemma digits_value_nat_digits [simp]: "digits_value (nat_digits n) = n"
proof (induction n rule: nat_digits.induct)
  case (1 n)
  show ?case
  proof (cases "n < 10")
    case True
    then show ?thesis by (subst nat_digits.simps) (simp add: digits_value_def)
  next
    case False
    with 1 show ?thesis by (subst nat_digits.simps) (simp add: digits_value_snoc)
  qed
qed

lemma read_digits_nat_digits_append:
  assumes "\<forall>c r. rest = c # r \<longrightarrow> \<not> is_digit c"
  shows "read_digits (nat_digits n @ rest) = Some n"
proof -
  have "takeWhile is_digit (nat_digits n @ rest) = nat_digits n @ takeWhile is_digit rest"
    using nat_digits_digits by (simp add: takeWhile_append2)
  also have "takeWhile is_digit rest = []"
    using assms by (cases rest) auto
  finally show ?thesis by (simp add: read_digits_def)
qed

lemma read_digits_nat_digits [simp]: "read_digits (nat_digits n) = Some n"
  using read_digits_nat_digits_append [of "[]" n] by simp

lemma digit_not_space_sign:
  "is_digit c \<Longrightarrow> \<not> is_space c \<and> c \<noteq> CHR ''-'' \<and> c \<noteq> CHR ''+''"
  by (auto simp: is_digit_def is_space_def)

lemma nat_digits_Cons:
  obtains c r where "nat_digits n = c # r" "is_digit c"
  using nat_digits_digits [of n] nat_digits_not_Nil [of n] by (cases "nat_digits n") auto

lemma strto_int_int_to_string [simp]: "strto_int (int_to_string i) = Some i"
proof (cases "i < 0")
  case True
  then show ?thesis by (simp add: int_to_string_def strto_int_def is_space_def)
next
  case False
  obtain c r where c: "nat_digits (nat i) = c # r" "is_digit c"
    by (rule nat_digits_Cons)
  have "read_digits (c # r) = Some (nat i)"
    using read_digits_nat_digits [of "nat i"] c by simp
  with False c show ?thesis
    using digit_not_space_sign [OF c(2)] by (simp add: int_to_string_def strto_int_def)
qed

lemma stoll_to_string64 [simp]: "stoll (to_string64 w) = Inr w"
proof -
  have "- (2 ^ 63) \<le> sint w \<and> sint w < 2 ^ 63"
    using sint_ge [of w] sint_lt [of w] by simp
  then show ?thesis by (simp add: stoll_def to_string64_def)
qed

lemma int_to_string_inject [simp]: "int_to_string i = int_to_string j \<longleftrightarrow> i = j"
  by (metis strto_int_int_to_string option.inject)

lemma to_string64_inject [simp]: "to_string64 v = to_string64 w \<longleftrightarrow> v = w"
  by (metis stoll_to_string64 sum.inject(2))

lemma to_string64_not_Nil [simp]: "to_string64 w \<noteq> []"
  by (simp add: to_string64_def int_to_string_def)

lemma to_string64_chars: "c \<in> set (to_string64 w) \<Longrightarrow> is_digit c \<or> c = CHR ''-''"
  using nat_digits_digits by (auto simp: to_string64_def int_to_string_def split: if_splits)

section \<open>Reading integers back from words\<close>

lemma sint_word_of_int64: "- (2 ^ 63) \<le> k \<Longrightarrow> k < 2 ^ 63 \<Longrightarrow> sint (word_of_int k :: int64) = k"
  by (simp add: sint_sbintrunc' signed_take_bit_int_eq_self_iff)

lemma sint_word_of_int32: "- (2 ^ 31) \<le> k \<Longrightarrow> k < 2 ^ 31 \<Longrightarrow> sint (word_of_int k :: int32) = k"
  by (simp add: sint_sbintrunc' signed_take_bit_int_eq_self_iff)

lemma sint_scast32 [simp]: "sint (scast (w :: int32) :: int64) = sint w"
  by (rule sint_up_scast) (simp add: is_up)

lemma sint_word_of_nat64: "n < 2 ^ 63 \<Longrightarrow> sint (word_of_nat n :: int64) = int n"
  using sint_word_of_int64 [of "int n"] by simp

end
