(* ===== verification/Fs_World.thy ===== *)
theory Fs_World
  imports Chat_Prelude "HOL-Library.AList"
begin

text \<open>
  The file system as the program sees it through \<open>std::filesystem\<close> and \<open>std::fstream\<close>: nodes by
  path, the streams open on them and the calls the program makes. Two predicates of the world are left
  open, as the operating system decides them: where a file may be created, and up to which size a
  write succeeds. A path is its text: two texts name two nodes. A read stream holds the bytes its file
  had when it was opened. A write stream writes through to its file; the buffer of the real one may hold the last
  bytes back until it is flushed or closed, and an error that shows only then is not seen here, so what is
  said of the disk after a stream was written holds of the program once the stream is closed.
\<close>

section \<open>Nodes\<close>

datatype node = Regular (node_content: string) (node_readable: bool) | Directory (node_readable: bool)

record world =
  fs_nodes :: "(string \<times> node) list"
  fs_creatable :: "string \<Rightarrow> bool"
  fs_room :: "string \<Rightarrow> nat \<Rightarrow> bool"

definition node_at :: "world \<Rightarrow> string \<Rightarrow> node option" where
  "node_at w p = map_of (fs_nodes w) p"

definition put_node :: "string \<Rightarrow> node \<Rightarrow> world \<Rightarrow> world" where
  "put_node p n w = w\<lparr>fs_nodes := AList.update p n (fs_nodes w)\<rparr>"

definition del_node :: "string \<Rightarrow> world \<Rightarrow> world" where
  "del_node p w = w\<lparr>fs_nodes := AList.delete p (fs_nodes w)\<rparr>"

lemma node_at_put [simp]: "node_at (put_node p n w) q = (if q = p then Some n else node_at w q)"
  by (simp add: node_at_def put_node_def update_conv)

lemma node_at_del [simp]: "node_at (del_node p w) q = (if q = p then None else node_at w q)"
  by (simp add: node_at_def del_node_def delete_conv)

lemma put_node_fields [simp]:
  "fs_creatable (put_node p n w) = fs_creatable w" "fs_room (put_node p n w) = fs_room w"
  by (simp_all add: put_node_def)

lemma finite_nodes: "finite {p. node_at w p \<noteq> None}"
  using finite_dom_map_of [of "fs_nodes w"] by (simp add: node_at_def dom_def)

section \<open>Calls of \<open>std::filesystem\<close>\<close>

definition fs_exists :: "world \<Rightarrow> string \<Rightarrow> bool" where
  "fs_exists w p \<longleftrightarrow> node_at w p \<noteq> None"

definition fs_is_regular :: "world \<Rightarrow> string \<Rightarrow> bool" where
  "fs_is_regular w p = (case node_at w p of Some (Regular c r) \<Rightarrow> True | _ \<Rightarrow> False)"

text \<open>\<open>file_size\<close> throws on a missing path and on a directory.\<close>

definition fs_file_size :: "world \<Rightarrow> string \<Rightarrow> int64 res" where
  "fs_file_size w p = (case node_at w p of
       Some (Regular c r) \<Rightarrow> Inr (word_of_nat (length c))
     | _ \<Rightarrow> Inl (Throw Filesystem_error))"

text \<open>\<open>permissions\<close> of a missing path is \<open>perms::unknown\<close>, which has every bit set.\<close>

definition fs_owner_read :: "world \<Rightarrow> string \<Rightarrow> bool" where
  "fs_owner_read w p = (case node_at w p of Some n \<Rightarrow> node_readable n | None \<Rightarrow> True)"

text \<open>\<open>remove\<close> of a directory that is not empty throws.\<close>

definition fs_remove :: "world \<Rightarrow> string \<Rightarrow> (bool \<times> world) res" where
  "fs_remove w p = (case node_at w p of
       None \<Rightarrow> Inr (False, w)
     | Some (Regular c r) \<Rightarrow> Inr (True, del_node p w)
     | Some (Directory r) \<Rightarrow>
         if list_ex (\<lambda>(q, n). take (length p + 1) q = p @ ''/'') (fs_nodes w)
         then Inl (Throw Filesystem_error) else Inr (True, del_node p w))"

text \<open>\<open>copy_file\<close> with \<open>overwrite_existing\<close>; both ends must be regular, and not the same file.\<close>

definition fs_copy_file :: "world \<Rightarrow> string \<Rightarrow> string \<Rightarrow> (bool \<times> world) res" where
  "fs_copy_file w p q = (case node_at w p of
       Some (Regular c r) \<Rightarrow>
         if p = q \<or> \<not> r \<or> \<not> fs_room w q (length c) then Inl (Throw Filesystem_error)
         else (case node_at w q of
             None \<Rightarrow> if fs_creatable w q then Inr (True, put_node q (Regular c r) w)
                     else Inl (Throw Filesystem_error)
           | Some (Regular c' r') \<Rightarrow> Inr (True, put_node q (Regular c r') w)
           | Some (Directory r') \<Rightarrow> Inl (Throw Filesystem_error))
     | _ \<Rightarrow> Inl (Throw Filesystem_error))"

section \<open>Paths\<close>

text \<open>\<open>path::filename\<close>: the text after the last slash.\<close>

definition path_filename :: "string \<Rightarrow> string" where
  "path_filename p = rev (takeWhile (\<lambda>c. c \<noteq> CHR ''/'') (rev p))"

text \<open>
  \<open>path::stem\<close> and \<open>path::extension\<close> split the file name at its last dot, unless the name is a dot,
  two dots, or its only dot is the first character.
\<close>

definition split_ext :: "string \<Rightarrow> string \<times> string" where
  "split_ext f =
     (let e = rev (takeWhile (\<lambda>c. c \<noteq> CHR ''.'') (rev f));
          s = take (length f - length e - 1) f
      in if f = ''.'' \<or> f = ''..'' \<or> length e = length f \<or> s = [] then (f, [])
         else (s, CHR ''.'' # e))"

definition path_stem :: "string \<Rightarrow> string" where
  "path_stem p = fst (split_ext (path_filename p))"

definition path_extension :: "string \<Rightarrow> string" where
  "path_extension p = snd (split_ext (path_filename p))"

lemma takeWhile_rev_split:
  assumes "x \<in> set f"
  obtains p s where "f = p @ x # s" "x \<notin> set s" "rev (takeWhile (\<lambda>c. c \<noteq> x) (rev f)) = s"
proof -
  obtain p s where f: "f = p @ x # s" "x \<notin> set s" using split_list_last [OF assms] by blast
  have "\<forall>c \<in> set (rev s). c \<noteq> x" using f(2) by auto
  then have "takeWhile (\<lambda>c. c \<noteq> x) (rev s @ [x] @ rev p) = rev s" by (subst takeWhile_append2) auto
  then have "takeWhile (\<lambda>c. c \<noteq> x) (rev f) = rev s" using f(1) by simp
  with f that show thesis by simp
qed

lemma takeWhile_rev_none:
  assumes "x \<notin> set f"
  shows "rev (takeWhile (\<lambda>c. c \<noteq> x) (rev f)) = f"
proof -
  have "\<forall>c \<in> set (rev f). c \<noteq> x" using assms by auto
  then have "takeWhile (\<lambda>c. c \<noteq> x) (rev f) = rev f" by (simp only: takeWhile_eq_all_conv)
  then show ?thesis by (simp only: rev_rev_ident)
qed

lemma split_ext_append: "fst (split_ext f) @ snd (split_ext f) = f"
proof (cases "CHR ''.'' \<in> set f")
  case True
  then show ?thesis
    by (rule takeWhile_rev_split) (simp add: split_ext_def Let_def)
next
  case False
  then show ?thesis by (simp add: split_ext_def Let_def takeWhile_rev_none)
qed

lemma path_filename_no_slash: "CHR ''/'' \<notin> set (path_filename p)"
  by (auto simp: path_filename_def dest: set_takeWhileD)

lemma path_filename_id: "CHR ''/'' \<notin> set p \<Longrightarrow> path_filename p = p"
  by (simp add: path_filename_def takeWhile_rev_none)

lemma stem_extension: "path_stem p @ path_extension p = path_filename p"
  by (simp add: path_stem_def path_extension_def split_ext_append)

section \<open>Streams\<close>

text \<open>
  A \<open>fstream\<close> opened for reading, with what is left of its file and its \<open>eof\<close> flag. The open also
  succeeds on a directory (\<open>rs_open\<close> then has no bytes); the size of a directory is asked for next
  and throws.
\<close>

record rstream =
  rs_rest :: string
  rs_eof :: bool

definition rs_open :: "world \<Rightarrow> string \<Rightarrow> rstream option" where
  "rs_open w p = (case node_at w p of
       Some (Regular c True) \<Rightarrow> Some \<lparr>rs_rest = c, rs_eof = False\<rparr>
     | Some (Directory True) \<Rightarrow> Some \<lparr>rs_rest = [], rs_eof = False\<rparr>
     | _ \<Rightarrow> None)"

text \<open>\<open>read(buf, n)\<close>: the bytes read (\<open>gcount\<close> of them) and the stream after it.\<close>

definition rs_read :: "nat \<Rightarrow> rstream \<Rightarrow> string \<times> rstream" where
  "rs_read n s = (take n (rs_rest s), \<lparr>rs_rest = drop n (rs_rest s), rs_eof = length (rs_rest s) < n\<rparr>)"

text \<open>A \<open>fstream\<close> opened with \<open>out\<close>, which truncates or creates its file.\<close>

record wstream =
  ws_path :: string
  ws_pos :: nat
  ws_good :: bool

definition ws_open :: "world \<Rightarrow> string \<Rightarrow> (wstream \<times> world) option" where
  "ws_open w p =
     (if fs_creatable w p then
        (case node_at w p of
           None \<Rightarrow> Some (\<lparr>ws_path = p, ws_pos = 0, ws_good = True\<rparr>, put_node p (Regular [] True) w)
         | Some (Regular c r) \<Rightarrow> Some (\<lparr>ws_path = p, ws_pos = 0, ws_good = True\<rparr>, put_node p (Regular [] r) w)
         | Some (Directory r) \<Rightarrow> None)
      else None)"

text \<open>Bytes written at a position; a gap before it, left by a truncation, holds zeros.\<close>

definition write_at :: "string \<Rightarrow> nat \<Rightarrow> string \<Rightarrow> string" where
  "write_at c pos d = take pos c @ replicate (pos - length c) (CHR 0x00) @ d @ drop (pos + length d) c"

definition ws_write :: "string \<Rightarrow> wstream \<Rightarrow> world \<Rightarrow> wstream \<times> world" where
  "ws_write d s w =
     (if \<not> ws_good s then (s, w)
      else if \<not> fs_room w (ws_path s) (ws_pos s + length d) then (s\<lparr>ws_good := False\<rparr>, w)
      else (s\<lparr>ws_pos := ws_pos s + length d\<rparr>,
            (case node_at w (ws_path s) of
               Some (Regular c r) \<Rightarrow> put_node (ws_path s) (Regular (write_at c (ws_pos s) d) r) w
             | _ \<Rightarrow> w)))"

lemma write_at_end [simp]: "write_at c (length c) d = c @ d"
  by (simp add: write_at_def)

text \<open>A disk for the examples.\<close>

definition demo_disk :: world where
  "demo_disk = \<lparr>fs_nodes = [(''a.txt'', Regular ''hello'' True), (''e'', Regular [] True), (''d'', Directory True)],
     fs_creatable = (\<lambda>p. p \<noteq> []), fs_room = (\<lambda>p n. n \<le> 100)\<rparr>"

end
