(* ===== verification/Files_Transfer.thy ===== *)
theory Files_Transfer
  imports Fs_World
begin

text \<open>
  \<open>files_transfer.h\<close>: the classes \<open>files_info\<close> (questions about paths), \<open>files_io\<close> (tables of the
  files being sent and received, by identifier) and \<open>files_channel\<close> (the identifiers of each
  connection). A class is a record, a derived class extends it. A pointer stored in a table is the
  table's entry. The callbacks of a file are arguments of the operations that call them; a record only
  keeps whether its progress callback is null. They act on the rest of the program, of type \<open>'x\<close>, and
  may read the tables.
\<close>

section \<open>The class \<open>files_info\<close>\<close>

definition is_file :: "world \<Rightarrow> string \<Rightarrow> bool" where
  "is_file w path = fs_is_regular w path"

definition is_exists :: "world \<Rightarrow> string \<Rightarrow> bool" where
  "is_exists w path = fs_exists w path"

definition remove_file :: "world \<Rightarrow> string \<Rightarrow> (bool \<times> world) res" where
  "remove_file w path = fs_remove w path"

definition copy_file :: "world \<Rightarrow> string \<Rightarrow> string \<Rightarrow> (bool \<times> world) res" where
  "copy_file w from_path to = fs_copy_file w from_path to"

definition get_file_size :: "world \<Rightarrow> string \<Rightarrow> int64 res" where
  "get_file_size w path = fs_file_size w path"

definition get_filename_none :: "string \<Rightarrow> string" where
  "get_filename_none path = path_stem path"

definition get_filename :: "string \<Rightarrow> string" where
  "get_filename path = path_filename path"

definition get_suffix :: "string \<Rightarrow> string" where
  "get_suffix path = path_extension path"

definition is_can_read :: "world \<Rightarrow> string \<Rightarrow> bool" where
  "is_can_read w path = fs_owner_read w path"

partial_function (option) make_none_repeat_file :: "world \<Rightarrow> string \<Rightarrow> string \<Rightarrow> string option" where
  "make_none_repeat_file w in_path in_filename =
     (let abs_file = in_path @ ''/'' @ in_filename in
      if is_exists w abs_file then
        (let file_none = get_filename_none in_filename @ ''_'';
             filename = file_none @ get_suffix in_filename
         in make_none_repeat_file w in_path filename)
      else Some in_filename)"

section \<open>The class \<open>files_io\<close>\<close>

record fs_recv =
  recv_prog :: int64
  count_recv :: int64
  recv_length_max :: int64
  recv_filename :: string
  recv_fs :: wstream
  recv_prog_cb :: bool

record fs_send =
  send_prog :: int64
  count_send :: int64
  send_length_max :: int64
  send_filename :: string
  send_fs :: rstream
  send_prog_cb :: bool

record files_io =
  map_recv :: "int64 \<rightharpoonup> fs_recv"
  map_send :: "int64 \<rightharpoonup> fs_send"
  disk :: world

type_synonym ('f, 'x) send_cb = "int64 \<Rightarrow> string \<Rightarrow> 'f \<Rightarrow> 'x \<Rightarrow> bool \<times> 'x"
type_synonym 'x prog_cb = "int64 \<Rightarrow> int64 \<Rightarrow> int64 \<Rightarrow> int64 \<Rightarrow> 'x \<Rightarrow> 'x"

subsection \<open>Sending\<close>

definition open_file_send ::
    "int64 \<Rightarrow> string \<Rightarrow> bool \<Rightarrow> 'a files_io_scheme \<Rightarrow> (bool \<times> 'a files_io_scheme) res" where
  "open_file_send id' filename prog st =
     (if map_send st id' \<noteq> None then Inr (False, st)
      else (case rs_open (disk st) filename of
          None \<Rightarrow> Inr (False, st)
        | Some sp_fs \<Rightarrow>
            rbind (get_file_size (disk st) filename) (\<lambda>len.
            Inr (True, st\<lparr>map_send := (map_send st)(id' \<mapsto>
              \<lparr>send_prog = 0, count_send = 0, send_length_max = len, send_filename = filename,
               send_fs = sp_fs, send_prog_cb = prog\<rparr>)\<rparr>))))"

text \<open>
  \<open>int prog = count * 100 / length\<close>, then widened for the comparison with the stored progress. The
  division by a zero length traps.
\<close>

definition calc_prog :: "int64 \<Rightarrow> int64 \<Rightarrow> int64 res" where
  "calc_prog count len =
     (if len = 0 then Inl (Crash Division_by_zero)
      else Inr (scast (word_of_int (sint (count * 100) sdiv sint len) :: int32)))"

text \<open>The body of the loop after the send callback: the progress callback and its mark.\<close>

definition note_send :: "'x prog_cb \<Rightarrow> int64 \<Rightarrow> fs_send \<Rightarrow> int64 \<Rightarrow> 'x \<Rightarrow> fs_send \<times> 'x" where
  "note_send prog_cb id' sp prog x =
     (if sint (send_prog sp) < sint prog then
        (sp\<lparr>send_prog := prog\<rparr>,
         if send_prog_cb sp then prog_cb id' prog (count_send sp) (send_length_max sp) x else x)
      else (sp, x))"

definition send_step ::
    "('a files_io_scheme, 'x) send_cb \<Rightarrow> 'x prog_cb \<Rightarrow> int64 \<Rightarrow> fs_send \<Rightarrow> 'a files_io_scheme \<Rightarrow> 'x
      \<Rightarrow> (bool \<times> fs_send \<times> 'a files_io_scheme \<times> 'x) res" where
  "send_step send_cb prog_cb id' sp st x =
     (let (buf, sp_fs) = rs_read 1024 (send_fs sp);
          sp1 = sp\<lparr>send_fs := sp_fs, count_send := count_send sp + word_of_nat (length buf)\<rparr>;
          st1 = st\<lparr>map_send := (map_send st)(id' \<mapsto> sp1)\<rparr>;
          (is_send, x1) = send_cb id' buf st1 x
      in rbind (calc_prog (count_send sp1) (send_length_max sp1)) (\<lambda>prog.
         let (sp2, x2) = note_send prog_cb id' sp1 prog x1;
             st2 = st1\<lparr>map_send := (map_send st1)(id' \<mapsto> sp2)\<rparr>
         in Inr (is_send, sp2, st2, x2)))"

lemma note_send_fs [simp]: "send_fs (fst (note_send prog_cb id' sp prog x)) = send_fs sp"
  by (simp add: note_send_def)

lemma send_step_fs:
  "send_step send_cb prog_cb id' sp st x = Inr (is_send, sp2, st2, x2)
    \<Longrightarrow> send_fs sp2 = snd (rs_read 1024 (send_fs sp))"
  by (auto simp: send_step_def Let_def rbind_eq_Inr rs_read_def case_prod_beta)

function send_loop ::
    "('a files_io_scheme, 'x) send_cb \<Rightarrow> 'x prog_cb \<Rightarrow> int64 \<Rightarrow> fs_send \<Rightarrow> 'a files_io_scheme \<Rightarrow> 'x
      \<Rightarrow> (bool \<times> 'a files_io_scheme \<times> 'x) res" where
  "send_loop send_cb prog_cb id' sp st x =
     (if rs_eof (send_fs sp) then Inr (True, st, x)
      else rbind (send_step send_cb prog_cb id' sp st x) (\<lambda>(is_send, sp2, st2, x2).
        if is_send = False then Inr (False, st2, x2)
        else send_loop send_cb prog_cb id' sp2 st2 x2))"
  by pat_completeness auto

termination
  by (relation "measure (\<lambda>(send_cb, prog_cb, id', sp, st, x).
      if rs_eof (send_fs sp) then 0 else Suc (length (rs_rest (send_fs sp))))")
    (auto dest!: send_step_fs [OF sym] send_step_fs simp: rs_read_def)

declare send_loop.simps [simp del]

definition add_data_send ::
    "('a files_io_scheme, 'x) send_cb \<Rightarrow> 'x prog_cb \<Rightarrow> int64 \<Rightarrow> 'a files_io_scheme \<Rightarrow> 'x
      \<Rightarrow> (bool \<times> 'a files_io_scheme \<times> 'x) res" where
  "add_data_send send_cb prog_cb id' st x =
     (case map_send st id' of
        Some sp_send \<Rightarrow> send_loop send_cb prog_cb id' sp_send st x
      | None \<Rightarrow> Inr (True, st, x))"

text \<open>Erasing an absent key leaves a map as it is, as the code's \<open>find\<close> does.\<close>

definition close_file_send :: "int64 \<Rightarrow> 'a files_io_scheme \<Rightarrow> 'a files_io_scheme" where
  "close_file_send id' st = (case map_send st id' of
       Some sp_send \<Rightarrow> st\<lparr>map_send := (map_send st)(id' := None)\<rparr>
     | None \<Rightarrow> st)"

subsection \<open>Receiving\<close>

definition open_file_recv ::
    "int64 \<Rightarrow> int64 \<Rightarrow> string \<Rightarrow> bool \<Rightarrow> 'a files_io_scheme \<Rightarrow> bool \<times> 'a files_io_scheme" where
  "open_file_recv id' length_max filename prog st =
     (if map_recv st id' \<noteq> None then (False, st)
      else (case ws_open (disk st) filename of
          None \<Rightarrow> (False, st)
        | Some (sp_fs, w) \<Rightarrow>
            (True, st\<lparr>disk := w, map_recv := (map_recv st)(id' \<mapsto>
              \<lparr>recv_prog = 0, count_recv = 0, recv_length_max = length_max, recv_filename = filename,
               recv_fs = sp_fs, recv_prog_cb = prog\<rparr>)\<rparr>)))"

definition note_recv :: "'x prog_cb \<Rightarrow> int64 \<Rightarrow> fs_recv \<Rightarrow> int64 \<Rightarrow> 'x \<Rightarrow> fs_recv \<times> 'x" where
  "note_recv prog_cb id' sp prog x =
     (if sint (recv_prog sp) < sint prog then
        (sp\<lparr>recv_prog := prog\<rparr>,
         if recv_prog_cb sp then prog_cb id' prog (count_recv sp) (recv_length_max sp) x else x)
      else (sp, x))"

definition add_data_recv ::
    "'x prog_cb \<Rightarrow> int64 \<Rightarrow> string \<Rightarrow> 'a files_io_scheme \<Rightarrow> 'x \<Rightarrow> (bool \<times> 'a files_io_scheme \<times> 'x) res" where
  "add_data_recv prog_cb id' data st x =
     (case map_recv st id' of
        Some sp_recv \<Rightarrow>
          (let (sp_fs, w) = ws_write data (recv_fs sp_recv) (disk st);
               ok = ws_good sp_fs;
               sp1 = sp_recv\<lparr>recv_fs := sp_fs,
                 count_recv := (if ok then count_recv sp_recv + word_of_nat (length data)
                                else count_recv sp_recv)\<rparr>
           in rbind (calc_prog (count_recv sp1) (recv_length_max sp1)) (\<lambda>prog.
              let (sp2, x2) = note_recv prog_cb id' sp1 prog x
              in Inr (ok, st\<lparr>disk := w, map_recv := (map_recv st)(id' \<mapsto> sp2)\<rparr>, x2)))
      | None \<Rightarrow> Inr (False, st, x))"

definition close_file_recv :: "int64 \<Rightarrow> 'a files_io_scheme \<Rightarrow> 'a files_io_scheme" where
  "close_file_recv id' st = (case map_recv st id' of
       Some sp_recv \<Rightarrow> st\<lparr>map_recv := (map_recv st)(id' := None)\<rparr>
     | None \<Rightarrow> st)"

subsection \<open>Questions\<close>

definition find_fs_recv :: "int64 \<Rightarrow> 'a files_io_scheme \<Rightarrow> fs_recv option" where
  "find_fs_recv id' st = map_recv st id'"

definition find_fs_send :: "int64 \<Rightarrow> 'a files_io_scheme \<Rightarrow> fs_send option" where
  "find_fs_send id' st = map_send st id'"

text \<open>The two reference parameters are returned, unchanged when the file is not there.\<close>

definition check_length_recv :: "int64 \<Rightarrow> int64 \<Rightarrow> int64 \<Rightarrow> 'a files_io_scheme \<Rightarrow> bool \<times> int64 \<times> int64" where
  "check_length_recv id' count len st = (case find_fs_recv id' st of
       Some it \<Rightarrow> (count_recv it = recv_length_max it, count_recv it, recv_length_max it)
     | None \<Rightarrow> (False, count, len))"

definition check_length_send :: "int64 \<Rightarrow> int64 \<Rightarrow> int64 \<Rightarrow> 'a files_io_scheme \<Rightarrow> bool \<times> int64 \<times> int64" where
  "check_length_send id' count len st = (case find_fs_send id' st of
       Some it \<Rightarrow> (count_send it = send_length_max it, count_send it, send_length_max it)
     | None \<Rightarrow> (False, count, len))"

section \<open>A name that is not taken\<close>

lemma get_suffix_no_slash: "CHR ''/'' \<notin> set (get_filename_none p @ get_suffix p)"
  by (simp add: get_filename_none_def get_suffix_def stem_extension path_filename_no_slash
      del: set_append)

definition next_name :: "string \<Rightarrow> string" where
  "next_name f = (get_filename_none f @ ''_'') @ get_suffix f"

lemma next_name_no_slash: "CHR ''/'' \<notin> set (next_name f)"
  using get_suffix_no_slash [of f] by (auto simp: next_name_def)

lemma length_next_name: "CHR ''/'' \<notin> set f \<Longrightarrow> length (next_name f) = Suc (length f)"
proof -
  assume "CHR ''/'' \<notin> set f"
  then have "get_filename_none f @ get_suffix f = f"
    by (simp add: get_filename_none_def get_suffix_def stem_extension path_filename_id)
  then have "length (get_filename_none f) + length (get_suffix f) = length f"
    by (metis length_append)
  then show ?thesis by (simp add: next_name_def)
qed

lemma finite_taken: "finite {f. is_exists w (p @ ''/'' @ f)}"
proof -
  have "{f. is_exists w (p @ ''/'' @ f)} = (\<lambda>f. p @ ''/'' @ f) -` {q. node_at w q \<noteq> None}"
    by (auto simp: is_exists_def fs_exists_def)
  moreover have "inj (\<lambda>f. p @ ''/'' @ f)" by (simp add: inj_def)
  ultimately show ?thesis using finite_vimageI [OF finite_nodes] by metis
qed

lemma make_none_repeat_plain:
  assumes m: "\<And>f. is_exists w (p @ ''/'' @ f) \<Longrightarrow> length f < m"
  shows "CHR ''/'' \<notin> set f \<Longrightarrow> \<exists>g. make_none_repeat_file w p f = Some g \<and> \<not> is_exists w (p @ ''/'' @ g)"
proof (induction "m - length f" arbitrary: f rule: less_induct)
  case less
  show ?case
  proof (cases "is_exists w (p @ ''/'' @ f)")
    case False
    then show ?thesis by (subst make_none_repeat_file.simps) simp
  next
    case True
    have "m - length (next_name f) < m - length f"
      using m [OF True] length_next_name [OF less.prems] by simp
    with less.hyps next_name_no_slash obtain g where
      "make_none_repeat_file w p (next_name f) = Some g" "\<not> is_exists w (p @ ''/'' @ g)"
      by blast
    with True show ?thesis
      by (subst make_none_repeat_file.simps) (simp add: next_name_def)
  qed
qed

text \<open>
  C34: \<open>make_none_repeat_file\<close> always returns, in every file system, with a name that is not taken in
  the directory.
\<close>

theorem make_none_repeat_file_fresh:
  "\<exists>f. make_none_repeat_file w in_path in_filename = Some f \<and> is_exists w (in_path @ ''/'' @ f) = False"
proof -
  obtain m where "\<forall>f \<in> {f. is_exists w (in_path @ ''/'' @ f)}. length f < m"
    using finite_taken [of w in_path] finite_nat_set_iff_bounded [of "length ` {f. is_exists w (in_path @ ''/'' @ f)}"]
    by auto
  then have m: "is_exists w (in_path @ ''/'' @ f) \<Longrightarrow> length f < m" for f by auto
  show ?thesis
  proof (cases "is_exists w (in_path @ ''/'' @ in_filename)")
    case False
    then show ?thesis by (subst make_none_repeat_file.simps) simp
  next
    case True
    obtain g where "make_none_repeat_file w in_path (next_name in_filename) = Some g"
        "\<not> is_exists w (in_path @ ''/'' @ g)"
      using make_none_repeat_plain [OF m next_name_no_slash] by blast
    with True show ?thesis
      by (subst make_none_repeat_file.simps) (simp add: next_name_def)
  qed
qed

section \<open>The progress percentage\<close>

lemma calc_prog_value:
  assumes "0 \<le> sint count" "sint count \<le> sint len" "0 < sint len" "sint len < 2 ^ 56"
  obtains p where "calc_prog count len = Inr p" "sint p = sint count * 100 div sint len" "0 \<le> sint p" "sint p \<le> 100"
proof -
  let ?q = "sint count * 100 div sint len"
  have c: "sint (count * 100) = sint count * 100"
    using assms by (simp add: sint_word_ariths signed_take_bit_int_eq_self_iff)
  have d: "(sint count * 100) sdiv sint len = ?q"
    using assms by (auto simp: signed_divide_int_def sgn_if)
  have "?q \<le> sint len * 100 div sint len"
    using assms by (intro zdiv_mono1) simp_all
  with assms have le: "0 \<le> ?q" "?q \<le> 100"
    by (simp_all add: pos_imp_zdiv_nonneg_iff)
  have "sint (word_of_int ?q :: int32) = ?q"
    using le by (simp add: sint_word_of_int32)
  moreover have "len \<noteq> 0" using assms(3) by auto
  ultimately show thesis
    using that [of "scast (word_of_int ?q :: int32)"] le by (simp add: calc_prog_def c d)
qed
end
