(* ===== verification/Transfer_Laws.thy ===== *)
theory Transfer_Laws
  imports Files_Transfer
begin

text \<open>
  What \<open>files_io\<close> guarantees of a transfer: a file that is sent is handed to the send callback in
  blocks of 1024 bytes, each byte once and in order, however often the callback interrupts; a file
  that is received holds the concatenation of the data it was given.
\<close>

section \<open>Blocks\<close>

text \<open>The blocks a loop of \<open>read(buf, 1024)\<close> until \<open>eof\<close> sees; the last one may be empty.\<close>

function blocks :: "string \<Rightarrow> string list" where
  "blocks s = (if length s < 1024 then [s] else take 1024 s # blocks (drop 1024 s))"
  by pat_completeness auto

termination by (relation "measure length") auto

declare blocks.simps [simp del]

lemma blocks_short: "length s < 1024 \<Longrightarrow> blocks s = [s]"
  by (simp add: blocks.simps)

lemma blocks_long: "1024 \<le> length s \<Longrightarrow> blocks s = take 1024 s # blocks (drop 1024 s)"
  by (subst blocks.simps) simp

lemma blocks_not_Nil [simp]: "blocks s \<noteq> []"
  by (subst blocks.simps) simp

lemma concat_blocks [simp]: "concat (blocks s) = s"
proof (induction s rule: blocks.induct)
  case (1 s)
  then show ?case by (cases "length s < 1024") (simp_all add: blocks_short blocks_long)
qed

lemma length_blocks: "length (blocks s) = length s div 1024 + 1"
proof (induction s rule: blocks.induct)
  case (1 s)
  show ?case
  proof (cases "length s < 1024")
    case False
    then have "length s div 1024 = Suc ((length s - 1024) div 1024)" by (simp add: le_div_geq)
    with False 1 show ?thesis by (simp add: blocks_long)
  qed (simp add: blocks_short)
qed

section \<open>Sending with an observer\<close>

text \<open>What is still to be read from a stream: its blocks until \<open>eof\<close>.\<close>

definition left :: "rstream \<Rightarrow> string list" where
  "left s = (if rs_eof s then [] else blocks (rs_rest s))"

lemma left_read: "\<not> rs_eof s \<Longrightarrow> left s = fst (rs_read 1024 s) # left (snd (rs_read 1024 s))"
  by (auto simp: left_def rs_read_def blocks_short blocks_long)

lemma calc_prog_defined: "len \<noteq> 0 \<Longrightarrow> \<exists>p. calc_prog n len = Inr p"
  by (simp add: calc_prog_def)

text \<open>\<open>add_data_send\<close> called again each time it was interrupted, \<open>n\<close> times at most.\<close>

fun send_session ::
    "('a files_io_scheme, 'x) send_cb \<Rightarrow> 'x prog_cb \<Rightarrow> int64 \<Rightarrow> nat \<Rightarrow> 'a files_io_scheme \<Rightarrow> 'x
      \<Rightarrow> (bool \<times> 'a files_io_scheme \<times> 'x) res" where
  "send_session send_cb prog_cb i 0 st x = Inr (False, st, x)"
| "send_session send_cb prog_cb i (Suc n) st x =
     rbind (add_data_send send_cb prog_cb i st x) (\<lambda>(ok, st', x').
       if ok then Inr (True, st', x') else send_session send_cb prog_cb i n st' x')"

text \<open>
  The interface of the callbacks of a file: \<open>obs\<close> is what the send callback was given so far, as the
  rest of the program shows it; the progress callback does not change it.
\<close>

locale send_observer =
  fixes send_cb :: "('a files_io_scheme, 'x) send_cb" and prog_cb :: "'x prog_cb" and i :: int64
    and obs :: "'x \<Rightarrow> string list"
  assumes cb_obs: "obs (snd (send_cb i buf st x)) = obs x @ [buf]"
    and prog_obs: "obs (prog_cb i p n len x) = obs x"
begin

lemma note_send_shape:
  "note_send prog_cb i sp p x = (sp', x')
    \<Longrightarrow> obs x' = obs x \<and> send_fs sp' = send_fs sp \<and> count_send sp' = count_send sp
       \<and> send_length_max sp' = send_length_max sp"
  by (auto simp: note_send_def prog_obs split: if_splits)

text \<open>One pass of the loop: it hands out the first of the blocks that are left.\<close>

lemma send_step_observed:
  assumes "\<not> rs_eof (send_fs sp)" "send_length_max sp \<noteq> 0"
  obtains b sp' x' where
    "send_step send_cb prog_cb i sp st x = Inr (b, sp', st\<lparr>map_send := (map_send st)(i \<mapsto> sp')\<rparr>, x')"
    "obs x' = obs x @ [hd (left (send_fs sp))]"
    "left (send_fs sp') = tl (left (send_fs sp))"
    "send_length_max sp' = send_length_max sp"
    "count_send sp' = count_send sp + word_of_nat (length (hd (left (send_fs sp))))"
proof -
  obtain buf s' where r: "rs_read 1024 (send_fs sp) = (buf, s')" by (rule prod.exhaust)
  let ?sp1 = "sp\<lparr>send_fs := s', count_send := count_send sp + word_of_nat (length buf)\<rparr>"
  let ?st1 = "st\<lparr>map_send := (map_send st)(i \<mapsto> ?sp1)\<rparr>"
  obtain b x1 where cb: "send_cb i buf ?st1 x = (b, x1)" by (rule prod.exhaust)
  then have x1: "obs x1 = obs x @ [buf]" using cb_obs [of buf ?st1 x] by simp
  obtain p where p: "calc_prog (count_send ?sp1) (send_length_max ?sp1) = Inr p"
    using calc_prog_defined [of "send_length_max ?sp1"] assms(2) by auto
  obtain sp2 x2 where n: "note_send prog_cb i ?sp1 p x1 = (sp2, x2)" by (rule prod.exhaust)
  have x2: "obs x2 = obs x @ [buf]" "send_fs sp2 = s'" "send_length_max sp2 = send_length_max sp"
      "count_send sp2 = count_send sp + word_of_nat (length buf)"
    using note_send_shape [OF n] x1 by auto
  have l: "left (send_fs sp) = buf # left s'" using left_read [OF assms(1)] r by simp
  have "send_step send_cb prog_cb i sp st x
      = Inr (b, sp2, st\<lparr>map_send := (map_send st)(i \<mapsto> sp2)\<rparr>, x2)"
    using r cb p n by (simp add: send_step_def)
  with that l x2 show thesis by simp
qed

text \<open>
  A call of \<open>add_data_send\<close>: it returns, having handed out the next blocks and only those, at least one
  when any is left, all of them when it returns true.
\<close>

lemma send_loop_observed:
  assumes "map_send st i = Some sp" "send_length_max sp \<noteq> 0"
  shows "\<exists>r k sp' x'. send_loop send_cb prog_cb i sp st x
      = Inr (r, st\<lparr>map_send := (map_send st)(i \<mapsto> sp')\<rparr>, x')
    \<and> obs x' = obs x @ take k (left (send_fs sp))
    \<and> left (send_fs sp') = drop k (left (send_fs sp)) \<and> k \<le> length (left (send_fs sp))
    \<and> (if left (send_fs sp) = [] then r else 0 < k) \<and> (r \<longrightarrow> k = length (left (send_fs sp)))
    \<and> send_length_max sp' = send_length_max sp
    \<and> count_send sp' = count_send sp + word_of_nat (length (concat (take k (left (send_fs sp)))))"
  using assms
proof (induction "length (left (send_fs sp))" arbitrary: sp st x rule: less_induct)
  case less
  show ?case
  proof (cases "rs_eof (send_fs sp)")
    case True
    then have "left (send_fs sp) = []" by (simp add: left_def)
    moreover have "st\<lparr>map_send := (map_send st)(i \<mapsto> sp)\<rparr> = st"
      using less.prems(1) by (simp add: fun_upd_idem)
    ultimately show ?thesis
      using True by (intro exI [of _ True] exI [of _ 0] exI [of _ sp] exI [of _ x])
        (simp add: send_loop.simps)
  next
    case False
    obtain h t where L: "left (send_fs sp) = h # t" using left_read [OF False] by simp
    obtain b sp' x' where s: "send_step send_cb prog_cb i sp st x
         = Inr (b, sp', st\<lparr>map_send := (map_send st)(i \<mapsto> sp')\<rparr>, x')"
      and x': "obs x' = obs x @ [h]"
      and sp': "left (send_fs sp') = t" "send_length_max sp' = send_length_max sp"
        "count_send sp' = count_send sp + word_of_nat (length h)"
      using send_step_observed [OF False less.prems(2), of st x] L by auto
    let ?st' = "st\<lparr>map_send := (map_send st)(i \<mapsto> sp')\<rparr>"
    show ?thesis
    proof (cases b)
      case False
      then have "send_loop send_cb prog_cb i sp st x = Inr (False, ?st', x')"
        using s \<open>\<not> rs_eof (send_fs sp)\<close> by (simp add: send_loop.simps)
      then show ?thesis using sp' x' L
        by (intro exI [of _ False] exI [of _ 1] exI [of _ sp'] exI [of _ x']) simp
    next
      case True
      have lt: "length (left (send_fs sp')) < length (left (send_fs sp))" using sp'(1) L by simp
      have "map_send ?st' i = Some sp'" "send_length_max sp' \<noteq> 0" using less.prems sp' by simp_all
      from less.hyps [OF lt this, of x']
      obtain r k sp2 x2 where k: "send_loop send_cb prog_cb i sp' ?st' x'
          = Inr (r, st\<lparr>map_send := (map_send st)(i \<mapsto> sp2)\<rparr>, x2)"
        "obs x2 = obs x' @ take k t"
        "left (send_fs sp2) = drop k t" "k \<le> length t" "r \<longrightarrow> k = length t"
        "send_length_max sp2 = send_length_max sp'"
        "count_send sp2 = count_send sp' + word_of_nat (length (concat (take k t)))"
        unfolding sp'(1) by auto
      have "send_loop send_cb prog_cb i sp st x
          = Inr (r, st\<lparr>map_send := (map_send st)(i \<mapsto> sp2)\<rparr>, x2)"
        using s k(1) True \<open>\<not> rs_eof (send_fs sp)\<close> by (simp add: send_loop.simps [of _ _ _ sp])
      then show ?thesis using k(2-) sp' x' L
        by (intro exI [of _ r] exI [of _ "Suc k"] exI [of _ sp2] exI [of _ x2]) (simp add: add.assoc)
    qed
  qed
qed

lemma send_session_done:
  assumes "map_send st i = Some sp" "send_length_max sp \<noteq> 0" "length (left (send_fs sp)) < n"
  shows "\<exists>sp' x'. send_session send_cb prog_cb i n st x
      = Inr (True, st\<lparr>map_send := (map_send st)(i \<mapsto> sp')\<rparr>, x')
    \<and> obs x' = obs x @ left (send_fs sp)
    \<and> left (send_fs sp') = []
    \<and> count_send sp' = count_send sp + word_of_nat (length (concat (left (send_fs sp))))"
  using assms
proof (induction n arbitrary: st sp x)
  case (Suc n)
  let ?L = "left (send_fs sp)"
  obtain r k sp1 x1 where k: "send_loop send_cb prog_cb i sp st x
      = Inr (r, st\<lparr>map_send := (map_send st)(i \<mapsto> sp1)\<rparr>, x1)"
    and x1: "obs x1 = obs x @ take k ?L"
    and L: "left (send_fs sp1) = drop k ?L" "k \<le> length ?L" "if ?L = [] then r else 0 < k"
      "r \<longrightarrow> k = length ?L"
    and m: "send_length_max sp1 = send_length_max sp"
      "count_send sp1 = count_send sp + word_of_nat (length (concat (take k ?L)))"
    using send_loop_observed [OF Suc.prems(1,2), of x] by blast
  let ?st1 = "st\<lparr>map_send := (map_send st)(i \<mapsto> sp1)\<rparr>"
  have add: "add_data_send send_cb prog_cb i st x = Inr (r, ?st1, x1)"
    using k Suc.prems(1) by (simp add: add_data_send_def)
  show ?case
  proof (cases r)
    case True
    with add L m x1 show ?thesis by (intro exI [of _ sp1] exI [of _ x1]) (simp add: fun_upd_def)
  next
    case False
    with L have "0 < k" by (auto split: if_splits)
    then have "length (left (send_fs sp1)) < n" using L(1,2) Suc.prems(3) by simp
    have "map_send ?st1 i = Some sp1" "send_length_max sp1 \<noteq> 0" using Suc.prems(2) m(1) by simp_all
    note IH = Suc.IH [OF this \<open>length (left (send_fs sp1)) < n\<close>, of x1]
    obtain sp' x' where s: "send_session send_cb prog_cb i n ?st1 x1
        = Inr (True, ?st1\<lparr>map_send := (map_send ?st1)(i \<mapsto> sp')\<rparr>, x')"
      "obs x' = obs x1 @ left (send_fs sp1)"
      "left (send_fs sp') = []"
      "count_send sp' = count_send sp1 + word_of_nat (length (concat (left (send_fs sp1))))"
      using IH by blast
    have "concat ?L = concat (take k ?L) @ concat (drop k ?L)"
      by (metis append_take_drop_id concat_append)
    then have c: "count_send sp' = count_send sp + word_of_nat (length (concat ?L))"
      using s(4) m(2) L(1) by simp
    have "?st1\<lparr>map_send := (map_send ?st1)(i \<mapsto> sp')\<rparr> = st\<lparr>map_send := (map_send st)(i \<mapsto> sp')\<rparr>"
      by simp
    moreover have "obs x' = obs x @ ?L" by (simp add: L(1) s(2) x1)
    ultimately show ?thesis using add False s(1,3) c
      by (intro exI [of _ sp'] exI [of _ x']) (simp add: fun_upd_def)
  qed
qed simp

end

section \<open>A whole transfer out\<close>

text \<open>Callbacks that also record what the send callback was given.\<close>

definition logged :: "('f, 'x) send_cb \<Rightarrow> ('f, string list \<times> 'x) send_cb" where
  "logged send_cb = (\<lambda>i buf st (log, x). let (b, x') = send_cb i buf st x in (b, log @ [buf], x'))"

definition unlogged :: "'x prog_cb \<Rightarrow> (string list \<times> 'x) prog_cb" where
  "unlogged prog_cb = (\<lambda>i p n len (log, x). (log, prog_cb i p n len x))"

interpretation logs: send_observer "logged send_cb" "unlogged prog_cb" i fst for send_cb prog_cb i
  by unfold_locales (auto simp: logged_def unlogged_def split: prod.splits)

lemma open_file_send_ok:
  assumes "node_at (disk st) f = Some (Regular c True)" "map_send st i = None"
  obtains sp where "open_file_send i f pr st = Inr (True, st\<lparr>map_send := (map_send st)(i \<mapsto> sp)\<rparr>)"
    "send_fs sp = \<lparr>rs_rest = c, rs_eof = False\<rparr>" "send_length_max sp = word_of_nat (length c)"
    "count_send sp = 0" "send_prog sp = 0"
  using assms by (simp add: open_file_send_def rs_open_def get_file_size_def fs_file_size_def)

lemma word_of_nat_nonzero: "c \<noteq> [] \<Longrightarrow> length c < 2 ^ 63 \<Longrightarrow> (word_of_nat (length c) :: int64) \<noteq> 0"
  using sint_word_of_nat64 [of "length c"] by auto

text \<open>
  C23: a file that is opened for sending and resumed after every interruption is handed out completely,
  in blocks of 1024 bytes, each exactly once and in order, whatever the send callback answers and does;
  \<open>length div 1024 + 2\<close> calls are enough.
\<close>

theorem send_whole_file:
  assumes "node_at (disk st) f = Some (Regular c True)" "map_send st i = None"
    and "c \<noteq> []" "length c < 2 ^ 63" "length c div 1024 + 2 \<le> n"
  shows "\<exists>st1 st2 sp x'. open_file_send i f pr st = Inr (True, st1)
    \<and> send_session (logged send_cb) (unlogged prog_cb) i n st1 ([], x) = Inr (True, st2, (blocks c, x'))
    \<and> concat (blocks c) = c \<and> map_send st2 i = Some sp \<and> count_send sp = word_of_nat (length c)"
proof -
  obtain sp where sp: "open_file_send i f pr st = Inr (True, st\<lparr>map_send := (map_send st)(i \<mapsto> sp)\<rparr>)"
    "send_fs sp = \<lparr>rs_rest = c, rs_eof = False\<rparr>" "send_length_max sp = word_of_nat (length c)"
    "count_send sp = 0"
    by (rule open_file_send_ok [OF assms(1,2)])
  have z: "send_length_max sp \<noteq> 0" using word_of_nat_nonzero assms(3,4) sp(3) by simp
  have l: "left (send_fs sp) = blocks c" by (simp add: sp(2) left_def)
  have n: "length (left (send_fs sp)) < n" using assms(5) by (simp add: l length_blocks)
  let ?st1 = "st\<lparr>map_send := (map_send st)(i \<mapsto> sp)\<rparr>"
  have st1: "map_send ?st1 i = Some sp" by simp
  obtain sp' lx where
    "send_session (logged send_cb) (unlogged prog_cb) i n ?st1 ([], x)
       = Inr (True, ?st1\<lparr>map_send := (map_send ?st1)(i \<mapsto> sp')\<rparr>, lx)"
    "fst lx = fst ([], x) @ left (send_fs sp)"
    "count_send sp' = count_send sp + word_of_nat (length (concat (left (send_fs sp))))"
    using logs.send_session_done [OF st1 z n, of send_cb prog_cb "([], x)"] by blast
  moreover obtain x' where "lx = (fst lx, x')" by (cases lx) auto
  ultimately show ?thesis using sp(1,4) unfolding l
    by (intro exI [of _ ?st1] exI [of _ "?st1\<lparr>map_send := (map_send ?st1)(i \<mapsto> sp')\<rparr>"] exI [of _ sp'] exI [of _ x'])
      simp
qed

definition demo_files :: files_io where
  "demo_files = \<lparr>map_recv = Map.empty, map_send = Map.empty, disk = demo_disk\<rparr>"

lemma demo_simps [simp]:
  "map_send demo_files = Map.empty" "map_recv demo_files = Map.empty" "disk demo_files = demo_disk"
  "node_at demo_disk ''a.txt'' = Some (Regular ''hello'' True)" "node_at demo_disk ''e'' = Some (Regular [] True)"
  "node_at demo_disk ''b.txt'' = None"
  by (simp_all add: demo_files_def demo_disk_def node_at_def)

theorem send_whole_file_witness:
  "\<exists>st1 st2 sp x'. open_file_send 7 ''a.txt'' True demo_files = Inr (True, st1)
    \<and> send_session (logged (\<lambda>i d s x. (x, \<not> x))) (unlogged (\<lambda>i p n m x. x)) 7 2 st1 ([], False)
        = Inr (True, st2, (blocks ''hello'', x'))
    \<and> concat (blocks ''hello'') = ''hello'' \<and> map_send st2 7 = Some sp \<and> count_send sp = word_of_nat (length ''hello'')"
  by (rule send_whole_file) simp_all

text \<open>
  Sending an empty file divides by its length: the first \<open>add_data_send\<close> traps, after it has
  called the send callback with no data.
\<close>

theorem send_empty_file_traps:
  assumes "node_at (disk st) f = Some (Regular [] True)" "map_send st i = None"
  shows "rbind (open_file_send i f pr st) (\<lambda>(ok, st1). add_data_send send_cb prog_cb i st1 x)
    = Inl (Crash Division_by_zero)"
proof -
  obtain sp where sp: "open_file_send i f pr st = Inr (True, st\<lparr>map_send := (map_send st)(i \<mapsto> sp)\<rparr>)"
    "send_fs sp = \<lparr>rs_rest = [], rs_eof = False\<rparr>" "send_length_max sp = word_of_nat 0"
    using open_file_send_ok [OF assms] by (metis list.size(3))
  then show ?thesis
    by (simp add: add_data_send_def send_loop.simps send_step_def rs_read_def calc_prog_def
        split: prod.splits)
qed

theorem send_empty_file_traps_witness:
  "rbind (open_file_send 7 ''e'' True demo_files)
      (\<lambda>(ok, st1). add_data_send (\<lambda>i d s x. (True, x)) (\<lambda>i p n m x. x) 7 st1 ())
    = Inl (Crash Division_by_zero)"
  by (rule send_empty_file_traps) simp_all

section \<open>A whole transfer in\<close>

text \<open>The data of a file given to \<open>add_data_recv\<close> one after the other; whether every part was stored.\<close>

fun recv_all ::
    "'x prog_cb \<Rightarrow> int64 \<Rightarrow> string list \<Rightarrow> 'a files_io_scheme \<Rightarrow> 'x \<Rightarrow> (bool \<times> 'a files_io_scheme \<times> 'x) res" where
  "recv_all prog_cb i [] st x = Inr (True, st, x)"
| "recv_all prog_cb i (d # ds) st x =
     rbind (add_data_recv prog_cb i d st x) (\<lambda>(ok, st', x').
     rbind (recv_all prog_cb i ds st' x') (\<lambda>(oks, st'', x'').
     Inr (ok \<and> oks, st'', x'')))"

lemma note_recv_shape:
  "note_recv prog_cb i sp p x = (sp', x')
    \<Longrightarrow> recv_fs sp' = recv_fs sp \<and> count_recv sp' = count_recv sp \<and> recv_length_max sp' = recv_length_max sp"
  by (auto simp: note_recv_def split: if_splits)

lemma add_data_recv_good:
  assumes sp: "map_recv st i = Some sp" "recv_length_max sp \<noteq> 0"
    and s: "recv_fs sp = \<lparr>ws_path = f, ws_pos = length c, ws_good = True\<rparr>"
    and w: "node_at (disk st) f = Some (Regular c r)" "fs_room (disk st) f (length c + length d)"
  obtains st' sp' x' where "add_data_recv prog_cb i d st x = Inr (True, st', x')"
    "map_recv st' i = Some sp'" "recv_length_max sp' = recv_length_max sp"
    "recv_fs sp' = \<lparr>ws_path = f, ws_pos = length (c @ d), ws_good = True\<rparr>"
    "count_recv sp' = count_recv sp + word_of_nat (length d)"
    "node_at (disk st') f = Some (Regular (c @ d) r)" "fs_room (disk st') = fs_room (disk st)"
proof -
  let ?s' = "\<lparr>ws_path = f, ws_pos = length c + length d, ws_good = True\<rparr>"
  let ?w = "put_node f (Regular (c @ d) r) (disk st)"
  have wr: "ws_write d (recv_fs sp) (disk st) = (?s', ?w)"
    using s w by (simp add: ws_write_def)
  let ?sp1 = "sp\<lparr>recv_fs := ?s', count_recv := count_recv sp + word_of_nat (length d)\<rparr>"
  obtain p where p: "calc_prog (count_recv ?sp1) (recv_length_max ?sp1) = Inr p"
    using calc_prog_defined [of "recv_length_max ?sp1"] sp(2) by auto
  obtain sp2 x2 where n: "note_recv prog_cb i ?sp1 p x = (sp2, x2)" by (rule prod.exhaust)
  have "add_data_recv prog_cb i d st x
      = Inr (True, st\<lparr>disk := ?w, map_recv := (map_recv st)(i \<mapsto> sp2)\<rparr>, x2)"
    using sp(1) wr p n by (simp add: add_data_recv_def)
  with that note_recv_shape [OF n] show thesis by simp
qed

lemma recv_all_good:
  assumes "map_recv st i = Some sp" "recv_length_max sp \<noteq> 0"
    and "recv_fs sp = \<lparr>ws_path = f, ws_pos = length c, ws_good = True\<rparr>"
    and "node_at (disk st) f = Some (Regular c r)"
    and "\<And>n. n \<le> length c + length (concat ds) \<Longrightarrow> fs_room (disk st) f n"
  shows "\<exists>st' sp' x'. recv_all prog_cb i ds st x = Inr (True, st', x')
    \<and> map_recv st' i = Some sp' \<and> recv_length_max sp' = recv_length_max sp
    \<and> count_recv sp' = count_recv sp + word_of_nat (length (concat ds))
    \<and> node_at (disk st') f = Some (Regular (c @ concat ds) r)"
  using assms
proof (induction ds arbitrary: st sp c x)
  case (Cons d ds)
  have "fs_room (disk st) f (length c + length d)" using Cons.prems(5) by simp
  with Cons.prems obtain st1 sp1 x1 where a: "add_data_recv prog_cb i d st x = Inr (True, st1, x1)"
    and b: "map_recv st1 i = Some sp1" "recv_length_max sp1 = recv_length_max sp"
      "recv_fs sp1 = \<lparr>ws_path = f, ws_pos = length (c @ d), ws_good = True\<rparr>"
      "count_recv sp1 = count_recv sp + word_of_nat (length d)"
      "node_at (disk st1) f = Some (Regular (c @ d) r)" "fs_room (disk st1) = fs_room (disk st)"
    using add_data_recv_good [of st i sp f c r d prog_cb x] by blast
  have "recv_length_max sp1 \<noteq> 0" using b(2) Cons.prems(2) by simp
  moreover have "fs_room (disk st1) f n" if "n \<le> length (c @ d) + length (concat ds)" for n
    using Cons.prems(5) [of n] that b(6) by simp
  ultimately obtain st' sp' x' where "recv_all prog_cb i ds st1 x1 = Inr (True, st', x')"
      "map_recv st' i = Some sp'" "recv_length_max sp' = recv_length_max sp1"
      "count_recv sp' = count_recv sp1 + word_of_nat (length (concat ds))"
      "node_at (disk st') f = Some (Regular ((c @ d) @ concat ds) r)"
    using Cons.IH [OF b(1) _ b(3,5)] by blast
  with a b show ?case by (intro exI [of _ st'] exI [of _ sp'] exI [of _ x']) simp
qed simp

text \<open>
  C24: a file opened for receiving and given its data in any number of parts ends up as the
  concatenation of the parts, as long as the disk has room; it is reported complete exactly when as
  many bytes came in as were announced.
\<close>

theorem recv_whole_file:
  assumes "open_file_recv i len f pr st = (True, st1)" "len \<noteq> 0"
    and "\<And>n. n \<le> length (concat ds) \<Longrightarrow> fs_room (disk st) f n"
  shows "\<exists>st2 x' r. recv_all prog_cb i ds st1 x = Inr (True, st2, x')
    \<and> node_at (disk st2) f = Some (Regular (concat ds) r)
    \<and> check_length_recv i 0 0 st2 = (word_of_nat (length (concat ds)) = len, word_of_nat (length (concat ds)), len)"
proof -
  obtain s w where w: "ws_open (disk st) f = Some (s, w)"
    and st1: "st1 = st\<lparr>disk := w, map_recv := (map_recv st)(i \<mapsto>
              \<lparr>recv_prog = 0, count_recv = 0, recv_length_max = len, recv_filename = f,
               recv_fs = s, recv_prog_cb = pr\<rparr>)\<rparr>"
    using assms(1) by (auto simp: open_file_recv_def split: if_splits option.splits)
  obtain r where r: "node_at w f = Some (Regular [] r)" "s = \<lparr>ws_path = f, ws_pos = 0, ws_good = True\<rparr>"
      "fs_room w = fs_room (disk st)"
    using w by (auto simp: ws_open_def split: if_splits option.splits node.splits)
  let ?sp = "\<lparr>recv_prog = 0, count_recv = 0, recv_length_max = len, recv_filename = f,
               recv_fs = s, recv_prog_cb = pr\<rparr>"
  have "\<exists>st' sp' x'. recv_all prog_cb i ds st1 x = Inr (True, st', x')
    \<and> map_recv st' i = Some sp' \<and> recv_length_max sp' = recv_length_max ?sp
    \<and> count_recv sp' = count_recv ?sp + word_of_nat (length (concat ds))
    \<and> node_at (disk st') f = Some (Regular ([] @ concat ds) r)"
    by (rule recv_all_good) (use assms(2,3) r st1 in simp_all)
  then show ?thesis by (auto simp: check_length_recv_def find_fs_recv_def)
qed

theorem recv_whole_file_witness:
  "\<exists>st2 x' r. recv_all (\<lambda>i p n m x. x) 3 [''ab'', '''', ''c''] (snd (open_file_recv 3 3 ''b.txt'' True demo_files)) ()
      = Inr (True, st2, x')
    \<and> node_at (disk st2) ''b.txt'' = Some (Regular (concat [''ab'', '''', ''c'']) r)
    \<and> check_length_recv 3 0 0 st2 = (word_of_nat (length (concat [''ab'', '''', ''c''])) = (3 :: int64),
        word_of_nat (length (concat [''ab'', '''', ''c''])), 3)"
  by (rule recv_whole_file [of 3 3 "''b.txt''" True demo_files])
    (simp_all add: open_file_recv_def ws_open_def demo_disk_def node_at_def)

text \<open>
  Once a write of a received file failed, nothing more is written or counted for it: every later
  \<open>add_data_recv\<close> reports failure and leaves the count and the disk as they are.
\<close>

theorem recv_after_failure:
  assumes "map_recv st i = Some sp" "\<not> ws_good (recv_fs sp)" "recv_length_max sp \<noteq> 0"
  shows "\<exists>st' sp' x'. add_data_recv prog_cb i d st x = Inr (False, st', x') \<and> disk st' = disk st
    \<and> map_recv st' i = Some sp' \<and> \<not> ws_good (recv_fs sp') \<and> count_recv sp' = count_recv sp"
proof -
  let ?sp1 = "sp\<lparr>recv_fs := recv_fs sp, count_recv := count_recv sp\<rparr>"
  obtain p where p: "calc_prog (count_recv sp) (recv_length_max sp) = Inr p"
    using calc_prog_defined assms(3) by blast
  obtain sp2 x2 where n: "note_recv prog_cb i sp p x = (sp2, x2)" by (rule prod.exhaust)
  have "add_data_recv prog_cb i d st x = Inr (False, st\<lparr>disk := disk st, map_recv := (map_recv st)(i \<mapsto> sp2)\<rparr>, x2)"
    using assms p n by (simp add: add_data_recv_def ws_write_def)
  with note_recv_shape [OF n] assms(2) show ?thesis by auto
qed

definition stuck_files :: files_io where
  "stuck_files = demo_files\<lparr>map_recv := [1 \<mapsto> \<lparr>recv_prog = 0, count_recv = 0, recv_length_max = 3,
     recv_filename = ''x'', recv_fs = \<lparr>ws_path = ''x'', ws_pos = 0, ws_good = False\<rparr>, recv_prog_cb = True\<rparr>]\<rparr>"

theorem recv_after_failure_witness:
  "\<exists>st' sp' x'. add_data_recv (\<lambda>i p n m x. x) 1 ''d'' stuck_files () = Inr (False, st', x')
    \<and> disk st' = disk stuck_files \<and> map_recv st' 1 = Some sp' \<and> \<not> ws_good (recv_fs sp')
    \<and> count_recv sp' = 0"
  using recv_after_failure [of stuck_files 1 _ "\<lambda>i p n m x. x" "''d''" "()"] by (simp add: stuck_files_def)

section \<open>The progress that is reported\<close>

definition with_progress :: "('f, 'x) send_cb \<Rightarrow> ('f, int64 list \<times> 'x) send_cb" where
  "with_progress send_cb = (\<lambda>i buf st (ps, x). let (b, x') = send_cb i buf st x in (b, ps, x'))"

definition log_progress :: "(int64 list \<times> 'x) prog_cb" where
  "log_progress = (\<lambda>i p n len (ps, x). (ps @ [p], x))"

lemma sint_add_nat:
  assumes "0 \<le> sint (a :: int64)" "sint a + int n < 2 ^ 63"
  shows "sint (a + word_of_nat n) = sint a + int n"
proof -
  have "a + word_of_nat n = word_of_int (sint a + int n)" by simp
  with assms show ?thesis using sint_word_of_int64 [of "sint a + int n"] by simp
qed

lemma sint_eq_100:
  assumes "sint (w :: int64) = 100"
  shows "w = 100"
proof -
  have "of_int (sint w) = (of_int 100 :: int64)" by (simp only: assms)
  then show ?thesis by simp
qed

text \<open>The marks so far are increasing, and the last one is the percentage of what was read.\<close>

definition prog_inv :: "fs_send \<Rightarrow> int64 list \<Rightarrow> bool" where
  "prog_inv sp ps \<longleftrightarrow> send_prog_cb sp \<and> 0 \<le> sint (count_send sp)
     \<and> sint (count_send sp) + int (length (rs_rest (send_fs sp))) = sint (send_length_max sp)
     \<and> 0 < sint (send_length_max sp) \<and> sint (send_length_max sp) < 2 ^ 56
     \<and> sint (send_prog sp) = sint (count_send sp) * 100 div sint (send_length_max sp)
     \<and> sorted_wrt (<) (map sint ps) \<and> (\<forall>p \<in> set ps. 0 < sint p \<and> sint p \<le> sint (send_prog sp))
     \<and> (if ps = [] then sint (send_prog sp) = 0 else last ps = send_prog sp)
     \<and> (rs_eof (send_fs sp) \<longrightarrow> rs_rest (send_fs sp) = [])"

lemma prog_inv_step:
  assumes inv: "prog_inv sp ps" and e: "\<not> rs_eof (send_fs sp)"
    and s: "send_step (with_progress send_cb) log_progress i sp st (ps, x) = Inr (b, sp', st', (ps', x'))"
  shows "prog_inv sp' ps' \<and> st' = st\<lparr>map_send := (map_send st)(i \<mapsto> sp')\<rparr>"
proof -
  let ?rest = "rs_rest (send_fs sp)"
  let ?buf = "take 1024 ?rest"
  let ?s' = "\<lparr>rs_rest = drop 1024 ?rest, rs_eof = length ?rest < 1024\<rparr>"
  let ?sp1 = "sp\<lparr>send_fs := ?s', count_send := count_send sp + word_of_nat (length ?buf)\<rparr>"
  let ?st1 = "st\<lparr>map_send := (map_send st)(i \<mapsto> ?sp1)\<rparr>"
  obtain b1 x1 where cb: "send_cb i ?buf ?st1 x = (b1, x1)" by (rule prod.exhaust)
  note I = inv [unfolded prog_inv_def]
  have rest: "int (length ?buf) + int (length (drop 1024 ?rest)) = int (length ?rest)" by simp
  have "sint (count_send sp) + int (length ?buf) < 2 ^ 63" using I rest by simp
  then have c: "sint (count_send ?sp1) = sint (count_send sp) + int (length ?buf)"
    using I sint_add_nat [of "count_send sp" "length ?buf"] by simp
  have len: "sint (count_send ?sp1) + int (length (drop 1024 ?rest)) = sint (send_length_max sp)"
    using I c rest by linarith
  have l: "send_length_max ?sp1 = send_length_max sp" by simp
  have bounds: "0 \<le> sint (count_send ?sp1)" "sint (count_send ?sp1) \<le> sint (send_length_max ?sp1)"
      "0 < sint (send_length_max ?sp1)" "sint (send_length_max ?sp1) < 2 ^ 56"
    unfolding l using I c len by linarith+
  obtain p where p: "calc_prog (count_send ?sp1) (send_length_max ?sp1) = Inr p"
      "sint p = sint (count_send ?sp1) * 100 div sint (send_length_max ?sp1)" "0 \<le> sint p" "sint p \<le> 100"
    by (rule calc_prog_value [OF bounds])
  have ge: "sint (send_prog sp) \<le> sint p"
    using I p(2) c by (simp add: zdiv_mono1)
  obtain sp2 lx where n: "note_send log_progress i ?sp1 p (ps, x1) = (sp2, lx)" by (rule prod.exhaust)
  have "send_step (with_progress send_cb) log_progress i sp st (ps, x)
      = Inr (b1, sp2, st\<lparr>map_send := (map_send st)(i \<mapsto> sp2)\<rparr>, lx)"
    using cb p(1) n by (simp add: send_step_def rs_read_def with_progress_def)
  with s have eq: "sp' = sp2" "lx = (ps', x')" "st' = st\<lparr>map_send := (map_send st)(i \<mapsto> sp2)\<rparr>" by auto
  have "prog_inv sp2 ps'"
  proof (cases "sint (send_prog sp) < sint p")
    case True
    then have sp2: "sp2 = ?sp1\<lparr>send_prog := p\<rparr>" "ps' = ps @ [p]"
      using n eq(2) I by (auto simp: note_send_def log_progress_def)
    have "\<forall>q \<in> set ps. sint q < sint p" using I True by fastforce
    moreover have "0 \<le> sint (send_prog sp)" using I by (simp add: pos_imp_zdiv_nonneg_iff)
    then have "0 < sint p" using True by linarith
    ultimately show ?thesis
      using I bounds len p(2) True
      by (auto simp: prog_inv_def sp2 sorted_wrt_append less_imp_le)
  next
    case False
    then have sp2: "sp2 = ?sp1" "ps' = ps" using n eq(2) by (auto simp: note_send_def)
    have "sint (send_prog sp) = sint p" using False ge by simp
    then show ?thesis
      using I bounds len p(2) by (auto simp: prog_inv_def sp2)
  qed
  with eq show ?thesis by simp
qed

lemma prog_inv_loop:
  assumes "prog_inv sp ps" "map_send st i = Some sp"
    and "send_loop (with_progress send_cb) log_progress i sp st (ps, x) = Inr (r, st', (ps', x'))"
  shows "\<exists>sp'. map_send st' i = Some sp' \<and> prog_inv sp' ps' \<and> (r \<longrightarrow> rs_eof (send_fs sp'))"
  using assms
proof (induction "length (left (send_fs sp))" arbitrary: sp st ps x rule: less_induct)
  case less
  show ?case
  proof (cases "rs_eof (send_fs sp)")
    case True
    with less.prems show ?thesis by (auto simp: send_loop.simps)
  next
    case False
    obtain b sp1 st1 ps1 x1 where s: "send_step (with_progress send_cb) log_progress i sp st (ps, x)
        = Inr (b, sp1, st1, (ps1, x1))"
      using less.prems(3) False by (auto simp: send_loop.simps [of _ _ _ sp] rbind_eq_Inr)
    have inv: "prog_inv sp1 ps1" "map_send st1 i = Some sp1"
      using prog_inv_step [OF less.prems(1) False s] by simp_all
    show ?thesis
    proof (cases b)
      case True
      have "left (send_fs sp) = fst (rs_read 1024 (send_fs sp)) # left (send_fs sp1)"
        using left_read [OF False] send_step_fs [OF s] by simp
      then have lt: "length (left (send_fs sp1)) < length (left (send_fs sp))" by simp
      have "send_loop (with_progress send_cb) log_progress i sp1 st1 (ps1, x1) = Inr (r, st', (ps', x'))"
        using less.prems(3) False s True by (simp add: send_loop.simps [of _ _ _ sp])
      from less.hyps [OF lt inv this] show ?thesis .
    next
      case b: False
      then have "st' = st1" "ps' = ps1" "\<not> r"
        using less.prems(3) False s by (simp_all add: send_loop.simps [of _ _ _ sp])
      with inv show ?thesis by auto
    qed
  qed
qed

lemma prog_inv_session:
  assumes "prog_inv sp ps" "map_send st i = Some sp"
    and "send_session (with_progress send_cb) log_progress i n st (ps, x) = Inr (r, st', (ps', x'))"
  shows "\<exists>sp'. prog_inv sp' ps' \<and> (r \<longrightarrow> rs_eof (send_fs sp'))"
  using assms
proof (induction n arbitrary: sp st ps x)
  case (Suc n)
  obtain ok st1 ps1 x1 where a: "add_data_send (with_progress send_cb) log_progress i st (ps, x)
      = Inr (ok, st1, (ps1, x1))"
    using Suc.prems(3) by (auto simp: rbind_eq_Inr)
  then have "send_loop (with_progress send_cb) log_progress i sp st (ps, x) = Inr (ok, st1, (ps1, x1))"
    using Suc.prems(2) by (simp add: add_data_send_def)
  from prog_inv_loop [OF Suc.prems(1,2) this] obtain sp1 where sp1: "map_send st1 i = Some sp1"
      "prog_inv sp1 ps1" "ok \<longrightarrow> rs_eof (send_fs sp1)" by blast
  show ?case
  proof (cases ok)
    case True
    with Suc.prems(3) a sp1 show ?thesis by auto
  next
    case False
    with Suc.prems(3) a have "send_session (with_progress send_cb) log_progress i n st1 (ps1, x1) = Inr (r, st', (ps', x'))"
      by simp
    from Suc.IH [OF sp1(2,1) this] show ?thesis .
  qed
qed auto

text \<open>The calls always return, when the length is not zero.\<close>

lemma send_step_returns:
  assumes "send_length_max sp \<noteq> 0"
  obtains b sp2 x2 where "send_step send_cb prog_cb i sp st x
      = Inr (b, sp2, st\<lparr>map_send := (map_send st)(i \<mapsto> sp2)\<rparr>, x2)"
    "send_length_max sp2 = send_length_max sp"
proof -
  obtain buf s' where r: "rs_read 1024 (send_fs sp) = (buf, s')" by (rule prod.exhaust)
  let ?sp1 = "sp\<lparr>send_fs := s', count_send := count_send sp + word_of_nat (length buf)\<rparr>"
  obtain b x1 where cb: "send_cb i buf (st\<lparr>map_send := (map_send st)(i \<mapsto> ?sp1)\<rparr>) x = (b, x1)"
    by (rule prod.exhaust)
  obtain p where p: "calc_prog (count_send ?sp1) (send_length_max ?sp1) = Inr p"
    using calc_prog_defined [of "send_length_max ?sp1"] assms by auto
  obtain sp2 x2 where n: "note_send prog_cb i ?sp1 p x1 = (sp2, x2)" by (rule prod.exhaust)
  then have "send_length_max sp2 = send_length_max sp" by (auto simp: note_send_def split: if_splits)
  with that r cb p n show thesis by (simp add: send_step_def)
qed

lemma send_loop_returns:
  assumes "send_length_max sp \<noteq> 0" "map_send st i = Some sp"
  shows "\<exists>r sp' st' x'. send_loop send_cb prog_cb i sp st x = Inr (r, st', x')
    \<and> map_send st' i = Some sp' \<and> send_length_max sp' = send_length_max sp"
  using assms
proof (induction "length (left (send_fs sp))" arbitrary: sp st x rule: less_induct)
  case less
  show ?case
  proof (cases "rs_eof (send_fs sp)")
    case True
    with less.prems show ?thesis by (auto simp: send_loop.simps)
  next
    case False
    obtain b sp2 x2 where s: "send_step send_cb prog_cb i sp st x
          = Inr (b, sp2, st\<lparr>map_send := (map_send st)(i \<mapsto> sp2)\<rparr>, x2)"
        "send_length_max sp2 = send_length_max sp"
      by (rule send_step_returns [OF less.prems(1)])
    let ?st2 = "st\<lparr>map_send := (map_send st)(i \<mapsto> sp2)\<rparr>"
    show ?thesis
    proof (cases b)
      case True
      have "left (send_fs sp) = fst (rs_read 1024 (send_fs sp)) # left (send_fs sp2)"
        using left_read [OF False] send_step_fs [OF s(1)] by simp
      then have "length (left (send_fs sp2)) < length (left (send_fs sp))" by simp
      moreover have "send_length_max sp2 \<noteq> 0" "map_send ?st2 i = Some sp2" using s(2) less.prems(1) by simp_all
      ultimately have "\<exists>r sp' st' x'. send_loop send_cb prog_cb i sp2 ?st2 x2 = Inr (r, st', x')
          \<and> map_send st' i = Some sp' \<and> send_length_max sp' = send_length_max sp2"
        by (rule less.hyps)
      then show ?thesis using s False True by (simp add: send_loop.simps [of _ _ _ sp])
    next
      case b: False
      then show ?thesis using s False by (auto simp: send_loop.simps [of _ _ _ sp])
    qed
  qed
qed

lemma send_session_returns:
  assumes "map_send st i = Some sp" "send_length_max sp \<noteq> 0"
  shows "\<exists>r st' x'. send_session send_cb prog_cb i n st x = Inr (r, st', x')"
  using assms
proof (induction n arbitrary: sp st x)
  case (Suc n)
  obtain r sp' st' x' where "send_loop send_cb prog_cb i sp st x = Inr (r, st', x')"
      "map_send st' i = Some sp'" "send_length_max sp' = send_length_max sp"
    using send_loop_returns [OF Suc.prems(2,1), of send_cb prog_cb x] by blast
  with Suc.IH [of st' sp' x'] Suc.prems show ?case by (cases r) (auto simp: add_data_send_def)
qed auto

lemma prog_inv_bounds:
  assumes "prog_inv sp ps"
  shows "sorted_wrt (<) (map sint ps)" "\<forall>p \<in> set ps. 1 \<le> sint p \<and> sint p \<le> 100" "rs_eof (send_fs sp) \<Longrightarrow> ps \<noteq> [] \<and> last ps = 100"
proof -
  note I = assms [unfolded prog_inv_def]
  have "sint (send_prog sp) \<le> sint (send_length_max sp) * 100 div sint (send_length_max sp)"
    using I by (metis mult_right_mono zdiv_mono1 le_add_same_cancel1 of_nat_0_le_iff zero_le_numeral)
  then have le: "sint (send_prog sp) \<le> 100" using I by simp
  show "sorted_wrt (<) (map sint ps)" using I by blast
  have "1 \<le> sint p \<and> sint p \<le> 100" if "p \<in> set ps" for p
  proof -
    from that I have "0 < sint p" "sint p \<le> sint (send_prog sp)" by blast+
    with le show ?thesis by linarith
  qed
  then show "\<forall>p \<in> set ps. 1 \<le> sint p \<and> sint p \<le> 100" by blast
  assume "rs_eof (send_fs sp)"
  then have "sint (send_prog sp) = 100" using I by auto
  then have eq: "send_prog sp = 100" using sint_eq_100 by blast
  then have "sint (send_prog sp) \<noteq> 0" by simp
  with I have "ps \<noteq> []" by metis
  with I eq show "ps \<noteq> [] \<and> last ps = 100" by metis
qed

text \<open>
  C35: the progress reported while a file of less than 2^56 bytes is sent is a strictly increasing
  sequence of percentages between 1 and 100, and it ends with 100 when the file is finished.
\<close>

theorem progress_increases:
  assumes "node_at (disk st) f = Some (Regular c True)" "map_send st i = None"
    and "c \<noteq> []" "length c < 2 ^ 56"
  shows "\<exists>st1 r st2 ps x'. open_file_send i f True st = Inr (True, st1)
    \<and> send_session (with_progress send_cb) log_progress i n st1 ([], x) = Inr (r, st2, (ps, x'))
    \<and> sorted_wrt (<) (map sint ps) \<and> (\<forall>p \<in> set ps. 1 \<le> sint p \<and> sint p \<le> 100)
    \<and> (r \<longrightarrow> ps \<noteq> [] \<and> last ps = 100)"
proof -
  let ?sp = "\<lparr>send_prog = 0, count_send = 0, send_length_max = word_of_nat (length c), send_filename = f,
    send_fs = \<lparr>rs_rest = c, rs_eof = False\<rparr>, send_prog_cb = True\<rparr>"
  let ?st1 = "st\<lparr>map_send := (map_send st)(i \<mapsto> ?sp)\<rparr>"
  have o: "open_file_send i f True st = Inr (True, ?st1)"
    using assms(1,2) by (simp add: open_file_send_def rs_open_def get_file_size_def fs_file_size_def)
  have "sint (word_of_nat (length c) :: int64) = int (length c)"
    using assms(4) by (simp add: sint_word_of_nat64)
  then have inv0: "prog_inv ?sp []" using assms(3,4) by (simp add: prog_inv_def)
  have m: "map_send ?st1 i = Some ?sp" by simp
  have "send_length_max ?sp \<noteq> 0" using word_of_nat_nonzero [of c] assms(3,4) by simp
  then obtain r st2 y where "send_session (with_progress send_cb) log_progress i n ?st1 ([], x) = Inr (r, st2, y)"
    using send_session_returns [OF m, of "with_progress send_cb" log_progress n "([], x)"] by blast
  then obtain ps x' where s: "send_session (with_progress send_cb) log_progress i n ?st1 ([], x) = Inr (r, st2, (ps, x'))"
    by (cases y) auto
  then obtain sp' where inv: "prog_inv sp' ps" "r \<longrightarrow> rs_eof (send_fs sp')"
    using prog_inv_session [OF inv0 m s] by blast
  show ?thesis
    using o s prog_inv_bounds [OF inv(1)] inv(2) by blast
qed

theorem progress_increases_witness:
  "\<exists>st1 r st2 ps x'. open_file_send 7 ''a.txt'' True demo_files = Inr (True, st1)
    \<and> send_session (with_progress (\<lambda>i d s x. (True, x))) log_progress 7 3 st1 ([], ()) = Inr (r, st2, (ps, x'))
    \<and> sorted_wrt (<) (map sint ps) \<and> (\<forall>p \<in> set ps. 1 \<le> sint p \<and> sint p \<le> 100)
    \<and> (r \<longrightarrow> ps \<noteq> [] \<and> last ps = 100)"
  by (rule progress_increases [where c = "''hello''"]) simp_all

end
