(* ===== verification/Files_Channel.thy ===== *)
theory Files_Channel
  imports Transfer_Laws
begin

text \<open>
  The class \<open>files_channel\<close> of \<open>files_transfer.h\<close>: \<open>files_io\<close> with the identifiers of the files each
  network connection has open. The locale \<open>file_table\<close> states what the managed versions of the
  operations need of a table of open files, and \<open>channel_table\<close> what they need of the registration;
  both are interpreted for the sending and for the receiving table.
\<close>

section \<open>The class\<close>

record fs_channel =
  set_recv :: "int64 set"
  set_send :: "int64 set"

record files_channel = files_io +
  map_channel :: "int64 \<rightharpoonup> fs_channel"

text \<open>The flow limit: \<open>false\<close> interrupts a send after each multiple of 2 MB, the default of \<open>flux\<close>.\<close>

definition flux :: int64 where
  "flux = 2 * 1024 * 1024"

definition check_linit_flux :: "bool \<Rightarrow> int64 \<Rightarrow> 'a files_channel_scheme \<Rightarrow> bool" where
  "check_linit_flux ok id' st = (case find_fs_send id' st of
       Some it \<Rightarrow> if sint (count_send it) smod sint flux = 0 then False else ok
     | None \<Rightarrow> ok)"

definition add_id_channel :: "int64 \<Rightarrow> 'a files_channel_scheme \<Rightarrow> bool \<times> 'a files_channel_scheme" where
  "add_id_channel id_channel st = (case map_channel st id_channel of
       None \<Rightarrow> (True, st\<lparr>map_channel := (map_channel st)(id_channel \<mapsto> \<lparr>set_recv = {}, set_send = {}\<rparr>)\<rparr>)
     | Some it \<Rightarrow> (False, st))"

definition remove_id_channel :: "int64 \<Rightarrow> 'a files_channel_scheme \<Rightarrow> 'a files_channel_scheme" where
  "remove_id_channel id_channel st = st\<lparr>map_channel := (map_channel st)(id_channel := None)\<rparr>"

definition add_file_recv :: "int64 \<Rightarrow> int64 \<Rightarrow> 'a files_channel_scheme \<Rightarrow> bool \<times> 'a files_channel_scheme" where
  "add_file_recv id_channel id_file st = (case map_channel st id_channel of
       Some it \<Rightarrow> (True, st\<lparr>map_channel := (map_channel st)(id_channel \<mapsto> it\<lparr>set_recv := insert id_file (set_recv it)\<rparr>)\<rparr>)
     | None \<Rightarrow> (False, st))"

definition add_file_send :: "int64 \<Rightarrow> int64 \<Rightarrow> 'a files_channel_scheme \<Rightarrow> bool \<times> 'a files_channel_scheme" where
  "add_file_send id_channel id_file st = (case map_channel st id_channel of
       Some it \<Rightarrow> (True, st\<lparr>map_channel := (map_channel st)(id_channel \<mapsto> it\<lparr>set_send := insert id_file (set_send it)\<rparr>)\<rparr>)
     | None \<Rightarrow> (False, st))"

definition remove_file_send :: "int64 \<Rightarrow> int64 \<Rightarrow> 'a files_channel_scheme \<Rightarrow> 'a files_channel_scheme" where
  "remove_file_send id_channel id_file st = (case map_channel st id_channel of
       Some it \<Rightarrow> st\<lparr>map_channel := (map_channel st)(id_channel \<mapsto> it\<lparr>set_send := set_send it - {id_file}\<rparr>)\<rparr>
     | None \<Rightarrow> st)"

definition remove_file_recv :: "int64 \<Rightarrow> int64 \<Rightarrow> 'a files_channel_scheme \<Rightarrow> 'a files_channel_scheme" where
  "remove_file_recv id_channel id_file st = (case map_channel st id_channel of
       Some it \<Rightarrow> st\<lparr>map_channel := (map_channel st)(id_channel \<mapsto> it\<lparr>set_recv := set_recv it - {id_file}\<rparr>)\<rparr>
     | None \<Rightarrow> st)"

definition open_file_send_channel ::
    "int64 \<Rightarrow> int64 \<Rightarrow> string \<Rightarrow> bool \<Rightarrow> 'a files_channel_scheme \<Rightarrow> (bool \<times> 'a files_channel_scheme) res" where
  "open_file_send_channel id_channel id_file filename prog st =
     rbind (open_file_send id_file filename prog st) (\<lambda>(ok_open, st1).
       let (ok_file, st2) = add_file_send id_channel id_file st1
       in if ok_open \<and> ok_file then Inr (True, st2)
          else Inr (False, remove_file_send id_channel id_file (close_file_send id_file st2)))"

definition open_file_recv_channel ::
    "int64 \<Rightarrow> int64 \<Rightarrow> int64 \<Rightarrow> string \<Rightarrow> bool \<Rightarrow> 'a files_channel_scheme \<Rightarrow> bool \<times> 'a files_channel_scheme" where
  "open_file_recv_channel id_channel id_file length_max filename prog st =
     (let (ok_open, st1) = open_file_recv id_file length_max filename prog st;
          (ok_file, st2) = add_file_recv id_channel id_file st1
      in if ok_open \<and> ok_file then (True, st2)
         else (False, remove_file_recv id_channel id_file (close_file_recv id_file st2)))"

definition close_file_send_channel :: "int64 \<Rightarrow> int64 \<Rightarrow> 'a files_channel_scheme \<Rightarrow> 'a files_channel_scheme" where
  "close_file_send_channel id_channel id_file st =
     remove_file_send id_channel id_file (close_file_send id_file st)"

definition close_file_recv_channel :: "int64 \<Rightarrow> int64 \<Rightarrow> 'a files_channel_scheme \<Rightarrow> 'a files_channel_scheme" where
  "close_file_recv_channel id_channel id_file st =
     remove_file_recv id_channel id_file (close_file_recv id_file st)"

definition get_channel_map :: "'a files_channel_scheme \<Rightarrow> int64 \<rightharpoonup> fs_channel" where
  "get_channel_map st = map_channel st"

section \<open>The interface of a table of open files\<close>

text \<open>
  \<open>look\<close> finds an open file, \<open>opened i s b s'\<close> is an outcome of opening one, \<open>shut\<close> closes it.
\<close>

locale file_table =
  fixes look :: "int64 \<Rightarrow> 's \<Rightarrow> 'e option"
    and opened :: "int64 \<Rightarrow> 's \<Rightarrow> bool \<Rightarrow> 's \<Rightarrow> bool"
    and shut :: "int64 \<Rightarrow> 's \<Rightarrow> 's"
  assumes open_new: "opened i s True s' \<Longrightarrow> look i s = None \<and> look i s' \<noteq> None"
    and open_refused: "opened i s False s' \<Longrightarrow> s' = s"
    and open_other: "opened i s b s' \<Longrightarrow> j \<noteq> i \<Longrightarrow> look j s' = look j s"
    and shut_look: "look i (shut i s) = None"
    and shut_other: "j \<noteq> i \<Longrightarrow> look j (shut i s) = look j s"
begin

lemma reopen_refused: "look i s \<noteq> None \<Longrightarrow> opened i s b s' \<Longrightarrow> \<not> b \<and> s' = s"
  using open_new open_refused by (cases b) auto

end

text \<open>The table with the registration of its identifiers by connection.\<close>

locale channel_table = file_table +
  fixes listed :: "int64 \<Rightarrow> int64 \<Rightarrow> 's \<Rightarrow> bool"
    and enlist :: "int64 \<Rightarrow> int64 \<Rightarrow> 's \<Rightarrow> bool \<times> 's"
    and delist :: "int64 \<Rightarrow> int64 \<Rightarrow> 's \<Rightarrow> 's"
  assumes enlist_look: "enlist c i s = (b, s') \<Longrightarrow> look j s' = look j s"
    and enlist_listed: "enlist c i s = (True, s') \<Longrightarrow> listed c i s'"
    and delist_look: "look j (delist c i s) = look j s"
    and delist_listed: "\<not> listed c i (delist c i s)"
begin

text \<open>The managed opening: on any failure the file is closed and taken off the list.\<close>

lemma managed_open:
  assumes "opened i s ok_open s1" "enlist c i s1 = (ok_file, s2)"
    and "s' = (if ok_open \<and> ok_file then s2 else delist c i (shut i s2))"
  shows "look i s' \<noteq> None \<longleftrightarrow> ok_open \<and> ok_file" "listed c i s' \<longleftrightarrow> ok_open \<and> ok_file"
    "j \<noteq> i \<Longrightarrow> look j s' = look j s"
  using assms enlist_look [OF assms(2)] enlist_listed [of c i s1 s2] open_new [of i s s1] open_other [OF assms(1)]
  by (auto simp: delist_look delist_listed shut_look shut_other)

lemma managed_close: "look i (delist c i (shut i s)) = None" "\<not> listed c i (delist c i (shut i s))"
  by (simp_all add: delist_look shut_look delist_listed)

lemma managed_reopen:
  assumes "look i s \<noteq> None" "opened i s ok_open s1" "enlist c i s1 = (ok_file, s2)"
  shows "\<not> ok_open \<and> look i (delist c i (shut i s2)) = None"
  using reopen_refused [OF assms(1,2)] by (simp add: delist_look shut_look)

end

section \<open>Both tables satisfy it\<close>

definition send_opened :: "int64 \<Rightarrow> 'a files_channel_scheme \<Rightarrow> bool \<Rightarrow> 'a files_channel_scheme \<Rightarrow> bool" where
  "send_opened i s b s' \<longleftrightarrow> (\<exists>f p. open_file_send i f p s = Inr (b, s'))"

definition recv_opened :: "int64 \<Rightarrow> 'a files_channel_scheme \<Rightarrow> bool \<Rightarrow> 'a files_channel_scheme \<Rightarrow> bool" where
  "recv_opened i s b s' \<longleftrightarrow> (\<exists>n f p. open_file_recv i n f p s = (b, s'))"

definition send_listed :: "int64 \<Rightarrow> int64 \<Rightarrow> 'a files_channel_scheme \<Rightarrow> bool" where
  "send_listed c i s \<longleftrightarrow> (\<exists>it. map_channel s c = Some it \<and> i \<in> set_send it)"

definition recv_listed :: "int64 \<Rightarrow> int64 \<Rightarrow> 'a files_channel_scheme \<Rightarrow> bool" where
  "recv_listed c i s \<longleftrightarrow> (\<exists>it. map_channel s c = Some it \<and> i \<in> set_recv it)"

lemmas table_defs = send_opened_def recv_opened_def send_listed_def recv_listed_def
  open_file_send_def open_file_recv_def close_file_send_def close_file_recv_def
  find_fs_send_def find_fs_recv_def add_file_send_def add_file_recv_def
  remove_file_send_def remove_file_recv_def

interpretation sends: channel_table find_fs_send send_opened close_file_send send_listed add_file_send remove_file_send
  by unfold_locales (auto simp: table_defs rbind_eq_Inr split: if_splits option.splits)

interpretation recvs: channel_table find_fs_recv recv_opened close_file_recv recv_listed add_file_recv remove_file_recv
  by unfold_locales (auto simp: table_defs split: if_splits option.splits)

text \<open>
  After \<open>open_file_send_channel\<close> the file is open and listed for the connection if and only if it
  returned true, and no other file was touched.
\<close>

theorem open_send_channel_result:
  assumes "open_file_send_channel c i f pr st = Inr (ok, st')"
  shows "(map_send st' i \<noteq> None) = ok \<and> send_listed c i st' = ok \<and> (j = i \<or> map_send st' j = map_send st j)"
proof -
  obtain ok_open st1 where o: "open_file_send i f pr st = Inr (ok_open, st1)"
    using assms by (auto simp: open_file_send_channel_def rbind_eq_Inr)
  obtain ok_file st2 where a: "add_file_send c i st1 = (ok_file, st2)" by (rule prod.exhaust)
  have "send_opened i st ok_open st1" using o by (auto simp: send_opened_def)
  note m = sends.managed_open [OF this a refl, unfolded find_fs_send_def]
  have "ok = (ok_open \<and> ok_file)"
    and "st' = (if ok_open \<and> ok_file then st2 else remove_file_send c i (close_file_send i st2))"
    using assms o a by (auto simp: open_file_send_channel_def split: if_splits)
  then show ?thesis using m(1,2) m(3) [of j] by (cases "j = i") auto
qed

definition demo_channel :: files_channel where
  "demo_channel = \<lparr>map_recv = Map.empty, map_send = Map.empty, disk = demo_disk,
     map_channel = [9 \<mapsto> \<lparr>set_recv = {}, set_send = {}\<rparr>]\<rparr>"

lemma demo_channel_simps [simp]:
  "map_recv demo_channel = Map.empty" "map_send demo_channel = Map.empty" "disk demo_channel = demo_disk"
  "map_channel demo_channel = [9 \<mapsto> \<lparr>set_recv = {}, set_send = {}\<rparr>]"
  by (simp_all add: demo_channel_def)

lemma open_demo: "\<exists>st'. open_file_send_channel 9 7 ''a.txt'' True demo_channel = Inr (True, st')"
  by (simp add: open_file_send_channel_def open_file_send_def rs_open_def get_file_size_def fs_file_size_def
      add_file_send_def)

theorem open_send_channel_result_witness:
  "\<exists>st'. open_file_send_channel 9 7 ''a.txt'' True demo_channel = Inr (True, st')
    \<and> (map_send st' 7 \<noteq> None) = True \<and> send_listed 9 7 st' = True \<and> (8 = (7 :: int64) \<or> map_send st' 8 = None)"
proof -
  obtain st' where o: "open_file_send_channel 9 7 ''a.txt'' True demo_channel = Inr (True, st')"
    using open_demo by blast
  from open_send_channel_result [OF this, of 8] o show ?thesis by auto
qed

text \<open>
  The same for receiving: after \<open>open_file_recv_channel\<close> the file is open and listed if and only if
  it returned true, and no other file was touched.
\<close>

theorem open_recv_channel_result:
  assumes "open_file_recv_channel c i n f pr st = (ok, st')"
  shows "(map_recv st' i \<noteq> None) = ok \<and> recv_listed c i st' = ok \<and> (j = i \<or> map_recv st' j = map_recv st j)"
proof -
  obtain ok_open st1 where o: "open_file_recv i n f pr st = (ok_open, st1)" by (rule prod.exhaust)
  obtain ok_file st2 where a: "add_file_recv c i st1 = (ok_file, st2)" by (rule prod.exhaust)
  have "recv_opened i st ok_open st1" using o by (auto simp: recv_opened_def)
  note m = recvs.managed_open [OF this a refl, unfolded find_fs_recv_def]
  have "ok = (ok_open \<and> ok_file)"
    and "st' = (if ok_open \<and> ok_file then st2 else remove_file_recv c i (close_file_recv i st2))"
    using assms o a by (auto simp: open_file_recv_channel_def split: if_splits)
  then show ?thesis using m(1,2) m(3) [of j] by (cases "j = i") auto
qed

theorem open_recv_channel_result_witness:
  "let (ok, st') = open_file_recv_channel 9 7 3 ''b.txt'' True demo_channel
   in (map_recv st' 7 \<noteq> None) = ok \<and> recv_listed 9 7 st' = ok \<and> (8 = (7 :: int64) \<or> map_recv st' 8 = None)"
proof -
  obtain ok st' where o: "open_file_recv_channel 9 7 3 ''b.txt'' True demo_channel = (ok, st')" by (rule prod.exhaust)
  from open_recv_channel_result [OF this, of 8] o show ?thesis by auto
qed

text \<open>
  Opening a file again under an identifier that is still in use not only fails, it closes the
  transfer that is using the identifier.
\<close>

theorem reopen_closes_transfer:
  assumes "map_send st i \<noteq> None"
  shows "\<exists>st'. open_file_send_channel c i f pr st = Inr (False, st') \<and> map_send st' i = None"
proof -
  have o: "open_file_send i f pr st = Inr (False, st)" using assms by (simp add: open_file_send_def)
  then have so: "send_opened i st False st" by (auto simp: send_opened_def)
  obtain ok_file st2 where a: "add_file_send c i st = (ok_file, st2)" by (rule prod.exhaust)
  show ?thesis
    using sends.managed_reopen [OF _ so a, unfolded find_fs_send_def] assms o a
    by (simp add: open_file_send_channel_def)
qed

theorem reopen_closes_transfer_witness:
  "\<exists>st st'. open_file_send_channel 9 7 ''a.txt'' True demo_channel = Inr (True, st) \<and> map_send st 7 \<noteq> None
    \<and> open_file_send_channel 9 7 ''a.txt'' True st = Inr (False, st') \<and> map_send st' 7 = None"
proof -
  obtain st where o: "open_file_send_channel 9 7 ''a.txt'' True demo_channel = Inr (True, st)"
    using open_demo by blast
  have "map_send st 7 \<noteq> None"
    using o by (auto simp: open_file_send_channel_def open_file_send_def rs_open_def get_file_size_def
        fs_file_size_def add_file_send_def)
  with reopen_closes_transfer [OF this, of 9 "''a.txt''" True] o show ?thesis by blast
qed

end
