(* ===== verification/Json.thy ===== *)
theory Json
  imports Chat_Prelude
begin

text \<open>
  JSON values as \<open>web_protocol.h\<close> uses them through nlohmann/json 3.11.2, and the interface
  \<open>json_codec\<close> of the text functions \<open>json::parse\<close> and \<open>json::dump\<close>, which are a parameter of the
  model: a record of two functions with the laws of the locale. The theory \<open>Json_Text\<close> interprets
  it.
\<close>

section \<open>Values\<close>

text \<open>
  \<open>JInt\<close> is a \<open>number_integer\<close> or \<open>number_unsigned\<close>; \<open>JFloat m e\<close> is the \<open>number_float\<close> with the
  value \<open>m / 2 ^ e\<close> (every finite double is one). An object is the \<open>std::map\<close> of its members, held
  in key order.
\<close>

datatype json = JNull | JBool bool | JInt int | JFloat int nat | JStr string
  | JArr "json list" | JObj "(string \<times> json) list"

text \<open>Insertion or assignment in the ordered map of an object.\<close>

fun obj_put :: "string \<Rightarrow> json \<Rightarrow> (string \<times> json) list \<Rightarrow> (string \<times> json) list" where
  "obj_put k v [] = [(k, v)]"
| "obj_put k v ((k', v') # m) =
     (if k = k' then (k, v) # m
      else if k < k' then (k, v) # (k', v') # m
      else (k', v') # obj_put k v m)"

section \<open>The operations the program uses\<close>

text \<open>
  \<open>js[key]\<close> on a mutable value, read: a missing member is created as \<open>null\<close>, a \<open>null\<close> value
  becomes an object first. The created member is never looked at again, so only its value is kept.
\<close>

definition js_read :: "json \<Rightarrow> string \<Rightarrow> json res" where
  "js_read j k = (case j of
       JNull \<Rightarrow> Inr JNull
     | JObj m \<Rightarrow> Inr (case map_of m k of Some v \<Rightarrow> v | None \<Rightarrow> JNull)
     | _ \<Rightarrow> Inl (Throw Type_error))"

text \<open>\<open>js[key]\<close> on a const value: a missing member fails \<open>JSON_ASSERT\<close>, which aborts.\<close>

definition js_read_const :: "json \<Rightarrow> string \<Rightarrow> json res" where
  "js_read_const j k = (case j of
       JObj m \<Rightarrow> (case map_of m k of Some v \<Rightarrow> Inr v | None \<Rightarrow> Inl (Crash Assertion_failed))
     | _ \<Rightarrow> Inl (Throw Type_error))"

text \<open>\<open>js[key] = v\<close>\<close>

definition js_assign :: "json \<Rightarrow> string \<Rightarrow> json \<Rightarrow> json res" where
  "js_assign j k v = (case j of
       JNull \<Rightarrow> Inr (JObj [(k, v)])
     | JObj m \<Rightarrow> Inr (JObj (obj_put k v m))
     | _ \<Rightarrow> Inl (Throw Type_error))"

text \<open>
  \<open>get<T>()\<close>. For \<open>long long\<close> and \<open>int\<close> the library's overload for arithmetic types applies, which
  also takes a boolean; a float is truncated towards zero.
\<close>

definition trunc_float :: "int \<Rightarrow> nat \<Rightarrow> int" where
  "trunc_float m e = sgn m * (\<bar>m\<bar> div 2 ^ e)"

definition js_int64 :: "json \<Rightarrow> int64 res" where
  "js_int64 j = (case j of
       JInt n \<Rightarrow> Inr (word_of_int n)
     | JFloat m e \<Rightarrow> Inr (word_of_int (trunc_float m e))
     | JBool b \<Rightarrow> Inr (if b then 1 else 0)
     | _ \<Rightarrow> Inl (Throw Type_error))"

definition js_int32 :: "json \<Rightarrow> int32 res" where
  "js_int32 j = (case j of
       JInt n \<Rightarrow> Inr (word_of_int n)
     | JFloat m e \<Rightarrow> Inr (word_of_int (trunc_float m e))
     | JBool b \<Rightarrow> Inr (if b then 1 else 0)
     | _ \<Rightarrow> Inl (Throw Type_error))"

definition js_string :: "json \<Rightarrow> string res" where
  "js_string j = (case j of JStr s \<Rightarrow> Inr s | _ \<Rightarrow> Inl (Throw Type_error))"

definition js_bool :: "json \<Rightarrow> bool res" where
  "js_bool j = (case j of JBool b \<Rightarrow> Inr b | _ \<Rightarrow> Inl (Throw Type_error))"

fun js_strings :: "json list \<Rightarrow> string list res" where
  "js_strings [] = Inr []"
| "js_strings (j # js) = rbind (js_string j) (\<lambda>s. rbind (js_strings js) (\<lambda>r. Inr (s # r)))"

definition js_vec_string :: "json \<Rightarrow> string list res" where
  "js_vec_string j = (case j of JArr js \<Rightarrow> js_strings js | _ \<Rightarrow> Inl (Throw Type_error))"

definition js_object :: "json \<Rightarrow> (string \<times> json) list res" where
  "js_object j = (case j of JObj m \<Rightarrow> Inr m | _ \<Rightarrow> Inl (Throw Type_error))"

lemmas js_defs = js_read_def js_read_const_def js_assign_def js_int64_def js_int32_def
  js_string_def js_bool_def js_vec_string_def js_object_def

lemma map_of_obj_put [simp]: "map_of (obj_put k v m) = (map_of m)(k \<mapsto> v)"
  by (induction k v m rule: obj_put.induct) (auto simp: fun_eq_iff)

lemma set_obj_put: "set (obj_put k v m) \<subseteq> insert (k, v) (set m)"
  by (induction k v m rule: obj_put.induct) auto

lemma js_strings_map_JStr [simp]: "js_strings (map JStr ss) = Inr ss"
  by (induction ss) (auto simp: js_string_def)

section \<open>Values the program writes\<close>

text \<open>
  A value the program builds has no float, its integers are in the library's range, and its
  objects list their keys in order, once each.
\<close>

definition obj_sorted :: "(string \<times> json) list \<Rightarrow> bool" where
  "obj_sorted m \<longleftrightarrow> sorted_wrt (<) (map fst m)"

fun json_wf :: "json \<Rightarrow> bool" where
  "json_wf (JArr js) = list_all json_wf js"
| "json_wf (JObj m) = (obj_sorted m \<and> list_all (\<lambda>kv. json_wf (snd kv)) m)"
| "json_wf (JInt n) = (- (2 ^ 63) \<le> n \<and> n < 2 ^ 64)"
| "json_wf (JFloat m e) = False"
| "json_wf _ = True"

text \<open>The byte sequences that are UTF-8 (RFC 3629), as the library's decoder accepts them.\<close>

definition byte_in :: "char \<Rightarrow> nat \<Rightarrow> nat \<Rightarrow> bool" where
  "byte_in c lo hi \<longleftrightarrow> lo \<le> of_char c \<and> of_char c \<le> hi"

fun utf8_ok :: "string \<Rightarrow> bool" where
  "utf8_ok [] = True"
| "utf8_ok (a # r) =
     (if byte_in a 0 127 then utf8_ok r
      else case r of [] \<Rightarrow> False | b # r2 \<Rightarrow>
        if byte_in a 194 223 then byte_in b 128 191 \<and> utf8_ok r2
        else case r2 of [] \<Rightarrow> False | c # r3 \<Rightarrow>
          if byte_in a 224 239 then
            byte_in b (if of_char a = (224::nat) then 160 else 128)
                      (if of_char a = (237::nat) then 159 else 191) \<and>
            byte_in c 128 191 \<and> utf8_ok r3
          else case r3 of [] \<Rightarrow> False | d # r4 \<Rightarrow>
            byte_in a 240 244 \<and>
            byte_in b (if of_char a = (240::nat) then 144 else 128)
                      (if of_char a = (244::nat) then 143 else 191) \<and>
            byte_in c 128 191 \<and> byte_in d 128 191 \<and> utf8_ok r4)"

fun json_utf8 :: "json \<Rightarrow> bool" where
  "json_utf8 (JStr s) = utf8_ok s"
| "json_utf8 (JArr js) = list_all json_utf8 js"
| "json_utf8 (JObj m) = list_all (\<lambda>kv. utf8_ok (fst kv) \<and> json_utf8 (snd kv)) m"
| "json_utf8 _ = True"

text \<open>Every string of a value, member names included.\<close>

fun json_strings :: "json \<Rightarrow> string list" where
  "json_strings (JStr s) = [s]"
| "json_strings (JArr js) = concat (map json_strings js)"
| "json_strings (JObj m) = concat (map (\<lambda>kv. fst kv # json_strings (snd kv)) m)"
| "json_strings _ = []"

lemma obj_sorted_put [simp]: "obj_sorted m \<Longrightarrow> obj_sorted (obj_put k v m)"
proof (induction k v m rule: obj_put.induct)
  case (1 k v)
  then show ?case by (simp add: obj_sorted_def)
next
  case (2 k v k' v' m)
  have keys: "(a, b) \<in> set (obj_put k v m) \<Longrightarrow> a = k \<or> (a, b) \<in> set m" for a b
    using set_obj_put [of k v m] by auto
  from 2 show ?case
    by (force simp: obj_sorted_def dest!: keys)
qed

lemma json_wf_put [simp]:
  "json_wf (JObj m) \<Longrightarrow> json_wf v \<Longrightarrow> json_wf (JObj (obj_put k v m))"
  using set_obj_put [of k v m] by (auto simp: list_all_iff)

lemma json_utf8_put [simp]:
  "json_utf8 (JObj m) \<Longrightarrow> utf8_ok k \<Longrightarrow> json_utf8 v \<Longrightarrow> json_utf8 (JObj (obj_put k v m))"
  using set_obj_put [of k v m] by (auto simp: list_all_iff)

lemma json_wf_sint [simp]: "json_wf (JInt (sint (w :: int64)))"
  using sint_ge [of w] sint_lt [of w] by simp

lemma json_wf_sint32 [simp]: "json_wf (JInt (sint (w :: int32)))"
  using sint_ge [of w] sint_lt [of w] by simp

section \<open>The text functions\<close>

record codec =
  js_parse :: "string \<Rightarrow> json option"
  js_dump :: "json \<Rightarrow> string option"

text \<open>\<open>json::parse\<close> throws \<open>parse_error\<close>; \<open>dump\<close> throws \<open>type_error\<close> (316) on a string that is not UTF-8.\<close>

definition parse :: "codec \<Rightarrow> string \<Rightarrow> json res" where
  "parse c s = (case js_parse c s of Some j \<Rightarrow> Inr j | None \<Rightarrow> Inl (Throw Parse_error))"

definition dump :: "codec \<Rightarrow> json \<Rightarrow> string res" where
  "dump c j = (case js_dump c j of Some s \<Rightarrow> Inr s | None \<Rightarrow> Inl (Throw Type_error))"

text \<open>
  What the program relies on: dumped text parses back to the value, dumping fails exactly on
  invalid UTF-8, and a string of a parsed value is shorter than the text it was parsed from.
\<close>

locale json_codec =
  fixes c :: codec
  assumes parse_dump: "json_wf j \<Longrightarrow> js_dump c j = Some s \<Longrightarrow> js_parse c s = Some j"
    and dump_defined: "json_wf j \<Longrightarrow> (\<exists>s. js_dump c j = Some s) \<longleftrightarrow> json_utf8 j"
    and parse_shorter: "js_parse c s = Some j \<Longrightarrow> t \<in> set (json_strings j) \<Longrightarrow> length t < length s"
begin

lemma dump_ok:
  assumes "json_wf j" "json_utf8 j"
  obtains s where "dump c j = Inr s" "parse c s = Inr j"
  using assms dump_defined [of j] parse_dump [of j] by (auto simp: dump_def parse_def)

lemma dump_bad: "json_wf j \<Longrightarrow> \<not> json_utf8 j \<Longrightarrow> dump c j = Inl (Throw Type_error)"
  using dump_defined [of j] by (auto simp: dump_def split: option.splits)

lemma parse_of_dump: "json_wf j \<Longrightarrow> dump c j = Inr s \<Longrightarrow> parse c s = Inr j"
  using parse_dump [of j s] by (auto simp: dump_def parse_def split: option.splits)

lemma dump_Inr_utf8: "json_wf j \<Longrightarrow> dump c j = Inr s \<Longrightarrow> json_utf8 j"
  using dump_bad [of j] by force

lemma parse_string_shorter: "parse c s = Inr j \<Longrightarrow> t \<in> set (json_strings j) \<Longrightarrow> length t < length s"
  using parse_shorter [of s j t] by (auto simp: parse_def split: option.splits)

end

end
