(* ===== verification/Json_Text.thy ===== *)
theory Json_Text
  imports Json
begin

text \<open>
  A concrete JSON text codec: the compact printer of the library (keys in order, the short
  escapes, control characters as \<open>\u00xx\<close>, no other escape, no text for a value with invalid
  UTF-8) and a recursive-descent parser with white space and every escape. It reads every JSON text
  whose numbers are integers. It satisfies the laws of \<open>json_codec\<close>: the round trip between printer
  and parser is proved here, and the interpretation at the end makes the locale's facts available.
\<close>

section \<open>Printer\<close>

definition hex_digit :: "nat \<Rightarrow> char" where
  "hex_digit n = (if n < 10 then char_of (48 + n) else char_of (87 + n))"

definition esc_char :: "char \<Rightarrow> string" where
  "esc_char c =
     (if c = CHR 0x22 then [CHR 0x5C, CHR 0x22]
      else if c = CHR 0x5C then [CHR 0x5C, CHR 0x5C]
      else if c = CHR 0x08 then [CHR 0x5C, CHR ''b'']
      else if c = CHR 0x09 then [CHR 0x5C, CHR ''t'']
      else if c = CHR 0x0A then [CHR 0x5C, CHR ''n'']
      else if c = CHR 0x0C then [CHR 0x5C, CHR ''f'']
      else if c = CHR 0x0D then [CHR 0x5C, CHR ''r'']
      else if of_char c < (32::nat) then
        [CHR 0x5C, CHR ''u'', CHR ''0'', CHR ''0'', hex_digit (of_char c div 16), hex_digit (of_char c mod 16)]
      else [c])"

definition str_text :: "string \<Rightarrow> string" where
  "str_text s = CHR 0x22 # concat (map esc_char s) @ [CHR 0x22]"

fun json_text :: "json \<Rightarrow> string"
  and elems_text :: "json list \<Rightarrow> string"
  and mems_text :: "(string \<times> json) list \<Rightarrow> string" where
  "json_text JNull = ''null''"
| "json_text (JBool b) = (if b then ''true'' else ''false'')"
| "json_text (JInt n) = int_to_string n"
| "json_text (JFloat m e) = ''null''"
| "json_text (JStr s) = str_text s"
| "json_text (JArr js) = CHR ''['' # elems_text js @ '']''"
| "json_text (JObj m) = CHR ''{'' # mems_text m @ ''}''"
| "elems_text [] = []"
| "elems_text (j # js) = json_text j @ (case js of [] \<Rightarrow> [] | _ \<Rightarrow> CHR '','' # elems_text js)"
| "mems_text [] = []"
| "mems_text ((k, v) # m) =
     str_text k @ CHR '':'' # json_text v @ (case m of [] \<Rightarrow> [] | _ \<Rightarrow> CHR '','' # mems_text m)"

section \<open>Parser\<close>

definition js_space :: "char \<Rightarrow> bool" where
  "js_space c \<longleftrightarrow> c = CHR 0x20 \<or> c = CHR 0x09 \<or> c = CHR 0x0A \<or> c = CHR 0x0D"

definition skip_ws :: "string \<Rightarrow> string" where
  "skip_ws s = dropWhile js_space s"

definition hex_val :: "char \<Rightarrow> nat option" where
  "hex_val c = (let n = of_char c in
     if 48 \<le> n \<and> n \<le> 57 then Some (n - 48)
     else if 97 \<le> n \<and> n \<le> 102 then Some (n - 87)
     else if 65 \<le> n \<and> n \<le> 70 then Some (n - 55) else None)"

definition hex4 :: "char \<Rightarrow> char \<Rightarrow> char \<Rightarrow> char \<Rightarrow> nat option" where
  "hex4 a b c d = (case (hex_val a, hex_val b, hex_val c, hex_val d) of
     (Some i, Some j, Some k, Some l) \<Rightarrow> Some (i * 4096 + j * 256 + k * 16 + l) | _ \<Rightarrow> None)"

definition utf8_encode :: "nat \<Rightarrow> string" where
  "utf8_encode n =
     (if n < 128 then [char_of n]
      else if n < 2048 then [char_of (192 + n div 64), char_of (128 + n mod 64)]
      else if n < 65536 then
        [char_of (224 + n div 4096), char_of (128 + n div 64 mod 64), char_of (128 + n mod 64)]
      else [char_of (240 + n div 262144), char_of (128 + n div 4096 mod 64),
            char_of (128 + n div 64 mod 64), char_of (128 + n mod 64)])"

definition short_esc :: "char \<Rightarrow> char option" where
  "short_esc e =
     (if e = CHR 0x22 \<or> e = CHR 0x5C \<or> e = CHR ''/'' then Some e
      else if e = CHR ''b'' then Some (CHR 0x08)
      else if e = CHR ''t'' then Some (CHR 0x09)
      else if e = CHR ''n'' then Some (CHR 0x0A)
      else if e = CHR ''f'' then Some (CHR 0x0C)
      else if e = CHR ''r'' then Some (CHR 0x0D)
      else None)"

definition prefix_str :: "string \<Rightarrow> (string \<times> string) option \<Rightarrow> (string \<times> string) option" where
  "prefix_str p o' = map_option (\<lambda>(t, r). (p @ t, r)) o'"

text \<open>The rest of a string after its opening quote: its value and the text after it.\<close>

fun p_str :: "string \<Rightarrow> (string \<times> string) option" where
  "p_str [] = None"
| "p_str (c # r) =
     (if c = CHR 0x22 then Some ([], r)
      else if c = CHR 0x5C then
        (case r of
           [] \<Rightarrow> None
         | e # r1 \<Rightarrow>
             if e = CHR ''u'' then
               (case r1 of
                  h1 # h2 # h3 # h4 # r2 \<Rightarrow>
                    (case hex4 h1 h2 h3 h4 of
                       None \<Rightarrow> None
                     | Some n \<Rightarrow>
                         if 55296 \<le> n \<and> n < 56320 then
                           (case r2 of
                              bs # u # g1 # g2 # g3 # g4 # r3 \<Rightarrow>
                                (case hex4 g1 g2 g3 g4 of
                                   None \<Rightarrow> None
                                 | Some m \<Rightarrow>
                                     if bs = CHR 0x5C \<and> u = CHR ''u'' \<and> 56320 \<le> m \<and> m < 57344
                                     then prefix_str (utf8_encode (65536 + (n - 55296) * 1024 + (m - 56320))) (p_str r3)
                                     else None)
                            | _ \<Rightarrow> None)
                         else if 56320 \<le> n \<and> n < 57344 then None
                         else prefix_str (utf8_encode n) (p_str r2))
                | _ \<Rightarrow> None)
             else (case short_esc e of
                     None \<Rightarrow> None
                   | Some x \<Rightarrow> prefix_str [x] (p_str r1)))
      else if of_char c < (32::nat) then None
      else prefix_str [c] (p_str r))"

text \<open>A quoted string at the head of the text; its bytes must be UTF-8.\<close>

definition p_quoted :: "string \<Rightarrow> (string \<times> string) option" where
  "p_quoted s = (case s of
       [] \<Rightarrow> None
     | c # r \<Rightarrow>
         if c = CHR 0x22 then
           (case p_str r of None \<Rightarrow> None | Some (t, r') \<Rightarrow> if utf8_ok t then Some (t, r') else None)
         else None)"

definition p_lit :: "string \<Rightarrow> json \<Rightarrow> string \<Rightarrow> (json \<times> string) option" where
  "p_lit l v s = (if take (length l) s = l then Some (v, drop (length l) s) else None)"

definition mk_num :: "int \<Rightarrow> json" where
  "mk_num n = (if - (2 ^ 63) \<le> n \<and> n < 2 ^ 64 then JInt n else JFloat n 0)"

definition p_nat :: "string \<Rightarrow> (nat \<times> string) option" where
  "p_nat s = (let ds = takeWhile is_digit s; r = dropWhile is_digit s in
     if ds = [] \<or> (hd ds = CHR ''0'' \<and> length ds > 1) \<or> (r \<noteq> [] \<and> hd r \<in> {CHR ''.'', CHR ''e'', CHR ''E''})
     then None else Some (digits_value ds, r))"

definition p_num :: "string \<Rightarrow> (json \<times> string) option" where
  "p_num s = (case s of
       [] \<Rightarrow> None
     | c # r \<Rightarrow>
         if c = CHR ''-'' then map_option (\<lambda>(n, r'). (mk_num (- int n), r')) (p_nat r)
         else map_option (\<lambda>(n, r'). (mk_num (int n), r')) (p_nat s))"

definition mk_obj :: "(string \<times> json) list \<Rightarrow> json" where
  "mk_obj kvs = JObj (foldl (\<lambda>m (k, v). obj_put k v m) [] kvs)"

fun p_val :: "nat \<Rightarrow> string \<Rightarrow> (json \<times> string) option"
  and p_elems :: "nat \<Rightarrow> string \<Rightarrow> (json list \<times> string) option"
  and p_mems :: "nat \<Rightarrow> string \<Rightarrow> ((string \<times> json) list \<times> string) option" where
  "p_val 0 s = None"
| "p_val (Suc f) s =
     (case skip_ws s of
        [] \<Rightarrow> None
      | c # r \<Rightarrow>
          if c = CHR 0x22 then map_option (\<lambda>(t, r'). (JStr t, r')) (p_quoted (c # r))
          else if c = CHR ''['' then
            (case skip_ws r of
               [] \<Rightarrow> None
             | d # r' \<Rightarrow>
                 if d = CHR '']'' then Some (JArr [], r')
                 else map_option (\<lambda>(js, r''). (JArr js, r'')) (p_elems f r))
          else if c = CHR ''{'' then
            (case skip_ws r of
               [] \<Rightarrow> None
             | d # r' \<Rightarrow>
                 if d = CHR ''}'' then Some (JObj [], r')
                 else map_option (\<lambda>(m, r''). (mk_obj m, r'')) (p_mems f r))
          else if c = CHR ''n'' then p_lit ''null'' JNull (c # r)
          else if c = CHR ''t'' then p_lit ''true'' (JBool True) (c # r)
          else if c = CHR ''f'' then p_lit ''false'' (JBool False) (c # r)
          else p_num (c # r))"
| "p_elems 0 s = None"
| "p_elems (Suc f) s =
     (case p_val f s of
        None \<Rightarrow> None
      | Some (j, r) \<Rightarrow>
          (case skip_ws r of
             [] \<Rightarrow> None
           | d # r' \<Rightarrow>
               if d = CHR '']'' then Some ([j], r')
               else if d = CHR '','' then map_option (\<lambda>(js, r''). (j # js, r'')) (p_elems f r')
               else None))"
| "p_mems 0 s = None"
| "p_mems (Suc f) s =
     (case p_quoted (skip_ws s) of
        None \<Rightarrow> None
      | Some (k, r1) \<Rightarrow>
          (case skip_ws r1 of
             [] \<Rightarrow> None
           | d # r2 \<Rightarrow>
               if d = CHR '':'' then
                 (case p_val f r2 of
                    None \<Rightarrow> None
                  | Some (v, r3) \<Rightarrow>
                      (case skip_ws r3 of
                         [] \<Rightarrow> None
                       | d' # r4 \<Rightarrow>
                           if d' = CHR ''}'' then Some ([(k, v)], r4)
                           else if d' = CHR '','' then map_option (\<lambda>(m, r5). ((k, v) # m, r5)) (p_mems f r4)
                           else None))
               else None))"

definition parse_text :: "string \<Rightarrow> json option" where
  "parse_text s = (case p_val (Suc (length s)) s of
       Some (j, r) \<Rightarrow> if skip_ws r = [] then Some j else None
     | None \<Rightarrow> None)"

definition dump_text :: "json \<Rightarrow> string option" where
  "dump_text j = (if json_utf8 j then Some (json_text j) else None)"

definition text_codec :: codec where
  "text_codec = \<lparr>js_parse = parse_text, js_dump = dump_text\<rparr>"

section \<open>The parser inverts the printer\<close>

lemma hex_digit_val:
  assumes "n < 16"
  shows "hex_val (hex_digit n) = Some n"
  using assms by (auto simp: hex_val_def hex_digit_def Let_def)

lemma p_str_esc_char: "p_str (esc_char c @ r) = prefix_str [c] (p_str r)"
proof -
  let ?n = "of_char c :: nat"
  consider "c = CHR 0x22" | "c = CHR 0x5C" | "c = CHR 0x08" | "c = CHR 0x09" | "c = CHR 0x0A"
    | "c = CHR 0x0C" | "c = CHR 0x0D"
    | "c \<noteq> CHR 0x22" "c \<noteq> CHR 0x5C" "c \<noteq> CHR 0x08" "c \<noteq> CHR 0x09" "c \<noteq> CHR 0x0A" "c \<noteq> CHR 0x0C"
      "c \<noteq> CHR 0x0D"
    by blast
  then show ?thesis
  proof cases
    case 8
    show ?thesis
    proof (cases "?n < 32")
      case True
      have "hex_val (CHR ''0'') = Some 0" by (simp add: hex_val_def)
      then have "hex4 (CHR ''0'') (CHR ''0'') (hex_digit (?n div 16)) (hex_digit (?n mod 16)) = Some ?n"
        using True hex_digit_val [of "?n div 16"] hex_digit_val [of "?n mod 16"] by (simp add: hex4_def)
      moreover have "utf8_encode ?n = [c]" using True by (simp add: utf8_encode_def)
      ultimately show ?thesis using 8 True by (simp add: esc_char_def)
    next
      case False
      with 8 show ?thesis by (simp add: esc_char_def)
    qed
  qed (simp_all add: esc_char_def short_esc_def)
qed

lemma p_str_escaped: "p_str (concat (map esc_char s) @ CHR 0x22 # r) = Some (s, r)"
  by (induction s) (simp_all add: p_str_esc_char prefix_str_def del: p_str.simps(2), simp)

lemma p_quoted_str_text [simp]: "utf8_ok s \<Longrightarrow> p_quoted (str_text s @ r) = Some (s, r)"
  by (simp add: p_quoted_def str_text_def p_str_escaped del: p_str.simps)

lemma nat_digits_zero: "nat_digits n = c # r \<Longrightarrow> c = CHR ''0'' \<Longrightarrow> r = []"
proof (induction n arbitrary: r rule: nat_digits.induct)
  case (1 n)
  show ?case
  proof (cases "n < 10")
    case True
    with 1(2) show ?thesis by (simp add: nat_digits.simps [of n])
  next
    case False
    have eq: "nat_digits n = nat_digits (n div 10) @ [digit_char (n mod 10)]"
      using False by (subst nat_digits.simps) simp
    obtain d r' where d: "nat_digits (n div 10) = d # r'" by (rule nat_digits_Cons)
    with eq 1(2) have "d = c" by simp
    with d 1 False have "r' = []" by blast
    with d have "digits_value [c] = n div 10"
      using \<open>d = c\<close> digits_value_nat_digits [of "n div 10"] by simp
    with 1(3) have "n div 10 = 0" by (simp add: digits_value_def digit_val_def)
    with False show ?thesis by simp
  qed
qed

text \<open>What may follow a value: the end, white space or a closing or separating character.\<close>

definition stops :: "string \<Rightarrow> bool" where
  "stops r \<longleftrightarrow> (r = [] \<or> hd r \<in> {CHR '','', CHR '']'', CHR ''}''})"

lemma stops_simps [simp]:
  "stops []" "stops (CHR '','' # r)" "stops (CHR '']'' # r)" "stops (CHR ''}'' # r)"
  by (simp_all add: stops_def)

lemma p_nat_digits:
  assumes "stops r"
  shows "p_nat (nat_digits n @ r) = Some (n, r)"
proof -
  have r: "takeWhile is_digit r = []" "dropWhile is_digit r = r"
    using assms by (cases r; auto simp: stops_def is_digit_def)+
  have ds: "takeWhile is_digit (nat_digits n @ r) = nat_digits n" "dropWhile is_digit (nat_digits n @ r) = r"
    using nat_digits_digits [of n] r by (simp_all add: takeWhile_append2 dropWhile_append2)
  have "\<not> (hd (nat_digits n) = CHR ''0'' \<and> length (nat_digits n) > 1)"
    using nat_digits_zero [of n] by (cases "nat_digits n") auto
  with ds assms show ?thesis by (auto simp: p_nat_def Let_def stops_def)
qed

lemma p_num_int:
  assumes "stops r" "- (2 ^ 63) \<le> n" "n < 2 ^ 64"
  shows "p_num (int_to_string n @ r) = Some (JInt n, r)"
proof (cases "n < 0")
  case True
  then show ?thesis
    using assms p_nat_digits [OF assms(1), of "nat (- n)"]
    by (simp add: p_num_def int_to_string_def mk_num_def)
next
  case False
  obtain d s where d: "nat_digits (nat n) = d # s" "is_digit d" by (rule nat_digits_Cons)
  then have "d \<noteq> CHR ''-''" using digit_not_space_sign by blast
  with False d(1) show ?thesis
    using assms p_nat_digits [OF assms(1), of "nat n"]
    by (simp add: p_num_def int_to_string_def mk_num_def)
qed

lemma skip_ws_Cons: "\<not> js_space c \<Longrightarrow> skip_ws (c # r) = c # r"
  by (simp add: skip_ws_def)

lemma skip_ws_lits [simp]:
  "skip_ws [] = []"
  "skip_ws (CHR 0x22 # r) = CHR 0x22 # r" "skip_ws (CHR ''['' # r) = CHR ''['' # r"
  "skip_ws (CHR ''{'' # r) = CHR ''{'' # r" "skip_ws (CHR '']'' # r) = CHR '']'' # r"
  "skip_ws (CHR ''}'' # r) = CHR ''}'' # r" "skip_ws (CHR '','' # r) = CHR '','' # r"
  "skip_ws (CHR '':'' # r) = CHR '':'' # r" "skip_ws (CHR ''n'' # r) = CHR ''n'' # r"
  "skip_ws (CHR ''t'' # r) = CHR ''t'' # r" "skip_ws (CHR ''f'' # r) = CHR ''f'' # r"
  by (simp_all add: skip_ws_def js_space_def)

lemma skip_ws_str_text [simp]: "skip_ws (str_text s @ r) = str_text s @ r"
  by (simp add: str_text_def)

lemma int_to_string_head:
  obtains d s where "int_to_string n = d # s" "d = CHR ''-'' \<or> is_digit d"
proof (cases "n < 0")
  case True
  with that show ?thesis by (simp add: int_to_string_def)
next
  case False
  obtain d s where "nat_digits (nat n) = d # s" "is_digit d" by (rule nat_digits_Cons)
  with False that show ?thesis by (simp add: int_to_string_def)
qed

lemma p_val_int:
  assumes "stops r" "- (2 ^ 63) \<le> n" "n < 2 ^ 64"
  shows "p_val (Suc f) (int_to_string n @ r) = Some (JInt n, r)"
proof -
  obtain d s where d: "int_to_string n = d # s" and h: "d = CHR ''-'' \<or> is_digit d"
    by (rule int_to_string_head)
  from h have "\<not> js_space d \<and> d \<noteq> CHR 0x22 \<and> d \<noteq> CHR ''['' \<and> d \<noteq> CHR ''{'' \<and> d \<noteq> CHR ''n''
      \<and> d \<noteq> CHR ''t'' \<and> d \<noteq> CHR ''f''"
    by (auto simp: js_space_def is_digit_def)
  with p_num_int [OF assms] d show ?thesis by (simp add: skip_ws_Cons)
qed

lemma json_text_head:
  assumes "json_wf j"
  obtains c s where "json_text j = c # s" "\<not> js_space c" "c \<noteq> CHR '']''" "c \<noteq> CHR ''}''"
proof (cases j)
  case (JInt n)
  obtain d s where "int_to_string n = d # s" "d = CHR ''-'' \<or> is_digit d"
    by (rule int_to_string_head)
  moreover from this have "\<not> js_space d \<and> d \<noteq> CHR '']'' \<and> d \<noteq> CHR ''}''"
    by (auto simp: js_space_def is_digit_def)
  ultimately show ?thesis using that JInt by simp
next
  case (JBool b)
  with that show ?thesis by (cases b) (auto simp: js_space_def)
qed (use that assms in \<open>auto simp: js_space_def str_text_def split: if_splits\<close>)

lemma p_lit_simps [simp]:
  "p_lit ''null'' v (CHR ''n'' # CHR ''u'' # CHR ''l'' # CHR ''l'' # r) = Some (v, r)"
  "p_lit ''true'' v (CHR ''t'' # CHR ''r'' # CHR ''u'' # CHR ''e'' # r) = Some (v, r)"
  "p_lit ''false'' v (CHR ''f'' # CHR ''a'' # CHR ''l'' # CHR ''s'' # CHR ''e'' # r) = Some (v, r)"
  by (simp_all add: p_lit_def)

text \<open>An object built from members in order is that object.\<close>

lemma obj_put_last:
  "\<forall>kv \<in> set m. fst kv < k \<Longrightarrow> obj_put k v m = m @ [(k, v)]"
proof (induction k v m rule: obj_put.induct)
  case (2 k v k' v' m)
  then have "k' < k" by simp
  then have "k \<noteq> k'" "\<not> k < k'" by auto
  with 2 show ?case by simp
qed simp

lemma mk_obj_sorted: "obj_sorted m \<Longrightarrow> mk_obj m = JObj m"
proof -
  have "obj_sorted (p @ m) \<Longrightarrow> foldl (\<lambda>m (k, v). obj_put k v m) p m = p @ m" for p
  proof (induction m arbitrary: p)
    case (Cons kv m)
    obtain k v where kv: "kv = (k, v)" by force
    have "\<forall>x \<in> set p. fst x < k"
      using Cons.prems kv by (auto simp: obj_sorted_def sorted_wrt_append)
    then have "obj_put k v p = p @ [(k, v)]" by (rule obj_put_last)
    with Cons kv show ?case by simp
  qed simp
  from this [of "[]"] show "obj_sorted m \<Longrightarrow> mk_obj m = JObj m" by (simp add: mk_obj_def)
qed

lemma obj_sorted_ConsD: "obj_sorted (kv # m) \<Longrightarrow> obj_sorted m"
  by (simp add: obj_sorted_def)

lemma json_text_nonempty: "json_wf j \<Longrightarrow> 1 \<le> length (json_text j)"
  by (rule json_text_head [of j]) auto

text \<open>One level of the parser on the text of one level of a value, given what it does below.\<close>

lemma p_val_arr:
  assumes "json_wf (JArr js)" "js \<noteq> [] \<Longrightarrow> p_elems f (elems_text js @ CHR '']'' # r) = Some (js, r)"
  shows "p_val (Suc f) (json_text (JArr js) @ r) = Some (JArr js, r)"
proof (cases js)
  case (Cons j js')
  have "json_wf j" using assms(1) Cons by simp
  then obtain c s where "json_text j = c # s" "\<not> js_space c" "c \<noteq> CHR '']''"
    by (rule json_text_head)
  with assms(2) Cons show ?thesis by (simp add: skip_ws_Cons)
qed simp

lemma p_val_obj:
  assumes "json_wf (JObj m)" "m \<noteq> [] \<Longrightarrow> p_mems f (mems_text m @ CHR ''}'' # r) = Some (m, r)"
  shows "p_val (Suc f) (json_text (JObj m) @ r) = Some (JObj m, r)"
proof (cases m)
  case (Cons kv m')
  have "mk_obj m = JObj m" using assms(1) by (simp add: mk_obj_sorted)
  moreover obtain s where "mems_text m = CHR 0x22 # s"
    using Cons by (cases kv) (simp add: str_text_def)
  ultimately show ?thesis using assms(2) Cons by simp
qed simp

lemma p_elems_Cons:
  assumes "\<And>q. stops q \<Longrightarrow> p_val f (json_text j @ q) = Some (j, q)"
    and "js \<noteq> [] \<Longrightarrow> p_elems f (elems_text js @ CHR '']'' # r) = Some (js, r)"
  shows "p_elems (Suc f) (elems_text (j # js) @ CHR '']'' # r) = Some (j # js, r)"
  using assms(1) [of "CHR '']'' # r"] assms(1) [of "CHR '','' # elems_text js @ CHR '']'' # r"] assms(2)
  by (cases js) simp_all

lemma p_mems_Cons:
  assumes "utf8_ok k" "\<And>q. stops q \<Longrightarrow> p_val f (json_text v @ q) = Some (v, q)"
    and "m \<noteq> [] \<Longrightarrow> p_mems f (mems_text m @ CHR ''}'' # r) = Some (m, r)"
  shows "p_mems (Suc f) (mems_text ((k, v) # m) @ CHR ''}'' # r) = Some ((k, v) # m, r)"
  using assms(1) assms(2) [of "CHR ''}'' # r"] assms(2) [of "CHR '','' # mems_text m @ CHR ''}'' # r"] assms(3)
  by (cases m) simp_all

lemma p_val_json_text:
  "json_wf j \<Longrightarrow> json_utf8 j \<Longrightarrow> stops r \<Longrightarrow> length (json_text j) \<le> f
     \<Longrightarrow> p_val f (json_text j @ r) = Some (j, r)"
  "js \<noteq> [] \<Longrightarrow> list_all json_wf js \<Longrightarrow> list_all json_utf8 js \<Longrightarrow> length (elems_text js) < f
     \<Longrightarrow> p_elems f (elems_text js @ CHR '']'' # r) = Some (js, r)"
  "m \<noteq> [] \<Longrightarrow> list_all (\<lambda>kv. json_wf (snd kv)) m \<Longrightarrow> list_all (\<lambda>kv. utf8_ok (fst kv) \<and> json_utf8 (snd kv)) m
     \<Longrightarrow> length (mems_text m) < f \<Longrightarrow> p_mems f (mems_text m @ CHR ''}'' # r) = Some (m, r)"
proof (induction j and js and m arbitrary: f r and f r and f r rule: json_text_elems_text_mems_text.induct)
  case (6 js)
  then obtain f' where f: "f = Suc f'" by (cases f) auto
  show ?case unfolding f by (rule p_val_arr [OF 6(2)], rule 6(1)) (use 6 f in auto)
next
  case (7 m)
  then obtain f' where f: "f = Suc f'" by (cases f) auto
  show ?case unfolding f by (rule p_val_obj [OF 7(2)], rule 7(1)) (use 7 f in auto)
next
  case (9 j js)
  then obtain f' where f: "f = Suc f'" by (cases f) auto
  have w: "json_wf j" "json_utf8 j" "list_all json_wf js" "list_all json_utf8 js" using 9(4,5) by simp_all
  have l: "length (json_text j) \<le> f'" using 9(6) f by (cases js) simp_all
  have m: "length (elems_text js) < f'" if "js \<noteq> []" using 9(6) f that by (cases js) simp_all
  show ?case unfolding f by (rule p_elems_Cons [OF 9(1) 9(2) [of "hd js" "tl js"]]) (use w l m in simp_all)
next
  case (11 k v m)
  then obtain f' where f: "f = Suc f'" by (cases f) auto
  have w: "utf8_ok k" "json_wf v" "json_utf8 v" "list_all (\<lambda>kv. json_wf (snd kv)) m"
      "list_all (\<lambda>kv. utf8_ok (fst kv) \<and> json_utf8 (snd kv)) m" using 11(4,5) by simp_all
  have l: "length (json_text v) \<le> f'" using 11(6) f by (cases m) simp_all
  have n: "length (mems_text m) < f'" if "m \<noteq> []" using 11(6) f that by (cases m) (simp_all add: str_text_def)
  show ?case unfolding f by (rule p_mems_Cons [OF w(1) 11(1) 11(2) [of "hd m" "tl m"]]) (use w(2-) l n in simp_all)
next
  case (3 n)
  then obtain f' where f: "f = Suc f'" by (cases f) (auto simp: int_to_string_def split: if_splits)
  then show ?case using 3 by (simp add: p_val_int del: p_val.simps)
next
  case (5 s)
  then obtain f' where f: "f = Suc f'" by (cases f) (auto simp: str_text_def)
  moreover obtain s' where "str_text s = CHR 0x22 # s'" by (simp add: str_text_def)
  ultimately show ?case using 5 p_quoted_str_text [of s r] by simp
next
  case 1
  then show ?case by (cases f) auto
next
  case (2 b)
  then show ?case by (cases f; cases b) auto
qed auto

lemma parse_dump_text:
  assumes "json_wf j" "dump_text j = Some s"
  shows "parse_text s = Some j"
proof -
  have u: "json_utf8 j" and s: "s = json_text j"
    using assms(2) by (auto simp: dump_text_def split: if_splits)
  have "p_val (Suc (length s)) (s @ []) = Some (j, [])"
    unfolding s by (rule p_val_json_text) (use assms(1) u in auto)
  then show ?thesis by (simp add: parse_text_def del: p_val.simps)
qed

section \<open>Strings of a parsed value are shorter than its text\<close>

lemma length_utf8_encode:
  "length (utf8_encode n) \<le> 4" "n < 65536 \<Longrightarrow> length (utf8_encode n) \<le> 3"
  by (simp_all add: utf8_encode_def)

lemma prefix_str_Some: "prefix_str p o' = Some (t, r) \<longleftrightarrow> (\<exists>t'. o' = Some (t', r) \<and> t = p @ t')"
  by (auto simp: prefix_str_def)

lemma hex_val_lt: "hex_val c = Some n \<Longrightarrow> n < 16"
  by (auto simp: hex_val_def Let_def split: if_splits)

lemma hex4_lt: "hex4 a b c d = Some n \<Longrightarrow> n < 65536"
  by (auto simp: hex4_def split: option.splits dest!: hex_val_lt)

lemma length_p_str: "p_str s = Some (t, r) \<Longrightarrow> length t + length r < length s"
proof (induction s arbitrary: t r rule: length_induct)
  case (1 s)
  have IH: "length u < length s \<Longrightarrow> p_str u = Some (t', r) \<Longrightarrow> length t' + length r < length u" for u t'
    using 1(1) by blast
  have enc: "k + l + 4 < m \<Longrightarrow> length (utf8_encode n) + k + l < m" for n k l m
    using length_utf8_encode(1) [of n] by linarith
  have enc3: "hex4 a b c d = Some n \<Longrightarrow> length (utf8_encode n) \<le> 3" for a b c d n
    using length_utf8_encode(2) hex4_lt by blast
  show ?case
  proof (cases s)
    case Nil
    with 1(2) show ?thesis by simp
  next
    case (Cons c s')
    with 1(2) show ?thesis
      by (auto simp: prefix_str_Some split: if_splits list.splits option.splits
               dest!: IH [rotated] intro!: enc dest: enc3)
  qed
qed

lemma length_p_quoted: "p_quoted s = Some (t, r) \<Longrightarrow> length t + length r < length s"
  by (auto simp: p_quoted_def dest!: length_p_str split: list.splits if_splits option.splits)

lemma length_skip_ws: "length (skip_ws s) \<le> length s"
  by (simp add: skip_ws_def length_dropWhile_le)

lemma skip_ws_ConsD: "skip_ws s = c # r \<Longrightarrow> length r < length s"
  using length_skip_ws [of s] by simp

lemma length_p_nat: "p_nat s = Some (n, r) \<Longrightarrow> length r < length s"
proof -
  assume a: "p_nat s = Some (n, r)"
  then have "r = dropWhile is_digit s" "takeWhile is_digit s \<noteq> []"
    by (auto simp: p_nat_def Let_def split: if_splits)
  moreover have "length s = length (takeWhile is_digit s) + length (dropWhile is_digit s)"
    by (metis length_append takeWhile_dropWhile_id)
  ultimately show ?thesis by simp
qed

lemma length_p_num:
  assumes "p_num s = Some (j, r)"
  shows "length r < length s" "json_strings j = []"
  using assms length_p_nat [of s] length_p_nat [of "tl s"]
  by (auto simp: p_num_def mk_num_def less_Suc_eq split: list.splits if_splits)

lemma length_p_lit: "p_lit l v s = Some (j, r) \<Longrightarrow> l \<noteq> [] \<Longrightarrow> j = v \<and> length r < length s"
  by (cases s) (auto simp: p_lit_def take_Cons' split: if_splits)

lemma set_mk_obj: "mk_obj kvs = JObj m \<Longrightarrow> set m \<subseteq> set kvs"
proof -
  have "set (foldl (\<lambda>m (k, v). obj_put k v m) p kvs) \<subseteq> set p \<union> set kvs" for p
  proof (induction kvs arbitrary: p)
    case (Cons kv kvs)
    then show ?case using set_obj_put by (cases kv) fastforce
  qed simp
  from this [of "[]"] show "mk_obj kvs = JObj m \<Longrightarrow> set m \<subseteq> set kvs" by (auto simp: mk_obj_def)
qed

text \<open>The strings of a member list, and what a parse leaves of its text.\<close>

definition mem_strings :: "(string \<times> json) list \<Rightarrow> string list" where
  "mem_strings m = concat (map (\<lambda>kv. fst kv # json_strings (snd kv)) m)"

lemma strings_mk_obj: "set (json_strings (mk_obj kvs)) \<subseteq> set (mem_strings kvs)"
proof -
  obtain m where m: "mk_obj kvs = JObj m" by (simp add: mk_obj_def)
  show ?thesis using set_mk_obj [OF m] by (auto simp: m mem_strings_def)
qed

definition within :: "string list \<Rightarrow> string \<Rightarrow> string \<Rightarrow> bool" where
  "within ts r s \<longleftrightarrow> length r < length s \<and> (\<forall>t \<in> set ts. length t + length r < length s)"

lemma within_mono: "within ts r s \<Longrightarrow> set us \<subseteq> set ts \<Longrightarrow> length r' \<le> length r \<Longrightarrow> length s \<le> length s' \<Longrightarrow> within us r' s'"
  by (force simp: within_def)

lemma within_Nil [simp]: "within [] r s \<longleftrightarrow> length r < length s"
  by (simp add: within_def)

lemma within_append: "within ts r s \<Longrightarrow> within us q r \<Longrightarrow> within (ts @ us) q s"
  by (force simp: within_def)

text \<open>One level of the parser, given what holds below.\<close>

lemma p_val_within_Suc:
  assumes "\<And>q js. p_elems f q = Some (js, r) \<Longrightarrow> within (concat (map json_strings js)) r q"
    and "\<And>q m. p_mems f q = Some (m, r) \<Longrightarrow> within (mem_strings m) r q"
    and v: "p_val (Suc f) s = Some (j, r)"
  shows "within (json_strings j) r s"
proof (cases "skip_ws s")
  case (Cons c q)
  have l: "Suc (length q) \<le> length s" using skip_ws_ConsD [OF Cons] by simp
  consider (str) "c = CHR 0x22" | (arr) "c = CHR ''[''" | (obj) "c = CHR ''{''"
    | (other) "c \<noteq> CHR 0x22" "c \<noteq> CHR ''[''" "c \<noteq> CHR ''{''" by blast
  then show ?thesis
  proof cases
    case str
    with v Cons l show ?thesis by (auto simp: within_def dest!: length_p_quoted)
  next
    case arr
    obtain d q' where q: "skip_ws q = d # q'" using v Cons arr by (cases "skip_ws q") auto
    show ?thesis
      using v Cons arr q l skip_ws_ConsD [OF q] by (auto elim!: within_mono [OF assms(1)] split: if_splits)
  next
    case obj
    obtain d q' where q: "skip_ws q = d # q'" using v Cons obj by (cases "skip_ws q") auto
    show ?thesis
      using v Cons obj q l skip_ws_ConsD [OF q] strings_mk_obj by (auto elim!: within_mono [OF assms(2)] split: if_splits)
  next
    case other
    with v Cons l show ?thesis
      using length_p_num [of "c # q" j r] by (auto dest!: length_p_lit split: if_splits)
  qed
qed (use v in simp)

lemma p_elems_within_Suc:
  assumes "\<And>j r s. p_val f s = Some (j, r) \<Longrightarrow> within (json_strings j) r s"
    and "\<And>q js. p_elems f q = Some (js, r) \<Longrightarrow> within (concat (map json_strings js)) r q"
    and e: "p_elems (Suc f) s = Some (js, r)"
  shows "within (concat (map json_strings js)) r s"
proof -
  obtain j q where v: "p_val f s = Some (j, q)" using e by (auto split: option.splits)
  obtain d q' where q: "skip_ws q = d # q'" using e v by (cases "skip_ws q") auto
  have w: "within (json_strings j) q' s"
    using assms(1) [OF v] skip_ws_ConsD [OF q] by (auto elim: within_mono)
  show ?thesis
    using e v q w within_append [OF w assms(2)] by (auto split: if_splits)
qed

lemma p_mems_within_Suc:
  assumes "\<And>j r s. p_val f s = Some (j, r) \<Longrightarrow> within (json_strings j) r s"
    and "\<And>q m. p_mems f q = Some (m, r) \<Longrightarrow> within (mem_strings m) r q"
    and e: "p_mems (Suc f) s = Some (m, r)"
  shows "within (mem_strings m) r s"
proof -
  obtain k q1 where k: "p_quoted (skip_ws s) = Some (k, q1)" using e by (auto split: option.splits)
  obtain q2 where q2: "skip_ws q1 = CHR '':'' # q2" using e k by (cases "skip_ws q1") (auto split: if_splits)
  obtain v q3 where v: "p_val f q2 = Some (v, q3)" using e k q2 by (auto split: option.splits)
  obtain d' q4 where q4: "skip_ws q3 = d' # q4" using e k q2 v by (cases "skip_ws q3") auto
  have w1: "within [k] q2 s"
    using length_p_quoted [OF k] length_skip_ws [of s] skip_ws_ConsD [OF q2] by (auto simp: within_def)
  have "within (json_strings v) q4 q2" using assms(1) [OF v] skip_ws_ConsD [OF q4] by (auto elim: within_mono)
  with w1 have w: "within (k # json_strings v) q4 s" using within_append [OF w1] by simp
  show ?thesis
    using e k q2 v q4 w within_append [OF w assms(2)] by (auto simp: mem_strings_def split: if_splits)
qed

lemma p_val_within:
  "p_val f s = Some (j, r) \<Longrightarrow> within (json_strings j) r s"
  "p_elems f s = Some (js, r) \<Longrightarrow> within (concat (map json_strings js)) r s"
  "p_mems f s = Some (m, r) \<Longrightarrow> within (mem_strings m) r s"
proof -
  have "(\<forall>s j r. p_val f s = Some (j, r) \<longrightarrow> within (json_strings j) r s)
    \<and> (\<forall>s js r. p_elems f s = Some (js, r) \<longrightarrow> within (concat (map json_strings js)) r s)
    \<and> (\<forall>s m r. p_mems f s = Some (m, r) \<longrightarrow> within (mem_strings m) r s)"
  proof (induction f)
    case (Suc f)
    show ?case
    proof (intro conjI allI impI)
      show "within (json_strings j) r s" if "p_val (Suc f) s = Some (j, r)" for s j r
        by (rule p_val_within_Suc [OF _ _ that]) (use Suc in blast)+
      show "within (concat (map json_strings js)) r s" if "p_elems (Suc f) s = Some (js, r)" for s js r
        by (rule p_elems_within_Suc [OF _ _ that]) (use Suc in blast)+
      show "within (mem_strings m) r s" if "p_mems (Suc f) s = Some (m, r)" for s m r
        by (rule p_mems_within_Suc [OF _ _ that]) (use Suc in blast)+
    qed
  qed simp
  then show "p_val f s = Some (j, r) \<Longrightarrow> within (json_strings j) r s"
    "p_elems f s = Some (js, r) \<Longrightarrow> within (concat (map json_strings js)) r s"
    "p_mems f s = Some (m, r) \<Longrightarrow> within (mem_strings m) r s" by blast+
qed

lemma parse_text_shorter:
  assumes "parse_text s = Some j" "t \<in> set (json_strings j)"
  shows "length t < length s"
proof -
  obtain r where "p_val (Suc (length s)) s = Some (j, r)"
    using assms(1) by (auto simp: parse_text_def split: option.splits if_splits simp del: p_val.simps)
  then have "within (json_strings j) r s" by (rule p_val_within)
  with assms(2) show ?thesis by (force simp: within_def)
qed

interpretation tc: json_codec text_codec
  by unfold_locales (auto simp: text_codec_def parse_dump_text dump_text_def parse_text_shorter)

end
