(* ===== verification/Protocol.thy ===== *)
theory Protocol
  imports Json_Text
begin

text \<open>
  \<open>web_protocol.h\<close>: the JSON messages between client and server and the frames of the file
  channel. Every message is a JSON object with the members \<open>head\<close>, \<open>version\<close>, \<open>stream\<close>, \<open>type\<close>
  and \<open>extend\<close>; the macro \<open>CS_MAKE_TYPE\<close> makes a pair \<open>set_T\<close>/\<open>get_T\<close> for each of them, which
  are \<open>cs_set\<close> and \<open>cs_get\<close> here. The JSON text functions are the parameter \<open>c\<close>. A \<open>get\<close>
  function returns \<open>None\<close> where the code returns \<open>false\<close>: every caller reads its reference
  parameters only after \<open>true\<close>.
\<close>

section \<open>Message frames\<close>

definition sjson_s :: string where
  "sjson_s = CHR 0x0A # ''        {'' @ CHR 0x0A #
     ''            '' @ [CHR 0x22] @ ''head'' @ [CHR 0x22] @ ''      :'' @ [CHR 0x22, CHR 0x22, CHR '','', CHR 0x0A] @
     ''            '' @ [CHR 0x22] @ ''version'' @ [CHR 0x22] @ ''   :'' @ [CHR 0x22, CHR 0x22, CHR '','', CHR 0x0A] @
     ''            '' @ [CHR 0x22] @ ''stream'' @ [CHR 0x22] @ ''    :'' @ [CHR 0x22, CHR 0x22, CHR '','', CHR 0x0A] @
     ''            '' @ [CHR 0x22] @ ''type'' @ [CHR 0x22] @ ''      :'' @ [CHR 0x22, CHR 0x22, CHR '','', CHR 0x0A] @
     ''            '' @ [CHR 0x22] @ ''extend'' @ [CHR 0x22] @ ''    :{}'' @ [CHR 0x0A] @
     ''        } ''"

definition head_s :: string where "head_s = ''SMCHPRO''"
definition version_s :: string where "version_s = ''1''"
definition cc_s :: string where "cc_s = ''cc''"
definition sc_s :: string where "sc_s = ''sc''"
definition cs_s :: string where "cs_s = ''cs''"

lemmas frame_consts = head_s_def version_s_def cc_s_def sc_s_def cs_s_def

definition make_json :: "codec \<Rightarrow> string \<Rightarrow> string \<Rightarrow> string res" where
  "make_json c stream type =
     rbind (parse c sjson_s) (\<lambda>js.
     rbind (js_assign js ''head'' (JStr head_s)) (\<lambda>js.
     rbind (js_assign js ''version'' (JStr version_s)) (\<lambda>js.
     rbind (js_assign js ''stream'' (JStr stream)) (\<lambda>js.
     rbind (js_assign js ''type'' (JStr type)) (\<lambda>js.
     dump c js)))))"

text \<open>The two members are read through a const reference; \<open>&&\<close> reads the second one last.\<close>

definition check_head :: "json \<Rightarrow> bool res" where
  "check_head js =
     rbind (js_read_const js ''head'') (\<lambda>h.
     if h = JStr head_s
     then rbind (js_read_const js ''version'') (\<lambda>v. Inr (v = JStr version_s))
     else Inr False)"

definition check_json :: "codec \<Rightarrow> string \<Rightarrow> (string \<times> string) option res" where
  "check_json c sjson =
     catch_all
       (rbind (parse c sjson) (\<lambda>js.
        rbind (rbind (js_read js ''stream'') js_string) (\<lambda>stream.
        rbind (rbind (js_read js ''type'') js_string) (\<lambda>type.
        rbind (check_head js) (\<lambda>ok.
        Inr (if ok then Some (stream, type) else None))))))
       (Inr None)"

definition check_swap :: "codec \<Rightarrow> string \<Rightarrow> (int64 \<times> int64) option res" where
  "check_swap c sjson =
     catch_all
       (rbind (parse c sjson) (\<lambda>js.
        rbind (rbind (rbind (js_read js ''extend'') (\<lambda>e. js_read e ''target'')) js_int64) (\<lambda>target.
        rbind (rbind (rbind (js_read js ''extend'') (\<lambda>e. js_read e ''source'')) js_int64) (\<lambda>source.
        Inr (Some (target, source))))))
       (Inr None)"

text \<open>The numbers read before a bad text stay in the vector.\<close>

fun vec_stoi :: "string list \<Rightarrow> int64 list \<Rightarrow> bool \<times> int64 list" where
  "vec_stoi [] vec_int = (True, vec_int)"
| "vec_stoi (a # vec_str) vec_int =
     (case stoll a of
        Inr n \<Rightarrow> vec_stoi vec_str (vec_int @ [n])
      | Inl _ \<Rightarrow> (False, vec_int))"

definition set_extend :: "json \<Rightarrow> string \<Rightarrow> json \<Rightarrow> json res" where
  "set_extend js index v =
     rbind (js_read js ''extend'') (\<lambda>e.
     rbind (js_assign e index v) (\<lambda>e'.
     js_assign js ''extend'' e'))"

definition get_extend :: "(json \<Rightarrow> 'a res) \<Rightarrow> json \<Rightarrow> string \<Rightarrow> 'a res" where
  "get_extend conv js index =
     rbind (rbind (js_read js ''extend'') js_object) (\<lambda>tm.
     conv (case map_of tm index of Some v \<Rightarrow> v | None \<Rightarrow> JNull))"

definition set_json_vec :: "codec \<Rightarrow> string list \<Rightarrow> string res" where
  "set_json_vec c vec =
     catch_all (rbind (js_assign JNull ''vec'' (JArr (map JStr vec))) (\<lambda>js. dump c js)) (Inr [])"

definition get_json_vec :: "codec \<Rightarrow> string \<Rightarrow> string list res" where
  "get_json_vec c sjson =
     catch_all
       (rbind (parse c sjson) (\<lambda>js. rbind (js_read js ''vec'') js_vec_string))
       (Inr [])"

definition set_friends_info_json :: "codec \<Rightarrow> int64 \<Rightarrow> string \<Rightarrow> string \<Rightarrow> string \<Rightarrow> bool \<Rightarrow> string res" where
  "set_friends_info_json c friends nickname icon remarks online =
     catch_all
       (rbind (js_assign JNull ''friends'' (JInt (sint friends))) (\<lambda>js.
        rbind (js_assign js ''nickname'' (JStr nickname)) (\<lambda>js.
        rbind (js_assign js ''icon'' (JStr icon)) (\<lambda>js.
        rbind (js_assign js ''remarks'' (JStr remarks)) (\<lambda>js.
        rbind (js_assign js ''online'' (JBool online)) (\<lambda>js.
        dump c js))))))
       (Inr [])"

definition get_friends_info_json ::
    "codec \<Rightarrow> string \<Rightarrow> (int64 \<times> string \<times> string \<times> string \<times> bool) option res" where
  "get_friends_info_json c sjson =
     catch_all
       (rbind (parse c sjson) (\<lambda>js.
        rbind (rbind (js_read js ''friends'') js_int64) (\<lambda>friends.
        rbind (rbind (js_read js ''nickname'') js_string) (\<lambda>nickname.
        rbind (rbind (js_read js ''icon'') js_string) (\<lambda>icon.
        rbind (rbind (js_read js ''remarks'') js_string) (\<lambda>remarks.
        rbind (rbind (js_read js ''online'') js_bool) (\<lambda>online.
        Inr (Some (friends, nickname, icon, remarks, online)))))))))
       (Inr None)"

section \<open>The macro \<open>CS_MAKE_TYPE\<close>\<close>

text \<open>
  \<open>CS_2\<close> is one assignment into \<open>extend\<close>, \<open>CS_4\<close> one read from it. \<open>cs_get\<close> parses before its
  \<open>try\<close>, so text that is not JSON throws out of it.
\<close>

fun set_fields :: "(string \<times> json) list \<Rightarrow> json \<Rightarrow> json res" where
  "set_fields [] js = Inr js"
| "set_fields ((k, v) # fs) js = rbind (set_extend js k v) (set_fields fs)"

definition cs_set :: "codec \<Rightarrow> string \<Rightarrow> string \<Rightarrow> (string \<times> json) list \<Rightarrow> string res" where
  "cs_set c stream type sbody =
     rbind (make_json c stream type) (\<lambda>tm_sjson.
     rbind (parse c tm_sjson) (\<lambda>js.
     rbind (set_fields sbody js) (\<lambda>js.
     dump c js)))"

definition cs_get :: "codec \<Rightarrow> (json \<Rightarrow> 'a res) \<Rightarrow> string \<Rightarrow> 'a option res" where
  "cs_get c gbody tm_sjson =
     rbind (parse c tm_sjson) (\<lambda>js.
     catch_all (rbind (gbody js) (\<lambda>x. Inr (Some x))) (Inr None))"

definition CS_ERR_PARSE_JSON :: int32 where "CS_ERR_PARSE_JSON = 1"
definition CS_ERR_NOT_TASK :: int32 where "CS_ERR_NOT_TASK = 2"
definition CS_ERR_NOT_STREAM :: int32 where "CS_ERR_NOT_STREAM = 3"
definition CS_ERR_SWAP_SJSON :: int32 where "CS_ERR_SWAP_SJSON = 4"
definition CS_ERR_SELECT_DATA :: int32 where "CS_ERR_SELECT_DATA = 5"
definition CS_LOGIN_NOT_AC :: int32 where "CS_LOGIN_NOT_AC = 10"
definition CS_LOGIN_PASSWD_ERR :: int32 where "CS_LOGIN_PASSWD_ERR = 11"
definition CS_SELECT_ERR :: int32 where "CS_SELECT_ERR = 20"

section \<open>The messages\<close>

definition set_error_info :: "codec \<Rightarrow> int32 \<Rightarrow> string \<Rightarrow> string res" where
  "set_error_info c error info = cs_set c sc_s ''error_info''
     [(''error'', JInt (sint error)), (''info'', JStr info)]"

definition get_error_info :: "codec \<Rightarrow> string \<Rightarrow> (int32 \<times> string) option res" where
  "get_error_info c = cs_get c (\<lambda>js.
     rbind (get_extend js_int32 js ''error'') (\<lambda>error.
     rbind (get_extend js_string js ''info'') (\<lambda>info.
     Inr (error, info))))"

definition set_online_status :: "codec \<Rightarrow> int64 \<Rightarrow> bool \<Rightarrow> string res" where
  "set_online_status c ac_friend online = cs_set c sc_s ''online_status''
     [(''ac_friend'', JInt (sint ac_friend)), (''online'', JBool online)]"

definition get_online_status :: "codec \<Rightarrow> string \<Rightarrow> (int64 \<times> bool) option res" where
  "get_online_status c = cs_get c (\<lambda>js.
     rbind (get_extend js_int64 js ''ac_friend'') (\<lambda>ac_friend.
     rbind (get_extend js_bool js ''online'') (\<lambda>online.
     Inr (ac_friend, online))))"

definition set_ac_login :: "codec \<Rightarrow> int64 \<Rightarrow> string \<Rightarrow> string res" where
  "set_ac_login c account passwd = cs_set c cs_s ''ac_login''
     [(''account'', JInt (sint account)), (''passwd'', JStr passwd)]"

definition get_ac_login :: "codec \<Rightarrow> string \<Rightarrow> (int64 \<times> string) option res" where
  "get_ac_login c = cs_get c (\<lambda>js.
     rbind (get_extend js_int64 js ''account'') (\<lambda>account.
     rbind (get_extend js_string js ''passwd'') (\<lambda>passwd.
     Inr (account, passwd))))"

definition set_ac_login_back :: "codec \<Rightarrow> int64 \<Rightarrow> string \<Rightarrow> string \<Rightarrow> string \<Rightarrow> string res" where
  "set_ac_login_back c account nickname icon svec_friends_info = cs_set c sc_s ''ac_login_back''
     [(''account'', JInt (sint account)), (''nickname'', JStr nickname), (''icon'', JStr icon), (''svec_friends_info'', JStr svec_friends_info)]"

definition get_ac_login_back :: "codec \<Rightarrow> string \<Rightarrow> (int64 \<times> string \<times> string \<times> string) option res" where
  "get_ac_login_back c = cs_get c (\<lambda>js.
     rbind (get_extend js_int64 js ''account'') (\<lambda>account.
     rbind (get_extend js_string js ''nickname'') (\<lambda>nickname.
     rbind (get_extend js_string js ''icon'') (\<lambda>icon.
     rbind (get_extend js_string js ''svec_friends_info'') (\<lambda>svec_friends_info.
     Inr (account, nickname, icon, svec_friends_info))))))"

definition set_ac_register :: "codec \<Rightarrow> int64 \<Rightarrow> int64 \<Rightarrow> int64 \<Rightarrow> string \<Rightarrow> string \<Rightarrow> string \<Rightarrow> string res" where
  "set_ac_register c phone age sex nickname location passwd = cs_set c cs_s ''ac_register''
     [(''phone'', JInt (sint phone)), (''age'', JInt (sint age)), (''sex'', JInt (sint sex)), (''nickname'', JStr nickname), (''location'', JStr location), (''passwd'', JStr passwd)]"

definition get_ac_register :: "codec \<Rightarrow> string \<Rightarrow> (int64 \<times> int64 \<times> int64 \<times> string \<times> string \<times> string) option res" where
  "get_ac_register c = cs_get c (\<lambda>js.
     rbind (get_extend js_int64 js ''phone'') (\<lambda>phone.
     rbind (get_extend js_int64 js ''age'') (\<lambda>age.
     rbind (get_extend js_int64 js ''sex'') (\<lambda>sex.
     rbind (get_extend js_string js ''nickname'') (\<lambda>nickname.
     rbind (get_extend js_string js ''location'') (\<lambda>location.
     rbind (get_extend js_string js ''passwd'') (\<lambda>passwd.
     Inr (phone, age, sex, nickname, location, passwd))))))))"

definition set_ac_register_back :: "codec \<Rightarrow> int64 \<Rightarrow> string \<Rightarrow> bool \<Rightarrow> string res" where
  "set_ac_register_back c account passwd ok = cs_set c sc_s ''ac_register_back''
     [(''account'', JInt (sint account)), (''passwd'', JStr passwd), (''ok'', JBool ok)]"

definition get_ac_register_back :: "codec \<Rightarrow> string \<Rightarrow> (int64 \<times> string \<times> bool) option res" where
  "get_ac_register_back c = cs_get c (\<lambda>js.
     rbind (get_extend js_int64 js ''account'') (\<lambda>account.
     rbind (get_extend js_string js ''passwd'') (\<lambda>passwd.
     rbind (get_extend js_bool js ''ok'') (\<lambda>ok.
     Inr (account, passwd, ok)))))"

definition set_ac_info_all :: "codec \<Rightarrow> int64 \<Rightarrow> int64 \<Rightarrow> string res" where
  "set_ac_info_all c types account = cs_set c cs_s ''ac_info_all''
     [(''types'', JInt (sint types)), (''account'', JInt (sint account))]"

definition get_ac_info_all :: "codec \<Rightarrow> string \<Rightarrow> (int64 \<times> int64) option res" where
  "get_ac_info_all c = cs_get c (\<lambda>js.
     rbind (get_extend js_int64 js ''types'') (\<lambda>types.
     rbind (get_extend js_int64 js ''account'') (\<lambda>account.
     Inr (types, account))))"

definition set_ac_info_all_back :: "codec \<Rightarrow> int64 \<Rightarrow> int64 \<Rightarrow> int64 \<Rightarrow> int64 \<Rightarrow> int64 \<Rightarrow> string \<Rightarrow> string \<Rightarrow> string \<Rightarrow> string res" where
  "set_ac_info_all_back c types account phone age sex nickname location icon = cs_set c sc_s ''ac_info_all_back''
     [(''types'', JInt (sint types)), (''account'', JInt (sint account)), (''phone'', JInt (sint phone)), (''age'', JInt (sint age)), (''sex'', JInt (sint sex)), (''nickname'', JStr nickname), (''location'', JStr location), (''icon'', JStr icon)]"

definition get_ac_info_all_back :: "codec \<Rightarrow> string \<Rightarrow> (int64 \<times> int64 \<times> int64 \<times> int64 \<times> int64 \<times> string \<times> string \<times> string) option res" where
  "get_ac_info_all_back c = cs_get c (\<lambda>js.
     rbind (get_extend js_int64 js ''types'') (\<lambda>types.
     rbind (get_extend js_int64 js ''account'') (\<lambda>account.
     rbind (get_extend js_int64 js ''phone'') (\<lambda>phone.
     rbind (get_extend js_int64 js ''age'') (\<lambda>age.
     rbind (get_extend js_int64 js ''sex'') (\<lambda>sex.
     rbind (get_extend js_string js ''nickname'') (\<lambda>nickname.
     rbind (get_extend js_string js ''location'') (\<lambda>location.
     rbind (get_extend js_string js ''icon'') (\<lambda>icon.
     Inr (types, account, phone, age, sex, nickname, location, icon))))))))))"

definition set_ac_update_info :: "codec \<Rightarrow> int64 \<Rightarrow> int64 \<Rightarrow> int64 \<Rightarrow> int64 \<Rightarrow> string \<Rightarrow> string \<Rightarrow> string \<Rightarrow> string res" where
  "set_ac_update_info c account phone age sex nickname location icon = cs_set c cs_s ''ac_update_info''
     [(''account'', JInt (sint account)), (''phone'', JInt (sint phone)), (''age'', JInt (sint age)), (''sex'', JInt (sint sex)), (''nickname'', JStr nickname), (''location'', JStr location), (''icon'', JStr icon)]"

definition get_ac_update_info :: "codec \<Rightarrow> string \<Rightarrow> (int64 \<times> int64 \<times> int64 \<times> int64 \<times> string \<times> string \<times> string) option res" where
  "get_ac_update_info c = cs_get c (\<lambda>js.
     rbind (get_extend js_int64 js ''account'') (\<lambda>account.
     rbind (get_extend js_int64 js ''phone'') (\<lambda>phone.
     rbind (get_extend js_int64 js ''age'') (\<lambda>age.
     rbind (get_extend js_int64 js ''sex'') (\<lambda>sex.
     rbind (get_extend js_string js ''nickname'') (\<lambda>nickname.
     rbind (get_extend js_string js ''location'') (\<lambda>location.
     rbind (get_extend js_string js ''icon'') (\<lambda>icon.
     Inr (account, phone, age, sex, nickname, location, icon)))))))))"

definition set_ac_update_info_back :: "codec \<Rightarrow> int64 \<Rightarrow> string \<Rightarrow> bool \<Rightarrow> string res" where
  "set_ac_update_info_back c account icon ok = cs_set c sc_s ''ac_update_info_back''
     [(''account'', JInt (sint account)), (''icon'', JStr icon), (''ok'', JBool ok)]"

definition get_ac_update_info_back :: "codec \<Rightarrow> string \<Rightarrow> (int64 \<times> string \<times> bool) option res" where
  "get_ac_update_info_back c = cs_get c (\<lambda>js.
     rbind (get_extend js_int64 js ''account'') (\<lambda>account.
     rbind (get_extend js_string js ''icon'') (\<lambda>icon.
     rbind (get_extend js_bool js ''ok'') (\<lambda>ok.
     Inr (account, icon, ok)))))"

definition set_ac_update_remarks :: "codec \<Rightarrow> int64 \<Rightarrow> int64 \<Rightarrow> string \<Rightarrow> string res" where
  "set_ac_update_remarks c account friends remarks = cs_set c cs_s ''ac_update_remarks''
     [(''account'', JInt (sint account)), (''friends'', JInt (sint friends)), (''remarks'', JStr remarks)]"

definition get_ac_update_remarks :: "codec \<Rightarrow> string \<Rightarrow> (int64 \<times> int64 \<times> string) option res" where
  "get_ac_update_remarks c = cs_get c (\<lambda>js.
     rbind (get_extend js_int64 js ''account'') (\<lambda>account.
     rbind (get_extend js_int64 js ''friends'') (\<lambda>friends.
     rbind (get_extend js_string js ''remarks'') (\<lambda>remarks.
     Inr (account, friends, remarks)))))"

definition set_ac_update_remarks_back :: "codec \<Rightarrow> int64 \<Rightarrow> int64 \<Rightarrow> string \<Rightarrow> string res" where
  "set_ac_update_remarks_back c account friends remarks = cs_set c sc_s ''ac_update_remarks_back''
     [(''account'', JInt (sint account)), (''friends'', JInt (sint friends)), (''remarks'', JStr remarks)]"

definition get_ac_update_remarks_back :: "codec \<Rightarrow> string \<Rightarrow> (int64 \<times> int64 \<times> string) option res" where
  "get_ac_update_remarks_back c = cs_get c (\<lambda>js.
     rbind (get_extend js_int64 js ''account'') (\<lambda>account.
     rbind (get_extend js_int64 js ''friends'') (\<lambda>friends.
     rbind (get_extend js_string js ''remarks'') (\<lambda>remarks.
     Inr (account, friends, remarks)))))"

definition set_ac_update_friends :: "codec \<Rightarrow> int64 \<Rightarrow> int64 \<Rightarrow> string \<Rightarrow> string \<Rightarrow> string res" where
  "set_ac_update_friends c account friends ac_remarks fr_remarks = cs_set c cs_s ''ac_update_friends''
     [(''account'', JInt (sint account)), (''friends'', JInt (sint friends)), (''ac_remarks'', JStr ac_remarks), (''fr_remarks'', JStr fr_remarks)]"

definition get_ac_update_friends :: "codec \<Rightarrow> string \<Rightarrow> (int64 \<times> int64 \<times> string \<times> string) option res" where
  "get_ac_update_friends c = cs_get c (\<lambda>js.
     rbind (get_extend js_int64 js ''account'') (\<lambda>account.
     rbind (get_extend js_int64 js ''friends'') (\<lambda>friends.
     rbind (get_extend js_string js ''ac_remarks'') (\<lambda>ac_remarks.
     rbind (get_extend js_string js ''fr_remarks'') (\<lambda>fr_remarks.
     Inr (account, friends, ac_remarks, fr_remarks))))))"

definition set_ac_update_friends_back :: "codec \<Rightarrow> string \<Rightarrow> string res" where
  "set_ac_update_friends_back c sjson_info = cs_set c sc_s ''ac_update_friends_back''
     [(''sjson_info'', JStr sjson_info)]"

definition get_ac_update_friends_back :: "codec \<Rightarrow> string \<Rightarrow> string option res" where
  "get_ac_update_friends_back c = cs_get c (\<lambda>js.
     rbind (get_extend js_string js ''sjson_info'') (\<lambda>sjson_info.
     Inr sjson_info))"

definition set_swap_cache :: "codec \<Rightarrow> int64 \<Rightarrow> string res" where
  "set_swap_cache c target = cs_set c cs_s ''swap_cache''
     [(''target'', JInt (sint target))]"

definition get_swap_cache :: "codec \<Rightarrow> string \<Rightarrow> int64 option res" where
  "get_swap_cache c = cs_get c (\<lambda>js.
     rbind (get_extend js_int64 js ''target'') (\<lambda>target.
     Inr target))"

definition set_swap_cache_back :: "codec \<Rightarrow> string \<Rightarrow> string res" where
  "set_swap_cache_back c svec_sjson = cs_set c sc_s ''swap_cache_back''
     [(''svec_sjson'', JStr svec_sjson)]"

definition get_swap_cache_back :: "codec \<Rightarrow> string \<Rightarrow> string option res" where
  "get_swap_cache_back c = cs_get c (\<lambda>js.
     rbind (get_extend js_string js ''svec_sjson'') (\<lambda>svec_sjson.
     Inr svec_sjson))"

definition set_swap_msg :: "codec \<Rightarrow> int64 \<Rightarrow> int64 \<Rightarrow> int64 \<Rightarrow> string \<Rightarrow> string \<Rightarrow> string res" where
  "set_swap_msg c target source time_to type content = cs_set c cc_s ''swap_msg''
     [(''target'', JInt (sint target)), (''source'', JInt (sint source)), (''time_to'', JInt (sint time_to)), (''type'', JStr type), (''content'', JStr content)]"

definition get_swap_msg :: "codec \<Rightarrow> string \<Rightarrow> (int64 \<times> int64 \<times> int64 \<times> string \<times> string) option res" where
  "get_swap_msg c = cs_get c (\<lambda>js.
     rbind (get_extend js_int64 js ''target'') (\<lambda>target.
     rbind (get_extend js_int64 js ''source'') (\<lambda>source.
     rbind (get_extend js_int64 js ''time_to'') (\<lambda>time_to.
     rbind (get_extend js_string js ''type'') (\<lambda>type.
     rbind (get_extend js_string js ''content'') (\<lambda>content.
     Inr (target, source, time_to, type, content)))))))"

definition set_swap_msg_back :: "codec \<Rightarrow> int64 \<Rightarrow> int64 \<Rightarrow> int64 \<Rightarrow> int64 \<Rightarrow> string res" where
  "set_swap_msg_back c target source time_to time_ok = cs_set c cc_s ''swap_msg_back''
     [(''target'', JInt (sint target)), (''source'', JInt (sint source)), (''time_to'', JInt (sint time_to)), (''time_ok'', JInt (sint time_ok))]"

definition get_swap_msg_back :: "codec \<Rightarrow> string \<Rightarrow> (int64 \<times> int64 \<times> int64 \<times> int64) option res" where
  "get_swap_msg_back c = cs_get c (\<lambda>js.
     rbind (get_extend js_int64 js ''target'') (\<lambda>target.
     rbind (get_extend js_int64 js ''source'') (\<lambda>source.
     rbind (get_extend js_int64 js ''time_to'') (\<lambda>time_to.
     rbind (get_extend js_int64 js ''time_ok'') (\<lambda>time_ok.
     Inr (target, source, time_to, time_ok))))))"

definition set_swap_friens_add :: "codec \<Rightarrow> int64 \<Rightarrow> int64 \<Rightarrow> int64 \<Rightarrow> string \<Rightarrow> string \<Rightarrow> string res" where
  "set_swap_friens_add c time account friends notes remarks = cs_set c cc_s ''swap_friens_add''
     [(''time'', JInt (sint time)), (''account'', JInt (sint account)), (''friends'', JInt (sint friends)), (''notes'', JStr notes), (''remarks'', JStr remarks)]"

definition get_swap_friens_add :: "codec \<Rightarrow> string \<Rightarrow> (int64 \<times> int64 \<times> int64 \<times> string \<times> string) option res" where
  "get_swap_friens_add c = cs_get c (\<lambda>js.
     rbind (get_extend js_int64 js ''time'') (\<lambda>time.
     rbind (get_extend js_int64 js ''account'') (\<lambda>account.
     rbind (get_extend js_int64 js ''friends'') (\<lambda>friends.
     rbind (get_extend js_string js ''notes'') (\<lambda>notes.
     rbind (get_extend js_string js ''remarks'') (\<lambda>remarks.
     Inr (time, account, friends, notes, remarks)))))))"

definition set_files_create_upload :: "codec \<Rightarrow> int64 \<Rightarrow> string \<Rightarrow> string \<Rightarrow> string res" where
  "set_files_create_upload c length_file abs_file save_file = cs_set c cs_s ''files_create_upload''
     [(''length_file'', JInt (sint length_file)), (''abs_file'', JStr abs_file), (''save_file'', JStr save_file)]"

definition get_files_create_upload :: "codec \<Rightarrow> string \<Rightarrow> (int64 \<times> string \<times> string) option res" where
  "get_files_create_upload c = cs_get c (\<lambda>js.
     rbind (get_extend js_int64 js ''length_file'') (\<lambda>length_file.
     rbind (get_extend js_string js ''abs_file'') (\<lambda>abs_file.
     rbind (get_extend js_string js ''save_file'') (\<lambda>save_file.
     Inr (length_file, abs_file, save_file)))))"

definition set_files_create_upload_back :: "codec \<Rightarrow> int64 \<Rightarrow> string \<Rightarrow> bool \<Rightarrow> string res" where
  "set_files_create_upload_back c fid abs_file ok = cs_set c sc_s ''files_create_upload_back''
     [(''id'', JInt (sint fid)), (''abs_file'', JStr abs_file), (''ok'', JBool ok)]"

definition get_files_create_upload_back :: "codec \<Rightarrow> string \<Rightarrow> (int64 \<times> string \<times> bool) option res" where
  "get_files_create_upload_back c = cs_get c (\<lambda>js.
     rbind (get_extend js_int64 js ''id'') (\<lambda>fid.
     rbind (get_extend js_string js ''abs_file'') (\<lambda>abs_file.
     rbind (get_extend js_bool js ''ok'') (\<lambda>ok.
     Inr (fid, abs_file, ok)))))"

definition set_files_begin_upload :: "codec \<Rightarrow> int64 \<Rightarrow> string res" where
  "set_files_begin_upload c fid = cs_set c cs_s ''files_begin_upload''
     [(''id'', JInt (sint fid))]"

definition get_files_begin_upload :: "codec \<Rightarrow> string \<Rightarrow> int64 option res" where
  "get_files_begin_upload c = cs_get c (\<lambda>js.
     rbind (get_extend js_int64 js ''id'') (\<lambda>fid.
     Inr fid))"

definition set_files_begin_upload_back :: "codec \<Rightarrow> int64 \<Rightarrow> string res" where
  "set_files_begin_upload_back c fid = cs_set c sc_s ''files_begin_upload_back''
     [(''id'', JInt (sint fid))]"

definition get_files_begin_upload_back :: "codec \<Rightarrow> string \<Rightarrow> int64 option res" where
  "get_files_begin_upload_back c = cs_get c (\<lambda>js.
     rbind (get_extend js_int64 js ''id'') (\<lambda>fid.
     Inr fid))"

definition set_files_finish_upload :: "codec \<Rightarrow> int64 \<Rightarrow> bool \<Rightarrow> string res" where
  "set_files_finish_upload c fid finish = cs_set c cs_s ''files_finish_upload''
     [(''id'', JInt (sint fid)), (''finish'', JBool finish)]"

definition get_files_finish_upload :: "codec \<Rightarrow> string \<Rightarrow> (int64 \<times> bool) option res" where
  "get_files_finish_upload c = cs_get c (\<lambda>js.
     rbind (get_extend js_int64 js ''id'') (\<lambda>fid.
     rbind (get_extend js_bool js ''finish'') (\<lambda>finish.
     Inr (fid, finish))))"

definition set_files_finish_upload_back :: "codec \<Rightarrow> int64 \<Rightarrow> bool \<Rightarrow> string res" where
  "set_files_finish_upload_back c fid ok = cs_set c sc_s ''files_finish_upload_back''
     [(''id'', JInt (sint fid)), (''ok'', JBool ok)]"

definition get_files_finish_upload_back :: "codec \<Rightarrow> string \<Rightarrow> (int64 \<times> bool) option res" where
  "get_files_finish_upload_back c = cs_get c (\<lambda>js.
     rbind (get_extend js_int64 js ''id'') (\<lambda>fid.
     rbind (get_extend js_bool js ''ok'') (\<lambda>ok.
     Inr (fid, ok))))"

definition set_files_create_download :: "codec \<Rightarrow> string \<Rightarrow> string \<Rightarrow> string res" where
  "set_files_create_download c abs_path save_path = cs_set c cs_s ''files_create_download''
     [(''abs_path'', JStr abs_path), (''save_path'', JStr save_path)]"

definition get_files_create_download :: "codec \<Rightarrow> string \<Rightarrow> (string \<times> string) option res" where
  "get_files_create_download c = cs_get c (\<lambda>js.
     rbind (get_extend js_string js ''abs_path'') (\<lambda>abs_path.
     rbind (get_extend js_string js ''save_path'') (\<lambda>save_path.
     Inr (abs_path, save_path))))"

definition set_files_create_download_back :: "codec \<Rightarrow> int64 \<Rightarrow> int64 \<Rightarrow> string \<Rightarrow> string \<Rightarrow> bool \<Rightarrow> string res" where
  "set_files_create_download_back c fid length_file abs_path save_path ok = cs_set c sc_s ''files_create_download_back''
     [(''id'', JInt (sint fid)), (''length_file'', JInt (sint length_file)), (''abs_path'', JStr abs_path), (''save_path'', JStr save_path), (''ok'', JBool ok)]"

definition get_files_create_download_back :: "codec \<Rightarrow> string \<Rightarrow> (int64 \<times> int64 \<times> string \<times> string \<times> bool) option res" where
  "get_files_create_download_back c = cs_get c (\<lambda>js.
     rbind (get_extend js_int64 js ''id'') (\<lambda>fid.
     rbind (get_extend js_int64 js ''length_file'') (\<lambda>length_file.
     rbind (get_extend js_string js ''abs_path'') (\<lambda>abs_path.
     rbind (get_extend js_string js ''save_path'') (\<lambda>save_path.
     rbind (get_extend js_bool js ''ok'') (\<lambda>ok.
     Inr (fid, length_file, abs_path, save_path, ok)))))))"

definition set_files_begin_download :: "codec \<Rightarrow> int64 \<Rightarrow> string res" where
  "set_files_begin_download c fid = cs_set c cs_s ''files_begin_download''
     [(''id'', JInt (sint fid))]"

definition get_files_begin_download :: "codec \<Rightarrow> string \<Rightarrow> int64 option res" where
  "get_files_begin_download c = cs_get c (\<lambda>js.
     rbind (get_extend js_int64 js ''id'') (\<lambda>fid.
     Inr fid))"

definition set_files_begin_download_back :: "codec \<Rightarrow> int64 \<Rightarrow> string res" where
  "set_files_begin_download_back c fid = cs_set c sc_s ''files_begin_download_back''
     [(''id'', JInt (sint fid))]"

definition get_files_begin_download_back :: "codec \<Rightarrow> string \<Rightarrow> int64 option res" where
  "get_files_begin_download_back c = cs_get c (\<lambda>js.
     rbind (get_extend js_int64 js ''id'') (\<lambda>fid.
     Inr fid))"

definition set_files_finish_download :: "codec \<Rightarrow> int64 \<Rightarrow> bool \<Rightarrow> string res" where
  "set_files_finish_download c fid ok = cs_set c cs_s ''files_finish_download''
     [(''id'', JInt (sint fid)), (''ok'', JBool ok)]"

definition get_files_finish_download :: "codec \<Rightarrow> string \<Rightarrow> (int64 \<times> bool) option res" where
  "get_files_finish_download c = cs_get c (\<lambda>js.
     rbind (get_extend js_int64 js ''id'') (\<lambda>fid.
     rbind (get_extend js_bool js ''ok'') (\<lambda>ok.
     Inr (fid, ok))))"

definition set_files_finish_download_back :: "codec \<Rightarrow> int64 \<Rightarrow> bool \<Rightarrow> string res" where
  "set_files_finish_download_back c fid ok = cs_set c sc_s ''files_finish_download_back''
     [(''id'', JInt (sint fid)), (''ok'', JBool ok)]"

definition get_files_finish_download_back :: "codec \<Rightarrow> string \<Rightarrow> (int64 \<times> bool) option res" where
  "get_files_finish_download_back c = cs_get c (\<lambda>js.
     rbind (get_extend js_int64 js ''id'') (\<lambda>fid.
     rbind (get_extend js_bool js ''ok'') (\<lambda>ok.
     Inr (fid, ok))))"

lemmas set_msg_defs =
  set_error_info_def
  set_online_status_def
  set_ac_login_def
  set_ac_login_back_def
  set_ac_register_def
  set_ac_register_back_def
  set_ac_info_all_def
  set_ac_info_all_back_def
  set_ac_update_info_def
  set_ac_update_info_back_def
  set_ac_update_remarks_def
  set_ac_update_remarks_back_def
  set_ac_update_friends_def
  set_ac_update_friends_back_def
  set_swap_cache_def
  set_swap_cache_back_def
  set_swap_msg_def
  set_swap_msg_back_def
  set_swap_friens_add_def
  set_files_create_upload_def
  set_files_create_upload_back_def
  set_files_begin_upload_def
  set_files_begin_upload_back_def
  set_files_finish_upload_def
  set_files_finish_upload_back_def
  set_files_create_download_def
  set_files_create_download_back_def
  set_files_begin_download_def
  set_files_begin_download_back_def
  set_files_finish_download_def
  set_files_finish_download_back_def

lemmas get_msg_defs =
  get_error_info_def
  get_online_status_def
  get_ac_login_def
  get_ac_login_back_def
  get_ac_register_def
  get_ac_register_back_def
  get_ac_info_all_def
  get_ac_info_all_back_def
  get_ac_update_info_def
  get_ac_update_info_back_def
  get_ac_update_remarks_def
  get_ac_update_remarks_back_def
  get_ac_update_friends_def
  get_ac_update_friends_back_def
  get_swap_cache_def
  get_swap_cache_back_def
  get_swap_msg_def
  get_swap_msg_back_def
  get_swap_friens_add_def
  get_files_create_upload_def
  get_files_create_upload_back_def
  get_files_begin_upload_def
  get_files_begin_upload_back_def
  get_files_finish_upload_def
  get_files_finish_upload_back_def
  get_files_create_download_def
  get_files_create_download_back_def
  get_files_begin_download_def
  get_files_begin_download_back_def
  get_files_finish_download_def
  get_files_finish_download_back_def

section \<open>Frames of the file channel\<close>

definition CS_FILES_JSON :: char where "CS_FILES_JSON = CHR 0x01"
definition CS_FILES_BINARY :: char where "CS_FILES_BINARY = CHR 0x02"
definition CS_BIT_FLG :: nat where "CS_BIT_FLG = 1"
definition CS_BIT_ID :: nat where "CS_BIT_ID = 8"

text \<open>The bytes of an \<open>int64\<close> in memory, least significant first, and back.\<close>

definition ct_s :: "int64 \<Rightarrow> string" where
  "ct_s ct = map (\<lambda>i. char_of (unat (drop_bit (8 * i) ct) mod 256)) [0..<8]"

definition st_c :: "string \<Rightarrow> int64" where
  "st_c str = word_of_nat (foldr (\<lambda>b acc. of_char b + 256 * acc) (take 8 str) 0)"

definition check_files_flg :: "string \<Rightarrow> char" where
  "check_files_flg msg = (case msg of [] \<Rightarrow> CHR 0x00 | flg # _ \<Rightarrow> flg)"

definition set_files_json :: "string \<Rightarrow> string" where
  "set_files_json sjson = CS_FILES_JSON # sjson"

definition get_files_json :: "string \<Rightarrow> string option" where
  "get_files_json msg = (if length msg = 0 then None else Some (drop 1 msg))"

definition set_files_binary :: "int64 \<Rightarrow> string \<Rightarrow> string" where
  "set_files_binary fid sjson = CS_FILES_BINARY # ct_s fid @ sjson"

definition get_files_binary :: "string \<Rightarrow> (int64 \<times> string) option" where
  "get_files_binary msg =
     (if length msg < CS_BIT_FLG + CS_BIT_ID then None
      else (let str_id = take CS_BIT_ID (drop CS_BIT_FLG msg)
            in Some (st_c str_id, drop (CS_BIT_FLG + CS_BIT_ID) msg)))"

section \<open>The interface to the JSON library\<close>

text \<open>
  What the messages need of the JSON text functions: the laws of the codec, and that the message
  template is the text of an object with five empty members.
\<close>

locale protocol_codec = json_codec +
  assumes template: "js_parse c sjson_s = Some (JObj
    [(''extend'', JObj []), (''head'', JStr []), (''stream'', JStr []), (''type'', JStr []), (''version'', JStr [])])"

definition message :: "string \<Rightarrow> string \<Rightarrow> (string \<times> json) list \<Rightarrow> json" where
  "message stream type ex = JObj
     [(''extend'', JObj ex), (''head'', JStr head_s), (''stream'', JStr stream),
      (''type'', JStr type), (''version'', JStr version_s)]"

definition put_all :: "(string \<times> json) list \<Rightarrow> (string \<times> json) list \<Rightarrow> (string \<times> json) list" where
  "put_all fs m = foldl (\<lambda>m (k, v). obj_put k v m) m fs"

definition fields_ok :: "(string \<times> json) list \<Rightarrow> bool" where
  "fields_ok fs \<longleftrightarrow> (\<forall>kv \<in> set fs. json_wf (snd kv))"

definition fields_utf8 :: "(string \<times> json) list \<Rightarrow> bool" where
  "fields_utf8 fs \<longleftrightarrow> (\<forall>kv \<in> set fs. utf8_ok (fst kv) \<and> json_utf8 (snd kv))"

declare utf8_ok.simps(2) [simp del]

lemma utf8_ok_ascii [simp]: "of_char ch \<le> (127 :: nat) \<Longrightarrow> utf8_ok (ch # s) \<longleftrightarrow> utf8_ok s"
  by (simp add: utf8_ok.simps byte_in_def)

lemma message_assign:
  "obj_sorted ex \<Longrightarrow> set_extend (message st ty ex) k v = Inr (message st ty (obj_put k v ex))"
  by (simp add: set_extend_def message_def js_read_def js_assign_def)

lemma put_all_simps [simp]:
  "put_all [] m = m" "put_all ((k, v) # fs) m = put_all fs (obj_put k v m)"
  by (simp_all add: put_all_def)

lemma obj_sorted_put_all [simp]: "obj_sorted m \<Longrightarrow> obj_sorted (put_all fs m)"
  by (induction fs arbitrary: m) (auto split: prod.splits)

lemma set_put_all: "set (put_all fs m) \<subseteq> set m \<union> set fs"
proof (induction fs arbitrary: m)
  case (Cons kv fs)
  then show ?case using set_obj_put by (cases kv) fastforce
qed simp

lemma set_fields_message:
  "obj_sorted ex \<Longrightarrow> set_fields fs (message st ty ex) = Inr (message st ty (put_all fs ex))"
  by (induction fs arbitrary: ex) (auto simp: message_assign)

lemma obj_sorted_Nil [simp]: "obj_sorted []"
  by (simp add: obj_sorted_def)

lemma message_keys: "obj_sorted [(''extend'', a), (''head'', b), (''stream'', x), (''type'', d), (''version'', e)]"
  by (simp add: obj_sorted_def)

lemma utf8_consts [simp]:
  "utf8_ok head_s" "utf8_ok version_s" "utf8_ok cc_s" "utf8_ok sc_s" "utf8_ok cs_s"
  by (simp_all add: frame_consts)

lemma json_wf_message_iff: "json_wf (message st ty ex) \<longleftrightarrow> obj_sorted ex \<and> fields_ok ex"
  by (simp add: message_def message_keys list_all_iff fields_ok_def)

lemma fields_put_all:
  assumes "fields_ok fs"
  shows "fields_ok (put_all fs [])"
  unfolding fields_ok_def
proof
  fix kv assume "kv \<in> set (put_all fs [])"
  with set_put_all [of fs "[]"] have "kv \<in> set fs" by auto
  with assms show "json_wf (snd kv)" by (simp add: fields_ok_def)
qed

lemma fields_utf8_put_all:
  assumes "fields_utf8 fs"
  shows "fields_utf8 (put_all fs [])"
  unfolding fields_utf8_def
proof
  fix kv assume "kv \<in> set (put_all fs [])"
  with set_put_all [of fs "[]"] have "kv \<in> set fs" by auto
  with assms show "utf8_ok (fst kv) \<and> json_utf8 (snd kv)" by (simp add: fields_utf8_def)
qed

lemma json_utf8_message_iff:
  assumes "utf8_ok st" "utf8_ok ty"
  shows "json_utf8 (message st ty ex) \<longleftrightarrow> fields_utf8 ex"
  using assms by (simp add: message_def list_all_iff fields_utf8_def frame_consts)

context protocol_codec
begin

lemma make_json_message:
  assumes "utf8_ok st" "utf8_ok ty"
  obtains s where "make_json c st ty = Inr s" "parse c s = Inr (message st ty [])"
proof -
  have "json_wf (message st ty [])" "json_utf8 (message st ty [])"
    using assms by (simp_all add: json_wf_message_iff json_utf8_message_iff fields_ok_def fields_utf8_def)
  then obtain s where s: "dump c (message st ty []) = Inr s" "parse c s = Inr (message st ty [])"
    by (rule dump_ok)
  have "make_json c st ty = dump c (message st ty [])"
    by (simp add: make_json_def parse_def template js_assign_def message_def)
  with s that show thesis by simp
qed

text \<open>A written message parses back to its value; it is written when its strings are UTF-8.\<close>

lemma cs_set_message:
  assumes "utf8_ok st" "utf8_ok ty" "fields_ok fs" "fields_utf8 fs"
  obtains s where "cs_set c st ty fs = Inr s" "parse c s = Inr (message st ty (put_all fs []))"
proof -
  obtain s where s: "make_json c st ty = Inr s" "parse c s = Inr (message st ty [])"
    by (rule make_json_message [OF assms(1,2)])
  let ?m = "message st ty (put_all fs [])"
  have "json_wf ?m" "json_utf8 ?m"
    using assms by (simp_all add: json_wf_message_iff json_utf8_message_iff fields_put_all fields_utf8_put_all)
  then obtain s' where s': "dump c ?m = Inr s'" "parse c s' = Inr ?m" by (rule dump_ok)
  have "cs_set c st ty fs = dump c ?m"
    using s by (simp add: cs_set_def set_fields_message)
  with s' that show thesis by simp
qed

lemma cs_set_bad_utf8:
  assumes "utf8_ok st" "utf8_ok ty" "fields_ok fs" "\<not> fields_utf8 (put_all fs [])"
  shows "cs_set c st ty fs = Inl (Throw Type_error)"
proof -
  obtain s where s: "make_json c st ty = Inr s" "parse c s = Inr (message st ty [])"
    by (rule make_json_message [OF assms(1,2)])
  let ?m = "message st ty (put_all fs [])"
  have "json_wf ?m" "\<not> json_utf8 ?m"
    using assms by (simp_all add: json_wf_message_iff json_utf8_message_iff fields_put_all)
  then have "dump c ?m = Inl (Throw Type_error)" by (rule dump_bad)
  with s show ?thesis by (simp add: cs_set_def set_fields_message)
qed

end

lemma get_extend_message:
  "get_extend conv (message st ty ex) k = conv (case map_of ex k of Some v \<Rightarrow> v | None \<Rightarrow> JNull)"
  by (simp add: get_extend_def message_def js_read_def js_object_def)

lemma map_of_put_all: "map_of (put_all fs m) k = (case map_of (rev fs) k of Some v \<Rightarrow> Some v | None \<Rightarrow> map_of m k)"
proof (induction fs arbitrary: m)
  case (Cons kv fs)
  then show ?case by (cases kv) (auto simp: map_add_def split: option.splits)
qed simp

lemma check_json_message:
  "parse c s = Inr (message st ty ex) \<Longrightarrow> check_json c s = Inr (Some (st, ty))"
  by (simp add: check_json_def message_def js_read_def js_string_def check_head_def js_read_const_def)

lemma template_text_codec: "js_parse text_codec sjson_s = Some (JObj
    [(''extend'', JObj []), (''head'', JStr []), (''stream'', JStr []), (''type'', JStr []), (''version'', JStr [])])"
  by code_simp

interpretation pc: protocol_codec text_codec
  by unfold_locales (rule template_text_codec)

section \<open>Bytes of an identifier\<close>

definition bytes_value :: "string \<Rightarrow> nat" where
  "bytes_value s = foldr (\<lambda>b acc. of_char b + 256 * acc) s 0"

lemma bytes_value_simps [simp]:
  "bytes_value [] = 0" "bytes_value (b # s) = of_char b + 256 * bytes_value s"
  by (simp_all add: bytes_value_def)

fun value_bytes :: "nat \<Rightarrow> nat \<Rightarrow> string" where
  "value_bytes 0 n = []"
| "value_bytes (Suc k) n = char_of n # value_bytes k (n div 256)"

lemma length_value_bytes [simp]: "length (value_bytes k n) = k"
  by (induction k n rule: value_bytes.induct) auto

lemma bytes_value_bytes: "bytes_value (value_bytes k n) = n mod 256 ^ k"
proof (induction k n rule: value_bytes.induct)
  case (2 k n)
  then show ?case by (simp add: mod_mult2_eq [of n 256 "256 ^ k"] of_char_of)
qed simp

lemma byte_lt: "of_char b < (256 :: nat)"
  by (metis of_char_mod_256 mod_less_divisor zero_less_numeral)

lemma char_of_byte: "char_of (of_char b + 256 * n :: nat) = b"
  by (simp add: char_of_eq_iff take_bit_eq_mod)

lemma value_bytes_value: "value_bytes (length s) (bytes_value s) = s"
  by (induction s) (simp_all add: char_of_byte byte_lt)

lemma bytes_value_lt: "bytes_value s < 256 ^ length s"
proof (induction s)
  case (Cons b s)
  from Cons have "256 * Suc (bytes_value s) \<le> 256 * 256 ^ length s"
    by (intro mult_le_mono) simp_all
  moreover have "x < 256 \<Longrightarrow> 256 * Suc v \<le> 256 * p \<Longrightarrow> x + 256 * v < 256 * p" for x v p :: nat
    by presburger
  ultimately have "of_char b + 256 * bytes_value s < 256 * 256 ^ length s" using byte_lt by blast
  then show ?case by simp
qed simp

lemma map_bytes: "map (\<lambda>i. char_of (n div 256 ^ i mod 256)) [0..<k] = value_bytes k n"
proof (induction k arbitrary: n)
  case (Suc k)
  have "map (\<lambda>i. char_of (n div 256 ^ i mod 256)) [0..<Suc k]
      = char_of (n mod 256) # map (\<lambda>i. char_of (n div 256 ^ Suc i mod 256)) [0..<k]"
    by (simp add: upt_conv_Cons map_Suc_upt [symmetric] comp_def del: upt_Suc)
  also have "map (\<lambda>i. char_of (n div 256 ^ Suc i mod 256)) [0..<k] = value_bytes k (n div 256)"
    using Suc [of "n div 256"] by (simp add: div_mult2_eq)
  finally show ?case by simp
qed simp

lemma ct_s_bytes: "ct_s w = value_bytes 8 (unat w)"
proof -
  have "unat (drop_bit (8 * i) w) mod 256 = unat w div 256 ^ i mod 256" for i
    by (simp add: unat_drop_bit_eq drop_bit_eq_div [of _ "unat w"] power_mult)
  then show ?thesis by (simp only: ct_s_def map_bytes)
qed

lemma st_c_bytes: "length s = 8 \<Longrightarrow> st_c s = word_of_nat (bytes_value s)"
  by (simp add: st_c_def bytes_value_def)

lemma length_ct_s [simp]: "length (ct_s w) = 8"
  by (simp add: ct_s_bytes)

lemma st_c_ct_s [simp]: "st_c (ct_s w) = w"
proof -
  have "unat w < 256 ^ 8" using unsigned_less [of w] by simp
  then show ?thesis by (simp add: st_c_bytes ct_s_bytes bytes_value_bytes)
qed

lemma ct_s_st_c:
  assumes "length s = 8"
  shows "ct_s (st_c s) = s"
proof -
  have "unat (word_of_nat (bytes_value s) :: int64) = bytes_value s"
    using bytes_value_lt [of s] assms by (simp add: unat_of_nat)
  with value_bytes_value [of s] assms show ?thesis by (simp add: ct_s_bytes st_c_bytes)
qed

lemma get_set_files_binary [simp]: "get_files_binary (set_files_binary w buf) = Some (w, buf)"
  by (simp add: get_files_binary_def set_files_binary_def CS_BIT_FLG_def CS_BIT_ID_def)

lemma get_set_files_json [simp]: "get_files_json (set_files_json s) = Some s"
  by (simp add: get_files_json_def set_files_json_def)

lemma check_files_flg_simps [simp]:
  "check_files_flg (set_files_json s) = CS_FILES_JSON"
  "check_files_flg (set_files_binary w s) = CS_FILES_BINARY"
  by (simp_all add: check_files_flg_def set_files_json_def set_files_binary_def)

text \<open>
  C27: a binary frame is exactly the bytes of its identifier and its payload: what is framed is read
  back, and a frame that is read is the frame of what was read.
\<close>

theorem files_binary_frame:
  "get_files_binary msg = Some (w, buf) \<and> check_files_flg msg = CS_FILES_BINARY
    \<longleftrightarrow> msg = set_files_binary w buf"
proof
  assume a: "get_files_binary msg = Some (w, buf) \<and> check_files_flg msg = CS_FILES_BINARY"
  then obtain rest where m: "msg = CS_FILES_BINARY # rest" "8 \<le> length rest"
    by (cases msg) (auto simp: get_files_binary_def check_files_flg_def CS_BIT_FLG_def CS_BIT_ID_def
        CS_FILES_BINARY_def split: if_splits)
  with a have "w = st_c (take 8 rest)" "buf = drop 8 rest"
    by (auto simp: get_files_binary_def CS_BIT_FLG_def CS_BIT_ID_def Let_def)
  with m ct_s_st_c [of "take 8 rest"] show "msg = set_files_binary w buf"
    by (simp add: set_files_binary_def)
qed auto

section \<open>What a receiver accepts\<close>

lemma js_read_string:
  "rbind (js_read j k) js_string = Inr t \<longleftrightarrow> (\<exists>m. j = JObj m \<and> map_of m k = Some (JStr t))"
  by (cases j) (auto simp: js_read_def js_string_def split: option.splits json.splits)

lemma js_read_string_fault: "rbind (js_read j k) js_string = Inl e \<Longrightarrow> e = Throw Type_error"
  by (cases j) (auto simp: js_read_def js_string_def split: option.splits json.splits)

lemma check_head_True:
  "check_head (JObj m) = Inr True \<longleftrightarrow> map_of m ''head'' = Some (JStr head_s) \<and> map_of m ''version'' = Some (JStr version_s)"
  by (auto simp: check_head_def js_read_const_def split: option.splits)

lemma check_head_fault:
  "check_head (JObj m) = Inl e \<longleftrightarrow> e = Crash Assertion_failed \<and>
     (map_of m ''head'' = None \<or> map_of m ''head'' = Some (JStr head_s) \<and> map_of m ''version'' = None)"
  by (auto simp: check_head_def js_read_const_def split: option.splits)

lemma check_json_parsed:
  assumes "parse c s = Inr j"
  shows "check_json c s =
     (case (rbind (js_read j ''stream'') js_string, rbind (js_read j ''type'') js_string) of
        (Inr st, Inr ty) \<Rightarrow> rbind (check_head j) (\<lambda>ok. Inr (if ok then Some (st, ty) else None))
      | _ \<Rightarrow> Inr None)"
proof (cases "rbind (js_read j ''stream'') js_string")
  case (Inl x)
  from this js_read_string_fault [OF this] show ?thesis by (simp add: check_json_def assms)
next
  case st: (Inr st)
  then obtain m where m: "j = JObj m" unfolding js_read_string by blast
  show ?thesis
  proof (cases "rbind (js_read j ''type'') js_string")
    case (Inl x)
    from this js_read_string_fault [OF this] st show ?thesis by (simp add: check_json_def assms)
  next
    case (Inr ty)
    show ?thesis
    proof (cases "check_head j")
      case (Inl x)
      with check_head_fault [of m x] have "x = Crash Assertion_failed" by (simp add: m)
      with Inl Inr st show ?thesis by (simp add: check_json_def assms)
    next
      case h: (Inr ok)
      with Inr st show ?thesis by (simp add: check_json_def assms)
    qed
  qed
qed

text \<open>The members a well-formed message has.\<close>

lemma check_json_obj:
  assumes "parse c s = Inr (JObj m)" "map_of m ''stream'' = Some (JStr st)" "map_of m ''type'' = Some (JStr ty)"
  shows "check_json c s = rbind (check_head (JObj m)) (\<lambda>ok. Inr (if ok then Some (st, ty) else None))"
proof -
  have "rbind (js_read (JObj m) ''stream'') js_string = Inr st" "rbind (js_read (JObj m) ''type'') js_string = Inr ty"
    using assms unfolding js_read_string by blast+
  then show ?thesis by (simp add: check_json_parsed [OF assms(1)])
qed

lemma check_json_other:
  assumes "check_json c s \<noteq> Inr None"
  obtains m st ty where "parse c s = Inr (JObj m)" "map_of m ''stream'' = Some (JStr st)"
    "map_of m ''type'' = Some (JStr ty)"
proof (cases "parse c s")
  case (Inl x)
  then have "x = Throw Parse_error" by (auto simp: parse_def split: option.splits)
  with Inl assms show ?thesis by (simp add: check_json_def)
next
  case (Inr j)
  from assms obtain st ty where "rbind (js_read j ''stream'') js_string = Inr st"
      "rbind (js_read j ''type'') js_string = Inr ty"
    by (auto simp: check_json_parsed [OF Inr] split: sum.splits)
  with Inr that show ?thesis unfolding js_read_string by blast
qed

text \<open>
  C26: \<open>check_json\<close> accepts exactly the objects with a text \<open>stream\<close>, a text \<open>type\<close> and the
  program's \<open>head\<close> and \<open>version\<close>, and hands back that stream and type.
\<close>

theorem check_json_accepts:
  "check_json c s = Inr (Some (st, ty)) \<longleftrightarrow>
     (\<exists>m. parse c s = Inr (JObj m) \<and> map_of m ''stream'' = Some (JStr st) \<and> map_of m ''type'' = Some (JStr ty)
        \<and> map_of m ''head'' = Some (JStr ''SMCHPRO'') \<and> map_of m ''version'' = Some (JStr ''1''))"
proof
  assume a: "check_json c s = Inr (Some (st, ty))"
  then have "check_json c s \<noteq> Inr None" by simp
  then obtain m st' ty' where m: "parse c s = Inr (JObj m)" "map_of m ''stream'' = Some (JStr st')"
      "map_of m ''type'' = Some (JStr ty')"
    by (rule check_json_other)
  from a have "check_head (JObj m) = Inr True" "st' = st" "ty' = ty"
    by (auto simp: check_json_obj [OF m] rbind_eq_Inr split: if_splits)
  with m show "\<exists>m. parse c s = Inr (JObj m) \<and> map_of m ''stream'' = Some (JStr st)
      \<and> map_of m ''type'' = Some (JStr ty) \<and> map_of m ''head'' = Some (JStr ''SMCHPRO'')
      \<and> map_of m ''version'' = Some (JStr ''1'')"
    unfolding check_head_True frame_consts by blast
next
  assume "\<exists>m. parse c s = Inr (JObj m) \<and> map_of m ''stream'' = Some (JStr st)
      \<and> map_of m ''type'' = Some (JStr ty) \<and> map_of m ''head'' = Some (JStr ''SMCHPRO'')
      \<and> map_of m ''version'' = Some (JStr ''1'')"
  then obtain m where m: "parse c s = Inr (JObj m)" "map_of m ''stream'' = Some (JStr st)"
      "map_of m ''type'' = Some (JStr ty)" and h: "check_head (JObj m) = Inr True"
    unfolding check_head_True frame_consts by blast
  then show "check_json c s = Inr (Some (st, ty))" by (simp add: check_json_obj [OF m])
qed

text \<open>
  C18: the only way \<open>check_json\<close> does not return is the failed assertion of the library on a missing
  \<open>head\<close>, or on a missing \<open>version\<close> after the right \<open>head\<close>: such a text from the network ends the
  program.
\<close>

theorem check_json_aborts:
  "check_json c s = Inl e \<longleftrightarrow>
     e = Crash Assertion_failed \<and>
     (\<exists>m st ty. parse c s = Inr (JObj m) \<and> map_of m ''stream'' = Some (JStr st)
        \<and> map_of m ''type'' = Some (JStr ty)
        \<and> (map_of m ''head'' = None
           \<or> map_of m ''head'' = Some (JStr ''SMCHPRO'') \<and> map_of m ''version'' = None))"
proof
  assume a: "check_json c s = Inl e"
  then have "check_json c s \<noteq> Inr None" by simp
  then obtain m st ty where m: "parse c s = Inr (JObj m)" "map_of m ''stream'' = Some (JStr st)"
      "map_of m ''type'' = Some (JStr ty)"
    by (rule check_json_other)
  from a have "check_head (JObj m) = Inl e" by (simp add: check_json_obj [OF m] rbind_eq_Inl)
  with m show "e = Crash Assertion_failed \<and>
     (\<exists>m st ty. parse c s = Inr (JObj m) \<and> map_of m ''stream'' = Some (JStr st)
        \<and> map_of m ''type'' = Some (JStr ty)
        \<and> (map_of m ''head'' = None
           \<or> map_of m ''head'' = Some (JStr ''SMCHPRO'') \<and> map_of m ''version'' = None))"
    unfolding check_head_fault frame_consts by blast
next
  assume "e = Crash Assertion_failed \<and>
     (\<exists>m st ty. parse c s = Inr (JObj m) \<and> map_of m ''stream'' = Some (JStr st)
        \<and> map_of m ''type'' = Some (JStr ty)
        \<and> (map_of m ''head'' = None
           \<or> map_of m ''head'' = Some (JStr ''SMCHPRO'') \<and> map_of m ''version'' = None))"
  then obtain m st ty where m: "parse c s = Inr (JObj m)" "map_of m ''stream'' = Some (JStr st)"
      "map_of m ''type'' = Some (JStr ty)" and h: "check_head (JObj m) = Inl e"
    unfolding check_head_fault frame_consts by blast
  then show "check_json c s = Inl e" by (simp add: check_json_obj [OF m])
qed

end
