(* ===== verification/Messages.thy ===== *)
theory Messages
  imports Protocol
begin

text \<open>
  The message types of \<open>web_protocol.h\<close> as one datatype, with the function that writes a message by
  its \<open>set\<close> function and the one that reads it by the \<open>get\<close> function of its type, and the theorems
  that hold of all of them: what is written is read back, what the writing depends on, and what a
  reader does with other text.
\<close>

section \<open>Messages as values\<close>

datatype (plugins only: code size) msg =
    Error_info int32 string
  | Online_status int64 bool
  | Ac_login int64 string
  | Ac_login_back int64 string string string
  | Ac_register int64 int64 int64 string string string
  | Ac_register_back int64 string bool
  | Ac_info_all int64 int64
  | Ac_info_all_back int64 int64 int64 int64 int64 string string string
  | Ac_update_info int64 int64 int64 int64 string string string
  | Ac_update_info_back int64 string bool
  | Ac_update_remarks int64 int64 string
  | Ac_update_remarks_back int64 int64 string
  | Ac_update_friends int64 int64 string string
  | Ac_update_friends_back string
  | Swap_cache int64
  | Swap_cache_back string
  | Swap_msg int64 int64 int64 string string
  | Swap_msg_back int64 int64 int64 int64
  | Swap_friens_add int64 int64 int64 string string
  | Files_create_upload int64 string string
  | Files_create_upload_back int64 string bool
  | Files_begin_upload int64
  | Files_begin_upload_back int64
  | Files_finish_upload int64 bool
  | Files_finish_upload_back int64 bool
  | Files_create_download string string
  | Files_create_download_back int64 int64 string string bool
  | Files_begin_download int64
  | Files_begin_download_back int64
  | Files_finish_download int64 bool
  | Files_finish_download_back int64 bool

primrec msg_type :: "msg \<Rightarrow> string" where
  "msg_type (Error_info error info) = ''error_info''"
| "msg_type (Online_status ac_friend online) = ''online_status''"
| "msg_type (Ac_login account passwd) = ''ac_login''"
| "msg_type (Ac_login_back account nickname icon svec_friends_info) = ''ac_login_back''"
| "msg_type (Ac_register phone age sex nickname location passwd) = ''ac_register''"
| "msg_type (Ac_register_back account passwd ok) = ''ac_register_back''"
| "msg_type (Ac_info_all types account) = ''ac_info_all''"
| "msg_type (Ac_info_all_back types account phone age sex nickname location icon) = ''ac_info_all_back''"
| "msg_type (Ac_update_info account phone age sex nickname location icon) = ''ac_update_info''"
| "msg_type (Ac_update_info_back account icon ok) = ''ac_update_info_back''"
| "msg_type (Ac_update_remarks account friends remarks) = ''ac_update_remarks''"
| "msg_type (Ac_update_remarks_back account friends remarks) = ''ac_update_remarks_back''"
| "msg_type (Ac_update_friends account friends ac_remarks fr_remarks) = ''ac_update_friends''"
| "msg_type (Ac_update_friends_back sjson_info) = ''ac_update_friends_back''"
| "msg_type (Swap_cache target) = ''swap_cache''"
| "msg_type (Swap_cache_back svec_sjson) = ''swap_cache_back''"
| "msg_type (Swap_msg target source time_to type content) = ''swap_msg''"
| "msg_type (Swap_msg_back target source time_to time_ok) = ''swap_msg_back''"
| "msg_type (Swap_friens_add time account friends notes remarks) = ''swap_friens_add''"
| "msg_type (Files_create_upload length_file abs_file save_file) = ''files_create_upload''"
| "msg_type (Files_create_upload_back fid abs_file ok) = ''files_create_upload_back''"
| "msg_type (Files_begin_upload fid) = ''files_begin_upload''"
| "msg_type (Files_begin_upload_back fid) = ''files_begin_upload_back''"
| "msg_type (Files_finish_upload fid finish) = ''files_finish_upload''"
| "msg_type (Files_finish_upload_back fid ok) = ''files_finish_upload_back''"
| "msg_type (Files_create_download abs_path save_path) = ''files_create_download''"
| "msg_type (Files_create_download_back fid length_file abs_path save_path ok) = ''files_create_download_back''"
| "msg_type (Files_begin_download fid) = ''files_begin_download''"
| "msg_type (Files_begin_download_back fid) = ''files_begin_download_back''"
| "msg_type (Files_finish_download fid ok) = ''files_finish_download''"
| "msg_type (Files_finish_download_back fid ok) = ''files_finish_download_back''"

primrec msg_stream :: "msg \<Rightarrow> string" where
  "msg_stream (Error_info error info) = sc_s"
| "msg_stream (Online_status ac_friend online) = sc_s"
| "msg_stream (Ac_login account passwd) = cs_s"
| "msg_stream (Ac_login_back account nickname icon svec_friends_info) = sc_s"
| "msg_stream (Ac_register phone age sex nickname location passwd) = cs_s"
| "msg_stream (Ac_register_back account passwd ok) = sc_s"
| "msg_stream (Ac_info_all types account) = cs_s"
| "msg_stream (Ac_info_all_back types account phone age sex nickname location icon) = sc_s"
| "msg_stream (Ac_update_info account phone age sex nickname location icon) = cs_s"
| "msg_stream (Ac_update_info_back account icon ok) = sc_s"
| "msg_stream (Ac_update_remarks account friends remarks) = cs_s"
| "msg_stream (Ac_update_remarks_back account friends remarks) = sc_s"
| "msg_stream (Ac_update_friends account friends ac_remarks fr_remarks) = cs_s"
| "msg_stream (Ac_update_friends_back sjson_info) = sc_s"
| "msg_stream (Swap_cache target) = cs_s"
| "msg_stream (Swap_cache_back svec_sjson) = sc_s"
| "msg_stream (Swap_msg target source time_to type content) = cc_s"
| "msg_stream (Swap_msg_back target source time_to time_ok) = cc_s"
| "msg_stream (Swap_friens_add time account friends notes remarks) = cc_s"
| "msg_stream (Files_create_upload length_file abs_file save_file) = cs_s"
| "msg_stream (Files_create_upload_back fid abs_file ok) = sc_s"
| "msg_stream (Files_begin_upload fid) = cs_s"
| "msg_stream (Files_begin_upload_back fid) = sc_s"
| "msg_stream (Files_finish_upload fid finish) = cs_s"
| "msg_stream (Files_finish_upload_back fid ok) = sc_s"
| "msg_stream (Files_create_download abs_path save_path) = cs_s"
| "msg_stream (Files_create_download_back fid length_file abs_path save_path ok) = sc_s"
| "msg_stream (Files_begin_download fid) = cs_s"
| "msg_stream (Files_begin_download_back fid) = sc_s"
| "msg_stream (Files_finish_download fid ok) = cs_s"
| "msg_stream (Files_finish_download_back fid ok) = sc_s"

primrec msg_fields :: "msg \<Rightarrow> (string \<times> json) list" where
  "msg_fields (Error_info error info) =
     [(''error'', JInt (sint error)), (''info'', JStr info)]"
| "msg_fields (Online_status ac_friend online) =
     [(''ac_friend'', JInt (sint ac_friend)), (''online'', JBool online)]"
| "msg_fields (Ac_login account passwd) =
     [(''account'', JInt (sint account)), (''passwd'', JStr passwd)]"
| "msg_fields (Ac_login_back account nickname icon svec_friends_info) =
     [(''account'', JInt (sint account)), (''nickname'', JStr nickname), (''icon'', JStr icon), (''svec_friends_info'', JStr svec_friends_info)]"
| "msg_fields (Ac_register phone age sex nickname location passwd) =
     [(''phone'', JInt (sint phone)), (''age'', JInt (sint age)), (''sex'', JInt (sint sex)), (''nickname'', JStr nickname), (''location'', JStr location), (''passwd'', JStr passwd)]"
| "msg_fields (Ac_register_back account passwd ok) =
     [(''account'', JInt (sint account)), (''passwd'', JStr passwd), (''ok'', JBool ok)]"
| "msg_fields (Ac_info_all types account) =
     [(''types'', JInt (sint types)), (''account'', JInt (sint account))]"
| "msg_fields (Ac_info_all_back types account phone age sex nickname location icon) =
     [(''types'', JInt (sint types)), (''account'', JInt (sint account)), (''phone'', JInt (sint phone)), (''age'', JInt (sint age)), (''sex'', JInt (sint sex)), (''nickname'', JStr nickname), (''location'', JStr location), (''icon'', JStr icon)]"
| "msg_fields (Ac_update_info account phone age sex nickname location icon) =
     [(''account'', JInt (sint account)), (''phone'', JInt (sint phone)), (''age'', JInt (sint age)), (''sex'', JInt (sint sex)), (''nickname'', JStr nickname), (''location'', JStr location), (''icon'', JStr icon)]"
| "msg_fields (Ac_update_info_back account icon ok) =
     [(''account'', JInt (sint account)), (''icon'', JStr icon), (''ok'', JBool ok)]"
| "msg_fields (Ac_update_remarks account friends remarks) =
     [(''account'', JInt (sint account)), (''friends'', JInt (sint friends)), (''remarks'', JStr remarks)]"
| "msg_fields (Ac_update_remarks_back account friends remarks) =
     [(''account'', JInt (sint account)), (''friends'', JInt (sint friends)), (''remarks'', JStr remarks)]"
| "msg_fields (Ac_update_friends account friends ac_remarks fr_remarks) =
     [(''account'', JInt (sint account)), (''friends'', JInt (sint friends)), (''ac_remarks'', JStr ac_remarks), (''fr_remarks'', JStr fr_remarks)]"
| "msg_fields (Ac_update_friends_back sjson_info) =
     [(''sjson_info'', JStr sjson_info)]"
| "msg_fields (Swap_cache target) =
     [(''target'', JInt (sint target))]"
| "msg_fields (Swap_cache_back svec_sjson) =
     [(''svec_sjson'', JStr svec_sjson)]"
| "msg_fields (Swap_msg target source time_to type content) =
     [(''target'', JInt (sint target)), (''source'', JInt (sint source)), (''time_to'', JInt (sint time_to)), (''type'', JStr type), (''content'', JStr content)]"
| "msg_fields (Swap_msg_back target source time_to time_ok) =
     [(''target'', JInt (sint target)), (''source'', JInt (sint source)), (''time_to'', JInt (sint time_to)), (''time_ok'', JInt (sint time_ok))]"
| "msg_fields (Swap_friens_add time account friends notes remarks) =
     [(''time'', JInt (sint time)), (''account'', JInt (sint account)), (''friends'', JInt (sint friends)), (''notes'', JStr notes), (''remarks'', JStr remarks)]"
| "msg_fields (Files_create_upload length_file abs_file save_file) =
     [(''length_file'', JInt (sint length_file)), (''abs_file'', JStr abs_file), (''save_file'', JStr save_file)]"
| "msg_fields (Files_create_upload_back fid abs_file ok) =
     [(''id'', JInt (sint fid)), (''abs_file'', JStr abs_file), (''ok'', JBool ok)]"
| "msg_fields (Files_begin_upload fid) =
     [(''id'', JInt (sint fid))]"
| "msg_fields (Files_begin_upload_back fid) =
     [(''id'', JInt (sint fid))]"
| "msg_fields (Files_finish_upload fid finish) =
     [(''id'', JInt (sint fid)), (''finish'', JBool finish)]"
| "msg_fields (Files_finish_upload_back fid ok) =
     [(''id'', JInt (sint fid)), (''ok'', JBool ok)]"
| "msg_fields (Files_create_download abs_path save_path) =
     [(''abs_path'', JStr abs_path), (''save_path'', JStr save_path)]"
| "msg_fields (Files_create_download_back fid length_file abs_path save_path ok) =
     [(''id'', JInt (sint fid)), (''length_file'', JInt (sint length_file)), (''abs_path'', JStr abs_path), (''save_path'', JStr save_path), (''ok'', JBool ok)]"
| "msg_fields (Files_begin_download fid) =
     [(''id'', JInt (sint fid))]"
| "msg_fields (Files_begin_download_back fid) =
     [(''id'', JInt (sint fid))]"
| "msg_fields (Files_finish_download fid ok) =
     [(''id'', JInt (sint fid)), (''ok'', JBool ok)]"
| "msg_fields (Files_finish_download_back fid ok) =
     [(''id'', JInt (sint fid)), (''ok'', JBool ok)]"

primrec msg_texts :: "msg \<Rightarrow> string list" where
  "msg_texts (Error_info error info) = [info]"
| "msg_texts (Online_status ac_friend online) = []"
| "msg_texts (Ac_login account passwd) = [passwd]"
| "msg_texts (Ac_login_back account nickname icon svec_friends_info) = [nickname, icon, svec_friends_info]"
| "msg_texts (Ac_register phone age sex nickname location passwd) = [nickname, location, passwd]"
| "msg_texts (Ac_register_back account passwd ok) = [passwd]"
| "msg_texts (Ac_info_all types account) = []"
| "msg_texts (Ac_info_all_back types account phone age sex nickname location icon) = [nickname, location, icon]"
| "msg_texts (Ac_update_info account phone age sex nickname location icon) = [nickname, location, icon]"
| "msg_texts (Ac_update_info_back account icon ok) = [icon]"
| "msg_texts (Ac_update_remarks account friends remarks) = [remarks]"
| "msg_texts (Ac_update_remarks_back account friends remarks) = [remarks]"
| "msg_texts (Ac_update_friends account friends ac_remarks fr_remarks) = [ac_remarks, fr_remarks]"
| "msg_texts (Ac_update_friends_back sjson_info) = [sjson_info]"
| "msg_texts (Swap_cache target) = []"
| "msg_texts (Swap_cache_back svec_sjson) = [svec_sjson]"
| "msg_texts (Swap_msg target source time_to type content) = [type, content]"
| "msg_texts (Swap_msg_back target source time_to time_ok) = []"
| "msg_texts (Swap_friens_add time account friends notes remarks) = [notes, remarks]"
| "msg_texts (Files_create_upload length_file abs_file save_file) = [abs_file, save_file]"
| "msg_texts (Files_create_upload_back fid abs_file ok) = [abs_file]"
| "msg_texts (Files_begin_upload fid) = []"
| "msg_texts (Files_begin_upload_back fid) = []"
| "msg_texts (Files_finish_upload fid finish) = []"
| "msg_texts (Files_finish_upload_back fid ok) = []"
| "msg_texts (Files_create_download abs_path save_path) = [abs_path, save_path]"
| "msg_texts (Files_create_download_back fid length_file abs_path save_path ok) = [abs_path, save_path]"
| "msg_texts (Files_begin_download fid) = []"
| "msg_texts (Files_begin_download_back fid) = []"
| "msg_texts (Files_finish_download fid ok) = []"
| "msg_texts (Files_finish_download_back fid ok) = []"

primrec set_msg :: "codec \<Rightarrow> msg \<Rightarrow> string res" where
  "set_msg c (Error_info error info) = set_error_info c error info"
| "set_msg c (Online_status ac_friend online) = set_online_status c ac_friend online"
| "set_msg c (Ac_login account passwd) = set_ac_login c account passwd"
| "set_msg c (Ac_login_back account nickname icon svec_friends_info) = set_ac_login_back c account nickname icon svec_friends_info"
| "set_msg c (Ac_register phone age sex nickname location passwd) = set_ac_register c phone age sex nickname location passwd"
| "set_msg c (Ac_register_back account passwd ok) = set_ac_register_back c account passwd ok"
| "set_msg c (Ac_info_all types account) = set_ac_info_all c types account"
| "set_msg c (Ac_info_all_back types account phone age sex nickname location icon) = set_ac_info_all_back c types account phone age sex nickname location icon"
| "set_msg c (Ac_update_info account phone age sex nickname location icon) = set_ac_update_info c account phone age sex nickname location icon"
| "set_msg c (Ac_update_info_back account icon ok) = set_ac_update_info_back c account icon ok"
| "set_msg c (Ac_update_remarks account friends remarks) = set_ac_update_remarks c account friends remarks"
| "set_msg c (Ac_update_remarks_back account friends remarks) = set_ac_update_remarks_back c account friends remarks"
| "set_msg c (Ac_update_friends account friends ac_remarks fr_remarks) = set_ac_update_friends c account friends ac_remarks fr_remarks"
| "set_msg c (Ac_update_friends_back sjson_info) = set_ac_update_friends_back c sjson_info"
| "set_msg c (Swap_cache target) = set_swap_cache c target"
| "set_msg c (Swap_cache_back svec_sjson) = set_swap_cache_back c svec_sjson"
| "set_msg c (Swap_msg target source time_to type content) = set_swap_msg c target source time_to type content"
| "set_msg c (Swap_msg_back target source time_to time_ok) = set_swap_msg_back c target source time_to time_ok"
| "set_msg c (Swap_friens_add time account friends notes remarks) = set_swap_friens_add c time account friends notes remarks"
| "set_msg c (Files_create_upload length_file abs_file save_file) = set_files_create_upload c length_file abs_file save_file"
| "set_msg c (Files_create_upload_back fid abs_file ok) = set_files_create_upload_back c fid abs_file ok"
| "set_msg c (Files_begin_upload fid) = set_files_begin_upload c fid"
| "set_msg c (Files_begin_upload_back fid) = set_files_begin_upload_back c fid"
| "set_msg c (Files_finish_upload fid finish) = set_files_finish_upload c fid finish"
| "set_msg c (Files_finish_upload_back fid ok) = set_files_finish_upload_back c fid ok"
| "set_msg c (Files_create_download abs_path save_path) = set_files_create_download c abs_path save_path"
| "set_msg c (Files_create_download_back fid length_file abs_path save_path ok) = set_files_create_download_back c fid length_file abs_path save_path ok"
| "set_msg c (Files_begin_download fid) = set_files_begin_download c fid"
| "set_msg c (Files_begin_download_back fid) = set_files_begin_download_back c fid"
| "set_msg c (Files_finish_download fid ok) = set_files_finish_download c fid ok"
| "set_msg c (Files_finish_download_back fid ok) = set_files_finish_download_back c fid ok"

definition to_msg :: "('a \<Rightarrow> msg) \<Rightarrow> 'a option res \<Rightarrow> msg option res" where
  "to_msg f r = rbind r (\<lambda>o'. Inr (map_option f o'))"

fun get_any :: "codec \<Rightarrow> (string \<times> (codec \<Rightarrow> string \<Rightarrow> msg option res)) list \<Rightarrow> string \<Rightarrow> string \<Rightarrow> msg option res" where
  "get_any c [] type s = Inr None"
| "get_any c ((t, g) # gs) type s = (if type = t then g c s else get_any c gs type s)"

definition getters :: "(string \<times> (codec \<Rightarrow> string \<Rightarrow> msg option res)) list" where
  "getters =
    [(''error_info'', \<lambda>c s. to_msg (\<lambda>(error, info). Error_info error info) (get_error_info c s)),
     (''online_status'', \<lambda>c s. to_msg (\<lambda>(ac_friend, online). Online_status ac_friend online) (get_online_status c s)),
     (''ac_login'', \<lambda>c s. to_msg (\<lambda>(account, passwd). Ac_login account passwd) (get_ac_login c s)),
     (''ac_login_back'', \<lambda>c s. to_msg (\<lambda>(account, nickname, icon, svec_friends_info). Ac_login_back account nickname icon svec_friends_info) (get_ac_login_back c s)),
     (''ac_register'', \<lambda>c s. to_msg (\<lambda>(phone, age, sex, nickname, location, passwd). Ac_register phone age sex nickname location passwd) (get_ac_register c s)),
     (''ac_register_back'', \<lambda>c s. to_msg (\<lambda>(account, passwd, ok). Ac_register_back account passwd ok) (get_ac_register_back c s)),
     (''ac_info_all'', \<lambda>c s. to_msg (\<lambda>(types, account). Ac_info_all types account) (get_ac_info_all c s)),
     (''ac_info_all_back'', \<lambda>c s. to_msg (\<lambda>(types, account, phone, age, sex, nickname, location, icon). Ac_info_all_back types account phone age sex nickname location icon) (get_ac_info_all_back c s)),
     (''ac_update_info'', \<lambda>c s. to_msg (\<lambda>(account, phone, age, sex, nickname, location, icon). Ac_update_info account phone age sex nickname location icon) (get_ac_update_info c s)),
     (''ac_update_info_back'', \<lambda>c s. to_msg (\<lambda>(account, icon, ok). Ac_update_info_back account icon ok) (get_ac_update_info_back c s)),
     (''ac_update_remarks'', \<lambda>c s. to_msg (\<lambda>(account, friends, remarks). Ac_update_remarks account friends remarks) (get_ac_update_remarks c s)),
     (''ac_update_remarks_back'', \<lambda>c s. to_msg (\<lambda>(account, friends, remarks). Ac_update_remarks_back account friends remarks) (get_ac_update_remarks_back c s)),
     (''ac_update_friends'', \<lambda>c s. to_msg (\<lambda>(account, friends, ac_remarks, fr_remarks). Ac_update_friends account friends ac_remarks fr_remarks) (get_ac_update_friends c s)),
     (''ac_update_friends_back'', \<lambda>c s. to_msg (\<lambda>sjson_info. Ac_update_friends_back sjson_info) (get_ac_update_friends_back c s)),
     (''swap_cache'', \<lambda>c s. to_msg (\<lambda>target. Swap_cache target) (get_swap_cache c s)),
     (''swap_cache_back'', \<lambda>c s. to_msg (\<lambda>svec_sjson. Swap_cache_back svec_sjson) (get_swap_cache_back c s)),
     (''swap_msg'', \<lambda>c s. to_msg (\<lambda>(target, source, time_to, type, content). Swap_msg target source time_to type content) (get_swap_msg c s)),
     (''swap_msg_back'', \<lambda>c s. to_msg (\<lambda>(target, source, time_to, time_ok). Swap_msg_back target source time_to time_ok) (get_swap_msg_back c s)),
     (''swap_friens_add'', \<lambda>c s. to_msg (\<lambda>(time, account, friends, notes, remarks). Swap_friens_add time account friends notes remarks) (get_swap_friens_add c s)),
     (''files_create_upload'', \<lambda>c s. to_msg (\<lambda>(length_file, abs_file, save_file). Files_create_upload length_file abs_file save_file) (get_files_create_upload c s)),
     (''files_create_upload_back'', \<lambda>c s. to_msg (\<lambda>(fid, abs_file, ok). Files_create_upload_back fid abs_file ok) (get_files_create_upload_back c s)),
     (''files_begin_upload'', \<lambda>c s. to_msg (\<lambda>fid. Files_begin_upload fid) (get_files_begin_upload c s)),
     (''files_begin_upload_back'', \<lambda>c s. to_msg (\<lambda>fid. Files_begin_upload_back fid) (get_files_begin_upload_back c s)),
     (''files_finish_upload'', \<lambda>c s. to_msg (\<lambda>(fid, finish). Files_finish_upload fid finish) (get_files_finish_upload c s)),
     (''files_finish_upload_back'', \<lambda>c s. to_msg (\<lambda>(fid, ok). Files_finish_upload_back fid ok) (get_files_finish_upload_back c s)),
     (''files_create_download'', \<lambda>c s. to_msg (\<lambda>(abs_path, save_path). Files_create_download abs_path save_path) (get_files_create_download c s)),
     (''files_create_download_back'', \<lambda>c s. to_msg (\<lambda>(fid, length_file, abs_path, save_path, ok). Files_create_download_back fid length_file abs_path save_path ok) (get_files_create_download_back c s)),
     (''files_begin_download'', \<lambda>c s. to_msg (\<lambda>fid. Files_begin_download fid) (get_files_begin_download c s)),
     (''files_begin_download_back'', \<lambda>c s. to_msg (\<lambda>fid. Files_begin_download_back fid) (get_files_begin_download_back c s)),
     (''files_finish_download'', \<lambda>c s. to_msg (\<lambda>(fid, ok). Files_finish_download fid ok) (get_files_finish_download c s)),
     (''files_finish_download_back'', \<lambda>c s. to_msg (\<lambda>(fid, ok). Files_finish_download_back fid ok) (get_files_finish_download_back c s))]"

definition get_msg :: "codec \<Rightarrow> string \<Rightarrow> string \<Rightarrow> msg option res" where
  "get_msg c type s = get_any c getters type s"

section \<open>Writing and reading\<close>

lemma set_msg_cs: "set_msg c m = cs_set c (msg_stream m) (msg_type m) (msg_fields m)"
  by (cases m; simp only: set_msg.simps msg_stream.simps msg_type.simps msg_fields.simps set_msg_defs)

lemma msg_fields_ok: "fields_ok (msg_fields m)"
  by (cases m; simp only: msg_fields.simps fields_ok_def list.set ball_simps snd_conv json_wf_sint
      json_wf_sint32; simp)

lemma msg_fields_utf8: "fields_utf8 (msg_fields m) \<longleftrightarrow> list_all utf8_ok (msg_texts m)"
  by (cases m; simp add: fields_utf8_def)

lemma msg_stream_utf8 [simp]: "utf8_ok (msg_stream m)"
  by (cases m) (simp_all only: msg_stream.simps utf8_consts)

lemma msg_type_utf8 [simp]: "utf8_ok (msg_type m)"
  by (cases m) simp_all

lemma get_msg_message:
  assumes "parse c s = Inr (message st ty (put_all (msg_fields m) []))"
  shows "get_msg c (msg_type m) s = Inr (Some m)"
  by (cases m; use assms in \<open>simp add: get_msg_def getters_def to_msg_def get_msg_defs cs_get_def
       get_extend_message map_of_put_all js_int64_def js_int32_def js_string_def js_bool_def\<close>)
lemma set_obj_put_new: "k \<notin> fst ` set m \<Longrightarrow> set (obj_put k v m) = insert (k, v) (set m)"
  by (induction k v m rule: obj_put.induct) auto

lemma set_put_all_distinct:
  "distinct (map fst fs) \<Longrightarrow> fst ` set fs \<inter> fst ` set m = {} \<Longrightarrow> set (put_all fs m) = set m \<union> set fs"
proof (induction fs arbitrary: m)
  case (Cons kv fs)
  obtain k v where kv: "kv = (k, v)" by force
  have "k \<notin> fst ` set m" using Cons.prems kv by auto
  then have "set (obj_put k v m) = insert (k, v) (set m)" by (rule set_obj_put_new)
  with Cons kv show ?case by auto
qed simp

lemma fields_utf8_put_all_iff:
  "distinct (map fst fs) \<Longrightarrow> fields_utf8 (put_all fs []) \<longleftrightarrow> fields_utf8 fs"
  by (simp add: fields_utf8_def set_put_all_distinct)

lemma msg_fields_distinct: "distinct (map fst (msg_fields m))"
  by (cases m) simp_all

lemma set_msg_utf8:
  assumes "protocol_codec c"
  shows "if list_all utf8_ok (msg_texts m) then \<exists>s. set_msg c m = Inr s else set_msg c m = Inl (Throw Type_error)"
proof (cases "list_all utf8_ok (msg_texts m)")
  case True
  then have "fields_utf8 (msg_fields m)" by (simp add: msg_fields_utf8)
  then obtain s where "cs_set c (msg_stream m) (msg_type m) (msg_fields m) = Inr s"
    by (rule protocol_codec.cs_set_message [OF assms msg_stream_utf8 msg_type_utf8 msg_fields_ok])
  with True show ?thesis by (simp add: set_msg_cs)
next
  case False
  then have "\<not> fields_utf8 (put_all (msg_fields m) [])"
    by (simp add: fields_utf8_put_all_iff msg_fields_distinct msg_fields_utf8)
  from protocol_codec.cs_set_bad_utf8 [OF assms msg_stream_utf8 msg_type_utf8 msg_fields_ok this] False
  show ?thesis by (simp add: set_msg_cs)
qed

lemma set_msg_text:
  assumes "protocol_codec c" "set_msg c m = Inr s"
  shows "check_json c s = Inr (Some (msg_stream m, msg_type m)) \<and> get_msg c (msg_type m) s = Inr (Some m)"
proof -
  have "list_all utf8_ok (msg_texts m)" using set_msg_utf8 [OF assms(1), of m] assms(2) by (auto split: if_splits)
  then have "fields_utf8 (msg_fields m)" by (simp add: msg_fields_utf8)
  then obtain s' where s: "cs_set c (msg_stream m) (msg_type m) (msg_fields m) = Inr s'"
      "parse c s' = Inr (message (msg_stream m) (msg_type m) (put_all (msg_fields m) []))"
    by (rule protocol_codec.cs_set_message [OF assms(1) msg_stream_utf8 msg_type_utf8 msg_fields_ok])
  with assms(2) have "s' = s" by (simp add: set_msg_cs)
  with check_json_message [OF s(2)] get_msg_message [OF s(2)] show ?thesis by simp
qed

text \<open>
  C8: every message, of each of the 31 types, is read back as it was written: its text passes
  \<open>check_json\<close> with its stream and type, and the \<open>get\<close> function of its type returns its fields.
\<close>

theorem message_roundtrip:
  assumes "protocol_codec c" "list_all utf8_ok (msg_texts m)"
  shows "\<exists>s. set_msg c m = Inr s \<and> check_json c s = Inr (Some (msg_stream m, msg_type m))
    \<and> get_msg c (msg_type m) s = Inr (Some m)"
  using set_msg_utf8 [OF assms(1), of m] set_msg_text [OF assms(1), of m] assms(2) by auto

theorem message_roundtrip_witness:
  "\<exists>s. set_msg text_codec (Swap_msg 7 8 9 ''Text'' ''hi {0}'') = Inr s
     \<and> check_json text_codec s = Inr (Some (''cc'', ''swap_msg''))
     \<and> get_msg text_codec ''swap_msg'' s = Inr (Some (Swap_msg 7 8 9 ''Text'' ''hi {0}''))"
  using message_roundtrip [OF pc.protocol_codec_axioms, of "Swap_msg 7 8 9 ''Text'' ''hi {0}''"]
  by (simp add: frame_consts)

text \<open>
  A message with a string that is not UTF-8 (a path, a nickname or a text in another encoding) is
  not written: the \<open>set\<close> function throws \<open>type_error\<close>, which no caller catches.
\<close>

theorem message_bad_utf8:
  assumes "protocol_codec c" "\<not> list_all utf8_ok (msg_texts m)"
  shows "set_msg c m = Inl (Throw Type_error)"
  using set_msg_utf8 [OF assms(1), of m] assms(2) by simp

theorem message_bad_utf8_witness:
  "set_msg text_codec (Files_create_download [char_of (255 :: nat)] ''x'') = Inl (Throw Type_error)"
  by (rule message_bad_utf8 [OF pc.protocol_codec_axioms]) code_simp

section \<open>Faults of the readers\<close>

definition only_throws :: "'a res \<Rightarrow> bool" where
  "only_throws m \<longleftrightarrow> (case m of Inl (Throw x) \<Rightarrow> True | Inl _ \<Rightarrow> False | Inr _ \<Rightarrow> True)"

lemma only_throws_simps [simp]:
  "only_throws (Inr x)" "only_throws (Inl (Throw e))"
  by (simp_all add: only_throws_def)

lemma only_throws_rbind: "only_throws m \<Longrightarrow> (\<And>x. only_throws (f x)) \<Longrightarrow> only_throws (rbind m f)"
  by (cases m) (auto simp: only_throws_def split: fault.splits)

lemma only_throws_read:
  "only_throws (js_read j k)" "only_throws (js_object j)" "only_throws (js_int64 j)"
  "only_throws (js_int32 j)" "only_throws (js_string j)" "only_throws (js_bool j)"
  by (cases j; simp add: js_defs)+

lemma only_throws_get_extend: "(\<And>x. only_throws (conv x)) \<Longrightarrow> only_throws (get_extend conv j k)"
  by (auto simp: get_extend_def intro!: only_throws_rbind only_throws_read)

lemma cs_get_fault:
  assumes "\<And>j. only_throws (body j)"
  shows "cs_get c body s = Inl e \<longleftrightarrow> js_parse c s = None \<and> e = Throw Parse_error"
proof (cases "js_parse c s")
  case None
  then show ?thesis by (auto simp: cs_get_def parse_def)
next
  case (Some j)
  have "only_throws (rbind (body j) (\<lambda>x. Inr (Some x)))" by (intro only_throws_rbind assms) simp
  then show ?thesis using Some
    by (auto simp: cs_get_def parse_def only_throws_def catch_all_def split: sum.splits fault.splits)
qed

lemma to_msg_fault [simp]: "to_msg f r = Inl e \<longleftrightarrow> r = Inl e"
  by (cases r) (simp_all add: to_msg_def)

lemma getters_fault:
  "list_all (\<lambda>(t, g). \<forall>c s e. g c s = Inl e \<longleftrightarrow> js_parse c s = None \<and> e = Throw Parse_error) getters"
  unfolding getters_def get_msg_defs list.pred_inject(2) prod.case to_msg_fault
  by (intro conjI allI list.pred_inject(1) cs_get_fault only_throws_rbind only_throws_get_extend only_throws_read
      only_throws_simps)

lemma get_any_fault:
  "list_all (\<lambda>(t, g). \<forall>c s e. g c s = Inl e \<longleftrightarrow> js_parse c s = None \<and> e = Throw Parse_error) gs
    \<Longrightarrow> get_any c gs t s = Inl e \<longleftrightarrow> t \<in> fst ` set gs \<and> js_parse c s = None \<and> e = Throw Parse_error"
  by (induction c gs t s rule: get_any.induct) auto

text \<open>
  The one way a \<open>get\<close> function fails to return is \<open>parse_error\<close>, thrown out of it on text that is
  not JSON; whatever value the text has, an absent or ill-typed field only makes it return false.
\<close>

theorem get_msg_fault:
  "get_msg c t s = Inl e \<longleftrightarrow> t \<in> set (map fst getters) \<and> js_parse c s = None \<and> e = Throw Parse_error"
  unfolding get_msg_def by (simp add: get_any_fault [OF getters_fault])

section \<open>Lists of texts and friend records\<close>

lemma json_vec_value:
  "json_wf (JObj [(''vec'', JArr (map JStr vec))])"
  "json_utf8 (JObj [(''vec'', JArr (map JStr vec))]) \<longleftrightarrow> list_all utf8_ok vec"
  by (simp_all add: obj_sorted_def list_all_iff)

lemma json_vec_read:
  assumes "json_codec c" "list_all utf8_ok vec"
  obtains s where "set_json_vec c vec = Inr s" "get_json_vec c s = Inr vec"
proof -
  obtain s where "dump c (JObj [(''vec'', JArr (map JStr vec))]) = Inr s"
      "parse c s = Inr (JObj [(''vec'', JArr (map JStr vec))])"
    using json_codec.dump_ok [OF assms(1) json_vec_value(1)] json_vec_value(2) assms(2) by metis
  then show ?thesis
    by (intro that [of s]) (simp_all add: set_json_vec_def get_json_vec_def js_assign_def js_read_def js_vec_string_def)
qed

text \<open>
  A list of texts written by \<open>set_json_vec\<close> is read back by \<open>get_json_vec\<close> when the texts are
  UTF-8; otherwise the written text is empty and is what the reader gets.
\<close>

theorem json_vec_roundtrip:
  assumes "json_codec c"
  shows "rbind (set_json_vec c vec) (get_json_vec c)
    = (if list_all utf8_ok vec then Inr vec else get_json_vec c [])"
proof (cases "list_all utf8_ok vec")
  case True
  with json_vec_read [OF assms] obtain s where "set_json_vec c vec = Inr s" "get_json_vec c s = Inr vec" by metis
  with True show ?thesis by simp
next
  case False
  then have "dump c (JObj [(''vec'', JArr (map JStr vec))]) = Inl (Throw Type_error)"
    using json_codec.dump_bad [OF assms json_vec_value(1)] json_vec_value(2) by metis
  with False show ?thesis by (simp add: set_json_vec_def js_assign_def)
qed

theorem json_vec_roundtrip_witness:
  "rbind (set_json_vec text_codec [''a'', ''b{0}'']) (get_json_vec text_codec) = Inr [''a'', ''b{0}'']"
  using json_vec_roundtrip [OF tc.json_codec_axioms, of "[''a'', ''b{0}'']"] by simp

definition friend_value :: "int64 \<Rightarrow> string \<Rightarrow> string \<Rightarrow> string \<Rightarrow> bool \<Rightarrow> json" where
  "friend_value friends nickname icon remarks online = JObj
     [(''friends'', JInt (sint friends)), (''icon'', JStr icon), (''nickname'', JStr nickname),
      (''online'', JBool online), (''remarks'', JStr remarks)]"

lemma friend_value_put:
  "obj_put ''online'' o' (obj_put ''remarks'' r (obj_put ''icon'' i (obj_put ''nickname'' n [(''friends'', f)])))
    = [(''friends'', f), (''icon'', i), (''nickname'', n), (''online'', o'), (''remarks'', r)]"
  by simp

lemma friend_value_ok:
  "json_wf (friend_value f n i r o')"
  "json_utf8 (friend_value f n i r o') \<longleftrightarrow> utf8_ok n \<and> utf8_ok i \<and> utf8_ok r"
  using json_wf_sint [of f] by (auto simp: friend_value_def obj_sorted_def)

lemma friends_info_read:
  assumes "json_codec c" "utf8_ok nickname" "utf8_ok icon" "utf8_ok remarks"
  obtains s where "set_friends_info_json c friends nickname icon remarks online = Inr s"
    "get_friends_info_json c s = Inr (Some (friends, nickname, icon, remarks, online))"
proof -
  let ?v = "friend_value friends nickname icon remarks online"
  have "json_utf8 ?v" using assms by (simp add: friend_value_ok)
  with json_codec.dump_ok [OF assms(1) friend_value_ok(1)]
  obtain s where s: "dump c ?v = Inr s" "parse c s = Inr ?v" by metis
  have "set_friends_info_json c friends nickname icon remarks online = Inr s"
    unfolding set_friends_info_json_def js_assign_def json.case rbind_Inr friend_value_put
    using s(1) by (simp add: friend_value_def)
  moreover have "get_friends_info_json c s = Inr (Some (friends, nickname, icon, remarks, online))"
    using s(2) by (simp add: get_friends_info_json_def friend_value_def js_read_def js_int64_def
        js_string_def js_bool_def)
  ultimately show ?thesis by (rule that)
qed

text \<open>
  A friend's record (account, nickname, icon, remarks, online flag), which travels as text inside
  other messages, is read back as it was written.
\<close>

theorem friends_info_roundtrip:
  assumes "json_codec c" "utf8_ok nickname" "utf8_ok icon" "utf8_ok remarks"
  shows "rbind (set_friends_info_json c friends nickname icon remarks online) (get_friends_info_json c)
    = Inr (Some (friends, nickname, icon, remarks, online))"
  using friends_info_read [OF assms] by (metis rbind_Inr)

theorem friends_info_roundtrip_witness:
  "rbind (set_friends_info_json text_codec (- 5) ''Ann'' ''1.png'' '''' True) (get_friends_info_json text_codec)
    = Inr (Some (- 5, ''Ann'', ''1.png'', '''', True))"
  by (rule friends_info_roundtrip [OF tc.json_codec_axioms]) simp_all

end
