(* ===== verification/Format.thy ===== *)
theory Format
  imports Chat_Prelude
begin

text \<open>
  \<open>format.h\<close>: the class \<open>sformat\<close>, which fills the numbered holes \<open>{0}\<close>, \<open>{1}\<close>, ... of a
  text. Every SQL statement of the program is built with it. The scan of \<open>sformat_t\<close> is the
  recursive function \<open>sformat_loop\<close>; its termination is proved, and the specification is a
  template of literals and holes that \<open>sformat\<close> expands without rescanning the arguments. The indices of the
  code are \<open>int\<close>; they have no bound here, so texts are taken to stay below \<open>2 ^ 31\<close> bytes.
\<close>

section \<open>The class sformat\<close>

text \<open>The arguments the callers pass, and the overloads of \<open>sformat::to_string\<close> for them.\<close>

datatype sarg = A_str string | A_int64 int64

fun arg_to_string :: "sarg \<Rightarrow> string" where
  "arg_to_string (A_int64 n) = to_string64 n"
| "arg_to_string (A_str s) = s"

text \<open>
  \<open>find_flg\<close>: the next \<open>{\<close> ... \<open>}\<close> from an index on, the innermost opening brace winning. The
  answer holds whether one was found and the indices of its two braces, \<open>-1\<close> where there is none.
\<close>

fun find_flg_from :: "string \<Rightarrow> int \<Rightarrow> int \<Rightarrow> bool \<times> int \<times> int" where
  "find_flg_from [] i b = (False, b, - 1)"
| "find_flg_from (c # cs) i b =
     (if c = CHR ''{'' then find_flg_from cs (i + 1) i
      else if c = CHR ''}'' \<and> b \<noteq> - 1 then (True, b, i)
      else find_flg_from cs (i + 1) b)"

definition find_flg :: "string \<Rightarrow> nat \<Rightarrow> bool \<times> int \<times> int" where
  "find_flg str in_begin = find_flg_from (drop in_begin str) (int in_begin) (- 1)"

text \<open>\<open>to_num\<close>: the number between the braces, \<open>None\<close> when \<open>std::stoi\<close> throws.\<close>

definition to_num :: "string \<Rightarrow> nat \<Rightarrow> nat \<Rightarrow> int32 option" where
  "to_num str b e =
     (case stoi (take (e - (b + 1)) (drop (b + 1) str)) of Inr v \<Rightarrow> Some v | Inl _ \<Rightarrow> None)"

definition replace_string :: "string \<Rightarrow> string \<Rightarrow> nat \<Rightarrow> nat \<Rightarrow> string" where
  "replace_string str flg b e = take b str @ flg @ drop (e + 1) str"

text \<open>\<open>_vec.at(val)\<close>: \<open>None\<close> when it throws \<open>std::out_of_range\<close> (a negative \<open>int\<close> becomes a huge index).\<close>

definition vec_at :: "'a list \<Rightarrow> int32 \<Rightarrow> 'a option" where
  "vec_at vec v = (if 0 \<le> sint v \<and> nat (sint v) < length vec then Some (vec ! nat (sint v)) else None)"

lemma find_flg_from_found:
  "find_flg_from cs i b = (True, b', e) \<Longrightarrow> b = - 1 \<or> (0 \<le> b \<and> b < i) \<Longrightarrow> 0 \<le> i
    \<Longrightarrow> (b' = b \<or> i \<le> b') \<and> b' < e \<and> i \<le> e \<and> e < i + int (length cs) \<and> 0 \<le> b'"
proof (induction cs i b rule: find_flg_from.induct)
  case (1 i b)
  then show ?case by simp
next
  case (2 c cs i b)
  show ?case
  proof (cases "c = CHR ''{''")
    case True
    with 2 show ?thesis by auto
  next
    case False
    with 2 show ?thesis by (auto split: if_splits)
  qed
qed

lemma find_flg_found:
  assumes "find_flg str n = (True, b, e)"
  shows "int n \<le> b" "b < e" "e < int (length str)"
proof -
  have "find_flg_from (drop n str) (int n) (- 1) = (True, b, e)"
    using assms by (simp add: find_flg_def)
  note f = find_flg_from_found [OF this, simplified]
  show b: "int n \<le> b" using f by linarith
  show "b < e" using f by blast
  show "e < int (length str)" using f b by linarith
qed

lemma scan_moves_on:
  assumes p: "(True, b, e) = find_flg str n"
    and st: "(v', str') = (case to_num str (nat b) (nat e) of
        None \<Rightarrow> (v, str)
      | Some w \<Rightarrow> (w, case vec_at vec w of None \<Rightarrow> str | Some s \<Rightarrow> replace_string str s (nat b) (nat e)))"
    and at: "vec_at vec v' = Some s"
  shows "length str' - (nat e + length s) < length str - n"
proof -
  have f: "find_flg str n = (True, b, e)" using p by simp
  show ?thesis
  proof (cases "to_num str (nat b) (nat e)")
    case None
    with st have "str' = str" by simp
    then show ?thesis using find_flg_found [OF f] by auto
  next
    case (Some w)
    with st at have "str' = replace_string str s (nat b) (nat e)" by auto
    then show ?thesis using find_flg_found [OF f] by (auto simp: replace_string_def)
  qed
qed

text \<open>
  The loop of \<open>sformat_t\<close>. \<open>val\<close> keeps its previous value when \<open>to_num\<close> fails; the second
  \<open>_vec.at(val)\<close>, which computes where the scan goes on, is outside the \<open>try\<close>.
\<close>

function sformat_loop :: "string list \<Rightarrow> string \<Rightarrow> int32 \<Rightarrow> nat \<Rightarrow> string res" where
  "sformat_loop vec str val from =
     (case find_flg str from of
        (found, b, e) \<Rightarrow>
          if found then
            (let (val', str') =
                   (case to_num str (nat b) (nat e) of
                      Some v \<Rightarrow> (v, (case vec_at vec v of
                                  Some s \<Rightarrow> replace_string str s (nat b) (nat e)
                                | None \<Rightarrow> str))
                    | None \<Rightarrow> (val, str))
             in (case vec_at vec val' of
                   None \<Rightarrow> Inl (Throw Out_of_range)
                 | Some s \<Rightarrow> sformat_loop vec str' val' (nat e + length s)))
          else Inr str)"
  by pat_completeness auto
termination
  apply (relation "measure (\<lambda>(vec, str, val, from). length str - from)")
   apply simp
  apply clarify
  apply (simp only: in_measure prod.case)
  apply (rule scan_moves_on; assumption)
  done

declare sformat_loop.simps [simp del]

text \<open>\<open>sformat(fmt)(args...)\<close>\<close>

definition sformat :: "string \<Rightarrow> sarg list \<Rightarrow> string res" where
  "sformat fmt args = sformat_loop (map arg_to_string args) fmt (- 1) 0"

text \<open>The one fault of a format call.\<close>

lemma sformat_loop_fault: "sformat_loop vec str v from = Inl e \<Longrightarrow> e = Throw Out_of_range"
proof (induction vec str v "from" rule: sformat_loop.induct)
  case (1 vec str val "from")
  obtain found b e' where f: "find_flg str from = (found, b, e')" by (cases "find_flg str from") auto
  let ?vs = "case to_num str (nat b) (nat e') of
      Some v \<Rightarrow> (v, (case vec_at vec v of Some s \<Rightarrow> replace_string str s (nat b) (nat e') | None \<Rightarrow> str))
    | None \<Rightarrow> (val, str)"
  obtain val' str' where vs: "?vs = (val', str')" by (cases ?vs) auto
  have "sformat_loop vec str val from = (if found then (case vec_at vec val' of None \<Rightarrow> Inl (Throw Out_of_range)
      | Some s \<Rightarrow> sformat_loop vec str' val' (nat e' + length s)) else Inr str)"
    by (subst sformat_loop.simps) (simp only: f vs prod.case Let_def)
  with 1(2) have found: "found" and step: "(case vec_at vec val' of None \<Rightarrow> Inl (Throw Out_of_range)
      | Some s \<Rightarrow> sformat_loop vec str' val' (nat e' + length s)) = Inl e"
    by (simp_all only: sum.distinct split: if_splits)
  show ?case
  proof (cases "vec_at vec val'")
    case None
    with step show ?thesis by simp
  next
    case (Some s)
    with step 1(1) [OF f [symmetric] refl found vs [symmetric] refl Some] show ?thesis by simp
  qed
qed

lemma sformat_fault: "sformat f args = Inl e \<Longrightarrow> e = Throw Out_of_range"
  by (auto simp: sformat_def dest: sformat_loop_fault)

section \<open>Templates\<close>

text \<open>
  A template is a list of literals, each followed by a numbered hole, and a last literal. Its text
  is what the program passes to \<open>sformat\<close>; its expansion is what the caller means. A literal has
  no brace, and is at least as long as the text the scan jumps over after the hole before it: one
  character more than the hole's digits.
\<close>

type_synonym template = "(string \<times> nat) list \<times> string"

definition hole :: "nat \<Rightarrow> string" where
  "hole k = CHR ''{'' # nat_digits k @ [CHR ''}'']"

fun template_text :: "template \<Rightarrow> string" where
  "template_text ([], fin) = fin"
| "template_text ((l, k) # t, fin) = l @ hole k @ template_text (t, fin)"

fun template_expand :: "(nat \<Rightarrow> string) \<Rightarrow> template \<Rightarrow> string" where
  "template_expand f ([], fin) = fin"
| "template_expand f ((l, k) # t, fin) = l @ f k @ template_expand f (t, fin)"

definition brace_free :: "string \<Rightarrow> bool" where
  "brace_free s \<longleftrightarrow> CHR ''{'' \<notin> set s \<and> CHR ''}'' \<notin> set s"

fun template_ok :: "nat \<Rightarrow> nat \<Rightarrow> template \<Rightarrow> bool" where
  "template_ok n skip ([], fin) = brace_free fin"
| "template_ok n skip ((l, k) # t, fin) =
     (brace_free l \<and> skip \<le> length l \<and> k < n \<and> k < 2 ^ 31 \<and> template_ok n (length (nat_digits k) + 1) (t, fin))"

lemma brace_free_simps [simp]:
  "brace_free []"
  "brace_free (c # s) \<longleftrightarrow> c \<noteq> CHR ''{'' \<and> c \<noteq> CHR ''}'' \<and> brace_free s"
  "brace_free (s @ t) \<longleftrightarrow> brace_free s \<and> brace_free t"
  by (auto simp: brace_free_def)

lemma brace_free_drop: "brace_free s \<Longrightarrow> brace_free (drop n s)"
  by (auto simp: brace_free_def dest: in_set_dropD)

lemma brace_free_nat_digits [simp]: "brace_free (nat_digits k)"
  using nat_digits_digits [of k] by (auto simp: brace_free_def is_digit_def)

lemma brace_free_to_string64 [simp]: "brace_free (to_string64 w)"
  by (fastforce dest: to_string64_chars simp: brace_free_def is_digit_def)

lemma find_flg_from_brace_free:
  "brace_free s \<Longrightarrow> find_flg_from (s @ t) i b = find_flg_from t (i + int (length s)) b"
  by (induction s arbitrary: i) (auto simp: algebra_simps)

lemma find_flg_from_brace_free_end: "brace_free s \<Longrightarrow> find_flg_from s i b = (False, b, - 1)"
  using find_flg_from_brace_free [of s "[]"] by simp

lemma find_flg_brace_free: "brace_free s \<Longrightarrow> find_flg (p @ s) (length p + n) = (False, - 1, - 1)"
  by (simp add: find_flg_def find_flg_from_brace_free_end brace_free_drop)

lemma find_flg_hole:
  assumes "brace_free l" "n \<le> length l" "brace_free x"
  shows "find_flg (p @ l @ CHR ''{'' # x @ CHR ''}'' # r) (length p + n)
    = (True, int (length p + length l), int (length p + length l + length x + 1))"
proof -
  have "find_flg (p @ l @ CHR ''{'' # x @ CHR ''}'' # r) (length p + n)
      = find_flg_from (drop n l @ CHR ''{'' # x @ CHR ''}'' # r) (int (length p + n)) (- 1)"
    using assms(2) by (simp add: find_flg_def)
  also have "\<dots> = find_flg_from (CHR ''{'' # x @ CHR ''}'' # r) (int (length p + length l)) (- 1)"
    using assms(1,2) by (simp add: find_flg_from_brace_free brace_free_drop of_nat_diff algebra_simps)
  also have "\<dots> = (True, int (length p + length l), int (length p + length l + length x + 1))"
    using assms(3) by (simp add: find_flg_from_brace_free algebra_simps)
  finally show ?thesis .
qed

lemma to_num_between:
  "to_num (q @ CHR ''{'' # x @ CHR ''}'' # r) (length q) (length q + length x + 1)
    = (case stoi x of Inr v \<Rightarrow> Some v | Inl _ \<Rightarrow> None)"
  by (simp add: to_num_def)

lemma replace_between:
  "replace_string (q @ CHR ''{'' # x @ CHR ''}'' # r) s (length q) (length q + length x + 1) = q @ s @ r"
  by (simp add: replace_string_def)

lemma sint_of_nat_small: "k < 2 ^ 31 \<Longrightarrow> sint (of_nat k :: int32) = int k"
  using sint_sbintrunc' [of "int k", where ?'a = 32] by (simp add: signed_take_bit_int_eq_self)

lemma stoi_nat_digits: "k < 2 ^ 31 \<Longrightarrow> stoi (nat_digits k) = Inr (of_nat k)"
proof -
  assume k: "k < 2 ^ 31"
  have "strto_int (nat_digits k) = Some (int k)"
    using strto_int_int_to_string [of "int k"] by (simp add: int_to_string_def)
  with k show ?thesis by (simp add: stoi_def)
qed

lemma vec_at_nat: "k < 2 ^ 31 \<Longrightarrow> k < length vec \<Longrightarrow> vec_at vec (of_nat k) = Some (vec ! k)"
  using sint_of_nat_small [of k] by (simp add: vec_at_def)

text \<open>One turn of the loop at a hole, and the end of the scan.\<close>

lemma sformat_loop_step:
  assumes "find_flg str from = (True, int b, int e)" "to_num str b e = Some w" "vec_at vec w = Some s"
  shows "sformat_loop vec str v from = sformat_loop vec (replace_string str s b e) w (e + length s)"
  using assms by (subst sformat_loop.simps) simp

lemma sformat_loop_hole:
  assumes "brace_free l" "n \<le> length l" "k < length vec" "k < 2 ^ 31"
  shows "sformat_loop vec (p @ l @ hole k @ r) v (length p + n)
    = sformat_loop vec ((p @ l @ vec ! k) @ r) (of_nat k)
        (length (p @ l @ vec ! k) + (length (nat_digits k) + 1))"
proof -
  let ?q = "p @ l" and ?x = "nat_digits k"
  let ?e = "length ?q + length ?x + 1"
  have f: "find_flg (p @ l @ hole k @ r) (length p + n) = (True, int (length ?q), int ?e)"
    using find_flg_hole [OF assms(1,2), of ?x p r] by (simp add: hole_def)
  have m: "to_num (p @ l @ hole k @ r) (length ?q) ?e = Some (of_nat k)"
    using to_num_between [of ?q ?x r] assms(4) by (simp add: hole_def stoi_nat_digits)
  have "replace_string (p @ l @ hole k @ r) (vec ! k) (length ?q) ?e = (p @ l @ vec ! k) @ r"
    using replace_between [of ?q ?x r "vec ! k"] by (simp add: hole_def)
  with sformat_loop_step [OF f m vec_at_nat [OF assms(4,3)], of v]
  show ?thesis by (simp add: algebra_simps)
qed

lemma sformat_loop_done: "brace_free s \<Longrightarrow> sformat_loop vec (p @ s) v (length p + n) = Inr (p @ s)"
  by (subst sformat_loop.simps) (simp add: find_flg_brace_free)

lemma sformat_loop_template:
  "template_ok (length vec) n t
    \<Longrightarrow> sformat_loop vec (p @ template_text t) v (length p + n) = Inr (p @ template_expand (\<lambda>k. vec ! k) t)"
proof (induction "length vec" n t arbitrary: p v rule: template_ok.induct)
  case (1 skip fin)
  then show ?case by (simp add: sformat_loop_done)
next
  case (2 skip l k t fin)
  from 2(2) have l: "brace_free l" "skip \<le> length l" "k < length vec" "k < 2 ^ 31"
    and t: "template_ok (length vec) (length (nat_digits k) + 1) (t, fin)"
    by auto
  show ?case
    using sformat_loop_hole [OF l, of p "template_text (t, fin)" v] 2(1) [OF t, of "p @ l @ vec ! k"]
    by simp
qed

lemma template_expand_cong:
  "template_ok n skip t \<Longrightarrow> (\<And>k. k < n \<Longrightarrow> f k = g k) \<Longrightarrow> template_expand f t = template_expand g t"
  by (induction n skip t rule: template_ok.induct) auto

lemma sformat_fill:
  assumes "template_ok (length args) 0 t" "template_text t = str"
  shows "sformat str args = Inr (template_expand (\<lambda>k. arg_to_string (args ! k)) t)"
proof -
  have ok: "template_ok (length (map arg_to_string args)) 0 t" using assms by simp
  have "template_expand (\<lambda>k. map arg_to_string args ! k) t
      = template_expand (\<lambda>k. arg_to_string (args ! k)) t"
    using assms(1) by (rule template_expand_cong) simp
  with sformat_loop_template [OF ok, of "[]" "- 1"] assms(2) show ?thesis by (simp add: sformat_def)
qed

text \<open>
  C28: filling a template. Every hole is replaced by its argument, once, and the text of the
  arguments, braces included, is copied and never read again.
\<close>

theorem sformat_template:
  assumes "template_ok (length args) 0 t"
  shows "sformat (template_text t) args = Inr (template_expand (\<lambda>k. arg_to_string (args ! k)) t)"
  using assms by (rule sformat_fill) simp

theorem sformat_template_witness:
  "sformat ''UPDATE {0} SET {1} = {0};'' [A_str ''a{1}b'', A_int64 (- 7)]
     = Inr ''UPDATE a{1}b SET -7 = a{1}b;''"
proof -
  let ?t = "([(''UPDATE '', 0), ('' SET '', 1), ('' = '', 0)], '';'')"
  have "template_text ?t = ''UPDATE {0} SET {1} = {0};''"
    by (simp add: hole_def digits_eval)
  moreover have "template_ok (length [A_str ''a{1}b'', A_int64 (- 7)]) 0 ?t"
    by (simp add: digits_eval)
  ultimately show ?thesis
    using sformat_template [of "[A_str ''a{1}b'', A_int64 (- 7)]" ?t]
    by (simp add: hole_def digits_eval)
qed

section \<open>Where the scan goes wrong\<close>

lemma find_flg_from_no_open: "CHR ''{'' \<notin> set s \<Longrightarrow> find_flg_from s i (- 1) = (False, - 1, - 1)"
  by (induction s arbitrary: i) auto

lemma drop_past_open:
  assumes "length sep < n" "brace_free r"
  shows "CHR ''{'' \<notin> set (drop n (sep @ hole m @ r))"
proof -
  obtain j where j: "n - length sep = Suc j" using assms(1) by (cases "n - length sep") auto
  have "drop n (sep @ hole m @ r) = drop j (nat_digits m @ CHR ''}'' # r)"
    using assms(1) j by (simp add: hole_def)
  moreover have "CHR ''{'' \<notin> set (nat_digits m @ CHR ''}'' # r)"
    using assms(2) brace_free_nat_digits [of m] by (auto simp: brace_free_def)
  ultimately show ?thesis by (metis in_set_dropD)
qed

text \<open>
  After a hole the scan resumes one character too far for each digit of the hole and one more,
  so a second hole that is too close, such as the \<open>{1}\<close> of \<open>{0}{1}\<close>, stays in the text unfilled.
\<close>

theorem sformat_close_holes:
  assumes "brace_free l" "brace_free r"
    and "length sep \<le> length (nat_digits k)" "k < length args" "k < 2 ^ 31"
  shows "sformat (l @ hole k @ sep @ hole m @ r) args
    = Inr (l @ arg_to_string (args ! k) @ sep @ hole m @ r)"
proof -
  let ?vec = "map arg_to_string args" and ?n = "length (nat_digits k) + 1"
  let ?p = "l @ ?vec ! k"
  have "sformat_loop ?vec ([] @ l @ hole k @ sep @ hole m @ r) (- 1) (length ([]::string) + 0)
      = sformat_loop ?vec (([] @ l @ ?vec ! k) @ sep @ hole m @ r) (of_nat k)
          (length ([] @ l @ ?vec ! k) + ?n)"
    by (rule sformat_loop_hole) (use assms in auto)
  moreover have "find_flg (?p @ sep @ hole m @ r) (length ?p + ?n) = (False, - 1, - 1)"
    using drop_past_open [OF _ assms(2), of sep ?n m] assms(3)
    by (simp add: find_flg_def find_flg_from_no_open)
  ultimately show ?thesis
    using assms(4) by (simp add: sformat_def sformat_loop.simps [of _ "_ @ _"])
qed

theorem sformat_close_holes_witness: "sformat ''{0}{1}'' [A_str ''x'', A_str ''y''] = Inr ''x{1}''"
  using sformat_close_holes [of "[]" "[]" "[]" 0 "[A_str ''x'', A_str ''y'']" 1]
  by (simp add: hole_def digits_eval)

lemma sformat_first_hole_bad:
  assumes "brace_free l" "brace_free x"
    and "\<And>v. stoi x = Inr v \<Longrightarrow> vec_at args v = None"
  shows "sformat (l @ CHR ''{'' # x @ CHR ''}'' # r) args = Inl (Throw Out_of_range)"
proof -
  let ?str = "l @ CHR ''{'' # x @ CHR ''}'' # r" and ?vec = "map arg_to_string args"
  have f: "find_flg ?str 0 = (True, int (length l), int (length l + length x + 1))"
    using find_flg_hole [OF assms(1) le0 assms(2), of "[]" r] by simp
  have n: "to_num ?str (length l) (length l + length x + 1)
      = (case stoi x of Inr v \<Rightarrow> Some v | Inl _ \<Rightarrow> None)"
    by (rule to_num_between)
  have none: "vec_at ?vec v = None" if "v = - 1 \<or> stoi x = Inr v" for v
    using that assms(3) [of v] by (auto simp: vec_at_def split: if_splits)
  show ?thesis
    unfolding sformat_def
    by (subst sformat_loop.simps)
      (use n none in \<open>auto simp: f nat_add_distrib split: sum.splits\<close>)
qed

text \<open>
  A first pair of braces that does not hold the index of an argument (no number, a negative
  one, one too large) makes \<open>sformat\<close> throw \<open>std::out_of_range\<close>, which no caller catches.
\<close>

theorem sformat_bad_hole:
  assumes "brace_free l" "brace_free x"
    and "\<And>v. stoi x = Inr v \<Longrightarrow> vec_at args v = None"
  shows "sformat (l @ CHR ''{'' # x @ CHR ''}'' # r) args = Inl (Throw Out_of_range)"
  using assms by (rule sformat_first_hole_bad)

theorem sformat_bad_hole_witness:
  "sformat ''VALUES (a{b}, {0});'' [A_str ''x''] = Inl (Throw Out_of_range)"
proof -
  have "stoi ''b'' = Inl (Throw Invalid_argument)" by code_simp
  then show ?thesis
    using sformat_bad_hole [of "''VALUES (a''" "''b''" "[A_str ''x'']" "'', {0});''"] by simp
qed

end
