(* ===== verification/Web_Files.thy ===== *)
theory Web_Files
  imports Files_Channel Messages Format
begin

text \<open>
  \<open>qweb_files.{h,cpp}\<close>: the client of the file server. The object is a record whose handlers are
  functions on it. The network library is a parameter: \<open>sock\<close> gives the result of a send from what was
  sent before. Signals are appended to a list in the order they are emitted; log output is left out. A
  handler that throws ends the program, as nothing around it catches.
\<close>

section \<open>The connection\<close>

text \<open>\<open>inter_client.h\<close>: the address \<open>open\<close> passes on, and the reconnection settings it fills in.\<close>

record reconn_setting =
  min_delay :: int32
  max_delay :: int32
  delay_policy :: int32

definition inter_client_open ::
    "(string \<Rightarrow> int32) \<Rightarrow> reconn_setting \<Rightarrow> string \<Rightarrow> int32 \<Rightarrow> string \<Rightarrow> int32 \<times> reconn_setting" where
  "inter_client_open client_open init ip port txt =
     (let rec = init\<lparr>min_delay := 1000, max_delay := 2000, delay_policy := 1\<rparr>;
          temp = ''ws://'' @ ip @ '':'' @ int_to_string (sint port) @ ''/'' @ txt
      in (client_open temp, rec))"

datatype files_signal =
    Sn_open
  | Sn_close
  | Sn_create_upload bool int64 string
  | Sn_create_download bool int64 string
  | Sn_finish_upload bool int64
  | Sn_finish_download bool int64
  | Sn_prog_upload int64 int64
  | Sn_prog_download int64 int64

text \<open>What leaves the object: texts given to \<open>send\<close> with its result, signals, calls of \<open>close\<close>.\<close>

record web =
  web_sent :: "(string \<times> int32) list"
  web_signals :: "files_signal list"
  web_closes :: nat

type_synonym sock = "(string \<times> int32) list \<Rightarrow> string \<Rightarrow> int32"

definition ws_send :: "sock \<Rightarrow> string \<Rightarrow> web \<Rightarrow> int32 \<times> web" where
  "ws_send sock s x = (let ret = sock (web_sent x) s in (ret, x\<lparr>web_sent := web_sent x @ [(s, ret)]\<rparr>))"

definition emit :: "files_signal \<Rightarrow> web \<Rightarrow> web" where
  "emit sg x = x\<lparr>web_signals := web_signals x @ [sg]\<rparr>"

definition send_msg :: "sock \<Rightarrow> string \<Rightarrow> web \<Rightarrow> bool \<times> web" where
  "send_msg sock sjson x = (let (ret, x') = ws_send sock (set_files_json sjson) x in (0 < sint ret, x'))"

definition send_data :: "sock \<Rightarrow> int64 \<Rightarrow> string \<Rightarrow> web \<Rightarrow> bool \<times> web" where
  "send_data sock id' msg x = (let (ret, x') = ws_send sock (set_files_binary id' msg) x in (0 < sint ret, x'))"

section \<open>The object\<close>

record qweb_files =
  path_temp :: string
  path_icon :: string
  fs_swap :: files_channel
  id_channel :: int64
  web :: web

definition qweb_files_init :: "world \<Rightarrow> qweb_files" where
  "qweb_files_init w = \<lparr>path_temp = ''../temp_file/'', path_icon = ''../data/head_icon/'',
     fs_swap = \<lparr>map_recv = Map.empty, map_send = Map.empty, disk = w, map_channel = Map.empty\<rparr>,
     id_channel = 0, web = \<lparr>web_sent = [], web_signals = [], web_closes = 0\<rparr>\<rparr>"

definition do_send_msg :: "sock \<Rightarrow> string \<Rightarrow> 'a qweb_files_scheme \<Rightarrow> bool \<times> 'a qweb_files_scheme" where
  "do_send_msg sock s st = (let (ok, x) = send_msg sock s (web st) in (ok, st\<lparr>web := x\<rparr>))"

definition do_emit :: "files_signal \<Rightarrow> 'a qweb_files_scheme \<Rightarrow> 'a qweb_files_scheme" where
  "do_emit sg st = st\<lparr>web := emit sg (web st)\<rparr>"

definition qweb_close :: "'a qweb_files_scheme \<Rightarrow> 'a qweb_files_scheme" where
  "qweb_close st = st\<lparr>web := (web st)\<lparr>web_closes := Suc (web_closes (web st))\<rparr>\<rparr>"

definition get_temp_path :: "'a qweb_files_scheme \<Rightarrow> string" where
  "get_temp_path st = path_temp st"

definition get_icon_path :: "'a qweb_files_scheme \<Rightarrow> string" where
  "get_icon_path st = path_icon st"

definition get_id_channel :: "'a qweb_files_scheme \<Rightarrow> int64" where
  "get_id_channel st = id_channel st"

section \<open>Requests\<close>

definition upload_file :: "codec \<Rightarrow> sock \<Rightarrow> string \<Rightarrow> string \<Rightarrow> 'a qweb_files_scheme \<Rightarrow> (bool \<times> 'a qweb_files_scheme) res" where
  "upload_file c sock abs_path save_path st =
     (let w = disk (fs_swap st) in
      if is_exists w abs_path = False \<or> is_can_read w abs_path = False \<or> is_file w abs_path = False
      then Inr (False, st)
      else rbind (get_file_size w abs_path) (\<lambda>file_size.
           rbind (set_files_create_upload c file_size abs_path save_path) (\<lambda>s.
           Inr (do_send_msg sock s st))))"

definition upload_icon :: "codec \<Rightarrow> sock \<Rightarrow> string \<Rightarrow> int64 \<Rightarrow> 'a qweb_files_scheme \<Rightarrow> (bool \<times> 'a qweb_files_scheme) res" where
  "upload_icon c sock abs_path account st =
     upload_file c sock abs_path (path_icon st @ ''icon_'' @ to_string64 account) st"

definition download_file :: "codec \<Rightarrow> sock \<Rightarrow> string \<Rightarrow> string \<Rightarrow> 'a qweb_files_scheme \<Rightarrow> (bool \<times> 'a qweb_files_scheme) res" where
  "download_file c sock abs_path save_path st =
     rbind (set_files_create_download c abs_path save_path) (\<lambda>s. Inr (do_send_msg sock s st))"

text \<open>The save path is also handed back through the reference parameter.\<close>

definition download_icon :: "codec \<Rightarrow> sock \<Rightarrow> int64 \<Rightarrow> 'a qweb_files_scheme \<Rightarrow> (bool \<times> string \<times> 'a qweb_files_scheme) res" where
  "download_icon c sock account st =
     (let save_path = path_icon st @ ''icon_'' @ to_string64 account
      in rbind (download_file c sock save_path save_path st) (\<lambda>(ok, st'). Inr (ok, save_path, st')))"

section \<open>Handlers\<close>

definition task_recv_binary_data :: "int64 \<Rightarrow> string \<Rightarrow> 'a qweb_files_scheme \<Rightarrow> 'a qweb_files_scheme res" where
  "task_recv_binary_data id' data st =
     rbind (add_data_recv (\<lambda>i prog n len x. emit (Sn_prog_download i prog) x) id' data (fs_swap st) (web st))
       (\<lambda>(ok, fs, x). Inr (st\<lparr>fs_swap := fs, web := x\<rparr>))"

text \<open>\<open>func_send\<close> and \<open>func_prog\<close> of an upload.\<close>

definition func_send :: "sock \<Rightarrow> (files_channel, web) send_cb" where
  "func_send sock = (\<lambda>id' data fs x.
     let (ok, x') = send_data sock id' data x in (check_linit_flux ok id' fs, x'))"

definition func_prog :: "web prog_cb" where
  "func_prog = (\<lambda>id' prog n len x. emit (Sn_prog_upload id' prog) x)"

definition task_files_create_upload_back :: "codec \<Rightarrow> sock \<Rightarrow> string \<Rightarrow> 'a qweb_files_scheme \<Rightarrow> 'a qweb_files_scheme res" where
  "task_files_create_upload_back c sock sjson st =
     rbind (get_files_create_upload_back c sjson) (\<lambda>r. case r of
       None \<Rightarrow> Inr st
     | Some (id', abs_file, ok) \<Rightarrow>
         if ok then
           rbind (open_file_send_channel (get_id_channel st) id' abs_file True (fs_swap st)) (\<lambda>(ok_open, fs).
           let st1 = st\<lparr>fs_swap := fs\<rparr> in
           rbind (if ok_open then set_files_begin_upload c id' else set_files_finish_upload c id' False) (\<lambda>s.
           Inr (do_emit (Sn_create_upload ok_open id' abs_file) (snd (do_send_msg sock s st1)))))
         else Inr st)"

definition task_files_begin_upload_back :: "codec \<Rightarrow> sock \<Rightarrow> string \<Rightarrow> 'a qweb_files_scheme \<Rightarrow> 'a qweb_files_scheme res" where
  "task_files_begin_upload_back c sock sjson st =
     rbind (get_files_begin_upload_back c sjson) (\<lambda>r. case r of
       None \<Rightarrow> Inr st
     | Some id' \<Rightarrow>
         rbind (add_data_send (func_send sock) func_prog id' (fs_swap st) (web st)) (\<lambda>(ok_send, fs, x).
         let st1 = st\<lparr>fs_swap := fs, web := x\<rparr> in
         rbind (if ok_send then set_files_finish_upload c id' True else set_files_begin_upload c id') (\<lambda>s.
         Inr (snd (do_send_msg sock s st1)))))"

definition task_files_finish_upload_back :: "codec \<Rightarrow> string \<Rightarrow> 'a qweb_files_scheme \<Rightarrow> 'a qweb_files_scheme res" where
  "task_files_finish_upload_back c sjson st =
     rbind (get_files_finish_upload_back c sjson) (\<lambda>r. case r of
       None \<Rightarrow> Inr st
     | Some (id', ok) \<Rightarrow>
         Inr (do_emit (Sn_finish_upload ok id')
           (st\<lparr>fs_swap := close_file_send_channel (get_id_channel st) id' (fs_swap st)\<rparr>)))"

definition task_files_create_download_back :: "codec \<Rightarrow> sock \<Rightarrow> string \<Rightarrow> 'a qweb_files_scheme \<Rightarrow> 'a qweb_files_scheme res" where
  "task_files_create_download_back c sock sjson st =
     rbind (get_files_create_download_back c sjson) (\<lambda>r. case r of
       None \<Rightarrow> Inr st
     | Some (id', length_file, abs_path, save_path, ok) \<Rightarrow>
         if ok then
           (let filename = (if save_path = [] then path_temp st @ get_filename abs_path else save_path);
                (ok_open, fs) = open_file_recv_channel (get_id_channel st) id' length_file filename True (fs_swap st);
                st1 = st\<lparr>fs_swap := fs\<rparr>
            in rbind (if ok_open then set_files_begin_download c id' else set_files_finish_download c id' False) (\<lambda>s.
               Inr (do_emit (Sn_create_download ok_open id' abs_path) (snd (do_send_msg sock s st1)))))
         else Inr st)"

definition task_files_begin_download_back :: "codec \<Rightarrow> sock \<Rightarrow> string \<Rightarrow> 'a qweb_files_scheme \<Rightarrow> 'a qweb_files_scheme res" where
  "task_files_begin_download_back c sock sjson st =
     rbind (get_files_begin_download_back c sjson) (\<lambda>r. case r of
       None \<Rightarrow> Inr st
     | Some id' \<Rightarrow>
         rbind (set_files_begin_download c id') (\<lambda>s. Inr (snd (do_send_msg sock s st))))"

definition task_files_finish_download_back :: "codec \<Rightarrow> sock \<Rightarrow> string \<Rightarrow> 'a qweb_files_scheme \<Rightarrow> 'a qweb_files_scheme res" where
  "task_files_finish_download_back c sock sjson st =
     rbind (get_files_finish_download c sjson) (\<lambda>r. case r of
       None \<Rightarrow> Inr st
     | Some (id', ok) \<Rightarrow>
         (let (ok_recv, n, len) = check_length_recv id' 0 0 (fs_swap st);
              is_recv_success = (ok_recv \<and> ok);
              st1 = st\<lparr>fs_swap := close_file_recv_channel (get_id_channel st) id' (fs_swap st)\<rparr>
          in rbind (set_files_finish_download c id' True) (\<lambda>s.
             Inr (do_emit (Sn_finish_download is_recv_success id') (snd (do_send_msg sock s st1))))))"

definition sl_open :: "'a qweb_files_scheme \<Rightarrow> 'a qweb_files_scheme" where
  "sl_open st = do_emit Sn_open (st\<lparr>fs_swap := snd (add_id_channel (get_id_channel st) (fs_swap st))\<rparr>)"

definition sl_close :: "'a qweb_files_scheme \<Rightarrow> 'a qweb_files_scheme" where
  "sl_close st = do_emit Sn_close (st\<lparr>fs_swap := remove_id_channel (get_id_channel st) (fs_swap st)\<rparr>)"

text \<open>The table the constructor fills, by message type.\<close>

definition map_fn :: "codec \<Rightarrow> sock \<Rightarrow> string \<Rightarrow> (string \<Rightarrow> 'a qweb_files_scheme \<Rightarrow> 'a qweb_files_scheme res) option" where
  "map_fn c sock = map_of
     [(''files_create_upload_back'', task_files_create_upload_back c sock),
      (''files_begin_upload_back'', task_files_begin_upload_back c sock),
      (''files_finish_upload_back'', task_files_finish_upload_back c),
      (''files_create_download_back'', task_files_create_download_back c sock),
      (''files_begin_download_back'', task_files_begin_download_back c sock),
      (''files_finish_download_back'', task_files_finish_download_back c sock)]"

definition sl_message :: "codec \<Rightarrow> sock \<Rightarrow> string \<Rightarrow> 'a qweb_files_scheme \<Rightarrow> 'a qweb_files_scheme res" where
  "sl_message c sock msg st =
     (let flg = check_files_flg msg in
      if flg = CS_FILES_JSON then
        (case get_files_json msg of
           Some sjson \<Rightarrow>
             rbind (check_json c sjson) (\<lambda>r. case r of
               Some (stream, type) \<Rightarrow>
                 if stream = sc_s then
                   (case map_fn c sock type of Some task \<Rightarrow> task sjson st | None \<Rightarrow> Inr st)
                 else Inr st
             | None \<Rightarrow> Inr st)
         | None \<Rightarrow> Inr st)
      else if flg = CS_FILES_BINARY then
        (case get_files_binary msg of
           Some (id', buf) \<Rightarrow> task_recv_binary_data id' buf st
         | None \<Rightarrow> Inr st)
      else Inr st)"

section \<open>Messages the object sends and reads\<close>

lemma set_msg_defined: "protocol_codec c \<Longrightarrow> msg_texts m = [] \<Longrightarrow> \<exists>s. set_msg c m = Inr s"
  using set_msg_utf8 [of c m] by simp

text \<open>The requests that hold only an identifier are always written.\<close>

lemma id_requests:
  assumes "protocol_codec c"
  shows "\<exists>s. set_files_begin_upload c i = Inr s" "\<exists>s. set_files_finish_upload c i b = Inr s"
    "\<exists>s. set_files_begin_download c i = Inr s" "\<exists>s. set_files_finish_download c i b = Inr s"
  using set_msg_defined [OF assms, of "Files_begin_upload i"] set_msg_defined [OF assms, of "Files_finish_upload i b"]
    set_msg_defined [OF assms, of "Files_begin_download i"] set_msg_defined [OF assms, of "Files_finish_download i b"]
  by simp_all

lemma to_msg_Some: "to_msg f r = Inr (Some m) \<longleftrightarrow> (\<exists>a. r = Inr (Some a) \<and> f a = m)"
  by (cases r) (auto simp: to_msg_def)

text \<open>The replies of the server, as the client reads them.\<close>

lemma replies:
  assumes "protocol_codec c"
  shows "set_files_create_upload_back c i f ok = Inr s \<Longrightarrow>
      check_json c s = Inr (Some (sc_s, ''files_create_upload_back''))
      \<and> get_files_create_upload_back c s = Inr (Some (i, f, ok))"
    and "set_files_begin_upload_back c i = Inr s \<Longrightarrow>
      check_json c s = Inr (Some (sc_s, ''files_begin_upload_back''))
      \<and> get_files_begin_upload_back c s = Inr (Some i)"
    and "set_files_create_download_back c i n f p ok = Inr s \<Longrightarrow>
      check_json c s = Inr (Some (sc_s, ''files_create_download_back''))
      \<and> get_files_create_download_back c s = Inr (Some (i, n, f, p, ok))"
    and "set_files_finish_download_back c i ok = Inr s \<Longrightarrow>
      check_json c s = Inr (Some (sc_s, ''files_finish_download_back''))
      \<and> get_files_finish_download_back c s = Inr (Some (i, ok))"
  using set_msg_text [OF assms, of "Files_create_upload_back i f ok" s] set_msg_text [OF assms, of "Files_begin_upload_back i" s]
    set_msg_text [OF assms, of "Files_create_download_back i n f p ok" s] set_msg_text [OF assms, of "Files_finish_download_back i ok" s]
  by (auto simp: get_msg_def getters_def to_msg_Some)

text \<open>The two readers of an identifier and a flag are the same function.\<close>

lemma get_finish_download_back: "get_files_finish_download c = get_files_finish_download_back c"
  by (simp add: get_files_finish_download_def get_files_finish_download_back_def)

section \<open>Uploads\<close>

fun run_messages :: "codec \<Rightarrow> sock \<Rightarrow> string list \<Rightarrow> 'a qweb_files_scheme \<Rightarrow> 'a qweb_files_scheme res" where
  "run_messages c sock [] st = Inr st"
| "run_messages c sock (msg # msgs) st = rbind (sl_message c sock msg st) (run_messages c sock msgs)"

text \<open>The data of the binary frames that were sent for an identifier.\<close>

definition frame_of :: "int64 \<Rightarrow> string \<Rightarrow> string list" where
  "frame_of i s =
     (if check_files_flg s = CS_FILES_BINARY then
        (case get_files_binary s of Some (j, buf) \<Rightarrow> if j = i then [buf] else [] | None \<Rightarrow> [])
      else [])"

definition frames :: "int64 \<Rightarrow> web \<Rightarrow> string list" where
  "frames i x = concat (map (\<lambda>(s, r). frame_of i s) (web_sent x))"

lemma flags_differ [simp]: "CS_FILES_JSON \<noteq> CS_FILES_BINARY" "CS_FILES_BINARY \<noteq> CS_FILES_JSON"
  by (simp_all add: CS_FILES_JSON_def CS_FILES_BINARY_def)

lemma frame_of_simps [simp]:
  "frame_of i (set_files_json s) = []" "frame_of i (set_files_binary j buf) = (if j = i then [buf] else [])"
  by (simp_all add: frame_of_def)

lemma frames_emit [simp]: "frames i (emit sg x) = frames i x"
  by (simp add: frames_def emit_def)

lemma frames_send_msg [simp]: "frames i (snd (send_msg sock s x)) = frames i x"
  by (simp add: frames_def send_msg_def ws_send_def Let_def)

lemma frames_do_send_msg [simp]: "frames i (web (snd (do_send_msg sock s st))) = frames i (web st)"
  by (simp add: do_send_msg_def case_prod_beta)

lemma do_send_msg_fields [simp]:
  "fs_swap (snd (do_send_msg sock s st)) = fs_swap st" "id_channel (snd (do_send_msg sock s st)) = id_channel st"
  by (simp_all add: do_send_msg_def case_prod_beta)

lemma do_emit_fields [simp]:
  "fs_swap (do_emit sg st) = fs_swap st" "id_channel (do_emit sg st) = id_channel st"
  "frames i (web (do_emit sg st)) = frames i (web st)"
  by (simp_all add: do_emit_def)

lemma last_do_send_msg [simp]: "fst (last (web_sent (web (snd (do_send_msg sock s st))))) = set_files_json s"
  by (simp add: do_send_msg_def send_msg_def ws_send_def Let_def)

interpretation uploads: send_observer "func_send sock" func_prog i "frames i" for sock i
  by unfold_locales
    (simp_all add: func_send_def func_prog_def send_data_def ws_send_def frames_def emit_def Let_def)

lemma sl_message_json:
  assumes "check_json c s = Inr (Some (sc_s, type))" "map_fn c sock type = Some task"
  shows "sl_message c sock (set_files_json s) st = task s st"
  using assms by (simp add: sl_message_def)

lemma sl_message_binary: "sl_message c sock (set_files_binary i d) st = task_recv_binary_data i d st"
  by (simp add: sl_message_def)

lemma map_fn_simps:
  "map_fn c sock ''files_create_upload_back'' = Some (task_files_create_upload_back c sock)"
  "map_fn c sock ''files_begin_upload_back'' = Some (task_files_begin_upload_back c sock)"
  "map_fn c sock ''files_create_download_back'' = Some (task_files_create_download_back c sock)"
  "map_fn c sock ''files_finish_download_back'' = Some (task_files_finish_download_back c sock)"
  by (simp_all add: map_fn_def)

text \<open>
  One round: the server asks to go on, the client sends the next blocks and then either asks for
  another round or says that it has finished, the latter when nothing was left.
\<close>

lemma upload_round:
  assumes c: "protocol_codec c" and s: "set_files_begin_upload_back c i = Inr s"
    and sp: "map_send (fs_swap st) i = Some sp" "send_length_max sp \<noteq> 0"
  obtains st' sp' fin where "sl_message c sock (set_files_json s) st = Inr st'"
    "map_send (fs_swap st') i = Some sp'" "send_length_max sp' \<noteq> 0"
    "frames i (web st') @ left (send_fs sp') = frames i (web st) @ left (send_fs sp)"
    "length (left (send_fs sp')) \<le> length (left (send_fs sp)) - 1"
    "set_files_finish_upload c i True = Inr fin"
    "left (send_fs sp) = [] \<longrightarrow> fst (last (web_sent (web st'))) = set_files_json fin"
proof -
  obtain r k sp' x' where a: "add_data_send (func_send sock) func_prog i (fs_swap st) (web st)
      = Inr (r, (fs_swap st)\<lparr>map_send := (map_send (fs_swap st))(i \<mapsto> sp')\<rparr>, x')"
    and k: "frames i x' = frames i (web st) @ take k (left (send_fs sp))"
      "left (send_fs sp') = drop k (left (send_fs sp))" "k \<le> length (left (send_fs sp))"
      "if left (send_fs sp) = [] then r else 0 < k" "send_length_max sp' = send_length_max sp"
    using uploads.send_loop_observed [OF sp, of sock "web st"] sp(1) by (auto simp: add_data_send_def)
  obtain fin beg where fin: "set_files_finish_upload c i True = Inr fin" "set_files_begin_upload c i = Inr beg"
    using id_requests [OF c] by metis
  let ?st1 = "st\<lparr>fs_swap := (fs_swap st)\<lparr>map_send := (map_send (fs_swap st))(i \<mapsto> sp')\<rparr>, web := x'\<rparr>"
  let ?st2 = "snd (do_send_msg sock (if r then fin else beg) ?st1)"
  note rep = replies(2) [OF c s]
  have "sl_message c sock (set_files_json s) st = task_files_begin_upload_back c sock s st"
    using rep by (intro sl_message_json [OF _ map_fn_simps(2)]) simp
  also have "\<dots> = Inr ?st2"
    using rep a fin by (simp add: task_files_begin_upload_back_def)
  finally show thesis
    by (rule that [of ?st2 sp' fin]) (use k sp(2) fin in \<open>auto split: if_splits\<close>)
qed

lemma upload_rounds:
  assumes "protocol_codec c" "set_files_begin_upload_back c i = Inr s"
    and "map_send (fs_swap st) i = Some sp" "send_length_max sp \<noteq> 0" "length (left (send_fs sp)) < n"
  shows "\<exists>st' fin. run_messages c sock (replicate n (set_files_json s)) st = Inr st'
    \<and> frames i (web st') = frames i (web st) @ left (send_fs sp)
    \<and> set_files_finish_upload c i True = Inr fin \<and> fst (last (web_sent (web st'))) = set_files_json fin"
  using assms(3-)
proof (induction n arbitrary: st sp)
  case (Suc n)
  obtain st1 sp1 fin where r: "sl_message c sock (set_files_json s) st = Inr st1"
    "map_send (fs_swap st1) i = Some sp1" "send_length_max sp1 \<noteq> 0"
    "frames i (web st1) @ left (send_fs sp1) = frames i (web st) @ left (send_fs sp)"
    "length (left (send_fs sp1)) \<le> length (left (send_fs sp)) - 1"
    "set_files_finish_upload c i True = Inr fin"
    "left (send_fs sp) = [] \<longrightarrow> fst (last (web_sent (web st1))) = set_files_json fin"
    by (rule upload_round [OF assms(1,2) Suc.prems(1,2), where sock = sock])
  show ?case
  proof (cases n)
    case 0
    then have "left (send_fs sp) = []" "left (send_fs sp1) = []" using Suc.prems(3) r(5) by simp_all
    with r 0 show ?thesis by simp
  next
    case n: (Suc m)
    then have "length (left (send_fs sp1)) < n" using Suc.prems(3) r(5) by simp
    from Suc.IH [OF r(2,3) this] r(1,4) show ?thesis by auto
  qed
qed simp

text \<open>A whole upload, from the reply that creates it.\<close>

lemma upload_run:
  assumes "protocol_codec c"
    and "node_at (disk (fs_swap st)) f = Some (Regular content True)" "content \<noteq> []" "length content < 2 ^ 63"
    and "map_send (fs_swap st) i = None" "map_channel (fs_swap st) (id_channel st) \<noteq> None"
    and "set_files_create_upload_back c i f True = Inr s0" "set_files_begin_upload_back c i = Inr s1"
    and "length content div 1024 + 2 \<le> n"
  shows "\<exists>st' fin. run_messages c sock (set_files_json s0 # replicate n (set_files_json s1)) st = Inr st'
    \<and> frames i (web st') = frames i (web st) @ blocks content \<and> concat (blocks content) = content
    \<and> set_files_finish_upload c i True = Inr fin \<and> fst (last (web_sent (web st'))) = set_files_json fin"
proof -
  let ?fs = "fs_swap st"
  obtain sp where o: "open_file_send i f True ?fs = Inr (True, ?fs\<lparr>map_send := (map_send ?fs)(i \<mapsto> sp)\<rparr>)"
    and sp: "send_fs sp = \<lparr>rs_rest = content, rs_eof = False\<rparr>" "send_length_max sp = word_of_nat (length content)"
    by (rule open_file_send_ok [OF assms(2,5), of True])
  obtain it where it: "map_channel ?fs (id_channel st) = Some it" using assms(6) by auto
  obtain fs where fs: "open_file_send_channel (get_id_channel st) i f True ?fs = Inr (True, fs)"
      "map_send fs i = Some sp"
    using o it by (simp add: open_file_send_channel_def add_file_send_def get_id_channel_def)
  obtain beg where beg: "set_files_begin_upload c i = Inr beg" using id_requests [OF assms(1)] by metis
  let ?st1 = "do_emit (Sn_create_upload True i f) (snd (do_send_msg sock beg (st\<lparr>fs_swap := fs\<rparr>)))"
  note rep = replies(1) [OF assms(1,7)]
  have "sl_message c sock (set_files_json s0) st = task_files_create_upload_back c sock s0 st"
    using rep by (intro sl_message_json [OF _ map_fn_simps(1)]) simp
  also have "\<dots> = Inr ?st1"
    using rep fs(1) beg by (simp add: task_files_create_upload_back_def)
  finally have m: "sl_message c sock (set_files_json s0) st = Inr ?st1" .
  have st1: "map_send (fs_swap ?st1) i = Some sp" using fs(2) by simp
  have "send_length_max sp \<noteq> 0" using word_of_nat_nonzero [OF assms(3,4)] sp(2) by simp
  moreover have l: "left (send_fs sp) = blocks content" by (simp add: sp(1) left_def)
  moreover have "length (left (send_fs sp)) < n" using assms(9) by (simp add: l length_blocks)
  ultimately show ?thesis
    using upload_rounds [OF assms(1,8) st1, of n sock] m by simp
qed

text \<open>
  C12: an upload the server accepts completes: after the reply that creates it and
  \<open>length div 1024 + 2\<close> requests to go on, the binary frames sent for its identifier are the blocks of
  the file, in order and each exactly once, and the last text sent is the client's
  \<open>files_finish_upload\<close>. This holds whatever the results of the sends are.
\<close>

theorem upload_completes:
  assumes "protocol_codec c"
    and "node_at (disk (fs_swap st)) f = Some (Regular content True)" "content \<noteq> []" "length content < 2 ^ 63"
    and "map_send (fs_swap st) i = None" "map_channel (fs_swap st) (id_channel st) \<noteq> None"
    and "set_files_create_upload_back c i f True = Inr s0" "set_files_begin_upload_back c i = Inr s1"
    and "length content div 1024 + 2 \<le> n"
  shows "\<exists>st' fin. run_messages c sock (set_files_json s0 # replicate n (set_files_json s1)) st = Inr st'
    \<and> frames i (web st') = frames i (web st) @ blocks content \<and> concat (blocks content) = content
    \<and> set_files_finish_upload c i True = Inr fin \<and> fst (last (web_sent (web st'))) = set_files_json fin"
  by (rule upload_run [OF assms])

definition demo_client :: qweb_files where
  "demo_client = sl_open (qweb_files_init demo_disk)"

lemma demo_client_simps [simp]:
  "disk (fs_swap demo_client) = demo_disk" "map_send (fs_swap demo_client) = Map.empty"
  "map_recv (fs_swap demo_client) = Map.empty" "id_channel demo_client = 0"
  "map_channel (fs_swap demo_client) = [0 \<mapsto> \<lparr>set_recv = {}, set_send = {}\<rparr>]" "frames i (web demo_client) = []"
  by (simp_all add: demo_client_def sl_open_def qweb_files_init_def do_emit_def emit_def add_id_channel_def
      get_id_channel_def frames_def)

theorem upload_completes_witness:
  "\<exists>s0 s1 st' fin. set_files_create_upload_back text_codec 5 ''a.txt'' True = Inr s0
    \<and> set_files_begin_upload_back text_codec 5 = Inr s1
    \<and> run_messages text_codec (\<lambda>h s. - 1) (set_files_json s0 # replicate 2 (set_files_json s1)) demo_client = Inr st'
    \<and> frames 5 (web st') = frames 5 (web demo_client) @ blocks ''hello''
    \<and> set_files_finish_upload text_codec 5 True = Inr fin \<and> fst (last (web_sent (web st'))) = set_files_json fin"
proof -
  have "\<exists>s. set_msg text_codec (Files_create_upload_back 5 ''a.txt'' True) = Inr s"
    using set_msg_utf8 [OF pc.protocol_codec_axioms, of "Files_create_upload_back 5 ''a.txt'' True"] by simp
  then obtain s0 where s0: "set_files_create_upload_back text_codec 5 ''a.txt'' True = Inr s0" by auto
  obtain s1 where s1: "set_files_begin_upload_back text_codec 5 = Inr s1"
    using set_msg_defined [OF pc.protocol_codec_axioms, of "Files_begin_upload_back 5"] by auto
  show ?thesis
    using upload_completes [OF pc.protocol_codec_axioms _ _ _ _ _ s0 s1, of demo_client "''hello''" 2 "\<lambda>h s. - 1"] s0 s1
    by simp
qed

section \<open>Downloads\<close>

text \<open>The progress callback of a download.\<close>

definition download_prog :: "web prog_cb" where
  "download_prog = (\<lambda>i prog n len x. emit (Sn_prog_download i prog) x)"

lemma run_frames:
  "recv_all download_prog i ds (fs_swap st) (web st) = Inr (oks, fs, x)
    \<Longrightarrow> run_messages c sock (map (set_files_binary i) ds) st = Inr (st\<lparr>fs_swap := fs, web := x\<rparr>)"
proof (induction ds arbitrary: st oks)
  case (Cons d ds)
  from Cons.prems obtain ok fs1 x1 oks' where
    "add_data_recv download_prog i d (fs_swap st) (web st) = Inr (ok, fs1, x1)"
    "recv_all download_prog i ds fs1 x1 = Inr (oks', fs, x)"
    by (auto simp: rbind_eq_Inr)
  with Cons.IH [of "st\<lparr>fs_swap := fs1, web := x1\<rparr>" oks'] show ?case
    by (simp add: sl_message_binary task_recv_binary_data_def download_prog_def)
qed simp

lemma run_messages_append:
  "run_messages c sock (ms @ ms') st = rbind (run_messages c sock ms st) (run_messages c sock ms')"
  by (induction ms arbitrary: st) (auto simp: rbind_def split: sum.splits)

lemma open_recv_ok:
  assumes "fs_creatable w f" "\<And>r. node_at w f \<noteq> Some (Directory r)"
  obtains s w' r where "ws_open w f = Some (s, w')" "node_at w' f = Some (Regular [] r)"
    "s = \<lparr>ws_path = f, ws_pos = 0, ws_good = True\<rparr>" "fs_room w' = fs_room w"
proof (cases "node_at w f")
  case None
  with assms(1) that show ?thesis by (simp add: ws_open_def)
next
  case (Some a)
  with assms(2) obtain ct r where "node_at w f = Some (Regular ct r)" by (cases a) auto
  with assms(1) that show ?thesis by (simp add: ws_open_def)
qed

lemma download_created:
  assumes "protocol_codec c"
    and "set_files_create_download_back c i len abs_path f True = Inr s0" "f \<noteq> []"
    and "map_recv (fs_swap st) i = None" "map_channel (fs_swap st) (id_channel st) \<noteq> None"
    and "fs_creatable (disk (fs_swap st)) f" "\<And>r. node_at (disk (fs_swap st)) f \<noteq> Some (Directory r)"
  obtains st1 s r where "sl_message c sock (set_files_json s0) st = Inr st1"
    "map_recv (fs_swap st1) i = Some \<lparr>recv_prog = 0, count_recv = 0, recv_length_max = len, recv_filename = f, recv_fs = s, recv_prog_cb = True\<rparr>"
    "s = \<lparr>ws_path = f, ws_pos = 0, ws_good = True\<rparr>" "node_at (disk (fs_swap st1)) f = Some (Regular [] r)"
    "fs_room (disk (fs_swap st1)) = fs_room (disk (fs_swap st))"
proof -
  let ?fs = "fs_swap st"
  obtain s w r where w: "ws_open (disk ?fs) f = Some (s, w)" "node_at w f = Some (Regular [] r)"
      "s = \<lparr>ws_path = f, ws_pos = 0, ws_good = True\<rparr>" "fs_room w = fs_room (disk ?fs)"
    by (rule open_recv_ok [OF assms(6,7)])
  obtain it where it: "map_channel ?fs (id_channel st) = Some it" using assms(5) by auto
  obtain fs where fs: "open_file_recv_channel (get_id_channel st) i len f True ?fs = (True, fs)" "disk fs = w"
      "map_recv fs i = Some \<lparr>recv_prog = 0, count_recv = 0, recv_length_max = len, recv_filename = f, recv_fs = s, recv_prog_cb = True\<rparr>"
    using w(1) it assms(4)
    by (simp add: open_file_recv_channel_def open_file_recv_def add_file_recv_def get_id_channel_def)
  obtain beg where beg: "set_files_begin_download c i = Inr beg" using id_requests [OF assms(1)] by metis
  let ?st1 = "do_emit (Sn_create_download True i abs_path) (snd (do_send_msg sock beg (st\<lparr>fs_swap := fs\<rparr>)))"
  note rep = replies(3) [OF assms(1,2)]
  have "sl_message c sock (set_files_json s0) st = task_files_create_download_back c sock s0 st"
    using rep by (intro sl_message_json [OF _ map_fn_simps(3)]) simp
  also have "\<dots> = Inr ?st1"
    using rep fs(1) beg assms(3) by (simp add: task_files_create_download_back_def)
  finally show ?thesis by (rule that) (use fs w in simp_all)
qed

lemma download_finished:
  assumes "protocol_codec c" "set_files_finish_download_back c i ok = Inr s1" "map_recv (fs_swap st) i = Some sp"
  obtains st' where "sl_message c sock (set_files_json s1) st = Inr st'" "map_recv (fs_swap st') i = None"
    "disk (fs_swap st') = disk (fs_swap st)"
    "last (web_signals (web st')) = Sn_finish_download (count_recv sp = recv_length_max sp \<and> ok) i"
proof -
  let ?ok = "count_recv sp = recv_length_max sp \<and> ok"
  obtain fin where fin: "set_files_finish_download c i True = Inr fin" using id_requests [OF assms(1)] by metis
  let ?st' = "do_emit (Sn_finish_download ?ok i) (snd (do_send_msg sock fin
      (st\<lparr>fs_swap := close_file_recv_channel (get_id_channel st) i (fs_swap st)\<rparr>)))"
  note rep = replies(4) [OF assms(1,2)]
  have "sl_message c sock (set_files_json s1) st = task_files_finish_download_back c sock s1 st"
    using rep by (intro sl_message_json [OF _ map_fn_simps(4)]) simp
  also have "\<dots> = Inr ?st'"
    using rep assms(3) fin
    by (simp add: task_files_finish_download_back_def get_finish_download_back check_length_recv_def find_fs_recv_def)
  finally have m: "sl_message c sock (set_files_json s1) st = Inr ?st'" .
  have n: "map_recv (fs_swap ?st') i = None"
    using recvs.managed_close(1) [of i "get_id_channel st" "fs_swap st"] by (simp add: close_file_recv_channel_def find_fs_recv_def)
  have d: "disk (fs_swap ?st') = disk (fs_swap st)"
    by (simp add: close_file_recv_channel_def remove_file_recv_def close_file_recv_def split: option.splits)
  show ?thesis by (rule that [OF m n d]) (simp add: do_emit_def emit_def)
qed

text \<open>A whole download, from the reply that creates it.\<close>

lemma download_run:
  assumes "protocol_codec c"
    and "set_files_create_download_back c i len abs_path f True = Inr s0" "f \<noteq> []" "len \<noteq> 0"
    and "set_files_finish_download_back c i ok = Inr s1"
    and "map_recv (fs_swap st) i = None" "map_channel (fs_swap st) (id_channel st) \<noteq> None"
    and "fs_creatable (disk (fs_swap st)) f" "\<And>r. node_at (disk (fs_swap st)) f \<noteq> Some (Directory r)"
    and "\<And>n. n \<le> length (concat ds) \<Longrightarrow> fs_room (disk (fs_swap st)) f n"
  shows "\<exists>st' r. run_messages c sock (set_files_json s0 # map (set_files_binary i) ds @ [set_files_json s1]) st = Inr st'
    \<and> node_at (disk (fs_swap st')) f = Some (Regular (concat ds) r) \<and> map_recv (fs_swap st') i = None
    \<and> last (web_signals (web st')) = Sn_finish_download (word_of_nat (length (concat ds)) = len \<and> ok) i"
proof -
  obtain st1 s r where c1: "sl_message c sock (set_files_json s0) st = Inr st1"
      "map_recv (fs_swap st1) i = Some \<lparr>recv_prog = 0, count_recv = 0, recv_length_max = len, recv_filename = f, recv_fs = s, recv_prog_cb = True\<rparr>"
      "s = \<lparr>ws_path = f, ws_pos = 0, ws_good = True\<rparr>" "node_at (disk (fs_swap st1)) f = Some (Regular [] r)"
      "fs_room (disk (fs_swap st1)) = fs_room (disk (fs_swap st))"
    by (rule download_created [OF assms(1-3,6-9)])
  let ?sp = "\<lparr>recv_prog = 0, count_recv = 0, recv_length_max = len, recv_filename = f, recv_fs = s, recv_prog_cb = True\<rparr>"
  have "\<exists>fs2 sp' x'. recv_all download_prog i ds (fs_swap st1) (web st1) = Inr (True, fs2, x')
      \<and> map_recv fs2 i = Some sp' \<and> recv_length_max sp' = recv_length_max ?sp
      \<and> count_recv sp' = count_recv ?sp + word_of_nat (length (concat ds))
      \<and> node_at (disk fs2) f = Some (Regular ([] @ concat ds) r)"
    by (rule recv_all_good) (use c1 assms(4,10) in simp_all)
  then obtain fs2 sp' x' where r: "recv_all download_prog i ds (fs_swap st1) (web st1) = Inr (True, fs2, x')"
      "map_recv fs2 i = Some sp'" "recv_length_max sp' = len"
      "count_recv sp' = word_of_nat (length (concat ds))" "node_at (disk fs2) f = Some (Regular (concat ds) r)"
    by auto
  have "map_recv (fs_swap (st1\<lparr>fs_swap := fs2, web := x'\<rparr>)) i = Some sp'" using r(2) by simp
  then obtain st' where "sl_message c sock (set_files_json s1) (st1\<lparr>fs_swap := fs2, web := x'\<rparr>) = Inr st'"
      "map_recv (fs_swap st') i = None" "disk (fs_swap st') = disk fs2"
      "last (web_signals (web st')) = Sn_finish_download (count_recv sp' = recv_length_max sp' \<and> ok) i"
    using download_finished [OF assms(1,5), of "st1\<lparr>fs_swap := fs2, web := x'\<rparr>" sp' sock] by auto
  then show ?thesis
    using c1(1) run_frames [OF r(1), of c sock] r(3-5) by (auto simp: run_messages_append)
qed

text \<open>
  C13: a download: after the reply that creates it, its data frames and the final reply of the server,
  the file holds exactly the data of the frames, the transfer is closed, and success is signalled if
  and only if the server said so and as many bytes arrived as were announced.
\<close>

theorem download_completes:
  assumes "protocol_codec c"
    and "set_files_create_download_back c i len abs_path f True = Inr s0" "f \<noteq> []" "len \<noteq> 0"
    and "set_files_finish_download_back c i ok = Inr s1"
    and "map_recv (fs_swap st) i = None" "map_channel (fs_swap st) (id_channel st) \<noteq> None"
    and "fs_creatable (disk (fs_swap st)) f" "\<And>r. node_at (disk (fs_swap st)) f \<noteq> Some (Directory r)"
    and "\<And>n. n \<le> length (concat ds) \<Longrightarrow> fs_room (disk (fs_swap st)) f n"
  shows "\<exists>st' r. run_messages c sock (set_files_json s0 # map (set_files_binary i) ds @ [set_files_json s1]) st = Inr st'
    \<and> node_at (disk (fs_swap st')) f = Some (Regular (concat ds) r) \<and> map_recv (fs_swap st') i = None
    \<and> last (web_signals (web st')) = Sn_finish_download (word_of_nat (length (concat ds)) = len \<and> ok) i"
  by (rule download_run [OF assms])

theorem download_completes_witness:
  "\<exists>s0 s1 st' r. set_files_create_download_back text_codec 5 3 ''x'' ''b.txt'' True = Inr s0
    \<and> set_files_finish_download_back text_codec 5 True = Inr s1
    \<and> run_messages text_codec (\<lambda>h s. 1) (set_files_json s0 # map (set_files_binary 5) [''ab'', ''c''] @ [set_files_json s1])
        demo_client = Inr st'
    \<and> node_at (disk (fs_swap st')) ''b.txt'' = Some (Regular (concat [''ab'', ''c'']) r)
    \<and> map_recv (fs_swap st') 5 = None
    \<and> last (web_signals (web st')) = Sn_finish_download (word_of_nat (length (concat [''ab'', ''c''])) = (3 :: int64) \<and> True) 5"
proof -
  have "\<exists>s. set_msg text_codec (Files_create_download_back 5 3 ''x'' ''b.txt'' True) = Inr s"
    using set_msg_utf8 [OF pc.protocol_codec_axioms, of "Files_create_download_back 5 3 ''x'' ''b.txt'' True"] by simp
  then obtain s0 where s0: "set_files_create_download_back text_codec 5 3 ''x'' ''b.txt'' True = Inr s0" by auto
  obtain s1 where s1: "set_files_finish_download_back text_codec 5 True = Inr s1"
    using set_msg_defined [OF pc.protocol_codec_axioms, of "Files_finish_download_back 5 True"] by auto
  have "\<exists>st' r. run_messages text_codec (\<lambda>h s. 1)
        (set_files_json s0 # map (set_files_binary 5) [''ab'', ''c''] @ [set_files_json s1]) demo_client = Inr st'
    \<and> node_at (disk (fs_swap st')) ''b.txt'' = Some (Regular (concat [''ab'', ''c'']) r)
    \<and> map_recv (fs_swap st') 5 = None
    \<and> last (web_signals (web st')) = Sn_finish_download (word_of_nat (length (concat [''ab'', ''c''])) = (3 :: int64) \<and> True) 5"
    by (rule download_completes [OF pc.protocol_codec_axioms s0 _ _ s1]) (simp_all add: demo_disk_def node_at_def)
  with s0 s1 show ?thesis by blast
qed

section \<open>Faults\<close>

lemma calc_prog_fault: "calc_prog n len = Inl e \<Longrightarrow> e = Crash Division_by_zero"
  by (simp add: calc_prog_def split: if_splits)

lemma send_loop_fault: "send_loop cb pcb i sp st x = Inl e \<Longrightarrow> e = Crash Division_by_zero"
proof (induction cb pcb i sp st x rule: send_loop.induct)
  case (1 cb pcb i sp st x)
  have step: "send_step cb pcb i sp st x = Inl e' \<Longrightarrow> e' = Crash Division_by_zero" for e'
    by (auto simp: send_step_def Let_def case_prod_beta rbind_eq_Inl dest: calc_prog_fault)
  have ne: "\<not> rs_eof (send_fs sp)" using 1(2) by (auto simp: send_loop.simps)
  show ?case
  proof (cases "send_step cb pcb i sp st x")
    case (Inl e')
    with 1(2) ne step show ?thesis by (simp add: send_loop.simps [of _ _ _ sp])
  next
    case (Inr y)
    obtain b sp2 st2 x2 where y: "y = (b, sp2, st2, x2)" by (cases y) auto
    show ?thesis
    proof (cases b)
      case True
      with 1(2) ne Inr y have "send_loop cb pcb i sp2 st2 x2 = Inl e" by (simp add: send_loop.simps [of _ _ _ sp])
      with 1(1) [OF ne Inr y [symmetric] refl refl] True show ?thesis by simp
    next
      case False
      with 1(2) ne Inr y show ?thesis by (simp add: send_loop.simps [of _ _ _ sp])
    qed
  qed
qed

lemma add_data_send_fault: "add_data_send cb pcb i st x = Inl e \<Longrightarrow> e = Crash Division_by_zero"
  by (auto simp: add_data_send_def dest: send_loop_fault split: option.splits)

lemma add_data_recv_fault: "add_data_recv pcb i d st x = Inl e \<Longrightarrow> e = Crash Division_by_zero"
  by (auto simp: add_data_recv_def Let_def case_prod_beta rbind_eq_Inl dest: calc_prog_fault split: option.splits)

lemma open_file_send_channel_fault: "open_file_send_channel ch i f p st = Inl e \<Longrightarrow> e = Throw Filesystem_error"
  by (auto simp: open_file_send_channel_def open_file_send_def rbind_eq_Inl Let_def case_prod_beta
      get_file_size_def fs_file_size_def split: if_splits option.splits node.splits)

lemma check_json_fault:
  assumes "check_json c s = Inl e"
  shows "e = Crash Assertion_failed"
proof -
  from assms have "check_json c s \<noteq> Inr None" by simp
  then obtain m st ty where m: "parse c s = Inr (JObj m)" "map_of m ''stream'' = Some (JStr st)"
      "map_of m ''type'' = Some (JStr ty)"
    by (rule check_json_other)
  from assms have "check_head (JObj m) = Inl e" by (simp add: check_json_obj [OF m] rbind_eq_Inl)
  then show ?thesis by (simp add: check_head_fault)
qed

lemma check_json_parses:
  assumes "check_json c s = Inr (Some st)"
  shows "js_parse c s \<noteq> None"
proof -
  from assms have "check_json c s \<noteq> Inr None" by simp
  then obtain m st ty where "parse c s = Inr (JObj m)" by (rule check_json_other)
  then show ?thesis by (simp add: parse_def split: option.splits)
qed

lemma readers_return:
  assumes "js_parse c s \<noteq> None"
  shows "get_files_create_upload_back c s \<noteq> Inl e" "get_files_begin_upload_back c s \<noteq> Inl e"
    "get_files_finish_upload_back c s \<noteq> Inl e" "get_files_create_download_back c s \<noteq> Inl e"
    "get_files_begin_download_back c s \<noteq> Inl e" "get_files_finish_download c s \<noteq> Inl e"
  using assms unfolding get_msg_defs
  by (subst cs_get_fault; (intro only_throws_rbind only_throws_get_extend only_throws_read only_throws_simps)?; simp)+

definition handler_fault :: "fault \<Rightarrow> bool" where
  "handler_fault e \<longleftrightarrow> e = Crash Division_by_zero \<or> e = Throw Filesystem_error"

lemma task_fault:
  assumes c: "protocol_codec c" and p: "js_parse c s \<noteq> None"
  shows "task_files_create_upload_back c sock s st = Inl e \<Longrightarrow> handler_fault e"
    "task_files_begin_upload_back c sock s st = Inl e \<Longrightarrow> handler_fault e"
    "task_files_finish_upload_back c s st = Inl e \<Longrightarrow> handler_fault e"
    "task_files_create_download_back c sock s st = Inl e \<Longrightarrow> handler_fault e"
    "task_files_begin_download_back c sock s st = Inl e \<Longrightarrow> handler_fault e"
    "task_files_finish_download_back c sock s st = Inl e \<Longrightarrow> handler_fault e"
proof -
  have ids: "set_files_begin_upload c i \<noteq> Inl e" "set_files_finish_upload c i b \<noteq> Inl e"
    "set_files_begin_download c i \<noteq> Inl e" "set_files_finish_download c i b \<noteq> Inl e" for i b e
    using id_requests(1) [OF c, of i] id_requests(2) [OF c, of i b] id_requests(3) [OF c, of i] id_requests(4) [OF c, of i b]
    by auto
  note rules = readers_return [OF p] ids rbind_eq_Inl Let_def case_prod_beta handler_fault_def
  show "task_files_create_upload_back c sock s st = Inl e \<Longrightarrow> handler_fault e"
    by (auto simp: task_files_create_upload_back_def rules dest: open_file_send_channel_fault
        split: option.splits if_splits)
  show "task_files_begin_upload_back c sock s st = Inl e \<Longrightarrow> handler_fault e"
    by (auto simp: task_files_begin_upload_back_def rules dest: add_data_send_fault
        split: option.splits if_splits)
  show "task_files_finish_upload_back c s st = Inl e \<Longrightarrow> handler_fault e"
    by (auto simp: task_files_finish_upload_back_def rules split: option.splits)
  show "task_files_create_download_back c sock s st = Inl e \<Longrightarrow> handler_fault e"
  proof -
    assume a: "task_files_create_download_back c sock s st = Inl e"
    obtain r where r: "get_files_create_download_back c s = Inr r"
      using readers_return(4) [OF p] by (cases "get_files_create_download_back c s") auto
    obtain i n f g ok where "r = Some (i, n, f, g, ok)" "ok"
      using a r by (cases r) (auto simp: task_files_create_download_back_def split: if_splits)
    with a r show "handler_fault e"
      by (auto simp: task_files_create_download_back_def rules split: if_splits)
  qed
  show "task_files_begin_download_back c sock s st = Inl e \<Longrightarrow> handler_fault e"
    by (auto simp: task_files_begin_download_back_def rules split: option.splits)
  show "task_files_finish_download_back c sock s st = Inl e \<Longrightarrow> handler_fault e"
    by (auto simp: task_files_finish_download_back_def rules split: option.splits)
qed

text \<open>
  C16: what can end the program on a message of the file server: the failed assertion of
  \<open>check_json\<close>, the division by a zero length and the exception of \<open>file_size\<close> on a path that is not a
  file; nothing else, whatever the message.
\<close>

theorem sl_message_faults:
  assumes "protocol_codec c" "sl_message c sock msg st = Inl e"
  shows "e = Crash Assertion_failed \<or> e = Crash Division_by_zero \<or> e = Throw Filesystem_error"
proof -
  have h: "handler_fault e" if t: "map_fn c sock ty = Some task" and j: "js_parse c s \<noteq> None" and f: "task s st = Inl e" for ty task s
    using t f task_fault [OF assms(1) j] by (auto simp: map_fn_def split: if_splits)
  consider (js) s where "check_files_flg msg = CS_FILES_JSON" "get_files_json msg = Some s"
    | (bin) i d where "check_files_flg msg = CS_FILES_BINARY" "get_files_binary msg = Some (i, d)"
    using assms(2) by (auto simp: sl_message_def Let_def split: if_splits option.splits)
  then show ?thesis
  proof cases
    case bin
    with assms(2) have "task_recv_binary_data i d st = Inl e" by (simp add: sl_message_def)
    then show ?thesis by (auto simp: task_recv_binary_data_def rbind_eq_Inl dest: add_data_recv_fault)
  next
    case js
    show ?thesis
    proof (cases "check_json c s")
      case (Inl e')
      with assms(2) js have "e = e'" by (simp add: sl_message_def)
      with check_json_fault [OF Inl] show ?thesis by simp
    next
      case (Inr r)
      then obtain st' ty where r: "r = Some (st', ty)" using assms(2) js by (cases r) (auto simp: sl_message_def)
      then obtain task where "map_fn c sock ty = Some task" "task s st = Inl e"
        using assms(2) js Inr by (auto simp: sl_message_def split: if_splits option.splits)
      then have "handler_fault e" using h check_json_parses [of c s] Inr r by blast
      then show ?thesis by (auto simp: handler_fault_def)
    qed
  qed
qed

definition zero_client :: qweb_files where
  "zero_client = demo_client\<lparr>fs_swap := (fs_swap demo_client)\<lparr>map_recv :=
     [1 \<mapsto> \<lparr>recv_prog = 0, count_recv = 0, recv_length_max = 0, recv_filename = ''x'',
       recv_fs = \<lparr>ws_path = ''x'', ws_pos = 0, ws_good = False\<rparr>, recv_prog_cb = True\<rparr>]\<rparr>\<rparr>"

theorem sl_message_faults_witness:
  "\<exists>e. sl_message text_codec (\<lambda>h s. 1) (set_files_binary 1 ''d'') zero_client = Inl e
    \<and> (e = Crash Assertion_failed \<or> e = Crash Division_by_zero \<or> e = Throw Filesystem_error)"
proof -
  have "sl_message text_codec (\<lambda>h s. 1) (set_files_binary 1 ''d'') zero_client = Inl (Crash Division_by_zero)"
    by (simp add: sl_message_binary task_recv_binary_data_def add_data_recv_def zero_client_def ws_write_def
        calc_prog_def)
  with sl_message_faults [OF pc.protocol_codec_axioms this] show ?thesis by blast
qed

section \<open>Open files and their connection\<close>

text \<open>Every open file is listed for the connection.\<close>

definition files_listed :: "int64 \<Rightarrow> 'a files_channel_scheme \<Rightarrow> bool" where
  "files_listed ch fs \<longleftrightarrow> (\<exists>it. map_channel fs ch = Some it
     \<and> (\<forall>i. map_send fs i \<noteq> None \<longrightarrow> i \<in> set_send it) \<and> (\<forall>i. map_recv fs i \<noteq> None \<longrightarrow> i \<in> set_recv it))"

lemma send_loop_frame:
  "send_loop cb pcb i sp st x = Inr (r, st', x') \<Longrightarrow> map_send st i \<noteq> None
    \<Longrightarrow> \<exists>m. st' = st\<lparr>map_send := m\<rparr> \<and> dom m = dom (map_send st)"
proof (induction cb pcb i sp st x rule: send_loop.induct)
  case (1 cb pcb i sp st x)
  show ?case
  proof (cases "rs_eof (send_fs sp)")
    case True
    with 1(2) show ?thesis by (intro exI [of _ "map_send st"]) (simp add: send_loop.simps)
  next
    case ne: False
    then obtain b sp2 st2 x2 where s: "send_step cb pcb i sp st x = Inr (b, sp2, st2, x2)"
      using 1(2) by (auto simp: send_loop.simps [of _ _ _ sp] rbind_eq_Inr)
    then have st2: "st2 = st\<lparr>map_send := (map_send st)(i \<mapsto> sp2)\<rparr>"
      by (auto simp: send_step_def Let_def case_prod_beta rbind_eq_Inr)
    have d: "dom (map_send st2) = dom (map_send st)" using 1(3) by (auto simp: st2)
    show ?thesis
    proof (cases b)
      case True
      with 1(2) ne s have l: "send_loop cb pcb i sp2 st2 x2 = Inr (r, st', x')"
        by (simp add: send_loop.simps [of _ _ _ sp])
      have "map_send st2 i \<noteq> None" by (simp add: st2)
      moreover have "b \<noteq> False" using True by simp
      ultimately obtain m where "st' = st2\<lparr>map_send := m\<rparr>" "dom m = dom (map_send st2)"
        using 1(1) [OF ne s refl refl refl _ l] by blast
      with d show ?thesis by (intro exI [of _ m]) (simp add: st2)
    next
      case False
      with 1(2) ne s have "st' = st2" by (simp add: send_loop.simps [of _ _ _ sp])
      then have "st' = st\<lparr>map_send := (map_send st)(i \<mapsto> sp2)\<rparr>" by (simp only: st2)
      moreover have "dom ((map_send st)(i \<mapsto> sp2)) = dom (map_send st)" using 1(3) by auto
      ultimately show ?thesis by blast
    qed
  qed
qed

lemma add_data_send_frame:
  assumes "add_data_send cb pcb i st x = Inr (r, st', x')"
  shows "\<exists>m. st' = st\<lparr>map_send := m\<rparr> \<and> dom m = dom (map_send st)"
proof (cases "map_send st i")
  case None
  with assms show ?thesis by (intro exI [of _ "map_send st"]) (simp add: add_data_send_def)
next
  case (Some sp)
  with assms have "send_loop cb pcb i sp st x = Inr (r, st', x')" by (simp add: add_data_send_def)
  from send_loop_frame [OF this] Some show ?thesis by simp
qed

lemma add_data_recv_frame:
  assumes "add_data_recv pcb i d st x = Inr (r, st', x')"
  shows "\<exists>m w. st' = st\<lparr>disk := w, map_recv := m\<rparr> \<and> dom m = dom (map_recv st)"
proof (cases "map_recv st i")
  case None
  with assms show ?thesis
    by (intro exI [of _ "map_recv st"] exI [of _ "disk st"]) (simp add: add_data_recv_def)
next
  case (Some sp)
  with assms obtain sp2 w where "st' = st\<lparr>disk := w, map_recv := (map_recv st)(i \<mapsto> sp2)\<rparr>"
    by (auto simp: add_data_recv_def Let_def case_prod_beta rbind_eq_Inr)
  with Some show ?thesis by (intro exI [of _ "(map_recv st)(i \<mapsto> sp2)"] exI [of _ w]) auto
qed

lemma files_listed_frame:
  assumes "files_listed ch fs" "dom (map_send fs') = dom (map_send fs)" "dom (map_recv fs') = dom (map_recv fs)"
    "map_channel fs' = map_channel fs"
  shows "files_listed ch fs'"
  using assms unfolding files_listed_def by (metis domIff)

lemma files_listed_ops:
  assumes "files_listed ch fs"
  shows "open_file_send_channel ch i f p fs = Inr (ok, fs') \<Longrightarrow> files_listed ch fs'"
    "open_file_recv_channel ch i n f p fs = (ok, fs') \<Longrightarrow> files_listed ch fs'"
    "files_listed ch (close_file_send_channel ch i fs)" "files_listed ch (close_file_recv_channel ch i fs)"
  using assms
  by (auto simp: files_listed_def open_file_send_channel_def open_file_recv_channel_def close_file_send_channel_def
      close_file_recv_channel_def table_defs rbind_eq_Inr split: if_splits option.splits)

definition listed_client :: "'a qweb_files_scheme \<Rightarrow> bool" where
  "listed_client st \<longleftrightarrow> files_listed (id_channel st) (fs_swap st)"

lemma listed_client_simps [simp]:
  "listed_client (do_emit sg st) = listed_client st" "listed_client (snd (do_send_msg sock s st)) = listed_client st"
  by (simp_all add: listed_client_def)

lemma listed_recv_binary:
  assumes "listed_client st" "task_recv_binary_data i d st = Inr st'"
  shows "listed_client st'"
proof -
  obtain ok fs x where a: "add_data_recv (\<lambda>i prog n len x. emit (Sn_prog_download i prog) x) i d (fs_swap st) (web st) = Inr (ok, fs, x)"
      and st': "st' = st\<lparr>fs_swap := fs, web := x\<rparr>"
    using assms(2) by (auto simp: task_recv_binary_data_def rbind_eq_Inr)
  obtain m w where "fs = (fs_swap st)\<lparr>disk := w, map_recv := m\<rparr>" "dom m = dom (map_recv (fs_swap st))"
    using add_data_recv_frame [OF a] by blast
  then have "files_listed (id_channel st) fs"
    by (intro files_listed_frame [OF assms(1) [unfolded listed_client_def]]) simp_all
  then show ?thesis by (simp add: listed_client_def st')
qed

lemma listed_begin_upload:
  assumes l: "listed_client st" and t: "task_files_begin_upload_back c sock s st = Inr st'"
  shows "listed_client st'"
proof -
  obtain r where r: "get_files_begin_upload_back c s = Inr r"
    using t by (auto simp: task_files_begin_upload_back_def rbind_eq_Inr)
  show ?thesis
  proof (cases r)
    case None
    with t r l show ?thesis by (simp add: task_files_begin_upload_back_def)
  next
    case (Some i)
    with t r obtain ok fs x u where a: "add_data_send (func_send sock) func_prog i (fs_swap st) (web st) = Inr (ok, fs, x)"
        and st': "st' = snd (do_send_msg sock u (st\<lparr>fs_swap := fs, web := x\<rparr>))"
      by (auto simp: task_files_begin_upload_back_def rbind_eq_Inr)
    obtain m where "fs = (fs_swap st)\<lparr>map_send := m\<rparr>" "dom m = dom (map_send (fs_swap st))"
      using add_data_send_frame [OF a] by blast
    then have "files_listed (id_channel st) fs"
      by (intro files_listed_frame [OF l [unfolded listed_client_def]]) simp_all
    then show ?thesis by (simp add: st') (simp add: listed_client_def)
  qed
qed

lemma listed_create_upload:
  assumes l: "listed_client st" and t: "task_files_create_upload_back c sock s st = Inr st'"
  shows "listed_client st'"
proof -
  obtain r where r: "get_files_create_upload_back c s = Inr r"
    using t by (auto simp: task_files_create_upload_back_def rbind_eq_Inr)
  show ?thesis
  proof (cases "\<exists>i f. r = Some (i, f, True)")
    case False
    with t r l show ?thesis
      by (cases r) (auto simp: task_files_create_upload_back_def split: if_splits)
  next
    case True
    then obtain i f where r': "r = Some (i, f, True)" by blast
    with t r obtain ok fs u where o: "open_file_send_channel (id_channel st) i f True (fs_swap st) = Inr (ok, fs)"
        and st': "st' = do_emit (Sn_create_upload ok i f) (snd (do_send_msg sock u (st\<lparr>fs_swap := fs\<rparr>)))"
      by (auto simp: task_files_create_upload_back_def rbind_eq_Inr get_id_channel_def Let_def)
    from files_listed_ops(1) [OF l [unfolded listed_client_def], OF o] st' show ?thesis by (simp add: listed_client_def)
  qed
qed

lemma listed_create_download:
  assumes l: "listed_client st" and t: "task_files_create_download_back c sock s st = Inr st'"
  shows "listed_client st'"
proof -
  obtain r where r: "get_files_create_download_back c s = Inr r"
    using t by (auto simp: task_files_create_download_back_def rbind_eq_Inr)
  show ?thesis
  proof (cases "\<exists>i n f g. r = Some (i, n, f, g, True)")
    case False
    with t r l show ?thesis
      by (cases r) (auto simp: task_files_create_download_back_def split: if_splits)
  next
    case True
    then obtain i n f g where r': "r = Some (i, n, f, g, True)" by blast
    let ?f = "if g = [] then path_temp st @ get_filename f else g"
    obtain ok fs where o: "open_file_recv_channel (id_channel st) i n ?f True (fs_swap st) = (ok, fs)"
      by (rule prod.exhaust)
    with t r r' obtain u where "st' = do_emit (Sn_create_download ok i f) (snd (do_send_msg sock u (st\<lparr>fs_swap := fs\<rparr>)))"
      by (auto simp: task_files_create_download_back_def rbind_eq_Inr get_id_channel_def Let_def)
    with files_listed_ops(2) [OF l [unfolded listed_client_def], OF o] show ?thesis by (simp add: listed_client_def)
  qed
qed

lemma listed_tasks:
  assumes l: "listed_client st"
  shows "task_recv_binary_data i d st = Inr st' \<Longrightarrow> listed_client st'"
    "task_files_create_upload_back c sock s st = Inr st' \<Longrightarrow> listed_client st'"
    "task_files_begin_upload_back c sock s st = Inr st' \<Longrightarrow> listed_client st'"
    "task_files_finish_upload_back c s st = Inr st' \<Longrightarrow> listed_client st'"
    "task_files_create_download_back c sock s st = Inr st' \<Longrightarrow> listed_client st'"
    "task_files_begin_download_back c sock s st = Inr st' \<Longrightarrow> listed_client st'"
    "task_files_finish_download_back c sock s st = Inr st' \<Longrightarrow> listed_client st'"
proof -
  note ops = files_listed_ops [OF l [unfolded listed_client_def]]
  show "task_files_finish_upload_back c s st = Inr st' \<Longrightarrow> listed_client st'"
    using l ops(3) by (auto simp: task_files_finish_upload_back_def rbind_eq_Inr get_id_channel_def listed_client_def
        split: option.splits)
  show "task_files_begin_download_back c sock s st = Inr st' \<Longrightarrow> listed_client st'"
    using l by (auto simp: task_files_begin_download_back_def rbind_eq_Inr split: option.splits)
  show "task_files_finish_download_back c sock s st = Inr st' \<Longrightarrow> listed_client st'"
    using l ops(4) by (auto simp: task_files_finish_download_back_def rbind_eq_Inr get_id_channel_def listed_client_def
        Let_def case_prod_beta split: option.splits)
qed (rule listed_recv_binary [OF l] listed_create_upload [OF l] listed_begin_upload [OF l] listed_create_download [OF l]; assumption)+

text \<open>
  C20: while a connection is up, every file that is open, for sending or for receiving, is listed for
  it: each message of the server keeps it so.
\<close>

theorem open_files_stay_listed:
  fixes st :: "'a qweb_files_scheme"
  assumes "listed_client st" "sl_message c sock msg st = Inr st'"
  shows "listed_client st'"
proof -
  have h: "listed_client st'" if "map_fn c sock ty = Some task" "task s st = Inr st'" for ty task s
    using that listed_tasks [OF assms(1)] by (auto simp: map_fn_def split: if_splits)
  show ?thesis
  proof (cases "get_files_json msg")
    case None
    with assms show ?thesis
      by (auto simp: sl_message_def Let_def dest: listed_tasks(1) split: if_splits option.splits)
  next
    case (Some s)
    show ?thesis
    proof (cases "check_files_flg msg = CS_FILES_JSON")
      case False
      with assms show ?thesis
        by (auto simp: sl_message_def Let_def dest: listed_tasks(1) split: if_splits option.splits)
    next
      case True
      then obtain r where r: "check_json c s = Inr r"
        using assms(2) Some by (auto simp: sl_message_def rbind_eq_Inr)
      show ?thesis
      proof (cases "\<exists>ty. \<exists>task :: string \<Rightarrow> 'a qweb_files_scheme \<Rightarrow> 'a qweb_files_scheme res.
          r = Some (sc_s, ty) \<and> map_fn c sock ty = Some task")
        case True
        then obtain ty and task :: "string \<Rightarrow> 'a qweb_files_scheme \<Rightarrow> 'a qweb_files_scheme res"
          where "map_fn c sock ty = Some task" "r = Some (sc_s, ty)" by blast
        moreover from this have "task s st = Inr st'"
          using assms(2) Some r \<open>check_files_flg msg = CS_FILES_JSON\<close> by (simp add: sl_message_def)
        ultimately show ?thesis using h by blast
      next
        case False
        then have "st' = st"
          using assms(2) Some r \<open>check_files_flg msg = CS_FILES_JSON\<close>
          by (auto simp: sl_message_def split: option.splits if_splits)
        with assms(1) show ?thesis by simp
      qed
    qed
  qed
qed

theorem open_files_stay_listed_witness:
  "\<exists>s st'. set_files_begin_download_back text_codec 5 = Inr s
    \<and> sl_message text_codec (\<lambda>h s. 1) (set_files_json s) demo_client = Inr st' \<and> listed_client st'"
proof -
  obtain s where s: "set_files_begin_download_back text_codec 5 = Inr s"
    using set_msg_defined [OF pc.protocol_codec_axioms, of "Files_begin_download_back 5"] by auto
  have "check_json text_codec s = Inr (Some (sc_s, ''files_begin_download_back''))
      \<and> get_files_begin_download_back text_codec s = Inr (Some 5)"
    using set_msg_text [OF pc.protocol_codec_axioms, of "Files_begin_download_back 5" s] s
    by (auto simp: get_msg_def getters_def to_msg_Some)
  moreover obtain beg where "set_files_begin_download text_codec 5 = Inr beg"
    using id_requests(3) [OF pc.protocol_codec_axioms] by blast
  ultimately obtain st' where st': "sl_message text_codec (\<lambda>h s. 1) (set_files_json s) demo_client = Inr st'"
    by (auto simp: sl_message_def map_fn_def task_files_begin_download_back_def)
  have "listed_client demo_client" by (simp add: listed_client_def files_listed_def)
  from open_files_stay_listed [OF this st'] s st' show ?thesis by blast
qed

text \<open>
  The close of a connection takes it off the list but closes no file: the transfers stay open, are
  listed nowhere, and a later connection cannot open their identifiers.
\<close>

theorem sl_close_leaves_files:
  assumes "map_send (fs_swap st) i = Some sp"
  shows "map_send (fs_swap (sl_close st)) i = Some sp \<and> send_listed (id_channel st) i (fs_swap (sl_close st)) = False
    \<and> open_file_send i f pr (fs_swap (sl_close st)) = Inr (False, fs_swap (sl_close st))"
  using assms
  by (simp add: sl_close_def do_emit_def remove_id_channel_def get_id_channel_def send_listed_def open_file_send_def)

definition sending_client :: qweb_files where
  "sending_client = demo_client\<lparr>fs_swap := (fs_swap demo_client)\<lparr>map_send :=
     [1 \<mapsto> \<lparr>send_prog = 0, count_send = 0, send_length_max = 5, send_filename = ''a.txt'',
       send_fs = \<lparr>rs_rest = ''hello'', rs_eof = False\<rparr>, send_prog_cb = True\<rparr>]\<rparr>\<rparr>"

theorem sl_close_leaves_files_witness:
  "\<exists>sp. map_send (fs_swap (sl_close sending_client)) 1 = Some sp
    \<and> send_listed 0 1 (fs_swap (sl_close sending_client)) = False
    \<and> open_file_send 1 ''a.txt'' True (fs_swap (sl_close sending_client)) = Inr (False, fs_swap (sl_close sending_client))"
  using sl_close_leaves_files [of sending_client 1 _ "''a.txt''" True] by (simp add: sending_client_def)

end
