(* ===== verification/Icon_Transfer.thy ===== *)
theory Icon_Transfer
  imports Web_Files
begin

text \<open>
  The classes \<open>qweb_ac_download\<close> and \<open>qweb_ac_upload\<close> of \<open>qweb_files.h\<close>: clients of the file server for
  one head icon. They extend the record of \<open>qweb_files\<close>; their slots run on the signals their base emits.
  Each handler of the base emits its signal as its last action, so the slots run after the handler. The
  result callback is recorded as the list of its calls.
\<close>

record icon_client = qweb_files +
  ic_account :: int64
  ic_path :: string
  ic_cb :: bool
  ic_results :: "(bool \<times> int64 \<times> string) list"

definition result_cb :: "bool \<Rightarrow> 'a icon_client_scheme \<Rightarrow> 'a icon_client_scheme" where
  "result_cb ok st =
     (if ic_cb st then st\<lparr>ic_results := ic_results st @ [(ok, ic_account st, ic_path st)]\<rparr> else st)"

definition icon_client_init :: "world \<Rightarrow> icon_client" where
  "icon_client_init w = qweb_files.extend (qweb_files_init w)
     \<lparr>ic_account = 0, ic_path = [], ic_cb = False, ic_results = []\<rparr>"

section \<open>Download\<close>

definition download_icon_ac :: "int64 \<Rightarrow> 'a icon_client_scheme \<Rightarrow> 'a icon_client_scheme" where
  "download_icon_ac account st = st\<lparr>ic_account := account, ic_cb := True\<rparr>"

text \<open>The slots the constructor connects.\<close>

fun download_slot :: "codec \<Rightarrow> sock \<Rightarrow> files_signal \<Rightarrow> 'a icon_client_scheme \<Rightarrow> 'a icon_client_scheme res" where
  "download_slot c sock Sn_open st =
     rbind (download_icon c sock (ic_account st) st) (\<lambda>(ok, save_path, st1).
       let st2 = st1\<lparr>ic_path := save_path\<rparr> in Inr (if ok = False then result_cb ok st2 else st2))"
| "download_slot c sock (Sn_finish_download ok id') st = Inr (qweb_close (result_cb ok st))"
| "download_slot c sock _ st = Inr st"

section \<open>Upload\<close>

definition upload_icon_ac :: "int64 \<Rightarrow> string \<Rightarrow> 'a icon_client_scheme \<Rightarrow> 'a icon_client_scheme" where
  "upload_icon_ac account abs_path st = st\<lparr>ic_account := account, ic_path := abs_path, ic_cb := True\<rparr>"

fun upload_slot :: "codec \<Rightarrow> sock \<Rightarrow> files_signal \<Rightarrow> 'a icon_client_scheme \<Rightarrow> 'a icon_client_scheme res" where
  "upload_slot c sock Sn_open st =
     rbind (upload_icon c sock (ic_path st) (ic_account st) st) (\<lambda>(ok, st1).
       Inr (if ok = False then result_cb ok st1 else st1))"
| "upload_slot c sock (Sn_finish_upload ok id') st = Inr (qweb_close (result_cb ok st))"
| "upload_slot c sock _ st = Inr st"

section \<open>The handlers with their slots\<close>

fun run_slots :: "(files_signal \<Rightarrow> 'a icon_client_scheme \<Rightarrow> 'a icon_client_scheme res) \<Rightarrow> files_signal list
    \<Rightarrow> 'a icon_client_scheme \<Rightarrow> 'a icon_client_scheme res" where
  "run_slots slot [] st = Inr st"
| "run_slots slot (sg # sgs) st = rbind (slot sg st) (run_slots slot sgs)"

definition with_slots :: "(files_signal \<Rightarrow> 'a icon_client_scheme \<Rightarrow> 'a icon_client_scheme res)
    \<Rightarrow> ('a icon_client_scheme \<Rightarrow> 'a icon_client_scheme res) \<Rightarrow> 'a icon_client_scheme \<Rightarrow> 'a icon_client_scheme res" where
  "with_slots slot handler st =
     rbind (handler st) (\<lambda>st1. run_slots slot (drop (length (web_signals (web st))) (web_signals (web st1))) st1)"

lemma do_emit_signals [simp]: "web_signals (web (do_emit sg st)) = web_signals (web st) @ [sg]"
  by (simp add: do_emit_def emit_def)

lemma do_emit_icon [simp]:
  "ic_account (do_emit sg st) = ic_account st" "ic_cb (do_emit sg st) = ic_cb st"
  "ic_results (do_emit sg st) = ic_results st" "ic_path (do_emit sg st) = ic_path st"
  by (simp_all add: do_emit_def)

lemma do_send_msg_icon [simp]:
  "ic_account (snd (do_send_msg sock s st)) = ic_account st" "ic_cb (snd (do_send_msg sock s st)) = ic_cb st"
  "ic_results (snd (do_send_msg sock s st)) = ic_results st"
  "ic_path (snd (do_send_msg sock s st)) = ic_path st"
  by (simp_all add: do_send_msg_def case_prod_beta)

lemma do_send_msg_sent:
  "do_send_msg sock s st = (ok, st') \<Longrightarrow>
     ok = (0 < sint (sock (web_sent (web st)) (set_files_json s)))
     \<and> web_sent (web st') = web_sent (web st) @ [(set_files_json s, sock (web_sent (web st)) (set_files_json s))]"
  by (auto simp: do_send_msg_def send_msg_def ws_send_def Let_def)

text \<open>
  When its connection opens, an icon download asks the server for the account's icon under the
  local path as the file to fetch and the place to store it, and calls its callback at once, with
  \<open>false\<close>, if and only if that request could not be sent.
\<close>

theorem icon_download_request:
  assumes "ic_cb st" "set_files_create_download c (path_icon st @ ''icon_'' @ to_string64 (ic_account st))
      (path_icon st @ ''icon_'' @ to_string64 (ic_account st)) = Inr s"
  shows "\<exists>st' r. with_slots (download_slot c sock) (\<lambda>st. Inr (sl_open st)) st = Inr st'
    \<and> web_sent (web st') = web_sent (web st) @ [(set_files_json s, r)]
    \<and> ic_path st' = path_icon st @ ''icon_'' @ to_string64 (ic_account st)
    \<and> ic_results st' = (if 0 < sint r then ic_results st else ic_results st @ [(False, ic_account st, ic_path st')])"
proof -
  let ?p = "path_icon st @ ''icon_'' @ to_string64 (ic_account st)"
  have o: "web_signals (web (sl_open st)) = web_signals (web st) @ [Sn_open]" "path_icon (sl_open st) = path_icon st"
    "ic_account (sl_open st) = ic_account st" "ic_cb (sl_open st) = ic_cb st" "ic_results (sl_open st) = ic_results st"
    "web_sent (web (sl_open st)) = web_sent (web st)"
    by (simp_all add: sl_open_def do_emit_def emit_def)
  obtain ok st1 where d: "do_send_msg sock s (sl_open st) = (ok, st1)" by (rule prod.exhaust)
  note sent = do_send_msg_sent [OF d]
  have st1: "ic_account st1 = ic_account st" "ic_cb st1" "ic_results st1 = ic_results st"
    using d do_send_msg_icon [of sock s "sl_open st"] o assms(1) by simp_all
  let ?st2 = "st1\<lparr>ic_path := ?p\<rparr>"
  let ?st3 = "if ok = False then result_cb ok ?st2 else ?st2"
  have "with_slots (download_slot c sock) (\<lambda>st. Inr (sl_open st)) st = Inr ?st3"
    using assms(2) o d by (simp add: with_slots_def download_icon_def download_file_def Let_def)
  moreover have "web_sent (web ?st3) = web_sent (web st) @ [(set_files_json s, sock (web_sent (web st)) (set_files_json s))]"
    using sent o(6) by (simp add: result_cb_def)
  moreover have "ic_path ?st3 = ?p" by (simp add: result_cb_def)
  moreover have "ic_results ?st3 = (if 0 < sint (sock (web_sent (web st)) (set_files_json s)) then ic_results st
      else ic_results st @ [(False, ic_account st, ?p)])"
    using sent st1 o(6) by (simp add: result_cb_def)
  ultimately show ?thesis by auto
qed

definition demo_icon :: icon_client where
  "demo_icon = download_icon_ac 5 (icon_client_init demo_disk)"

lemma demo_icon_simps [simp]:
  "ic_cb demo_icon" "ic_account demo_icon = 5" "path_icon demo_icon = ''../data/head_icon/''"
  "ic_results demo_icon = []" "web_sent (web demo_icon) = []"
  by (simp_all add: demo_icon_def download_icon_ac_def icon_client_init_def qweb_files_init_def qweb_files.extend_def)

theorem icon_download_request_witness:
  "\<exists>s st' r. set_files_create_download text_codec ''../data/head_icon/icon_5'' ''../data/head_icon/icon_5'' = Inr s
    \<and> with_slots (download_slot text_codec (\<lambda>h s. - 1)) (\<lambda>st. Inr (sl_open st)) demo_icon = Inr st'
    \<and> web_sent (web st') = [(set_files_json s, r)] \<and> ic_path st' = ''../data/head_icon/icon_5''
    \<and> ic_results st' = (if 0 < sint r then [] else [(False, 5, ''../data/head_icon/icon_5'')])"
proof -
  have p: "''../data/head_icon/'' @ ''icon_'' @ to_string64 5 = ''../data/head_icon/icon_5''"
    by (simp add: digits_eval)
  have "\<exists>s. set_msg text_codec (Files_create_download ''../data/head_icon/icon_5'' ''../data/head_icon/icon_5'') = Inr s"
    using set_msg_utf8 [OF pc.protocol_codec_axioms,
        of "Files_create_download ''../data/head_icon/icon_5'' ''../data/head_icon/icon_5''"] by simp
  then obtain s where "set_files_create_download text_codec ''../data/head_icon/icon_5'' ''../data/head_icon/icon_5'' = Inr s"
    by auto
  with icon_download_request [of demo_icon text_codec s "\<lambda>h s. - 1"] p show ?thesis by auto
qed

text \<open>
  When the server's final reply of a download is handled, the callback is called exactly once, with
  the verdict of the transfer, and the connection is closed.
\<close>

theorem icon_download_reports:
  assumes "protocol_codec c" "set_files_finish_download_back c i ok = Inr s" "ic_cb st"
  shows "\<exists>st'. with_slots (download_slot c sock) (sl_message c sock (set_files_json s)) st = Inr st'
    \<and> ic_results st' = ic_results st @ [(fst (check_length_recv i 0 0 (fs_swap st)) \<and> ok, ic_account st, ic_path st)]
    \<and> web_closes (web st') = Suc (web_closes (web st))"
proof -
  obtain fin where fin: "set_files_finish_download c i True = Inr fin" using id_requests(4) [OF assms(1)] by blast
  obtain okr n len where l: "check_length_recv i 0 0 (fs_swap st) = (okr, n, len)" by (metis prod_cases3)
  let ?st1 = "st\<lparr>fs_swap := close_file_recv_channel (get_id_channel st) i (fs_swap st)\<rparr>"
  let ?st2 = "do_emit (Sn_finish_download (okr \<and> ok) i) (snd (do_send_msg sock fin ?st1))"
  note rep = replies(4) [OF assms(1,2)]
  have "sl_message c sock (set_files_json s) st = task_files_finish_download_back c sock s st"
    using rep by (intro sl_message_json [OF _ map_fn_simps(4)]) simp
  also have "\<dots> = Inr ?st2"
    using rep l fin by (simp add: task_files_finish_download_back_def get_finish_download_back)
  finally have m: "sl_message c sock (set_files_json s) st = Inr ?st2" .
  have web: "web_signals (web (snd (do_send_msg sock fin ?st1))) = web_signals (web st)"
    "web_closes (web (snd (do_send_msg sock fin ?st1))) = web_closes (web st)"
    by (simp_all add: do_send_msg_def send_msg_def ws_send_def Let_def)
  have "with_slots (download_slot c sock) (sl_message c sock (set_files_json s)) st
      = Inr (qweb_close (result_cb (okr \<and> ok) ?st2))"
    using m web by (simp add: with_slots_def)
  moreover have "web_closes (web ?st2) = web_closes (web st)" using web(2) by (simp add: do_emit_def emit_def)
  ultimately show ?thesis
    using assms(3) l by (simp add: qweb_close_def result_cb_def)
qed

theorem icon_download_reports_witness:
  "\<exists>s st'. set_files_finish_download_back text_codec 3 True = Inr s
    \<and> with_slots (download_slot text_codec (\<lambda>h s. 1)) (sl_message text_codec (\<lambda>h s. 1) (set_files_json s)) demo_icon = Inr st'
    \<and> ic_results st' = [(fst (check_length_recv 3 0 0 (fs_swap demo_icon)) \<and> True, 5, ic_path demo_icon)]
    \<and> web_closes (web st') = Suc (web_closes (web demo_icon))"
proof -
  obtain s where "set_files_finish_download_back text_codec 3 True = Inr s"
    using set_msg_defined [OF pc.protocol_codec_axioms, of "Files_finish_download_back 3 True"] by auto
  with icon_download_reports [OF pc.protocol_codec_axioms this, of demo_icon "\<lambda>h s. 1"] show ?thesis by auto
qed

end
