(* ===== verification/File_Travels.thy ===== *)
theory File_Travels
  imports Web_Files
begin

text \<open>
  A file from one client of the file server to another. The server is not in the repository; it is taken to
  answer the requests, to keep the data of the frames that reach it and to hand the same bytes on, cut into
  frames as it likes. A frame reaches it when the \<open>send\<close> of the web socket gives a positive result.
\<close>

section \<open>The frames that reach the server\<close>

definition arrived_of :: "int64 \<Rightarrow> string \<times> int32 \<Rightarrow> string list" where
  "arrived_of i = (\<lambda>(s, ret). if 0 < sint ret then frame_of i s else [])"

definition arrived :: "int64 \<Rightarrow> web \<Rightarrow> string list" where
  "arrived i x = concat (List.map (arrived_of i) (web_sent x))"

lemma length_arrived:
  "length (concat (concat (List.map (arrived_of i) xs))) \<le> length (concat (concat (List.map (\<lambda>(s, r). frame_of i s) xs)))"
  by (induction xs) (auto simp: arrived_of_def)

text \<open>Nothing is missing exactly when every frame with data was sent with success.\<close>

lemma arrived_all:
  "concat (concat (List.map (arrived_of i) xs)) = concat (concat (List.map (\<lambda>(s, r). frame_of i s) xs))
    \<longleftrightarrow> (\<forall>(s, ret) \<in> set xs. 0 < sint ret \<or> concat (frame_of i s) = [])"
proof (induction xs)
  case (Cons x xs)
  obtain s ret where x: "x = (s, ret)" by (cases x)
  show ?case
  proof (cases "0 < sint ret")
    case True
    with Cons show ?thesis by (simp add: x arrived_of_def)
  next
    case False
    show ?thesis
    proof (cases "concat (frame_of i s) = []")
      case True
      with Cons False show ?thesis by (simp add: x arrived_of_def del: concat_eq_Nil_conv)
    next
      case ne: False
      then have "0 < length (concat (frame_of i s))" by (simp only: length_greater_0_conv not_False_eq_True)
      then have "length (concat (concat (List.map (arrived_of i) xs)))
          < length (concat (frame_of i s)) + length (concat (concat (List.map (\<lambda>(s, r). frame_of i s) xs)))"
        using length_arrived [of i xs] by linarith
      then have "length (concat (concat (List.map (arrived_of i) (x # xs))))
          < length (concat (concat (List.map (\<lambda>(s, r). frame_of i s) (x # xs))))"
        using False by (simp add: x arrived_of_def)
      then have "concat (concat (List.map (arrived_of i) (x # xs))) \<noteq> concat (concat (List.map (\<lambda>(s, r). frame_of i s) (x # xs)))"
        by (metis less_irrefl)
      then show ?thesis using False ne by (simp add: x)
    qed
  qed
qed simp

lemma arrived_frames:
  "concat (arrived i x) = concat (frames i x) \<longleftrightarrow> (\<forall>(s, ret) \<in> set (web_sent x). 0 < sint ret \<or> concat (frame_of i s) = [])"
  unfolding arrived_def frames_def by (rule arrived_all)

section \<open>An upload and a failed send\<close>

text \<open>
  C38: a failed send is not made up for. In an upload the server has the whole file if and only if the \<open>send\<close> of each of its frames
  with data succeeded; in either case the client says at the end that the upload has finished successfully.
\<close>

theorem failed_block_is_lost:
  assumes "protocol_codec c"
    and "node_at (disk (fs_swap st)) f = Some (Regular content True)" "content \<noteq> []" "length content < 2 ^ 63"
    and "map_send (fs_swap st) i = None" "map_channel (fs_swap st) (id_channel st) \<noteq> None" "frames i (web st) = []"
    and "set_files_create_upload_back c i f True = Inr s0" "set_files_begin_upload_back c i = Inr s1"
    and "length content div 1024 + 2 \<le> n"
  shows "\<exists>st' fin. run_messages c sock (set_files_json s0 # replicate n (set_files_json s1)) st = Inr st'
    \<and> (concat (arrived i (web st')) = content \<longleftrightarrow> (\<forall>(s, ret) \<in> set (web_sent (web st')). 0 < sint ret \<or> concat (frame_of i s) = []))
    \<and> set_files_finish_upload c i True = Inr fin \<and> fst (last (web_sent (web st'))) = set_files_json fin"
proof -
  obtain st' fin where "run_messages c sock (set_files_json s0 # replicate n (set_files_json s1)) st = Inr st'"
      "frames i (web st') = blocks content" "concat (blocks content) = content"
      "set_files_finish_upload c i True = Inr fin" "fst (last (web_sent (web st'))) = set_files_json fin"
    using upload_run [OF assms(1-6,8-10), of sock] assms(7) by auto
  with arrived_frames [of i "web st'"] show ?thesis by auto
qed

section \<open>From one client to another\<close>

lemma arrived_length: "length (concat (arrived i x)) \<le> length (concat (frames i x))"
  using length_arrived [of i "web_sent x"] by (simp add: arrived_def frames_def)

lemma arrived_length_eq:
  "length (concat (arrived i x)) = length (concat (frames i x)) \<longleftrightarrow> concat (arrived i x) = concat (frames i x)"
proof -
  have "length (concat (concat (List.map (arrived_of i) xs))) = length (concat (concat (List.map (\<lambda>(s, r). frame_of i s) xs)))
    \<Longrightarrow> concat (concat (List.map (arrived_of i) xs)) = concat (concat (List.map (\<lambda>(s, r). frame_of i s) xs))" for xs
  proof (induction xs)
    case (Cons x xs)
    then show ?case
      using length_arrived [of i xs] by (cases x) (auto simp: arrived_of_def split: if_splits)
  qed simp
  then show ?thesis by (auto simp: arrived_def frames_def)
qed

text \<open>
  C10: a file from one client to another. One client uploads the file \<open>f\<close>; whatever of it reached the server is
  sent to another client, cut into any frames, under the length the file had. That client writes exactly these bytes
  to its file \<open>g\<close>, and signals success if and only if they are the whole file, which is so if and only if every
  send of a frame with data succeeded.
\<close>

theorem file_travels:
  assumes "protocol_codec c"
    and "node_at (disk (fs_swap st_a)) f = Some (Regular content True)" "content \<noteq> []" "length content < 2 ^ 63"
    and "map_send (fs_swap st_a) i = None" "map_channel (fs_swap st_a) (id_channel st_a) \<noteq> None" "frames i (web st_a) = []"
    and "set_files_create_upload_back c i f True = Inr u0" "set_files_begin_upload_back c i = Inr u1"
    and "length content div 1024 + 2 \<le> n"
    and "set_files_create_download_back c j (word_of_nat (length content)) p g True = Inr d0" "g \<noteq> []"
    and "set_files_finish_download_back c j True = Inr d1"
    and "map_recv (fs_swap st_b) j = None" "map_channel (fs_swap st_b) (id_channel st_b) \<noteq> None"
    and "fs_creatable (disk (fs_swap st_b)) g" "\<And>r. node_at (disk (fs_swap st_b)) g \<noteq> Some (Directory r)"
    and "\<And>m. m \<le> length content \<Longrightarrow> fs_room (disk (fs_swap st_b)) g m"
  shows "\<exists>a. run_messages c sock_a (set_files_json u0 # replicate n (set_files_json u1)) st_a = Inr a
    \<and> (\<forall>ds. concat ds = concat (arrived i (web a)) \<longrightarrow>
        (\<exists>b r. run_messages c sock_b (set_files_json d0 # List.map (set_files_binary j) ds @ [set_files_json d1]) st_b = Inr b
          \<and> node_at (disk (fs_swap b)) g = Some (Regular (concat ds) r) \<and> map_recv (fs_swap b) j = None
          \<and> last (web_signals (web b)) = Sn_finish_download (concat ds = content) j
          \<and> (concat ds = content \<longleftrightarrow> (\<forall>(s, ret) \<in> set (web_sent (web a)). 0 < sint ret \<or> concat (frame_of i s) = []))))"
proof -
  obtain a where a: "run_messages c sock_a (set_files_json u0 # replicate n (set_files_json u1)) st_a = Inr a"
      "concat (frames i (web a)) = content"
    using upload_run [OF assms(1-6,8-10), of sock_a] assms(7) by auto
  have "\<exists>b r. run_messages c sock_b (set_files_json d0 # List.map (set_files_binary j) ds @ [set_files_json d1]) st_b = Inr b
      \<and> node_at (disk (fs_swap b)) g = Some (Regular (concat ds) r) \<and> map_recv (fs_swap b) j = None
      \<and> last (web_signals (web b)) = Sn_finish_download (concat ds = content) j
      \<and> (concat ds = content \<longleftrightarrow> (\<forall>(s, ret) \<in> set (web_sent (web a)). 0 < sint ret \<or> concat (frame_of i s) = []))"
    if ds: "concat ds = concat (arrived i (web a))" for ds
  proof -
    have le: "length (concat ds) \<le> length content" using arrived_length [of i "web a"] a(2) ds by simp
    have "(word_of_nat (length (concat ds)) :: int64) = word_of_nat (length content) \<longleftrightarrow> length (concat ds) = length content"
      using le assms(4) sint_word_of_nat64 [of "length (concat ds)"] sint_word_of_nat64 [of "length content"]
      by (metis le_less_trans of_nat_eq_iff)
    then have ok: "(word_of_nat (length (concat ds)) :: int64) = word_of_nat (length content) \<longleftrightarrow> concat ds = content"
      using arrived_length_eq [of i "web a"] a(2) ds by auto
    have nz: "(word_of_nat (length content) :: int64) \<noteq> 0" by (rule word_of_nat_nonzero [OF assms(3,4)])
    have all: "concat ds = content \<longleftrightarrow> (\<forall>(s, ret) \<in> set (web_sent (web a)). 0 < sint ret \<or> concat (frame_of i s) = [])"
      using arrived_frames [of i "web a"] a(2) ds by simp
    obtain b r where "run_messages c sock_b (set_files_json d0 # List.map (set_files_binary j) ds @ [set_files_json d1]) st_b = Inr b"
      "node_at (disk (fs_swap b)) g = Some (Regular (concat ds) r)" "map_recv (fs_swap b) j = None"
      "last (web_signals (web b)) = Sn_finish_download (concat ds = content) j"
      using download_run [OF assms(1,11,12) nz assms(13-17), of ds sock_b] le assms(18) ok by auto
    with all show ?thesis by blast
  qed
  with a(1) show ?thesis by blast
qed

section \<open>Instances\<close>

lemma upload_replies:
  obtains s0 s1 where "set_files_create_upload_back text_codec 5 ''a.txt'' True = Inr s0"
    "set_files_begin_upload_back text_codec 5 = Inr s1"
proof -
  have "\<exists>s. set_msg text_codec (Files_create_upload_back 5 ''a.txt'' True) = Inr s"
    using set_msg_utf8 [OF pc.protocol_codec_axioms, of "Files_create_upload_back 5 ''a.txt'' True"] by simp
  moreover have "\<exists>s. set_msg text_codec (Files_begin_upload_back 5) = Inr s"
    using set_msg_defined [OF pc.protocol_codec_axioms, of "Files_begin_upload_back 5"] by simp
  ultimately show thesis using that by auto
qed

text \<open>A socket that sends nothing: the upload finishes all the same.\<close>

theorem failed_block_is_lost_witness:
  "\<exists>s0 s1 st' fin. set_files_create_upload_back text_codec 5 ''a.txt'' True = Inr s0
    \<and> set_files_begin_upload_back text_codec 5 = Inr s1
    \<and> run_messages text_codec (\<lambda>h s. - 1) (set_files_json s0 # replicate 2 (set_files_json s1)) demo_client = Inr st'
    \<and> (concat (arrived 5 (web st')) = ''hello''
        \<longleftrightarrow> (\<forall>(s, ret) \<in> set (web_sent (web st')). 0 < sint ret \<or> concat (frame_of 5 s) = []))
    \<and> set_files_finish_upload text_codec 5 True = Inr fin \<and> fst (last (web_sent (web st'))) = set_files_json fin"
proof -
  obtain s0 s1 where s: "set_files_create_upload_back text_codec 5 ''a.txt'' True = Inr s0"
      "set_files_begin_upload_back text_codec 5 = Inr s1" by (rule upload_replies)
  show ?thesis
    using failed_block_is_lost [OF pc.protocol_codec_axioms _ _ _ _ _ _ s, of demo_client "''hello''" 2 "\<lambda>h s. - 1"] s
    by simp
qed

theorem file_travels_witness:
  "\<exists>u0 u1 d0 d1 a. set_files_create_upload_back text_codec 5 ''a.txt'' True = Inr u0
    \<and> set_files_begin_upload_back text_codec 5 = Inr u1
    \<and> set_files_create_download_back text_codec 5 5 ''x'' ''b.txt'' True = Inr d0
    \<and> set_files_finish_download_back text_codec 5 True = Inr d1
    \<and> run_messages text_codec (\<lambda>h s. 1) (set_files_json u0 # replicate 2 (set_files_json u1)) demo_client = Inr a
    \<and> (\<forall>ds. concat ds = concat (arrived 5 (web a)) \<longrightarrow>
        (\<exists>b r. run_messages text_codec (\<lambda>h s. 1)
            (set_files_json d0 # List.map (set_files_binary 5) ds @ [set_files_json d1]) demo_client = Inr b
          \<and> node_at (disk (fs_swap b)) ''b.txt'' = Some (Regular (concat ds) r) \<and> map_recv (fs_swap b) 5 = None
          \<and> last (web_signals (web b)) = Sn_finish_download (concat ds = ''hello'') 5
          \<and> (concat ds = ''hello'' \<longleftrightarrow> (\<forall>(s, ret) \<in> set (web_sent (web a)). 0 < sint ret \<or> concat (frame_of 5 s) = []))))"
proof -
  obtain u0 u1 where u: "set_files_create_upload_back text_codec 5 ''a.txt'' True = Inr u0"
      "set_files_begin_upload_back text_codec 5 = Inr u1" by (rule upload_replies)
  have "\<exists>s. set_msg text_codec (Files_create_download_back 5 5 ''x'' ''b.txt'' True) = Inr s"
    using set_msg_utf8 [OF pc.protocol_codec_axioms, of "Files_create_download_back 5 5 ''x'' ''b.txt'' True"] by simp
  then obtain d0 where d0: "set_files_create_download_back text_codec 5 5 ''x'' ''b.txt'' True = Inr d0" by auto
  then have d0': "set_files_create_download_back text_codec 5 (word_of_nat (length ''hello'')) ''x'' ''b.txt'' True = Inr d0"
    by simp
  obtain d1 where d1: "set_files_finish_download_back text_codec 5 True = Inr d1"
    using set_msg_defined [OF pc.protocol_codec_axioms, of "Files_finish_download_back 5 True"] by auto
  have room: "m \<le> length ''hello'' \<Longrightarrow> fs_room (disk (fs_swap demo_client)) ''b.txt'' m" for m by (simp add: demo_disk_def)
  have dir: "node_at (disk (fs_swap demo_client)) ''b.txt'' \<noteq> Some (Directory r)" for r by (simp add: demo_disk_def node_at_def)
  have "fs_creatable (disk (fs_swap demo_client)) ''b.txt''" by (simp add: demo_disk_def)
  have "\<exists>a. run_messages text_codec (\<lambda>h s. 1) (set_files_json u0 # replicate 2 (set_files_json u1)) demo_client = Inr a
    \<and> (\<forall>ds. concat ds = concat (arrived 5 (web a)) \<longrightarrow>
        (\<exists>b r. run_messages text_codec (\<lambda>h s. 1) (set_files_json d0 # List.map (set_files_binary 5) ds @ [set_files_json d1]) demo_client = Inr b
          \<and> node_at (disk (fs_swap b)) ''b.txt'' = Some (Regular (concat ds) r) \<and> map_recv (fs_swap b) 5 = None
          \<and> last (web_signals (web b)) = Sn_finish_download (concat ds = ''hello'') 5
          \<and> (concat ds = ''hello'' \<longleftrightarrow> (\<forall>(s, ret) \<in> set (web_sent (web a)). 0 < sint ret \<or> concat (frame_of 5 s) = []))))"
    by (rule file_travels [OF pc.protocol_codec_axioms _ _ _ _ _ _ u _ d0' _ d1 _ _ \<open>fs_creatable _ _\<close> dir room]) simp_all
  with u d0 d1 show ?thesis by blast
qed

end
