(* ===== verification/Files_Threads.thy ===== *)
theory Files_Threads
  imports Transfer_Laws
begin

text \<open>
  The sending half of \<open>files_io\<close> run by threads: the table \<open>_map_send\<close>, its mutex \<open>_mut_send\<close> and the
  shared objects \<open>fs_send\<close>, with a step for each piece of code between two points where another thread may
  run. A send by \<open>add_data_send\<close> reads under the mutex, but looks the table up and calls its callbacks
  without it. The theorems: sends of different files never disturb one another, on any schedule, and always
  end; an open beside a send is a data race.
\<close>

section \<open>Threads, places and the shared state\<close>

text \<open>The calls a thread makes, one after the other.\<close>

datatype call = Open_send int64 string bool | Add_send int64 | Close_send int64

text \<open>
  Where a thread is: between two calls; with the mutex in the body of an open or a close, or about to
  leave it with its result; in the loop of \<open>add_data_send\<close> with its pointer: at the test of \<open>eof\<close>, waiting for
  the mutex, with it before and after \<open>read\<close>, and after the inner block with the bytes read.
\<close>

datatype place =
  Ready
| Opening int64 string bool
| Closing int64
| Leaving "bool res"
| Looping int64 nat
| Wanting int64 nat
| Reading int64 nat
| Holding int64 nat string
| Giving int64 nat string

record worker =
  at :: place
  todo :: "call list"
  results :: "bool res list"

text \<open>
  A pointer is an index into the list of the objects made so far; an object lives on while a thread
  keeps its pointer, also when the table has dropped it. \<open>sh_given\<close> is what the callbacks were given, with the
  identifier. A division by zero ends all threads.
\<close>

record shared =
  sh_objs :: "fs_send list"
  sh_table :: "int64 \<rightharpoonup> nat"
  sh_mut :: "nat option"
  sh_disk :: world
  sh_given :: "(int64 \<times> string) list"
  sh_dead :: bool
  sh_workers :: "worker list"

definition goto :: "nat \<Rightarrow> place \<Rightarrow> shared \<Rightarrow> shared" where
  "goto t p st = st\<lparr>sh_workers := (sh_workers st)[t := (sh_workers st ! t)\<lparr>at := p\<rparr>]\<rparr>"

definition return :: "nat \<Rightarrow> bool res \<Rightarrow> shared \<Rightarrow> shared" where
  "return t r st = st\<lparr>sh_workers := (sh_workers st)[t := (sh_workers st ! t)\<lparr>at := Ready,
     results := results (sh_workers st ! t) @ [r]\<rparr>]\<rparr>"

definition set_obj :: "nat \<Rightarrow> fs_send \<Rightarrow> shared \<Rightarrow> shared" where
  "set_obj p sp st = st\<lparr>sh_objs := (sh_objs st)[p := sp]\<rparr>"

section \<open>The pieces of the code\<close>

text \<open>The first piece of a call: taking the mutex, or looking the table up without it.\<close>

definition start_call :: "nat \<Rightarrow> call \<Rightarrow> shared \<Rightarrow> shared option" where
  "start_call t c st = (case c of
       Open_send i f pr \<Rightarrow>
         if sh_mut st = None then Some (goto t (Opening i f pr) (st\<lparr>sh_mut := Some t\<rparr>)) else None
     | Close_send i \<Rightarrow>
         if sh_mut st = None then Some (goto t (Closing i) (st\<lparr>sh_mut := Some t\<rparr>)) else None
     | Add_send i \<Rightarrow> (case sh_table st i of
           Some p \<Rightarrow> Some (goto t (Looping i p) st)
         | None \<Rightarrow> Some (return t (Inr True) st)))"

text \<open>The body of \<open>open_file_send\<close>, under the mutex.\<close>

definition open_body :: "int64 \<Rightarrow> string \<Rightarrow> bool \<Rightarrow> shared \<Rightarrow> bool res \<times> shared" where
  "open_body i f pr st =
     (if sh_table st i \<noteq> None then (Inr False, st)
      else (case rs_open (sh_disk st) f of
          None \<Rightarrow> (Inr False, st)
        | Some sp_fs \<Rightarrow> (case get_file_size (sh_disk st) f of
            Inl e \<Rightarrow> (Inl e, st)
          | Inr len \<Rightarrow> (Inr True, st\<lparr>sh_objs := sh_objs st @
              [\<lparr>send_prog = 0, count_send = 0, send_length_max = len, send_filename = f,
                send_fs = sp_fs, send_prog_cb = pr\<rparr>],
              sh_table := (sh_table st)(i \<mapsto> length (sh_objs st))\<rparr>))))"

text \<open>The body of \<open>close_file_send\<close>: a stream that was closed has nothing left to read.\<close>

definition close_body :: "int64 \<Rightarrow> shared \<Rightarrow> shared" where
  "close_body i st = (case sh_table st i of
       Some p \<Rightarrow> set_obj p ((sh_objs st ! p)\<lparr>send_fs := (send_fs (sh_objs st ! p))\<lparr>rs_rest := []\<rparr>\<rparr>)
         (st\<lparr>sh_table := (sh_table st)(i := None)\<rparr>)
     | None \<Rightarrow> st)"

text \<open>The inner block of the loop of \<open>add_data_send\<close>: \<open>read\<close> under the mutex.\<close>

definition read_body :: "nat \<Rightarrow> shared \<Rightarrow> string \<times> shared" where
  "read_body p st = (let sp = sh_objs st ! p; (buf, sp_fs) = rs_read 1024 (send_fs sp)
     in (buf, set_obj p (sp\<lparr>send_fs := sp_fs\<rparr>) st))"

text \<open>
  The rest of the loop's body: the count, the callback, which answers \<open>b\<close>, and the progress.
\<close>

definition give_body :: "bool \<Rightarrow> nat \<Rightarrow> int64 \<Rightarrow> nat \<Rightarrow> string \<Rightarrow> shared \<Rightarrow> shared" where
  "give_body b t i p buf st =
     (let sp = sh_objs st ! p;
          sp1 = sp\<lparr>count_send := count_send sp + word_of_nat (length buf)\<rparr>;
          st1 = set_obj p sp1 (st\<lparr>sh_given := sh_given st @ [(i, buf)]\<rparr>)
      in case calc_prog (count_send sp1) (send_length_max sp1) of
           Inl e \<Rightarrow> st1\<lparr>sh_dead := True\<rparr>
         | Inr prog \<Rightarrow>
             (let st2 = set_obj p (fst (note_send (\<lambda>_ _ _ _ x. x) i sp1 prog ())) st1
              in if b then goto t (Looping i p) st2 else return t (Inr False) st2))"

text \<open>A step of thread \<open>t\<close>; \<open>None\<close> when it has finished, waits for the mutex or does not exist.\<close>

definition thread_step :: "bool \<Rightarrow> nat \<Rightarrow> shared \<Rightarrow> shared option" where
  "thread_step b t st =
     (if sh_dead st \<or> length (sh_workers st) \<le> t then None
      else (case at (sh_workers st ! t) of
          Ready \<Rightarrow> (case todo (sh_workers st ! t) of
              [] \<Rightarrow> None
            | c # cs \<Rightarrow> start_call t c
                (st\<lparr>sh_workers := (sh_workers st)[t := (sh_workers st ! t)\<lparr>todo := cs\<rparr>]\<rparr>))
        | Opening i f pr \<Rightarrow> (let (r, st') = open_body i f pr st in Some (goto t (Leaving r) st'))
        | Closing i \<Rightarrow> Some (goto t (Leaving (Inr True)) (close_body i st))
        | Leaving r \<Rightarrow> Some (return t r (st\<lparr>sh_mut := None\<rparr>))
        | Looping i p \<Rightarrow>
            if rs_eof (send_fs (sh_objs st ! p)) then Some (return t (Inr True) st)
            else Some (goto t (Wanting i p) st)
        | Wanting i p \<Rightarrow>
            if sh_mut st = None then Some (goto t (Reading i p) (st\<lparr>sh_mut := Some t\<rparr>)) else None
        | Reading i p \<Rightarrow> (let (buf, st') = read_body p st in Some (goto t (Holding i p buf) st'))
        | Holding i p buf \<Rightarrow> Some (goto t (Giving i p buf) (st\<lparr>sh_mut := None\<rparr>))
        | Giving i p buf \<Rightarrow> Some (give_body b t i p buf st)))"

text \<open>The threads together: any of them makes the next step, and a callback answers as it likes.\<close>

inductive par_step :: "shared \<Rightarrow> shared \<Rightarrow> bool" where
  run: "thread_step b t st = Some st' \<Longrightarrow> par_step st st'"

inductive_cases par_stepE: "par_step st st'"

text \<open>A schedule: the threads in the order of their steps, with the answers of the callbacks.\<close>

fun run_schedule :: "(nat \<times> bool) list \<Rightarrow> shared \<Rightarrow> shared" where
  "run_schedule [] st = st"
| "run_schedule ((t, b) # ts) st =
     (case thread_step b t st of Some st' \<Rightarrow> run_schedule ts st' | None \<Rightarrow> run_schedule ts st)"

lemma run_schedule_steps: "par_step\<^sup>*\<^sup>* st (run_schedule ts st)"
proof (induction ts arbitrary: st)
  case (Cons tb ts)
  obtain t b where [simp]: "tb = (t, b)" by (cases tb)
  show ?case
    by (auto split: option.splits intro: Cons converse_rtranclp_into_rtranclp [of par_step, OF par_step.run])
qed simp

text \<open>What was given to the callbacks of one file.\<close>

definition given_to :: "int64 \<Rightarrow> shared \<Rightarrow> string list" where
  "given_to i st = map snd (filter (\<lambda>(j, _). j = i) (sh_given st))"

text \<open>
  A data race: one thread is about to look the table up without the mutex, or touches an object without it,
  while another is about to change the same table or object.
\<close>

definition looks_up :: "worker \<Rightarrow> bool" where
  "looks_up w = (at w = Ready \<and> (case todo w of Add_send i # _ \<Rightarrow> True | _ \<Rightarrow> False))"

definition changes_table :: "shared \<Rightarrow> worker \<Rightarrow> bool" where
  "changes_table st w = (case at w of
       Opening i f pr \<Rightarrow> sh_table (snd (open_body i f pr st)) i \<noteq> sh_table st i
     | Closing i \<Rightarrow> sh_table st i \<noteq> None
     | _ \<Rightarrow> False)"

definition touches :: "worker \<Rightarrow> nat option" where
  "touches w = (case at w of Looping i p \<Rightarrow> Some p | Giving i p buf \<Rightarrow> Some p | _ \<Rightarrow> None)"

definition changes_obj :: "shared \<Rightarrow> worker \<Rightarrow> nat option" where
  "changes_obj st w = (case at w of
       Reading i p \<Rightarrow> Some p | Giving i p buf \<Rightarrow> Some p | Closing i \<Rightarrow> sh_table st i | _ \<Rightarrow> None)"

definition races_with :: "shared \<Rightarrow> worker \<Rightarrow> worker \<Rightarrow> bool" where
  "races_with st v w = (looks_up v \<and> changes_table st w \<or> touches v \<noteq> None \<and> touches v = changes_obj st w)"

definition races :: "shared \<Rightarrow> bool" where
  "races st = (\<exists>t < length (sh_workers st). \<exists>u < length (sh_workers st).
     t \<noteq> u \<and> races_with st (sh_workers st ! t) (sh_workers st ! u))"

definition finished :: "shared \<Rightarrow> bool" where
  "finished st = (\<forall>w \<in> set (sh_workers st). at w = Ready \<and> todo w = [])"

section \<open>The mutex\<close>

primrec in_mutex :: "place \<Rightarrow> bool" where
  "in_mutex Ready = False"
| "in_mutex (Opening i f pr) = True"
| "in_mutex (Closing i) = True"
| "in_mutex (Leaving r) = True"
| "in_mutex (Looping i p) = False"
| "in_mutex (Wanting i p) = False"
| "in_mutex (Reading i p) = True"
| "in_mutex (Holding i p buf) = True"
| "in_mutex (Giving i p buf) = False"

definition mutex_ok :: "shared \<Rightarrow> bool" where
  "mutex_ok st = ((\<forall>t < length (sh_workers st). in_mutex (at (sh_workers st ! t)) \<longleftrightarrow> sh_mut st = Some t)
     \<and> (\<forall>t. sh_mut st = Some t \<longrightarrow> t < length (sh_workers st)))"

lemmas piece_defs = goto_def return_def set_obj_def start_call_def open_body_def close_body_def read_body_def
  give_body_def

lemma pieces_workers [simp]:
  "sh_workers (snd (open_body i f pr st)) = sh_workers st" "sh_mut (snd (open_body i f pr st)) = sh_mut st"
  "sh_workers (close_body i st) = sh_workers st" "sh_mut (close_body i st) = sh_mut st"
  "sh_workers (snd (read_body p st)) = sh_workers st" "sh_mut (snd (read_body p st)) = sh_mut st"
  "sh_mut (goto t q st) = sh_mut st" "sh_mut (return t r st) = sh_mut st"
  by (simp_all add: piece_defs Let_def split: option.splits sum.splits prod.splits)

text \<open>What the step of a thread does to the mutex and to the threads.\<close>

definition moves :: "nat \<Rightarrow> shared \<Rightarrow> shared \<Rightarrow> bool" where
  "moves t st st' = (\<exists>w. sh_workers st' = (sh_workers st)[t := w]
     \<and> (in_mutex (at w) = in_mutex (at (sh_workers st ! t)) \<and> sh_mut st' = sh_mut st
       \<or> sh_mut st = None \<and> sh_mut st' = Some t \<and> in_mutex (at w)
       \<or> in_mutex (at (sh_workers st ! t)) \<and> sh_mut st' = None \<and> \<not> in_mutex (at w)))"

lemma moves_mutex_ok: "moves t st st' \<Longrightarrow> t < length (sh_workers st) \<Longrightarrow> mutex_ok st \<Longrightarrow> mutex_ok st'"
  unfolding moves_def mutex_ok_def
  by (elim exE conjE disjE) (simp_all add: nth_list_update)

lemma goto_moves:
  "sh_workers st' = sh_workers st \<Longrightarrow> sh_mut st' = sh_mut st \<Longrightarrow> in_mutex q = in_mutex (at (sh_workers st ! t))
    \<Longrightarrow> moves t st (goto t q st')"
  by (auto simp: moves_def goto_def intro!: exI)

lemma start_call_moves:
  assumes "start_call t c (st\<lparr>sh_workers := (sh_workers st)[t := (sh_workers st ! t)\<lparr>todo := cs\<rparr>]\<rparr>) = Some st'"
    and "at (sh_workers st ! t) = Ready" "t < length (sh_workers st)"
  shows "moves t st st'"
proof (cases c)
  case (Add_send i)
  with assms show ?thesis
    by (cases "sh_table st i") (auto simp: moves_def start_call_def goto_def return_def)
qed (use assms in \<open>auto simp: moves_def start_call_def goto_def split: if_splits\<close>)

lemma give_body_moves:
  assumes "at (sh_workers st ! t) = Giving i p buf"
  shows "moves t st (give_body b t i p buf st)"
proof (cases "calc_prog (count_send (sh_objs st ! p) + word_of_nat (length buf)) (send_length_max (sh_objs st ! p))")
  case (Inl e)
  with assms show ?thesis
    by (auto simp: moves_def give_body_def set_obj_def Let_def intro!: exI [of _ "sh_workers st ! t"])
next
  case (Inr prog)
  with assms show ?thesis
    by (cases b) (simp_all add: moves_def give_body_def set_obj_def goto_def return_def Let_def, auto)
qed

lemma thread_step_moves:
  assumes "thread_step b t st = Some st'"
  shows "moves t st st'" "t < length (sh_workers st)"
proof -
  show t: "t < length (sh_workers st)" using assms by (auto simp: thread_step_def split: if_splits)
  have d: "\<not> sh_dead st" using assms by (auto simp: thread_step_def split: if_splits)
  note step = assms [unfolded thread_step_def]
  show "moves t st st'"
  proof (cases "at (sh_workers st ! t)")
    case Ready
    with step t d start_call_moves [of t _ st _ st'] show ?thesis by (auto split: list.splits)
  next
    case (Opening i f pr)
    obtain r st1 where o: "open_body i f pr st = (r, st1)" by (rule prod.exhaust)
    with step t d Opening pieces_workers(1,2) [of i f pr st] show ?thesis by (auto intro!: goto_moves)
  next
    case (Closing i)
    with step t d show ?thesis by (auto intro!: goto_moves)
  next
    case (Leaving r)
    with step t d show ?thesis by (auto simp: moves_def return_def)
  next
    case (Looping i p)
    with step t d show ?thesis by (auto simp: moves_def return_def goto_def split: if_splits)
  next
    case (Wanting i p)
    with step t d show ?thesis by (auto simp: moves_def goto_def split: if_splits)
  next
    case (Reading i p)
    obtain buf st1 where o: "read_body p st = (buf, st1)" by (rule prod.exhaust)
    with step t d Reading pieces_workers(5,6) [of p st] show ?thesis by (auto intro!: goto_moves)
  next
    case (Holding i p buf)
    with step t d show ?thesis by (auto simp: moves_def goto_def)
  next
    case (Giving i p buf)
    with step t d give_body_moves show ?thesis by auto
  qed
qed

lemma mutex_ok_step: "par_step st st' \<Longrightarrow> mutex_ok st \<Longrightarrow> mutex_ok st'"
  by (elim par_stepE) (blast dest: thread_step_moves moves_mutex_ok)

lemma mutex_ok_steps: "par_step\<^sup>*\<^sup>* st st' \<Longrightarrow> mutex_ok st \<Longrightarrow> mutex_ok st'"
  by (induction rule: rtranclp_induct) (auto intro: mutex_ok_step)

text \<open>A thread in the mutex can go on, and when there is none any thread that has not finished can.\<close>

lemma in_mutex_goes_on:
  assumes "\<not> sh_dead st" "t < length (sh_workers st)" "in_mutex (at (sh_workers st ! t))"
  shows "thread_step b t st \<noteq> None"
  using assms by (cases "at (sh_workers st ! t)") (auto simp: thread_step_def split: prod.splits)

lemma free_mutex_goes_on:
  assumes "\<not> sh_dead st" "t < length (sh_workers st)" "sh_mut st = None"
    and "at (sh_workers st ! t) \<noteq> Ready \<or> todo (sh_workers st ! t) \<noteq> []"
  shows "thread_step b t st \<noteq> None"
proof (cases "at (sh_workers st ! t)")
  case Ready
  then obtain c cs where "todo (sh_workers st ! t) = c # cs" using assms(4) by (cases "todo (sh_workers st ! t)") auto
  with assms Ready show ?thesis by (cases c) (auto simp: thread_step_def start_call_def split: option.splits)
qed (use assms in \<open>auto simp: thread_step_def split: prod.splits\<close>)

lemma no_deadlock:
  assumes "mutex_ok st" "\<not> sh_dead st" "\<not> finished st"
  shows "\<exists>st'. par_step st st'"
proof -
  have "\<exists>t b. thread_step b t st \<noteq> None"
  proof (cases "sh_mut st")
    case None
    from assms(3) obtain t where "t < length (sh_workers st)" "at (sh_workers st ! t) \<noteq> Ready \<or> todo (sh_workers st ! t) \<noteq> []"
      by (auto simp: finished_def in_set_conv_nth)
    with free_mutex_goes_on assms(2) None show ?thesis by blast
  next
    case (Some t)
    with assms(1) have "t < length (sh_workers st)" "in_mutex (at (sh_workers st ! t))" by (auto simp: mutex_ok_def)
    with in_mutex_goes_on assms(2) show ?thesis by blast
  qed
  then show ?thesis by (auto intro: par_step.run)
qed

text \<open>
  C25: The mutex of the sends works: whatever calls any number of threads make, in every reachable state at most
  one thread is in a block that holds it, and unless a division by zero ended the program or all calls have
  returned, some thread can go on.
\<close>

theorem send_mutex_works:
  assumes "\<forall>w \<in> set (sh_workers st0). at w = Ready" "sh_mut st0 = None" "par_step\<^sup>*\<^sup>* st0 st"
  shows "(\<forall>t < length (sh_workers st). \<forall>u < length (sh_workers st).
      in_mutex (at (sh_workers st ! t)) \<and> in_mutex (at (sh_workers st ! u)) \<longrightarrow> t = u)
    \<and> (sh_dead st \<or> finished st \<or> (\<exists>st'. par_step st st'))"
proof -
  have "mutex_ok st0" using assms(1,2) by (auto simp: mutex_ok_def)
  with assms(3) have ok: "mutex_ok st" by (rule mutex_ok_steps)
  then show ?thesis using no_deadlock [OF ok] by (auto simp: mutex_ok_def)
qed

section \<open>Sends of different files\<close>

text \<open>
  The start: files that were opened for sending, each with its identifier and its object, and for each a
  thread that calls \<open>add_data_send\<close> \<open>n\<close> times.
\<close>

definition start_sends :: "world \<Rightarrow> (int64 \<times> fs_send) list \<Rightarrow> nat \<Rightarrow> shared" where
  "start_sends w files n = \<lparr>sh_objs = List.map snd files,
     sh_table = map_of (zip (List.map fst files) [0..<length files]), sh_mut = None, sh_disk = w, sh_given = [],
     sh_dead = False,
     sh_workers = List.map (\<lambda>(i, sp). \<lparr>at = Ready, todo = replicate n (Add_send i), results = []\<rparr>) files\<rparr>"

text \<open>The places of a send of identifier \<open>i\<close> through pointer \<open>p\<close>, and the block that is read and not yet given.\<close>

primrec own_place :: "int64 \<Rightarrow> nat \<Rightarrow> place \<Rightarrow> bool" where
  "own_place i p Ready = True"
| "own_place i p (Opening j f pr) = False"
| "own_place i p (Closing j) = False"
| "own_place i p (Leaving r) = False"
| "own_place i p (Looping j q) = (j = i \<and> q = p)"
| "own_place i p (Wanting j q) = (j = i \<and> q = p)"
| "own_place i p (Reading j q) = (j = i \<and> q = p)"
| "own_place i p (Holding j q buf) = (j = i \<and> q = p)"
| "own_place i p (Giving j q buf) = (j = i \<and> q = p)"

primrec pending :: "place \<Rightarrow> string list" where
  "pending Ready = []"
| "pending (Opening j f pr) = []"
| "pending (Closing j) = []"
| "pending (Leaving r) = []"
| "pending (Looping j q) = []"
| "pending (Wanting j q) = []"
| "pending (Reading j q) = []"
| "pending (Holding j q buf) = [buf]"
| "pending (Giving j q buf) = [buf]"

text \<open>What holds of one send, given its thread, its object and what its callback was given.\<close>

definition send_ok :: "nat \<Rightarrow> int64 \<Rightarrow> nat \<Rightarrow> fs_send \<Rightarrow> worker \<Rightarrow> fs_send \<Rightarrow> string list \<Rightarrow> bool" where
  "send_ok n i p sp0 w sp given =
     (own_place i p (at w) \<and> set (todo w) \<subseteq> {Add_send i} \<and> send_length_max sp \<noteq> 0
      \<and> (case at w of Wanting j q \<Rightarrow> \<not> rs_eof (send_fs sp) | Reading j q \<Rightarrow> \<not> rs_eof (send_fs sp) | _ \<Rightarrow> True)
      \<and> given @ pending (at w) @ left (send_fs sp) = left (send_fs sp0)
      \<and> set (results w) \<subseteq> {Inr True, Inr False} \<and> (Inr True \<in> set (results w) \<longrightarrow> left (send_fs sp) = [] \<and> pending (at w) = [])
      \<and> length (filter (\<lambda>r. r = Inr False) (results w)) \<le> length given
      \<and> length (todo w) + length (results w) + (if at w = Ready then 0 else 1) = n)"

definition sends_ok :: "(int64 \<times> fs_send) list \<Rightarrow> nat \<Rightarrow> shared \<Rightarrow> bool" where
  "sends_ok files n st =
     (\<not> sh_dead st \<and> length (sh_workers st) = length files \<and> length (sh_objs st) = length files
      \<and> sh_table st = map_of (zip (List.map fst files) [0..<length files])
      \<and> (\<forall>t < length files. send_ok n (fst (files ! t)) t (snd (files ! t)) (sh_workers st ! t) (sh_objs st ! t)
           (given_to (fst (files ! t)) st)))"

text \<open>A thread leaves the threads, the objects and the callbacks of the others as they are.\<close>

definition own_change :: "int64 \<Rightarrow> nat \<Rightarrow> shared \<Rightarrow> shared \<Rightarrow> bool" where
  "own_change i t st st' =
     (length (sh_workers st') = length (sh_workers st) \<and> length (sh_objs st') = length (sh_objs st)
      \<and> sh_table st' = sh_table st
      \<and> (\<forall>u. u \<noteq> t \<longrightarrow> sh_workers st' ! u = sh_workers st ! u \<and> sh_objs st' ! u = sh_objs st ! u)
      \<and> (\<forall>j. j \<noteq> i \<longrightarrow> given_to j st' = given_to j st))"

lemma given_to_simps [simp]:
  "given_to i (st\<lparr>sh_mut := m\<rparr>) = given_to i st" "given_to i (st\<lparr>sh_workers := ws\<rparr>) = given_to i st"
  "given_to i (st\<lparr>sh_objs := os\<rparr>) = given_to i st"
  "given_to i (st\<lparr>sh_given := sh_given st @ [(j, buf)]\<rparr>) = given_to i st @ (if j = i then [buf] else [])"
  by (simp_all add: given_to_def)

text \<open>The weight of what a send still has to do; every step lowers it.\<close>

primrec place_weight :: "place \<Rightarrow> nat" where
  "place_weight Ready = 0"
| "place_weight (Opening j f pr) = 0"
| "place_weight (Closing j) = 0"
| "place_weight (Leaving r) = 0"
| "place_weight (Looping j q) = 4"
| "place_weight (Wanting j q) = 3"
| "place_weight (Reading j q) = 2"
| "place_weight (Holding j q buf) = 7"
| "place_weight (Giving j q buf) = 6"

definition send_weight :: "worker \<Rightarrow> fs_send \<Rightarrow> nat" where
  "send_weight w sp = 5 * length (todo w) + 6 * length (left (send_fs sp)) + place_weight (at w)"

text \<open>What a step of such a thread does.\<close>

definition send_moves :: "nat \<Rightarrow> int64 \<Rightarrow> nat \<Rightarrow> fs_send \<Rightarrow> shared \<Rightarrow> shared \<Rightarrow> bool" where
  "send_moves n i t sp0 st st' =
     (sh_dead st' = sh_dead st \<and> own_change i t st st'
      \<and> send_ok n i t sp0 (sh_workers st' ! t) (sh_objs st' ! t) (given_to i st')
      \<and> send_weight (sh_workers st' ! t) (sh_objs st' ! t) < send_weight (sh_workers st ! t) (sh_objs st ! t))"

lemma looping_moves:
  assumes "send_ok n i t sp0 (sh_workers st ! t) (sh_objs st ! t) (given_to i st)"
    and "t < length (sh_workers st)" "at (sh_workers st ! t) = Looping i t"
    and st': "st' = (if rs_eof (send_fs (sh_objs st ! t)) then return t (Inr True) st else goto t (Wanting i t) st)"
  shows "send_moves n i t sp0 st st'"
proof (cases "rs_eof (send_fs (sh_objs st ! t))")
  case True
  then have "left (send_fs (sh_objs st ! t)) = []" by (simp add: left_def)
  with assms True show ?thesis
    by (simp add: send_moves_def own_change_def send_ok_def send_weight_def return_def) metis
next
  case False
  with assms show ?thesis by (simp add: send_moves_def own_change_def send_ok_def send_weight_def goto_def)
qed

lemma reading_moves:
  assumes ok: "send_ok n i t sp0 (sh_workers st ! t) (sh_objs st ! t) (given_to i st)"
    and t: "t < length (sh_workers st)" "t < length (sh_objs st)" "at (sh_workers st ! t) = Reading i t"
    and st': "read_body t st = (buf, st1)" "st' = goto t (Holding i t buf) st1"
  shows "send_moves n i t sp0 st st'"
proof -
  have e: "\<not> rs_eof (send_fs (sh_objs st ! t))" using ok t(3) by (simp add: send_ok_def)
  obtain buf' s' where r: "rs_read 1024 (send_fs (sh_objs st ! t)) = (buf', s')" by (rule prod.exhaust)
  then have l: "left (send_fs (sh_objs st ! t)) = buf' # left s'" using left_read [OF e] by simp
  from r st' have "st' = goto t (Holding i t buf') (set_obj t ((sh_objs st ! t)\<lparr>send_fs := s'\<rparr>) st)"
    by (simp add: read_body_def Let_def)
  with ok t l show ?thesis
    by (auto simp: send_moves_def own_change_def send_ok_def send_weight_def goto_def set_obj_def)
qed

lemma giving_moves:
  assumes ok: "send_ok n i t sp0 (sh_workers st ! t) (sh_objs st ! t) (given_to i st)"
    and t: "t < length (sh_workers st)" "t < length (sh_objs st)" "at (sh_workers st ! t) = Giving i t buf"
    and st': "st' = give_body b t i t buf st"
  shows "send_moves n i t sp0 st st'"
proof -
  let ?sp = "sh_objs st ! t"
  let ?sp1 = "?sp\<lparr>count_send := count_send ?sp + word_of_nat (length buf)\<rparr>"
  have z: "send_length_max ?sp \<noteq> 0" using ok by (simp add: send_ok_def)
  obtain p where p: "calc_prog (count_send ?sp1) (send_length_max ?sp1) = Inr p"
    using calc_prog_defined [of "send_length_max ?sp1"] z by auto
  obtain sp2 where n: "fst (note_send (\<lambda>_ _ _ _ x. x) i ?sp1 p ()) = sp2" by blast
  then have sp2: "send_fs sp2 = send_fs ?sp" "send_length_max sp2 = send_length_max ?sp"
    by (auto simp: note_send_def split: if_splits)
  let ?st2 = "set_obj t sp2 (st\<lparr>sh_given := sh_given st @ [(i, buf)]\<rparr>)"
  have "st' = (if b then goto t (Looping i t) ?st2 else return t (Inr False) ?st2)"
    using st' p n by (cases b) (simp_all add: give_body_def set_obj_def Let_def)
  with ok t sp2 show ?thesis
    by (cases b) (auto simp: send_moves_def own_change_def send_ok_def send_weight_def goto_def return_def set_obj_def)
qed

lemma send_thread_step:
  assumes s: "thread_step b t st = Some st'"
    and ok: "send_ok n i t sp0 (sh_workers st ! t) (sh_objs st ! t) (given_to i st)"
    and tab: "sh_table st i = Some t" and len: "t < length (sh_objs st)"
  shows "send_moves n i t sp0 st st'"
proof -
  have t: "t < length (sh_workers st)" "\<not> sh_dead st" using s by (auto simp: thread_step_def split: if_splits)
  let ?w = "sh_workers st ! t"
  note step = s [unfolded thread_step_def]
  show ?thesis
  proof (cases "at ?w")
    case Ready
    with s t obtain c cs where c: "todo ?w = c # cs" by (auto simp: thread_step_def split: list.splits)
    with ok have "c = Add_send i" by (simp add: send_ok_def)
    with step t Ready c tab have "st' = goto t (Looping i t) (st\<lparr>sh_workers := (sh_workers st)[t := ?w\<lparr>todo := cs\<rparr>]\<rparr>)"
      by (simp add: start_call_def)
    with ok t Ready c show ?thesis by (simp add: send_moves_def own_change_def send_ok_def send_weight_def goto_def)
  next
    case (Looping j q)
    with ok have "j = i" "q = t" by (simp_all add: send_ok_def)
    with step t Looping show ?thesis by (intro looping_moves [OF ok]) (simp_all split: if_splits)
  next
    case (Wanting j q)
    with ok have j: "j = i" "q = t" by (simp_all add: send_ok_def)
    with step t Wanting have "st' = goto t (Reading i t) (st\<lparr>sh_mut := Some t\<rparr>)" by (simp split: if_splits)
    with ok t Wanting j show ?thesis by (simp add: send_moves_def own_change_def send_ok_def send_weight_def goto_def)
  next
    case (Reading j q)
    with ok have "j = i" "q = t" by (simp_all add: send_ok_def)
    with step t len Reading show ?thesis by (cases "read_body t st") (auto intro!: reading_moves [OF ok])
  next
    case (Holding j q buf)
    with ok have j: "j = i" "q = t" by (simp_all add: send_ok_def)
    with step t Holding have "st' = goto t (Giving i t buf) (st\<lparr>sh_mut := None\<rparr>)" by simp
    with ok t Holding j show ?thesis by (auto simp: send_moves_def own_change_def send_ok_def send_weight_def goto_def)
  next
    case (Giving j q buf)
    with ok have j: "j = i" "q = t" by (simp_all add: send_ok_def)
    with step t Giving have "st' = give_body b t i t buf st" by simp
    with t len Giving j show ?thesis by (intro giving_moves [OF ok]) simp_all
  qed (use ok in \<open>simp_all add: send_ok_def\<close>)
qed

lemma table_zip:
  assumes "distinct (List.map fst files)" "t < length files"
  shows "map_of (zip (List.map fst files) [0..<length files]) (fst (files ! t)) = Some t"
proof -
  have "map_of (zip (List.map fst files) [0..<length files]) (List.map fst files ! t) = Some ([0..<length files] ! t)"
    using assms by (intro map_of_zip_nth) simp_all
  then show ?thesis using assms(2) by simp
qed

definition sends_weight :: "(int64 \<times> fs_send) list \<Rightarrow> shared \<Rightarrow> nat" where
  "sends_weight files st = (\<Sum>t < length files. send_weight (sh_workers st ! t) (sh_objs st ! t))"

lemma sends_step:
  assumes "par_step st st'" "sends_ok files n st" "distinct (List.map fst files)"
  shows "sends_ok files n st'" "sends_weight files st' < sends_weight files st"
proof -
  obtain b t where s: "thread_step b t st = Some st'" using assms(1) by (auto elim: par_stepE)
  have ok: "\<not> sh_dead st" "length (sh_workers st) = length files" "length (sh_objs st) = length files"
    "sh_table st = map_of (zip (List.map fst files) [0..<length files])"
    and all: "\<And>u. u < length files \<Longrightarrow> send_ok n (fst (files ! u)) u (snd (files ! u)) (sh_workers st ! u) (sh_objs st ! u)
           (given_to (fst (files ! u)) st)"
    using assms(2) by (simp_all add: sends_ok_def)
  have t: "t < length files" using thread_step_moves(2) [OF s] ok(2) by simp
  have tab: "sh_table st (fst (files ! t)) = Some t" using table_zip [OF assms(3) t] ok(4) by simp
  have len: "t < length (sh_objs st)" using t ok(3) by simp
  have T: "sh_dead st' = sh_dead st" "own_change (fst (files ! t)) t st st'"
    "send_ok n (fst (files ! t)) t (snd (files ! t)) (sh_workers st' ! t) (sh_objs st' ! t) (given_to (fst (files ! t)) st')"
    "send_weight (sh_workers st' ! t) (sh_objs st' ! t) < send_weight (sh_workers st ! t) (sh_objs st ! t)"
    using send_thread_step [OF s all [OF t] tab len] by (simp_all add: send_moves_def)
  have same: "sh_workers st' ! u = sh_workers st ! u \<and> sh_objs st' ! u = sh_objs st ! u
      \<and> given_to (fst (files ! u)) st' = given_to (fst (files ! u)) st" if "u < length files" "u \<noteq> t" for u
  proof -
    have "fst (files ! u) \<noteq> fst (files ! t)"
      using that t nth_eq_iff_index_eq [OF assms(3), of u t] by simp
    with T(2) that show ?thesis by (simp add: own_change_def)
  qed
  have "send_ok n (fst (files ! u)) u (snd (files ! u)) (sh_workers st' ! u) (sh_objs st' ! u)
      (given_to (fst (files ! u)) st')" if "u < length files" for u
    using T(3) all [OF that] same [OF that] by (cases "u = t") simp_all
  then show "sends_ok files n st'" using T(1,2) ok by (simp add: sends_ok_def own_change_def)
  show "sends_weight files st' < sends_weight files st"
    unfolding sends_weight_def
    using T(4) same t by (intro sum_strict_mono_ex1) (auto, metis le_refl less_imp_le)
qed

lemma sends_steps:
  assumes "(par_step ^^ k) st st'" "sends_ok files n st" "distinct (List.map fst files)"
  shows "sends_ok files n st' \<and> k + sends_weight files st' \<le> sends_weight files st"
  using assms(1)
proof (induction k arbitrary: st')
  case (Suc k)
  then obtain st1 where "(par_step ^^ k) st st1" "par_step st1 st'" by auto
  with Suc.IH [of st1] sends_step [of st1 st' files n] assms(3) show ?case by fastforce
qed (simp add: assms(2))

lemma start_sends_simps [simp]:
  "sh_objs (start_sends w files n) = List.map snd files" "sh_mut (start_sends w files n) = None"
  "sh_table (start_sends w files n) = map_of (zip (List.map fst files) [0..<length files])"
  "sh_dead (start_sends w files n) = False" "length (sh_workers (start_sends w files n)) = length files"
  "given_to i (start_sends w files n) = []"
  "t < length files \<Longrightarrow> sh_workers (start_sends w files n) ! t
     = \<lparr>at = Ready, todo = replicate n (Add_send (fst (files ! t))), results = []\<rparr>"
  by (simp_all add: start_sends_def given_to_def split: prod.splits)

lemma start_sends_ok:
  assumes "\<forall>f \<in> set files. send_length_max (snd f) \<noteq> 0"
  shows "sends_ok files n (start_sends w files n)" "mutex_ok (start_sends w files n)"
  using assms by (auto simp: sends_ok_def send_ok_def mutex_ok_def)

lemma sends_ok_given:
  assumes "sends_ok files n st" "t < length files"
  obtains k where "given_to (fst (files ! t)) st = take k (left (send_fs (snd (files ! t))))"
    "Inr True \<in> set (results (sh_workers st ! t)) \<Longrightarrow> given_to (fst (files ! t)) st = left (send_fs (snd (files ! t)))"
proof -
  have ok: "send_ok n (fst (files ! t)) t (snd (files ! t)) (sh_workers st ! t) (sh_objs st ! t)
     (given_to (fst (files ! t)) st)" using assms by (simp add: sends_ok_def)
  then have g: "given_to (fst (files ! t)) st @ pending (at (sh_workers st ! t)) @ left (send_fs (sh_objs st ! t))
      = left (send_fs (snd (files ! t)))" by (simp add: send_ok_def)
  show thesis
  proof
    show "given_to (fst (files ! t)) st = take (length (given_to (fst (files ! t)) st)) (left (send_fs (snd (files ! t))))"
      by (simp flip: g)
    show "given_to (fst (files ! t)) st = left (send_fs (snd (files ! t)))" if "Inr True \<in> set (results (sh_workers st ! t))"
      using ok that g by (simp add: send_ok_def)
  qed
qed

lemma sends_ok_no_race:
  assumes "sends_ok files n st"
  shows "\<not> races st"
proof -
  have own: "own_place (fst (files ! t)) t (at (sh_workers st ! t))" if "t < length (sh_workers st)" for t
    using assms that by (simp add: sends_ok_def send_ok_def)
  have "\<not> races_with st (sh_workers st ! t) (sh_workers st ! u)"
    if "t < length (sh_workers st)" "u < length (sh_workers st)" "t \<noteq> u" for t u
    using own [OF that(1)] own [OF that(2)] that(3)
    by (cases "at (sh_workers st ! t)"; cases "at (sh_workers st ! u)")
      (simp_all add: races_with_def looks_up_def changes_table_def touches_def changes_obj_def)
  then show ?thesis by (auto simp: races_def)
qed

text \<open>When all calls have returned and there were enough of them, every block was given.\<close>

lemma sends_ok_finished:
  assumes "sends_ok files n st" "finished st" "t < length files" "length (left (send_fs (snd (files ! t)))) < n"
  shows "given_to (fst (files ! t)) st = left (send_fs (snd (files ! t)))"
proof -
  let ?w = "sh_workers st ! t" and ?L = "left (send_fs (snd (files ! t)))"
  have ok: "send_ok n (fst (files ! t)) t (snd (files ! t)) ?w (sh_objs st ! t) (given_to (fst (files ! t)) st)"
    "?w \<in> set (sh_workers st)" using assms(1,3) by (simp_all add: sends_ok_def)
  with assms(2) have w: "at ?w = Ready" "todo ?w = []" by (auto simp: finished_def)
  obtain k where k: "given_to (fst (files ! t)) st = take k ?L"
    "Inr True \<in> set (results ?w) \<Longrightarrow> given_to (fst (files ! t)) st = ?L"
    by (rule sends_ok_given [OF assms(1,3)]) blast
  have "Inr True \<in> set (results ?w)"
  proof (rule ccontr)
    assume "Inr True \<notin> set (results ?w)"
    with ok have "\<forall>r \<in> set (results ?w). r = Inr False" by (auto simp: send_ok_def)
    then have "filter (\<lambda>r. r = Inr False) (results ?w) = results ?w" by simp
    with ok(1) w k(1) have "n \<le> length (take k ?L)" by (simp add: send_ok_def)
    with assms(4) show False by simp
  qed
  then show ?thesis by (rule k(2))
qed

text \<open>
  C14: Sends of different files by threads of their own, \<open>n\<close> calls of \<open>add_data_send\<close> each: on any schedule and
  whatever the callbacks answer, no two threads race, what the callback of a file was given is always the first blocks of that file
  in order, no run has more steps than a bound known at the start, and where no thread can go on all calls have
  returned; then, if there were more calls than blocks, every file was given completely.
\<close>

theorem parallel_sends:
  assumes "distinct (List.map fst files)" "\<forall>f \<in> set files. send_length_max (snd f) \<noteq> 0"
    and "(par_step ^^ k) (start_sends w files n) st"
  shows "\<not> sh_dead st \<and> \<not> races st \<and> k \<le> sends_weight files (start_sends w files n)
    \<and> (\<forall>(i, sp) \<in> set files. \<exists>m. given_to i st = take m (left (send_fs sp)))
    \<and> ((\<nexists>st'. par_step st st') \<longrightarrow> finished st
        \<and> (\<forall>(i, sp) \<in> set files. length (left (send_fs sp)) < n \<longrightarrow> given_to i st = left (send_fs sp)))"
proof -
  have ok: "sends_ok files n st" "k + sends_weight files st \<le> sends_weight files (start_sends w files n)"
    using sends_steps [OF assms(3) start_sends_ok(1) [OF assms(2)] assms(1)] by simp_all
  have "par_step\<^sup>*\<^sup>* (start_sends w files n) st" using assms(3) by (rule relpowp_imp_rtranclp)
  then have mut: "mutex_ok st" by (rule mutex_ok_steps [OF _ start_sends_ok(2) [OF assms(2)]])
  have prefix: "\<exists>m. given_to i st = take m (left (send_fs sp))" if "(i, sp) \<in> set files" for i sp
    using that sends_ok_given [OF ok(1)] by (metis fst_conv snd_conv in_set_conv_nth)
  have fin: "finished st" if "\<nexists>st'. par_step st st'"
    using no_deadlock [OF mut] that ok(1) by (auto simp: sends_ok_def)
  have every: "given_to i st = left (send_fs sp)"
    if "finished st" "(i, sp) \<in> set files" "length (left (send_fs sp)) < n" for i sp
    using that sends_ok_finished [OF ok(1) that(1)] by (metis fst_conv snd_conv in_set_conv_nth)
  show ?thesis using ok prefix fin every sends_ok_no_race [OF ok(1)] by (auto simp: sends_ok_def)
qed

definition demo_sends :: "(int64 \<times> fs_send) list" where
  "demo_sends = [
     (1, \<lparr>send_prog = 0, count_send = 0, send_length_max = 5, send_filename = ''a.txt'',
       send_fs = \<lparr>rs_rest = ''hello'', rs_eof = False\<rparr>, send_prog_cb = True\<rparr>),
     (2, \<lparr>send_prog = 0, count_send = 0, send_length_max = 3, send_filename = ''b.txt'',
       send_fs = \<lparr>rs_rest = ''bye'', rs_eof = False\<rparr>, send_prog_cb = False\<rparr>)]"

definition demo_end :: shared where
  "demo_end = run_schedule [(0, True), (1, True), (1, True), (0, True), (0, True), (1, True), (0, True), (0, True), (1, True),
     (0, False), (1, True), (1, True), (0, True), (0, True), (1, False), (1, True), (1, True)] (start_sends demo_disk demo_sends 2)"

lemma replicate_two: "replicate 2 c = [c, c]"
  by (simp add: numeral_2_eq_2)

lemma demo_end_given: "sh_given demo_end = [(1, ''hello''), (2, ''bye'')] \<and> finished demo_end"
  by (simp add: demo_end_def demo_sends_def start_sends_def thread_step_def start_call_def read_body_def give_body_def
      set_obj_def goto_def return_def rs_read_def calc_prog_def note_send_def finished_def replicate_two Let_def)

theorem parallel_sends_witness:
  "\<exists>k. (par_step ^^ k) (start_sends demo_disk demo_sends 2) demo_end \<and> \<not> races demo_end
    \<and> k \<le> sends_weight demo_sends (start_sends demo_disk demo_sends 2)
    \<and> (\<exists>m. given_to 1 demo_end = take m (left (send_fs (snd (demo_sends ! 0)))))"
proof -
  obtain k where k: "(par_step ^^ k) (start_sends demo_disk demo_sends 2) demo_end"
    using rtranclp_imp_relpowp [OF run_schedule_steps] unfolding demo_end_def by blast
  have "distinct (List.map fst demo_sends)" "\<forall>f \<in> set demo_sends. send_length_max (snd f) \<noteq> 0"
    by (simp_all add: demo_sends_def)
  from parallel_sends [OF this k] k show ?thesis by (auto simp: demo_sends_def)
qed

section \<open>One pass of the loop is \<open>send_step\<close>\<close>

definition as_files :: "shared \<Rightarrow> files_io" where
  "as_files st = \<lparr>map_recv = Map.empty, map_send = (\<lambda>i. map_option ((!) (sh_objs st)) (sh_table st i)),
     disk = sh_disk st\<rparr>"

lemma note_send_fst: "fst (note_send f i sp p x) = fst (note_send g j sp p y)"
  by (simp add: note_send_def)

lemma goto_goto:
  "t < length (sh_workers st) \<Longrightarrow> at (sh_workers (goto t q st) ! t) = q"
  "length (sh_workers (goto t q st)) = length (sh_workers st)" "sh_objs (goto t q st) = sh_objs st"
  "sh_dead (goto t q st) = sh_dead st"
  "t < length (sh_workers st) \<Longrightarrow> goto t r (goto t q st) = goto t r st"
  "goto t q (st\<lparr>sh_mut := m\<rparr>) = (goto t q st)\<lparr>sh_mut := m\<rparr>"
  "goto t q (st\<lparr>sh_objs := os\<rparr>) = (goto t q st)\<lparr>sh_objs := os\<rparr>"
  by (simp_all add: goto_def)

text \<open>The steps of a pass up to the callback.\<close>

lemma pass_reads:
  assumes "t < length (sh_workers st)" "\<not> sh_dead st" "sh_mut st = None" "at (sh_workers st ! t) = Looping i p"
    and "\<not> rs_eof (send_fs (sh_objs st ! p))" "rs_read 1024 (send_fs (sh_objs st ! p)) = (buf, s')"
  shows "run_schedule ((t, b1) # (t, b2) # (t, b3) # (t, b4) # ts) st
    = run_schedule ts (goto t (Giving i p buf) (set_obj p ((sh_objs st ! p)\<lparr>send_fs := s'\<rparr>) st))"
proof -
  let ?o = "(sh_objs st)[p := (sh_objs st ! p)\<lparr>send_fs := s'\<rparr>]"
  have "thread_step b1 t st = Some (goto t (Wanting i p) st)"
    using assms by (simp add: thread_step_def)
  moreover have "thread_step b2 t (goto t (Wanting i p) st) = Some (goto t (Reading i p) (st\<lparr>sh_mut := Some t\<rparr>))"
    using assms by (simp add: thread_step_def goto_goto)
  moreover have "thread_step b3 t (goto t (Reading i p) (st\<lparr>sh_mut := Some t\<rparr>))
      = Some (goto t (Holding i p buf) (st\<lparr>sh_objs := ?o, sh_mut := Some t\<rparr>))"
    using assms by (simp add: thread_step_def goto_goto read_body_def set_obj_def Let_def)
  moreover have "thread_step b4 t (goto t (Holding i p buf) (st\<lparr>sh_objs := ?o, sh_mut := Some t\<rparr>))
      = Some (goto t (Giving i p buf) (set_obj p ((sh_objs st ! p)\<lparr>send_fs := s'\<rparr>) st))"
    using assms by (simp add: thread_step_def goto_goto set_obj_def)
  ultimately show ?thesis by simp
qed

text \<open>
  Run alone, the five steps of a pass do to the table, the objects and the callback what \<open>send_step\<close> of
  \<open>Files_Transfer\<close> does.
\<close>

lemma pass_is_send_step:
  assumes t: "t < length (sh_workers st)" "\<not> sh_dead st" "sh_mut st = None" "at (sh_workers st ! t) = Looping i p"
    and p: "p < length (sh_objs st)" "sh_table st i = Some p" "\<forall>j. sh_table st j = Some p \<longrightarrow> j = i"
    and e: "\<not> rs_eof (send_fs (sh_objs st ! p))"
    and s: "send_step (\<lambda>j buf s g. (b, g @ [(j, buf)])) (\<lambda>_ _ _ _ g. g) i (sh_objs st ! p) (as_files st) (sh_given st)
      = Inr (b', sp2, files2, g2)"
    and st': "st' = run_schedule [(t, b1), (t, b2), (t, b3), (t, b4), (t, b)] st"
  shows "b' = b \<and> sh_objs st' ! p = sp2 \<and> as_files st' = files2 \<and> sh_given st' = g2 \<and> sh_mut st' = None
    \<and> at (sh_workers st' ! t) = (if b then Looping i p else Ready)"
proof -
  obtain buf s' where r: "rs_read 1024 (send_fs (sh_objs st ! p)) = (buf, s')" by (rule prod.exhaust)
  let ?sp = "(sh_objs st ! p)\<lparr>send_fs := s', count_send := count_send (sh_objs st ! p) + word_of_nat (length buf)\<rparr>"
  obtain q where q: "calc_prog (count_send ?sp) (send_length_max ?sp) = Inr q"
    using s r by (auto simp: send_step_def rbind_eq_Inr)
  obtain sp3 where sp3: "fst (note_send (\<lambda>_ _ _ _ g. g) i ?sp q (sh_given st @ [(i, buf)])) = sp3" by blast
  then have n: "note_send (\<lambda>_ _ _ _ g. g) i ?sp q (sh_given st @ [(i, buf)]) = (sp3, sh_given st @ [(i, buf)])"
    by (auto simp: note_send_def split: if_splits)
  have n': "fst (note_send (\<lambda>_ _ _ _ x. x) i ?sp q ()) = sp3" using sp3 note_send_fst by metis
  have res: "b' = b" "sp2 = sp3" "g2 = sh_given st @ [(i, buf)]"
    "files2 = (as_files st)\<lparr>map_send := (map_send (as_files st))(i \<mapsto> sp3)\<rparr>"
    using s r q n by (auto simp: send_step_def)
  let ?st = "st\<lparr>sh_objs := (sh_objs st)[p := sp3], sh_given := sh_given st @ [(i, buf)]\<rparr>"
  let ?give = "goto t (Giving i p buf) (set_obj p ((sh_objs st ! p)\<lparr>send_fs := s'\<rparr>) st)"
  have give: "thread_step b t ?give = Some (give_body b t i p buf ?give)"
    using t by (simp add: thread_step_def goto_goto set_obj_def)
  have "give_body b t i p buf ?give = (if b then goto t (Looping i p) ?st else return t (Inr False) ?st)"
    using t(1) p(1) q n' by (cases b) (simp_all add: give_body_def set_obj_def goto_def return_def Let_def)
  then have fin: "st' = (if b then goto t (Looping i p) ?st else return t (Inr False) ?st)"
    using give pass_reads [OF t e r] st' by simp
  have "map_option ((!) ((sh_objs st)[p := sp3])) (sh_table st j)
      = ((\<lambda>j. map_option ((!) (sh_objs st)) (sh_table st j))(i \<mapsto> sp3)) j" for j
    using p(1,2) p(3) [rule_format, of j] by (cases "sh_table st j") (auto simp: nth_list_update)
  then have "as_files ?st = files2" using res by (auto simp: as_files_def)
  moreover have "as_files (goto t q s) = as_files s" "as_files (return t r s) = as_files s" for q r s
    by (simp_all add: as_files_def goto_def return_def)
  ultimately have "as_files st' = files2" using fin by (cases b) simp_all
  moreover have "sh_objs st' ! p = sp3" "sh_given st' = g2" "sh_mut st' = None"
    "at (sh_workers st' ! t) = (if b then Looping i p else Ready)"
    using fin res(3) t(1,3) p(1) by (cases b; simp add: goto_def return_def)+
  ultimately show ?thesis using res by simp
qed

section \<open>Opening beside a send\<close>

text \<open>
  The mutex does not cover the look-up of \<open>add_data_send\<close>: a thread that opens a file while another calls
  \<open>add_data_send\<close>, for any two identifiers, reaches a state with a data race on the table.
\<close>

theorem open_beside_send_races:
  assumes "sh_workers st = [\<lparr>at = Ready, todo = [Open_send i f pr], results = []\<rparr>,
      \<lparr>at = Ready, todo = [Add_send j], results = []\<rparr>]"
    and "sh_mut st = None" "\<not> sh_dead st" "sh_table st i = None" "node_at (sh_disk st) f = Some (Regular c True)"
  shows "\<exists>st'. par_step st st' \<and> races st'"
proof -
  let ?st' = "goto 0 (Opening i f pr) (st\<lparr>sh_workers := (sh_workers st)[0 := (sh_workers st ! 0)\<lparr>todo := []\<rparr>],
    sh_mut := Some 0\<rparr>)"
  have "thread_step True 0 st = Some ?st'" using assms by (simp add: thread_step_def start_call_def)
  moreover have "races_with ?st' (sh_workers ?st' ! 1) (sh_workers ?st' ! 0)"
    using assms by (simp add: races_with_def looks_up_def changes_table_def open_body_def goto_def rs_open_def
        get_file_size_def fs_file_size_def)
  then have "races ?st'" using assms(1) unfolding races_def
    by (intro exI [of _ 1] conjI exI [of _ 0]) (simp_all add: goto_def)
  ultimately show ?thesis by (auto intro: par_step.run)
qed

definition demo_race :: shared where
  "demo_race = \<lparr>sh_objs = [], sh_table = Map.empty, sh_mut = None, sh_disk = demo_disk, sh_given = [], sh_dead = False,
     sh_workers = [\<lparr>at = Ready, todo = [Open_send 1 ''a.txt'' True], results = []\<rparr>,
       \<lparr>at = Ready, todo = [Add_send 2], results = []\<rparr>]\<rparr>"

theorem open_beside_send_races_witness: "\<exists>st'. par_step demo_race st' \<and> races st'"
  by (rule open_beside_send_races [of _ 1 "''a.txt''" True 2 "''hello''"]) (simp_all add: demo_race_def)

theorem send_mutex_works_witness:
  "\<exists>st. par_step\<^sup>*\<^sup>* demo_race st \<and> in_mutex (at (sh_workers st ! 0)) \<and> \<not> in_mutex (at (sh_workers st ! 1))
    \<and> (\<exists>st'. par_step st st')"
proof -
  let ?st = "run_schedule [(0, True), (1, True)] demo_race"
  have st: "sh_workers ?st = [\<lparr>at = Opening 1 ''a.txt'' True, todo = [], results = []\<rparr>, \<lparr>at = Ready, todo = [], results = [Inr True]\<rparr>]"
    "\<not> sh_dead ?st"
    by (simp_all add: demo_race_def thread_step_def start_call_def goto_def return_def)
  have "\<forall>w \<in> set (sh_workers demo_race). at w = Ready" "sh_mut demo_race = None" by (simp_all add: demo_race_def)
  note works = send_mutex_works [OF this run_schedule_steps [of demo_race "[(0, True), (1, True)]"]]
  have at: "in_mutex (at (sh_workers ?st ! 0))" "\<not> in_mutex (at (sh_workers ?st ! 1))" "\<not> finished ?st"
    unfolding finished_def st(1) by simp_all
  with works st(2) have "\<exists>st'. par_step ?st st'" by blast
  with at show ?thesis using run_schedule_steps by blast
qed

end
