(* ===== verification/Sqlite_Op.thy ===== *)
theory Sqlite_Op
  imports Format
begin

text \<open>
  \<open>sqlite_op.{h,cpp}\<close>: the local databases of the chat history and of the friend requests. The SQLite
  library is the parameter \<open>eng\<close>, a record of the calls the program makes on the state \<open>'d\<close> of all
  database files; the SQL texts it is given are built here as the code builds them. A handle that was
  not opened is \<open>None\<close>: the library answers \<open>SQLITE_MISUSE\<close> to it.
\<close>

section \<open>The library\<close>

record 'd exec_result =
  ex_ok :: bool
  ex_rows :: "(string \<times> string option) list list"
  ex_error :: "string option"
  ex_db :: 'd

record 'd engine =
  eng_open :: "string \<Rightarrow> 'd \<Rightarrow> bool \<times> 'd"
  eng_close :: "string \<Rightarrow> 'd \<Rightarrow> bool \<times> 'd"
  eng_exec :: "string \<Rightarrow> string \<Rightarrow> 'd \<Rightarrow> 'd exec_result"
  eng_int :: "string \<Rightarrow> string \<Rightarrow> 'd \<Rightarrow> int32 option"
  eng_errmsg :: "string option \<Rightarrow> 'd \<Rightarrow> string option"

section \<open>The class \<open>sqlite_base\<close>\<close>

record sqlite_base =
  db :: "string option"
  db_error :: "string option"

definition sqlite_base_init :: sqlite_base where
  "sqlite_base_init = \<lparr>db = None, db_error = None\<rparr>"

definition open_db :: "'d engine \<Rightarrow> string \<Rightarrow> 'a sqlite_base_scheme \<Rightarrow> 'd \<Rightarrow> bool \<times> 'a sqlite_base_scheme \<times> 'd" where
  "open_db eng file st d = (case eng_open eng file d of
       (True, d') \<Rightarrow> (True, st\<lparr>db := Some file\<rparr>, d')
     | (False, d') \<Rightarrow> (False, st\<lparr>db := None\<rparr>, d'))"

text \<open>Closing a null handle is harmless and succeeds.\<close>

definition close_db :: "'d engine \<Rightarrow> 'a sqlite_base_scheme \<Rightarrow> 'd \<Rightarrow> bool \<times> 'd" where
  "close_db eng st d = (case db st of None \<Rightarrow> (True, d) | Some file \<Rightarrow> eng_close eng file d)"

text \<open>\<open>exec_db\<close>: success, the rows its callback would see, the object (whose error text it sets) and the databases.\<close>

definition exec_db :: "'d engine \<Rightarrow> string \<Rightarrow> 'a sqlite_base_scheme \<Rightarrow> 'd
    \<Rightarrow> bool \<times> (string \<times> string option) list list \<times> 'a sqlite_base_scheme \<times> 'd" where
  "exec_db eng sql st d = (case db st of
       None \<Rightarrow> (False, [], st, d)
     | Some file \<Rightarrow>
         (let r = eng_exec eng file sql d
          in (ex_ok r, ex_rows r, st\<lparr>db_error := ex_error r\<rparr>, ex_db r)))"

text \<open>\<open>exec_db\<close> with no callback, on a text that was formatted.\<close>

type_synonym ('d, 'c) db_op = "'c \<Rightarrow> 'd \<Rightarrow> (bool \<times> 'c \<times> 'd) res"

definition exec_plain :: "'d engine \<Rightarrow> string res \<Rightarrow> ('d, 'a sqlite_base_scheme) db_op" where
  "exec_plain eng rsql st d =
     rbind rsql (\<lambda>sql. case exec_db eng sql st d of (ok, rows, st', d') \<Rightarrow> Inr (ok, st', d'))"

definition delete_table_db :: "'d engine \<Rightarrow> string \<Rightarrow> ('d, 'a sqlite_base_scheme) db_op" where
  "delete_table_db eng table = exec_plain eng (sformat ''DELETE FROM {0};'' [A_str table])"

definition drop_db :: "'d engine \<Rightarrow> string \<Rightarrow> ('d, 'a sqlite_base_scheme) db_op" where
  "drop_db eng table = exec_plain eng (sformat ''DROP TABLE IF EXISTS {0};'' [A_str table])"

text \<open>The callback of \<open>select_db\<close>: the fields of a row in one text. A \<open>NULL\<close> field is a null pointer given to the
  constructor of \<open>std::string\<close>, which the language leaves undefined (some libraries throw).\<close>

fun row_text :: "(string \<times> string option) list \<Rightarrow> string res" where
  "row_text [] = Inr []"
| "row_text ((n, None) # r) = Inl (Crash Null_pointer)"
| "row_text ((n, Some v) # r) = rbind (row_text r) (\<lambda>t. Inr ('' |:'' @ v @ t))"

fun res_map :: "('a \<Rightarrow> 'b res) \<Rightarrow> 'a list \<Rightarrow> 'b list res" where
  "res_map f [] = Inr []"
| "res_map f (x # xs) = rbind (f x) (\<lambda>y. rbind (res_map f xs) (\<lambda>ys. Inr (y # ys)))"

definition select_db :: "'d engine \<Rightarrow> string \<Rightarrow> string list \<Rightarrow> 'a sqlite_base_scheme \<Rightarrow> 'd
    \<Rightarrow> (bool \<times> string list \<times> 'a sqlite_base_scheme \<times> 'd) res" where
  "select_db eng table data st d =
     rbind (sformat ''SELECT * FROM {0};'' [A_str table]) (\<lambda>sql.
     case exec_db eng sql st d of (ok, rows, st', d') \<Rightarrow>
       rbind (res_map row_text rows) (\<lambda>ts. Inr (ok, data @ ts, st', d')))"

definition get_error_exec :: "'a sqlite_base_scheme \<Rightarrow> string" where
  "get_error_exec st = (case db_error st of None \<Rightarrow> [] | Some e \<Rightarrow> e)"

definition get_error :: "'d engine \<Rightarrow> 'a sqlite_base_scheme \<Rightarrow> 'd \<Rightarrow> string" where
  "get_error eng st d = (case eng_errmsg eng (db st) d of None \<Rightarrow> [] | Some e \<Rightarrow> e)"

definition query_int :: "'d engine \<Rightarrow> string \<Rightarrow> 'a sqlite_base_scheme \<Rightarrow> 'd \<Rightarrow> int32" where
  "query_int eng sql st d = (case db st of
       None \<Rightarrow> - 1
     | Some file \<Rightarrow> (case eng_int eng file sql d of Some v \<Rightarrow> v | None \<Rightarrow> - 1))"

definition count_db :: "'d engine \<Rightarrow> string \<Rightarrow> 'a sqlite_base_scheme \<Rightarrow> 'd \<Rightarrow> int32 res" where
  "count_db eng table st d =
     rbind (sformat ''SELECT COUNT(*) FROM {0};'' [A_str table]) (\<lambda>sql. Inr (query_int eng sql st d))"

subsection \<open>Statements with values\<close>

fun is_string :: "sarg \<Rightarrow> bool" where
  "is_string (A_str s) = True"
| "is_string (A_int64 n) = False"

definition quoted :: "string \<Rightarrow> string" where
  "quoted s = CHR 0x27 # s @ [CHR 0x27]"

text \<open>\<open>delete_db\<close> with an identifier, and \<open>update_db\<close>: the statement is formatted twice.\<close>

definition delete_sql :: "string \<Rightarrow> string \<Rightarrow> sarg \<Rightarrow> string res" where
  "delete_sql table field_id ident =
     rbind (sformat '' DELETE FROM {0} WHERE {1} = {2}; ''
         [A_str table, A_str field_id, A_str (if is_string ident then quoted ''{0}'' else ''{0}'')]) (\<lambda>sql.
     sformat sql [ident])"

definition delete_db :: "'d engine \<Rightarrow> string \<Rightarrow> string \<Rightarrow> sarg \<Rightarrow> ('d, 'a sqlite_base_scheme) db_op" where
  "delete_db eng table field_id ident = exec_plain eng (delete_sql table field_id ident)"

definition update_sql :: "string \<Rightarrow> string \<Rightarrow> sarg \<Rightarrow> string \<Rightarrow> sarg \<Rightarrow> string res" where
  "update_sql table field_id ident field_update update =
     rbind (sformat '' UPDATE {0} SET {1} = {2} WHERE {3} = {4}; ''
         [A_str table, A_str field_update, A_str (if is_string update then quoted ''{0}'' else ''{0}''),
          A_str field_id, A_str (if is_string ident then quoted ''{1}'' else ''{1}'')]) (\<lambda>sql.
     sformat sql [update, ident])"

definition update_db :: "'d engine \<Rightarrow> string \<Rightarrow> string \<Rightarrow> sarg \<Rightarrow> string \<Rightarrow> sarg \<Rightarrow> ('d, 'a sqlite_base_scheme) db_op" where
  "update_db eng table field_id ident field_update update =
     exec_plain eng (update_sql table field_id ident field_update update)"

text \<open>\<open>insert_db\<close>: every value replaces the hole of the statement and appends a new hole, but the last.\<close>

definition insert_parse_sql :: "string \<Rightarrow> sarg \<Rightarrow> bool \<Rightarrow> string res" where
  "insert_parse_sql sql v app =
     rbind (sformat (if is_string v then quoted ''{0}'' else ''{0}'') [v]) (\<lambda>flg.
     sformat sql [A_str (if app then flg @ '',{0}'' else flg)])"

fun insert_mpl :: "string \<Rightarrow> sarg list \<Rightarrow> string res" where
  "insert_mpl sql [] = Inr sql"
| "insert_mpl sql [v] = insert_parse_sql sql v False"
| "insert_mpl sql (v # args) = rbind (insert_parse_sql sql v True) (\<lambda>sql'. insert_mpl sql' args)"

definition insert_sql :: "string \<Rightarrow> sarg list \<Rightarrow> string res" where
  "insert_sql table args =
     rbind (sformat ''INSERT INTO {0} VALUES ({1});'' [A_str table, A_str ''{0}'']) (\<lambda>sql. insert_mpl sql args)"

definition insert_db :: "'d engine \<Rightarrow> string \<Rightarrow> sarg list \<Rightarrow> ('d, 'a sqlite_base_scheme) db_op" where
  "insert_db eng table args = exec_plain eng (insert_sql table args)"

text \<open>A row as \<open>map<string,string>\<close>, a later column of the same name winning.\<close>

type_synonym row = "string \<rightharpoonup> string"

fun row_map :: "(string \<times> string option) list \<Rightarrow> row \<Rightarrow> row res" where
  "row_map [] m = Inr m"
| "row_map ((n, None) # r) m = Inl (Crash Null_pointer)"
| "row_map ((n, Some v) # r) m = row_map r (m(n \<mapsto> v))"

definition select_line_db :: "'d engine \<Rightarrow> string \<Rightarrow> row list \<Rightarrow> string \<Rightarrow> sarg \<Rightarrow> string \<Rightarrow> 'a sqlite_base_scheme \<Rightarrow> 'd
    \<Rightarrow> (bool \<times> row list \<times> 'a sqlite_base_scheme \<times> 'd) res" where
  "select_line_db eng table vec_line field_id ident sql st d =
     rbind (if sql = [] then sformat ''SELECT * FROM {0} WHERE {1} = {2};'' [A_str table, A_str field_id, ident]
            else Inr sql) (\<lambda>sql.
     case exec_db eng sql st d of (ok, rows, st', d') \<Rightarrow>
       rbind (res_map (\<lambda>r. row_map r Map.empty) rows) (\<lambda>ms. Inr (ok, vec_line @ ms, st', d')))"

text \<open>\<open>a[name]\<close> of a row: an absent column is the empty text.\<close>

definition field :: "row \<Rightarrow> string \<Rightarrow> string" where
  "field m k = (case m k of Some v \<Rightarrow> v | None \<Rightarrow> [])"

section \<open>The class \<open>sqlite_history\<close>\<close>

record history_data =
  hd_send_time :: string
  hd_feed_back :: string
  hd_non_read :: string
  hd_types :: string
  hd_object :: string
  hd_content :: string

record sqlite_history = sqlite_base +
  hist_file :: string
  hist_table :: string
  hist_data :: history_data

type_synonym history_row = "int64 \<times> int64 \<times> int64 \<times> string \<times> string \<times> string"

definition sqlite_history_init :: sqlite_history where
  "sqlite_history_init = \<lparr>db = None, db_error = None, hist_file = ''../data/history_{0}.db'',
     hist_table = ''history_{0}'',
     hist_data = \<lparr>hd_send_time = ''send_time'', hd_feed_back = ''feed_back'', hd_non_read = ''non_read'',
       hd_types = ''types'', hd_object = ''object'', hd_content = ''content''\<rparr>\<rparr>"

definition open_history :: "'d engine \<Rightarrow> int64 \<Rightarrow> ('d, 'a sqlite_history_scheme) db_op" where
  "open_history eng account st d =
     rbind (sformat (hist_file st) [A_int64 account]) (\<lambda>file.
     Inr (open_db eng file (st\<lparr>hist_file := file\<rparr>) d))"

definition history_create_text :: string where
  "history_create_text = CHR 0x0A # ''        CREATE TABLE IF NOT EXISTS {0} ('' @ CHR 0x0A #
     ''            {1} INTEGER PRIMARY KEY,'' @ CHR 0x0A #
     ''            {2} INTEGER,'' @ CHR 0x0A #
     ''            {3} INTEGER CHECK (non_read >= 0 AND non_read <= 1),'' @ CHR 0x0A #
     ''            {4} TEXT,'' @ CHR 0x0A #
     ''            {5} TEXT,'' @ CHR 0x0A #
     ''            {6} TEXT'' @ CHR 0x0A #
     ''        );'' @ CHR 0x0A # ''        ''"

definition create_history :: "'d engine \<Rightarrow> int64 \<Rightarrow> ('d, 'a sqlite_history_scheme) db_op" where
  "create_history eng ac_friend st d =
     rbind (sformat (hist_table st) [A_int64 ac_friend]) (\<lambda>table.
     exec_plain eng (sformat history_create_text
       [A_str table, A_str (hd_send_time (hist_data st)), A_str (hd_feed_back (hist_data st)),
        A_str (hd_non_read (hist_data st)), A_str (hd_types (hist_data st)), A_str (hd_object (hist_data st)),
        A_str (hd_content (hist_data st))]) st d)"

definition make_table :: "int64 \<Rightarrow> 'a sqlite_history_scheme \<Rightarrow> string res" where
  "make_table ac_friend st = sformat (hist_table st) [A_int64 ac_friend]"

definition insert_history :: "'d engine \<Rightarrow> int64 \<Rightarrow> history_row \<Rightarrow> ('d, 'a sqlite_history_scheme) db_op" where
  "insert_history eng ac_friend tup st d = (case tup of (t, f, n, ty, ob, co) \<Rightarrow>
     rbind (make_table ac_friend st) (\<lambda>table.
     insert_db eng table [A_int64 t, A_int64 f, A_int64 n, A_str ty, A_str ob, A_str co] st d))"

definition update_non_read :: "'d engine \<Rightarrow> int64 \<Rightarrow> int64 \<Rightarrow> int64 \<Rightarrow> ('d, 'a sqlite_history_scheme) db_op" where
  "update_non_read eng ac_friend send_time non_read st d =
     rbind (make_table ac_friend st) (\<lambda>table.
     update_db eng table (hd_send_time (hist_data st)) (A_int64 send_time)
       (hd_non_read (hist_data st)) (A_int64 non_read) st d)"

definition update_feed_back :: "'d engine \<Rightarrow> int64 \<Rightarrow> int64 \<Rightarrow> int64 \<Rightarrow> ('d, 'a sqlite_history_scheme) db_op" where
  "update_feed_back eng ac_friend send_time feed_back st d =
     rbind (make_table ac_friend st) (\<lambda>table.
     update_db eng table (hd_send_time (hist_data st)) (A_int64 send_time)
       (hd_feed_back (hist_data st)) (A_int64 feed_back) st d)"

text \<open>
  The rows are converted one by one inside a \<open>try\<close>: a bad number ends the loop, the function returns
  false, and the rows converted before stay in the vector.
\<close>

definition history_tuple :: "history_data \<Rightarrow> row \<Rightarrow> history_row res" where
  "history_tuple da a =
     rbind (stoll (field a (hd_send_time da))) (\<lambda>t.
     rbind (stoll (field a (hd_feed_back da))) (\<lambda>f.
     rbind (stoll (field a (hd_non_read da))) (\<lambda>n.
     Inr (t, f, n, field a (hd_types da), field a (hd_object da), field a (hd_content da)))))"

fun convert_rows :: "('r \<Rightarrow> 'b res) \<Rightarrow> 'r list \<Rightarrow> 'b list \<Rightarrow> bool \<times> 'b list" where
  "convert_rows f [] vec = (True, vec)"
| "convert_rows f (a # as) vec = (case f a of
       Inr t \<Rightarrow> convert_rows f as (vec @ [t])
     | Inl e \<Rightarrow> (False, vec))"

definition select_history :: "'d engine \<Rightarrow> int64 \<Rightarrow> history_row list \<Rightarrow> string \<Rightarrow> 'a sqlite_history_scheme \<Rightarrow> 'd
    \<Rightarrow> (bool \<times> history_row list \<times> 'a sqlite_history_scheme \<times> 'd) res" where
  "select_history eng ac_friend vec_line sql st d =
     rbind (if sql = [] then sformat ''SELECT * FROM history_{0};'' [A_int64 ac_friend] else Inr sql) (\<lambda>sql.
     rbind (make_table ac_friend st) (\<lambda>table.
     rbind (select_line_db eng table [] [] (A_str []) sql st d) (\<lambda>(ok, vec, st', d').
     if ok then (case convert_rows (history_tuple (hist_data st')) vec vec_line of
         (ok', out) \<Rightarrow> Inr (ok', out, st', d'))
     else Inr (False, vec_line, st', d'))))"

definition select_non_read :: "'d engine \<Rightarrow> int64 \<Rightarrow> history_row list \<Rightarrow> 'a sqlite_history_scheme \<Rightarrow> 'd
    \<Rightarrow> (bool \<times> history_row list \<times> 'a sqlite_history_scheme \<times> 'd) res" where
  "select_non_read eng ac_friend vec_line st d =
     rbind (sformat ''SELECT * FROM history_{0} WHERE non_read = 1;'' [A_int64 ac_friend]) (\<lambda>sql.
     select_history eng ac_friend vec_line sql st d)"

definition count_non_read :: "'d engine \<Rightarrow> int64 \<Rightarrow> 'a sqlite_history_scheme \<Rightarrow> 'd \<Rightarrow> int32 res" where
  "count_non_read eng ac_friend st d =
     rbind (make_table ac_friend st) (\<lambda>table.
     rbind (sformat ''SELECT SUM(non_read) FROM {0};'' [A_str table]) (\<lambda>sql.
     Inr (query_int eng sql st d)))"

definition history_get_file :: "'a sqlite_history_scheme \<Rightarrow> string" where "history_get_file st = hist_file st"
definition history_get_table :: "'a sqlite_history_scheme \<Rightarrow> string" where "history_get_table st = hist_table st"
definition history_get_data :: "'a sqlite_history_scheme \<Rightarrow> history_data" where "history_get_data st = hist_data st"

section \<open>The class \<open>sqlite_record\<close>\<close>

record record_data =
  rd_time :: string
  rd_account :: string
  rd_notes :: string
  rd_remarks :: string

record sqlite_record = sqlite_base +
  rec_file :: string
  rec_table :: string
  rec_data :: record_data

type_synonym record_row = "int64 \<times> int64 \<times> string \<times> string"

definition sqlite_record_init :: sqlite_record where
  "sqlite_record_init = \<lparr>db = None, db_error = None, rec_file = ''../data/record_{0}.db'',
     rec_table = ''record_{0}'',
     rec_data = \<lparr>rd_time = ''time'', rd_account = ''account'', rd_notes = ''notes'', rd_remarks = ''remarks''\<rparr>\<rparr>"

definition open_record :: "'d engine \<Rightarrow> int64 \<Rightarrow> ('d, 'a sqlite_record_scheme) db_op" where
  "open_record eng account st d =
     rbind (sformat (rec_file st) [A_int64 account]) (\<lambda>file.
     Inr (open_db eng file (st\<lparr>rec_file := file\<rparr>) d))"

definition record_create_text :: string where
  "record_create_text = CHR 0x0A # ''        CREATE TABLE IF NOT EXISTS {0} ('' @ CHR 0x0A #
     ''            {1} INTEGER PRIMARY KEY,'' @ CHR 0x0A #
     ''            {2} INTEGER,'' @ CHR 0x0A #
     ''            {3} TEXT,'' @ CHR 0x0A #
     ''            {4} TEXT'' @ CHR 0x0A #
     ''        );'' @ CHR 0x0A # ''        ''"

definition to_tabel :: "int64 \<Rightarrow> 'a sqlite_record_scheme \<Rightarrow> string res" where
  "to_tabel account st = sformat (rec_table st) [A_int64 account]"

definition create_record :: "'d engine \<Rightarrow> int64 \<Rightarrow> ('d, 'a sqlite_record_scheme) db_op" where
  "create_record eng account st d =
     rbind (to_tabel account st) (\<lambda>table.
     exec_plain eng (sformat record_create_text
       [A_str table, A_str (rd_time (rec_data st)), A_str (rd_account (rec_data st)),
        A_str (rd_notes (rec_data st)), A_str (rd_remarks (rec_data st))]) st d)"

definition insert_record :: "'d engine \<Rightarrow> int64 \<Rightarrow> int64 \<Rightarrow> int64 \<Rightarrow> string \<Rightarrow> string \<Rightarrow> ('d, 'a sqlite_record_scheme) db_op" where
  "insert_record eng account time friends notes remarks st d =
     rbind (to_tabel account st) (\<lambda>table.
     insert_db eng table [A_int64 time, A_int64 friends, A_str notes, A_str remarks] st d)"

definition delete_record :: "'d engine \<Rightarrow> int64 \<Rightarrow> int64 \<Rightarrow> ('d, 'a sqlite_record_scheme) db_op" where
  "delete_record eng account time st d =
     rbind (to_tabel account st) (\<lambda>table.
     delete_db eng table (rd_time (rec_data st)) (A_int64 time) st d)"

definition record_tuple :: "record_data \<Rightarrow> row \<Rightarrow> record_row res" where
  "record_tuple da a =
     rbind (stoll (field a (rd_time da))) (\<lambda>t.
     rbind (stoll (field a (rd_account da))) (\<lambda>ac.
     Inr (t, ac, field a (rd_notes da), field a (rd_remarks da))))"

definition select_record :: "'d engine \<Rightarrow> int64 \<Rightarrow> record_row list \<Rightarrow> 'a sqlite_record_scheme \<Rightarrow> 'd
    \<Rightarrow> (bool \<times> record_row list \<times> 'a sqlite_record_scheme \<times> 'd) res" where
  "select_record eng account vec_line st d =
     rbind (to_tabel account st) (\<lambda>table.
     rbind (sformat ''SELECT * FROM {0};'' [A_str table]) (\<lambda>sql.
     rbind (select_line_db eng [] [] [] (A_int64 0) sql st d) (\<lambda>(ok, vec, st', d').
     if ok then (case convert_rows (record_tuple (rec_data st')) vec vec_line of
         (ok', out) \<Rightarrow> Inr (ok', out, st', d'))
     else Inr (False, vec_line, st', d'))))"

definition record_get_file :: "'a sqlite_record_scheme \<Rightarrow> string" where "record_get_file st = rec_file st"
definition record_get_table :: "'a sqlite_record_scheme \<Rightarrow> string" where "record_get_table st = rec_table st"

section \<open>The texts of the statements\<close>

definition literal :: "sarg \<Rightarrow> string" where
  "literal v = (if is_string v then quoted (arg_to_string v) else arg_to_string v)"

fun sql_values :: "sarg list \<Rightarrow> string" where
  "sql_values [] = ''{0}''"
| "sql_values [v] = literal v"
| "sql_values (v # vs) = literal v @ '','' @ sql_values vs"

lemma hole_digits [simp]: "k < 10 \<Longrightarrow> nat_digits k = [digit_char k]"
  by (simp add: nat_digits.simps)

lemma hole_0: "hole 0 = ''{0}''" and hole_1: "hole 1 = ''{1}''" "hole (Suc 0) = ''{1}''" and hole_2: "hole 2 = ''{2}''"
  and hole_3: "hole 3 = ''{3}''" and hole_4: "hole 4 = ''{4}''" and hole_5: "hole 5 = ''{5}''"
  and hole_6: "hole 6 = ''{6}''"
  by (simp_all add: hole_def digits_eval)

lemmas holes = hole_0 hole_1 hole_2 hole_3 hole_4 hole_5 hole_6

lemma brace_free_literal [simp]: "brace_free (literal v) \<longleftrightarrow> brace_free (arg_to_string v)"
  by (simp add: literal_def quoted_def)

lemma sformat_one:
  "brace_free pre \<Longrightarrow> brace_free post \<Longrightarrow> sformat (pre @ ''{0}'' @ post) [a] = Inr (pre @ arg_to_string a @ post)"
  using sformat_fill [of "[a]" "([(pre, 0)], post)" "pre @ ''{0}'' @ post"] by (simp add: hole_0)

lemma sformat_flg: "sformat (if is_string v then quoted ''{0}'' else ''{0}'') [v] = Inr (literal v)"
  using sformat_one [of "[CHR 0x27]" "[CHR 0x27]" v] sformat_one [of "[]" "[]" v]
  by (simp add: literal_def quoted_def)

lemma insert_parse_sql_hole:
  "brace_free pre \<Longrightarrow> brace_free post
    \<Longrightarrow> insert_parse_sql (pre @ ''{0}'' @ post) v app
      = Inr ((pre @ literal v @ (if app then '','' else [])) @ (if app then ''{0}'' else []) @ post)"
  using sformat_one [of pre post "A_str (if app then literal v @ '',{0}'' else literal v)"]
  by (simp add: insert_parse_sql_def sformat_flg arg_to_string.simps split: if_splits)

lemma insert_mpl_values:
  "args \<noteq> [] \<Longrightarrow> \<forall>v \<in> set (butlast args). brace_free (arg_to_string v) \<Longrightarrow> brace_free pre \<Longrightarrow> brace_free post
    \<Longrightarrow> insert_mpl (pre @ ''{0}'' @ post) args = Inr (pre @ sql_values args @ post)"
proof (induction args arbitrary: pre rule: sql_values.induct)
  case (2 v)
  then show ?case using insert_parse_sql_hole [of pre post v False] by simp
next
  case (3 v w vs)
  have "insert_mpl ((pre @ literal v @ '','') @ ''{0}'' @ post) (w # vs)
      = Inr ((pre @ literal v @ '','') @ sql_values (w # vs) @ post)"
    by (rule 3(1)) (use 3(3-5) in auto)
  with insert_parse_sql_hole [of pre post v True] 3(4,5) show ?case by simp
qed simp

lemma insert_sql_start:
  "sformat ''INSERT INTO {0} VALUES ({1});'' [A_str table, A_str ''{0}'']
    = Inr ((''INSERT INTO '' @ table @ '' VALUES ('') @ ''{0}'' @ '');'')"
  using sformat_fill [of "[A_str table, A_str ''{0}'']" "([(''INSERT INTO '', 0), ('' VALUES ('', 1)], '');'')"
      "''INSERT INTO {0} VALUES ({1});''"]
  by (simp add: holes arg_to_string.simps)

lemma insert_sql_values:
  "args \<noteq> [] \<Longrightarrow> brace_free table \<Longrightarrow> \<forall>v \<in> set (butlast args). brace_free (arg_to_string v)
    \<Longrightarrow> insert_sql table args = Inr (''INSERT INTO '' @ table @ '' VALUES ('' @ sql_values args @ '');'')"
  using insert_mpl_values [of args "''INSERT INTO '' @ table @ '' VALUES (''" "'');''"]
  by (simp add: insert_sql_def insert_sql_start)

lemma update_template:
  "sformat '' UPDATE {0} SET {1} = {2} WHERE {3} = {4}; ''
      [A_str table, A_str field_update, A_str u, A_str field_id, A_str i]
    = Inr ('' UPDATE '' @ table @ '' SET '' @ field_update @ '' = '' @ u @ '' WHERE '' @ field_id @ '' = '' @ i @ ''; '')"
  by (subst sformat_fill [of _ "([('' UPDATE '', 0), ('' SET '', 1), ('' = '', 2), ('' WHERE '', 3), ('' = '', 4)], ''; '')"])
    (simp_all add: holes arg_to_string.simps)

lemma delete_template:
  "sformat '' DELETE FROM {0} WHERE {1} = {2}; '' [A_str table, A_str field_id, A_str i]
    = Inr ('' DELETE FROM '' @ table @ '' WHERE '' @ field_id @ '' = '' @ i @ ''; '')"
  by (subst sformat_fill [of _ "([('' DELETE FROM '', 0), ('' WHERE '', 1), ('' = '', 2)], ''; '')"])
    (simp_all add: holes arg_to_string.simps)

definition quote_of :: "sarg \<Rightarrow> string" where
  "quote_of v = (if is_string v then [CHR 0x27] else [])"

lemma quoted_hole:
  "(if is_string v then quoted ''{0}'' else ''{0}'') = quote_of v @ hole 0 @ quote_of v"
  "(if is_string v then quoted ''{1}'' else ''{1}'') = quote_of v @ hole 1 @ quote_of v"
  and literal_quote: "literal v = quote_of v @ arg_to_string v @ quote_of v"
  by (simp_all add: quoted_def quote_of_def literal_def holes)

lemma brace_free_quote [simp]: "brace_free (quote_of v)"
  by (simp add: quote_of_def)

lemma update_second:
  assumes "brace_free pre" "brace_free mid" "brace_free post" "2 \<le> length mid"
  shows "sformat (pre @ hole 0 @ mid @ hole 1 @ post) [v, w]
    = Inr (pre @ arg_to_string v @ mid @ arg_to_string w @ post)"
  by (subst sformat_fill [of _ "([(pre, 0), (mid, 1)], post)"]) (use assms in simp_all)

lemma update_sql_text:
  assumes "brace_free table" "brace_free field_id" "brace_free field_update"
  shows "update_sql table field_id ident field_update update
    = Inr ('' UPDATE '' @ table @ '' SET '' @ field_update @ '' = '' @ literal update @ '' WHERE '' @ field_id
        @ '' = '' @ literal ident @ ''; '')"
  using update_second [of "'' UPDATE '' @ table @ '' SET '' @ field_update @ '' = '' @ quote_of update"
      "quote_of update @ '' WHERE '' @ field_id @ '' = '' @ quote_of ident" "quote_of ident @ ''; ''" update ident] assms
  by (simp only: update_sql_def quoted_hole update_template rbind_Inr literal_quote append.assoc brace_free_simps(3)
      brace_free_quote) simp

lemma delete_sql_text:
  assumes "brace_free table" "brace_free field_id"
  shows "delete_sql table field_id ident
    = Inr ('' DELETE FROM '' @ table @ '' WHERE '' @ field_id @ '' = '' @ literal ident @ ''; '')"
  using sformat_one [of "'' DELETE FROM '' @ table @ '' WHERE '' @ field_id @ '' = '' @ quote_of ident"
      "quote_of ident @ ''; ''" ident] assms
  by (simp only: delete_sql_def quoted_hole delete_template rbind_Inr literal_quote append.assoc brace_free_simps(3)
      brace_free_quote hole_0) simp

lemma sformat_brace_free: "brace_free s \<Longrightarrow> sformat s args = Inr s"
  using sformat_fill [of args "([], s)" s] by simp

section \<open>The history\<close>

definition history_names :: history_data where
  "history_names = \<lparr>hd_send_time = ''send_time'', hd_feed_back = ''feed_back'', hd_non_read = ''non_read'',
     hd_types = ''types'', hd_object = ''object'', hd_content = ''content''\<rparr>"

text \<open>No operation changes the table template or the column names the constructor sets.\<close>

definition history_ready :: "'a sqlite_history_scheme \<Rightarrow> bool" where
  "history_ready st \<longleftrightarrow> hist_table st = ''history_{0}'' \<and> hist_data st = history_names"

lemma history_ready_init: "history_ready sqlite_history_init"
  by (simp add: history_ready_def sqlite_history_init_def history_names_def)

lemma exec_db_history:
  "exec_db eng sql st d = (ok, rows, st', d') \<Longrightarrow> history_ready st' = history_ready st \<and> hist_file st' = hist_file st \<and> db st' = db st"
  by (auto simp: exec_db_def history_ready_def Let_def split: option.splits)

lemma exec_plain_history:
  "exec_plain eng rsql st d = Inr (ok, st', d')
    \<Longrightarrow> history_ready st' = history_ready st \<and> hist_file st' = hist_file st \<and> db st' = db st"
  by (cases rsql) (auto simp: exec_plain_def dest!: exec_db_history split: prod.splits)

lemma make_table_name: "history_ready st \<Longrightarrow> make_table ac st = Inr (''history_'' @ to_string64 ac)"
  using sformat_one [of "''history_''" "[]" "A_int64 ac"] by (simp add: make_table_def history_ready_def arg_to_string.simps)

definition insert_history_text :: "int64 \<Rightarrow> history_row \<Rightarrow> string" where
  "insert_history_text ac tup = (case tup of (t, f, n, ty, ob, co) \<Rightarrow>
     ''INSERT INTO history_'' @ to_string64 ac @ '' VALUES ('' @ to_string64 t @ '','' @ to_string64 f @ '',''
       @ to_string64 n @ '','' @ quoted ty @ '','' @ quoted ob @ '','' @ quoted co @ '');'')"

lemma insert_history_run:
  assumes "history_ready st" "brace_free ty" "brace_free ob"
  shows "insert_history eng ac (t, f, n, ty, ob, co) st d
    = exec_plain eng (Inr (insert_history_text ac (t, f, n, ty, ob, co))) st d"
proof -
  have "insert_sql (''history_'' @ to_string64 ac) [A_int64 t, A_int64 f, A_int64 n, A_str ty, A_str ob, A_str co]
      = Inr (insert_history_text ac (t, f, n, ty, ob, co))"
    by (subst insert_sql_values) (use assms in \<open>simp_all add: insert_history_text_def literal_def arg_to_string.simps\<close>)
  then show ?thesis using assms(1) by (simp add: insert_history_def make_table_name insert_db_def)
qed

text \<open>The two statements that change a column of a message.\<close>

definition set_history_text :: "string \<Rightarrow> int64 \<Rightarrow> int64 \<Rightarrow> int64 \<Rightarrow> string" where
  "set_history_text col ac send_time v =
     '' UPDATE history_'' @ to_string64 ac @ '' SET '' @ col @ '' = '' @ to_string64 v @ '' WHERE send_time = ''
       @ to_string64 send_time @ ''; ''"

lemma update_history_run:
  assumes "history_ready st"
  shows "update_feed_back eng ac time v st d = exec_plain eng (Inr (set_history_text ''feed_back'' ac time v)) st d"
    and "update_non_read eng ac time v st d = exec_plain eng (Inr (set_history_text ''non_read'' ac time v)) st d"
  using assms
  by (simp_all add: update_feed_back_def update_non_read_def make_table_name update_db_def update_sql_text
      history_ready_def history_names_def set_history_text_def literal_def arg_to_string.simps)

lemma insert_parse_sql_bad:
  assumes "brace_free l" "brace_free x" "stoi x \<noteq> Inr 0"
  shows "insert_parse_sql (l @ CHR ''{'' # x @ CHR ''}'' # r) v app = Inl (Throw Out_of_range)"
proof -
  have "vec_at [a] k = None" if "stoi x = Inr k" for k and a :: sarg
    using assms(3) that by (auto simp: vec_at_def signed_eq_0_iff split: if_splits)
  with sformat_first_hole_bad [OF assms(1,2), of "[_]" r] show ?thesis
    by (simp add: insert_parse_sql_def sformat_flg)
qed

lemma insert_mpl_bad:
  "\<forall>v \<in> set vs. brace_free (arg_to_string v) \<Longrightarrow> brace_free pre \<Longrightarrow> brace_free post \<Longrightarrow> brace_free l \<Longrightarrow> brace_free x
    \<Longrightarrow> stoi x \<noteq> Inr 0 \<Longrightarrow> ws \<noteq> []
    \<Longrightarrow> insert_mpl (pre @ ''{0}'' @ post) (vs @ A_str (l @ CHR ''{'' # x @ CHR ''}'' # r) # ws) = Inl (Throw Out_of_range)"
proof (induction vs arbitrary: pre)
  case Nil
  from Nil(7) obtain w ws' where ws: "ws = w # ws'" by (cases ws) auto
  have p: "insert_parse_sql (pre @ ''{0}'' @ post) (A_str (l @ CHR ''{'' # x @ CHR ''}'' # r)) True
      = Inr ((pre @ CHR 0x27 # l) @ CHR ''{'' # x @ CHR ''}'' # (r @ CHR 0x27 # '','') @ ''{0}'' @ post)"
    using insert_parse_sql_hole [OF Nil(2,3), of "A_str (l @ CHR ''{'' # x @ CHR ''}'' # r)" True]
    by (simp add: literal_def quoted_def arg_to_string.simps)
  have "insert_parse_sql ((pre @ CHR 0x27 # l) @ CHR ''{'' # x @ CHR ''}'' # (r @ CHR 0x27 # '','') @ ''{0}'' @ post) w app
      = Inl (Throw Out_of_range)" for app
    by (rule insert_parse_sql_bad) (use Nil in auto)
  then show ?case using p by (cases ws') (simp_all add: ws)
next
  case (Cons v vs)
  have "insert_mpl ((pre @ literal v @ '','') @ ''{0}'' @ post) (vs @ A_str (l @ CHR ''{'' # x @ CHR ''}'' # r) # ws)
      = Inl (Throw Out_of_range)"
    by (rule Cons(1)) (use Cons(2-) in auto)
  with insert_parse_sql_hole [of pre post v True] Cons(3,4) show ?case
    by (cases "vs @ A_str (l @ CHR ''{'' # x @ CHR ''}'' # r) # ws") auto
qed

section \<open>Reading the history\<close>

text \<open>A stored message as the columns the library gives the callback.\<close>

definition history_cols :: "history_row \<Rightarrow> (string \<times> string option) list" where
  "history_cols tup = (case tup of (t, f, n, ty, ob, co) \<Rightarrow>
     [(''send_time'', Some (to_string64 t)), (''feed_back'', Some (to_string64 f)), (''non_read'', Some (to_string64 n)),
      (''types'', Some ty), (''object'', Some ob), (''content'', Some co)])"

definition history_row_map :: "history_row \<Rightarrow> row" where
  "history_row_map tup = (case tup of (t, f, n, ty, ob, co) \<Rightarrow>
     [''send_time'' \<mapsto> to_string64 t, ''feed_back'' \<mapsto> to_string64 f, ''non_read'' \<mapsto> to_string64 n,
      ''types'' \<mapsto> ty, ''object'' \<mapsto> ob, ''content'' \<mapsto> co])"

lemma row_map_history_cols: "row_map (history_cols tup) Map.empty = Inr (history_row_map tup)"
  by (cases tup) (simp add: history_cols_def history_row_map_def)

lemma history_tuple_row_map: "history_tuple history_names (history_row_map tup) = Inr tup"
  by (cases tup) (simp add: history_tuple_def history_row_map_def history_names_def field_def)

lemma res_map_append: "res_map f (xs @ ys) = rbind (res_map f xs) (\<lambda>as. rbind (res_map f ys) (\<lambda>bs. Inr (as @ bs)))"
proof (induction xs)
  case Nil
  show ?case by (cases "res_map f ys") simp_all
next
  case (Cons x xs)
  then show ?case by (simp add: rbind_assoc)
qed

lemma res_map_ok: "(\<And>x. x \<in> set xs \<Longrightarrow> f x = Inr (g x)) \<Longrightarrow> res_map f xs = Inr (map g xs)"
  by (induction xs) auto

lemma convert_rows_good: "convert_rows (history_tuple history_names) (map history_row_map ts @ ms) vec
    = convert_rows (history_tuple history_names) ms (vec @ ts)"
  by (induction ts arbitrary: vec) (simp_all add: history_tuple_row_map)

lemma select_history_text: "sformat ''SELECT * FROM history_{0};'' [A_int64 ac] = Inr (''SELECT * FROM history_'' @ to_string64 ac @ '';'')"
  using sformat_one [of "''SELECT * FROM history_''" "'';''" "A_int64 ac"] by (simp add: arg_to_string.simps)

lemma select_non_read_text: "sformat ''SELECT * FROM history_{0} WHERE non_read = 1;'' [A_int64 ac]
    = Inr (''SELECT * FROM history_'' @ to_string64 ac @ '' WHERE non_read = 1;'')"
  using sformat_one [of "''SELECT * FROM history_''" "'' WHERE non_read = 1;''" "A_int64 ac"] by (simp add: arg_to_string.simps)

lemma select_history_run:
  assumes "history_ready st" "db st = Some file"
    and sql1: "sql1 = (if sql = [] then ''SELECT * FROM history_'' @ to_string64 ac @ '';'' else sql)"
    and r: "eng_exec eng file sql1 d = r" "ex_ok r" "ex_rows r = map history_cols ts @ rest"
    and rest: "res_map (\<lambda>c. row_map c Map.empty) rest = Inr ms"
  shows "select_history eng ac vec sql st d
    = (case convert_rows (history_tuple history_names) ms (vec @ ts) of
         (ok, out) \<Rightarrow> Inr (ok, out, st\<lparr>db_error := ex_error r\<rparr>, ex_db r))"
proof -
  have rows: "res_map (\<lambda>c. row_map c Map.empty) (map history_cols ts @ rest) = Inr (map history_row_map ts @ ms)"
  proof -
    have "res_map (\<lambda>c. row_map c Map.empty) (map history_cols ts) = Inr (map (history_row_map) ts)"
      by (induction ts) (simp_all add: row_map_history_cols)
    with rest show ?thesis by (simp add: res_map_append)
  qed
  have t: "(if sql = [] then sformat ''SELECT * FROM history_{0};'' [A_int64 ac] else Inr sql) = Inr sql1"
    by (simp add: sql1 select_history_text)
  have ne: "sql1 \<noteq> []" by (simp add: sql1)
  show ?thesis
    unfolding select_history_def t
    using assms(1,2) r rows ne
    by (simp add: make_table_name select_line_db_def exec_db_def Let_def convert_rows_good history_ready_def
        split: prod.splits)
qed

section \<open>The requests\<close>

definition record_names :: record_data where
  "record_names = \<lparr>rd_time = ''time'', rd_account = ''account'', rd_notes = ''notes'', rd_remarks = ''remarks''\<rparr>"

definition record_ready :: "'a sqlite_record_scheme \<Rightarrow> bool" where
  "record_ready st \<longleftrightarrow> rec_table st = ''record_{0}'' \<and> rec_data st = record_names"

lemma record_ready_init: "record_ready sqlite_record_init"
  by (simp add: record_ready_def sqlite_record_init_def record_names_def)

lemma exec_db_record:
  "exec_db eng sql st d = (ok, rows, st', d')
    \<Longrightarrow> record_ready st' = record_ready st \<and> rec_file st' = rec_file st \<and> db st' = db st"
  by (auto simp: exec_db_def record_ready_def Let_def split: option.splits)

lemma to_tabel_name: "record_ready st \<Longrightarrow> to_tabel ac st = Inr (''record_'' @ to_string64 ac)"
  using sformat_one [of "''record_''" "[]" "A_int64 ac"] by (simp add: to_tabel_def record_ready_def arg_to_string.simps)

definition insert_record_text :: "int64 \<Rightarrow> record_row \<Rightarrow> string" where
  "insert_record_text ac tup = (case tup of (t, f, notes, remarks) \<Rightarrow>
     ''INSERT INTO record_'' @ to_string64 ac @ '' VALUES ('' @ to_string64 t @ '','' @ to_string64 f @ '',''
       @ quoted notes @ '','' @ quoted remarks @ '');'')"

lemma insert_record_run:
  assumes "record_ready st" "brace_free notes"
  shows "insert_record eng ac t f notes remarks st d
    = exec_plain eng (Inr (insert_record_text ac (t, f, notes, remarks))) st d"
proof -
  have "insert_sql (''record_'' @ to_string64 ac) [A_int64 t, A_int64 f, A_str notes, A_str remarks]
      = Inr (insert_record_text ac (t, f, notes, remarks))"
    by (subst insert_sql_values) (use assms in \<open>simp_all add: insert_record_text_def literal_def arg_to_string.simps\<close>)
  then show ?thesis using assms(1) by (simp add: insert_record_def to_tabel_name insert_db_def)
qed

lemma insert_sql_bad:
  assumes "brace_free table" "\<forall>v \<in> set vs. brace_free (arg_to_string v)" "brace_free l" "brace_free x"
    and "stoi x \<noteq> Inr 0" "ws \<noteq> []"
  shows "insert_sql table (vs @ A_str (l @ CHR ''{'' # x @ CHR ''}'' # r) # ws) = Inl (Throw Out_of_range)"
  using insert_mpl_bad [OF assms(2) _ _ assms(3,4) assms(5) assms(6), of "''INSERT INTO '' @ table @ '' VALUES (''" "'');''" r]
    assms(1)
  by (simp add: insert_sql_def insert_sql_start)

lemma insert_record_bad:
  assumes "record_ready st" "brace_free l" "brace_free x" "stoi x \<noteq> Inr 0"
  shows "insert_record eng ac t f (l @ CHR ''{'' # x @ CHR ''}'' # r) remarks st d = Inl (Throw Out_of_range)"
proof -
  have "insert_sql (''record_'' @ to_string64 ac) ([A_int64 t, A_int64 f] @ A_str (l @ CHR ''{'' # x @ CHR ''}'' # r) # [A_str remarks])
      = Inl (Throw Out_of_range)"
    by (rule insert_sql_bad) (use assms in \<open>auto simp: arg_to_string.simps\<close>)
  then show ?thesis using assms(1) by (simp add: insert_record_def to_tabel_name insert_db_def exec_plain_def)
qed

lemma insert_history_bad:
  assumes "history_ready st" "brace_free l" "brace_free x" "stoi x \<noteq> Inr 0"
  shows "insert_history eng ac (t, f, n, l @ CHR ''{'' # x @ CHR ''}'' # r, ob, co) st d = Inl (Throw Out_of_range)"
proof -
  have "insert_sql (''history_'' @ to_string64 ac)
      ([A_int64 t, A_int64 f, A_int64 n] @ A_str (l @ CHR ''{'' # x @ CHR ''}'' # r) # [A_str ob, A_str co])
      = Inl (Throw Out_of_range)"
    by (rule insert_sql_bad) (use assms in \<open>auto simp: arg_to_string.simps\<close>)
  then show ?thesis using assms(1) by (simp add: insert_history_def make_table_name insert_db_def exec_plain_def)
qed

section \<open>Properties\<close>

text \<open>
  Storing a message runs one statement, whose text holds the three numbers and the three texts in
  the order of the columns; braces in the content are copied, and so are quotes, unescaped.
\<close>

theorem insert_history_statement:
  assumes "history_ready st" "brace_free ty" "brace_free ob"
  shows "insert_history eng ac (t, f, n, ty, ob, co) st d = exec_plain eng (Inr
    (''INSERT INTO history_'' @ to_string64 ac @ '' VALUES ('' @ to_string64 t @ '','' @ to_string64 f @ '',''
       @ to_string64 n @ '','' @ quoted ty @ '','' @ quoted ob @ '','' @ quoted co @ '');'')) st d"
  using insert_history_run [OF assms] by (simp add: insert_history_text_def)

definition demo_engine :: "string list engine" where
  "demo_engine = \<lparr>eng_open = (\<lambda>f d. (True, d)), eng_close = (\<lambda>f d. (True, d)),
     eng_exec = (\<lambda>f sql d. \<lparr>ex_ok = True,
       ex_rows = (if sql = ''SELECT * FROM history_7;''
         then map history_cols [(1, 2, 1, ''Text'', ''AL'', ''hi''), (3, 3, 0, ''Img'', ''AR'', ''a.png'')]
           @ [[(''send_time'', Some ''oops'')]] else []),
       ex_error = None, ex_db = d @ [sql]\<rparr>),
     eng_int = (\<lambda>f sql d. None), eng_errmsg = (\<lambda>f d. None)\<rparr>"

definition demo_history :: sqlite_history where
  "demo_history = sqlite_history_init\<lparr>db := Some ''h.db''\<rparr>"

lemma demo_open: "eng_open demo_engine f d = (True, d)"
  by (simp add: demo_engine_def)

lemma demo_history_ready: "history_ready demo_history" "db demo_history = Some ''h.db''"
  by (simp_all add: demo_history_def history_ready_def sqlite_history_init_def history_names_def)

theorem insert_history_statement_witness:
  "insert_history demo_engine 7 (5, 0, 1, ''Text'', ''AL'', ''it's {0}'') demo_history []
    = Inr (True, demo_history, [''INSERT INTO history_7 VALUES (5,0,1,'Text','AL','it's {0}');''])"
proof -
  have "demo_history\<lparr>db_error := None\<rparr> = demo_history"
    by (simp add: demo_history_def sqlite_history_init_def)
  then show ?thesis
    by (subst insert_history_statement)
      (simp_all add: demo_history_ready exec_plain_def exec_db_def demo_engine_def Let_def digits_eval quoted_def)
qed

text \<open>
  Acknowledging a message and marking it as read each run one \<open>UPDATE\<close> of one column of the
  message with that time in the table of that friend.
\<close>

theorem update_history_statement:
  assumes "history_ready st"
  shows "update_feed_back eng ac time v st d = exec_plain eng (Inr
      ('' UPDATE history_'' @ to_string64 ac @ '' SET feed_back = '' @ to_string64 v @ '' WHERE send_time = ''
        @ to_string64 time @ ''; '')) st d
    \<and> update_non_read eng ac time v st d = exec_plain eng (Inr
      ('' UPDATE history_'' @ to_string64 ac @ '' SET non_read = '' @ to_string64 v @ '' WHERE send_time = ''
        @ to_string64 time @ ''; '')) st d"
  using update_history_run [OF assms, of eng ac time v d] by (simp add: set_history_text_def)

theorem update_history_statement_witness:
  "update_feed_back demo_engine 7 5 (- 6) demo_history []
    = Inr (True, demo_history, ['' UPDATE history_7 SET feed_back = -6 WHERE send_time = 5; ''])"
proof -
  have "demo_history\<lparr>db_error := None\<rparr> = demo_history"
    by (simp add: demo_history_def sqlite_history_init_def)
  then show ?thesis
    using update_history_statement [OF demo_history_ready(1), of demo_engine 7 5 "- 6" "[]"]
    by (simp add: demo_history_ready exec_plain_def exec_db_def demo_engine_def Let_def digits_eval)
qed

text \<open>
  A pair of braces in a text that is not the last value, unless it is a \<open>{0}\<close>, makes the insertion
  throw \<open>std::out_of_range\<close>: the notes of a friend request and the type of a message, which a peer writes.
\<close>

theorem insert_braces_throw:
  assumes "history_ready hist" "record_ready recs" "brace_free l" "brace_free x" "stoi x \<noteq> Inr 0"
  shows "insert_history eng ac (t, f, n, l @ CHR ''{'' # x @ CHR ''}'' # r, ob, co) hist d = Inl (Throw Out_of_range)
    \<and> insert_record eng ac t fr (l @ CHR ''{'' # x @ CHR ''}'' # r) remarks recs d = Inl (Throw Out_of_range)"
  by (intro conjI insert_history_bad insert_record_bad) (use assms in auto)

theorem insert_braces_throw_witness:
  "insert_record demo_engine 7 5 8 ''hi {you}'' ''bob'' sqlite_record_init [] = Inl (Throw Out_of_range)"
proof -
  have "stoi ''you'' = Inl (Throw Invalid_argument)" by code_simp
  then show ?thesis
    using insert_braces_throw [OF demo_history_ready(1) record_ready_init, where l = "''hi ''" and x = "''you''"
        and eng = demo_engine and ac = 7 and t = 5 and fr = 8 and r = "[]" and remarks = "''bob''" and d = "[]"]
    by simp
qed

text \<open>
  Reading a table. Messages stored as the insertion stores them are all read back, in order; a row
  whose number does not parse ends the conversion and makes the call fail with the earlier rows in the vector.
\<close>

theorem select_history_rows:
  assumes "history_ready st" "db st = Some file"
    and "eng_exec eng file (''SELECT * FROM history_'' @ to_string64 ac @ '';'') d = r"
    and "ex_ok r" "ex_rows r = map history_cols ts @ rest"
    and "res_map (\<lambda>c. row_map c Map.empty) rest = Inr ms"
    and "ms = [] \<or> (\<exists>e. history_tuple history_names (hd ms) = Inl e)"
  shows "select_history eng ac vec [] st d = Inr (ms = [], vec @ ts, st\<lparr>db_error := ex_error r\<rparr>, ex_db r)"
  using select_history_run [OF assms(1,2) refl, of eng "[]" ac d r ts rest ms vec] assms
  by (cases ms) auto

theorem select_history_rows_witness:
  "select_history demo_engine 7 [] [] demo_history []
    = Inr (False, [(1, 2, 1, ''Text'', ''AL'', ''hi''), (3, 3, 0, ''Img'', ''AR'', ''a.png'')], demo_history,
        [''SELECT * FROM history_7;''])"
proof -
  let ?r = "eng_exec demo_engine ''h.db'' ''SELECT * FROM history_7;'' []"
  have "demo_history\<lparr>db_error := None\<rparr> = demo_history"
    by (simp add: demo_history_def sqlite_history_init_def)
  moreover have "history_tuple history_names [''send_time'' \<mapsto> ''oops''] = Inl (Throw Invalid_argument)"
    by code_simp
  ultimately show ?thesis
    using select_history_rows [OF demo_history_ready, of demo_engine 7 "[]" ?r
        "[(1, 2, 1, ''Text'', ''AL'', ''hi''), (3, 3, 0, ''Img'', ''AR'', ''a.png'')]"
        "[[(''send_time'', Some ''oops'')]]" "[[''send_time'' \<mapsto> ''oops'']]" "[]"]
    by (simp add: demo_engine_def digits_eval)
qed

lemma open_history_file:
  "hist_file st = ''../data/history_{0}.db''
    \<Longrightarrow> open_history eng a st d = Inr (open_db eng (''../data/history_'' @ to_string64 a @ ''.db'')
      (st\<lparr>hist_file := ''../data/history_'' @ to_string64 a @ ''.db''\<rparr>) d)"
  using sformat_one [of "''../data/history_''" "''.db''" "A_int64 a"] by (simp add: open_history_def arg_to_string.simps)

lemma open_db_keeps:
  "open_db eng file st d = (ok, st', d') \<Longrightarrow> history_ready st' = history_ready st \<and> hist_file st' = hist_file st"
  by (auto simp: open_db_def history_ready_def split: prod.splits bool.splits)

text \<open>
  \<open>open_history\<close> overwrites its file template, so a second call, for whatever account, opens the
  file of the first account again.
\<close>

theorem open_history_again:
  assumes "hist_file st = ''../data/history_{0}.db''" "open_history eng a st d = Inr (ok, st', d')"
  shows "open_history eng b st' d'' = Inr (open_db eng (''../data/history_'' @ to_string64 a @ ''.db'') st' d'')"
proof -
  have h: "hist_file st' = ''../data/history_'' @ to_string64 a @ ''.db''"
    using assms open_db_keeps by (fastforce simp: open_history_file)
  then have f: "st'\<lparr>hist_file := ''../data/history_'' @ to_string64 a @ ''.db''\<rparr> = st'" by (cases st') simp
  have "sformat (hist_file st') [A_int64 b] = Inr (''../data/history_'' @ to_string64 a @ ''.db'')"
    unfolding h by (rule sformat_brace_free) simp
  with f show ?thesis by (simp only: open_history_def rbind_Inr)
qed

theorem open_history_again_witness:
  "rbind (open_history demo_engine 1 sqlite_history_init []) (\<lambda>(ok, st, d).
     rbind (open_history demo_engine 2 st d) (\<lambda>(ok, st, d). Inr (db st))) = Inr (Some ''../data/history_1.db'')"
proof -
  have f: "hist_file sqlite_history_init = ''../data/history_{0}.db''" by (simp add: sqlite_history_init_def)
  obtain ok st d where o: "open_history demo_engine 1 sqlite_history_init [] = Inr (ok, st, d)"
    using open_history_file [OF f, of demo_engine 1 "[]"] by (metis prod.exhaust)
  show ?thesis
    unfolding o using open_history_again [OF f o, of 2 d]
    by (simp add: open_db_def digits_eval demo_open)
qed

end
