(* ===== verification/Structs.thy ===== *)
theory Structs
  imports Files_Transfer
begin

text \<open>
  \<open>typedef_struct.h\<close>: the records the parts of the program pass to one another, the texts that name the
  kinds of messages and senders, and where an account's head icon is stored.
\<close>

definition types_Img :: string where "types_Img = ''Img''"
definition types_Text :: string where "types_Text = ''Text''"
definition types_File :: string where "types_File = ''File''"
definition types_Hint :: string where "types_Hint = ''Hint''"

definition object_AR :: string where "object_AR = ''AR''"
definition object_AL :: string where "object_AL = ''AL''"
definition object_SYS :: string where "object_SYS = ''SYS''"

lemmas type_names = types_Img_def types_Text_def types_File_def types_Hint_def object_AR_def object_AL_def object_SYS_def

definition icon_path :: "int64 \<Rightarrow> string" where
  "icon_path account = ''../data/head_icon/icon_'' @ to_string64 account"

definition is_exists_icon :: "world \<Rightarrow> int64 \<Rightarrow> bool" where
  "is_exists_icon w account = is_exists w (icon_path account)"

definition to_path_icon :: "int64 \<Rightarrow> string" where
  "to_path_icon account = icon_path account"

datatype en_info_all = E_account | E_friends | E_ask_ac

text \<open>The value of an enumerator, as the message of an information request carries it.\<close>

definition en_info_value :: "en_info_all \<Rightarrow> int64" where
  "en_info_value e = (case e of E_account \<Rightarrow> 0 | E_friends \<Rightarrow> 1 | E_ask_ac \<Rightarrow> 2)"

record fsize_ioput =
  space_chat :: int32
  space_msg :: int32
  max_width :: int32
  height_output :: int32
  height_input :: int32
  input_padding :: int32
  input_extend_butt :: int32

definition the_fsize_ioput :: fsize_ioput where
  "the_fsize_ioput = \<lparr>space_chat = 0, space_msg = 10, max_width = 500, height_output = 330 + 10, height_input = 160,
     input_padding = 5, input_extend_butt = 50\<rparr>"

record fsize_message =
  msg_space :: int32
  msg_padding :: int32
  msg_icon :: int32
  msg_max_width :: int32
  msg_width :: int32

text \<open>The later members are initialised from the earlier ones.\<close>

definition the_fsize_message :: fsize_message where
  "the_fsize_message = (let space = 5; icon = 50; mx = 500 - space * 3
     in \<lparr>msg_space = space, msg_padding = 5, msg_icon = icon, msg_max_width = mx, msg_width = mx - icon * 2 - space * 2\<rparr>)"

record ct_ac_info =
  ai_account :: int64
  ai_phone :: int64
  ai_age :: int64
  ai_sex :: int64
  ai_nickname :: string
  ai_location :: string
  ai_icon :: string

record ct_friend_add =
  fa_time :: int64
  fa_account :: int64
  fa_friends :: int64
  fa_notes :: string
  fa_remarks :: string

record ct_friends_init =
  fi_online :: bool
  fi_friends :: int64
  fi_nickname :: string
  fi_icon :: string
  fi_remarks :: string

record ct_msg_type =
  mt_time :: int64
  mt_types :: string
  mt_object :: string
  mt_content :: string

record ct_swap_msg =
  sm_target :: int64
  sm_source :: int64
  sm_time_to :: int64
  sm_types :: string
  sm_content :: string

record ct_swap_msg_back =
  sb_target :: int64
  sb_source :: int64
  sb_time_to :: int64
  sb_time_ok :: int64

end
