(* ===== verification/Read_History.thy ===== *)
theory Read_History
  imports Sqlite_Op Structs
begin

text \<open>
  \<open>sqlite_read_history.h\<close>: reading the messages of a friend out of the history, marking each one as
  read. The object holds a pointer to the history of the client: \<open>None\<close> is the null pointer before
  \<open>init_db\<close>, and the history it points to is handed back updated.
\<close>

definition init_db :: "'a sqlite_history_scheme \<Rightarrow> 'a sqlite_history_scheme option" where
  "init_db st = Some st"

definition to_ct_msg :: "history_row \<Rightarrow> ct_msg_type" where
  "to_ct_msg a = (case a of (t, f, n, ty, ob, co) \<Rightarrow> \<lparr>mt_time = t, mt_types = ty, mt_object = ob, mt_content = co\<rparr>)"

text \<open>The loop over the rows; a failed update is only logged.\<close>

fun show_rows :: "'d engine \<Rightarrow> int64 \<Rightarrow> history_row list \<Rightarrow> ct_msg_type list \<Rightarrow> 'a sqlite_history_scheme \<Rightarrow> 'd
    \<Rightarrow> (ct_msg_type list \<times> 'a sqlite_history_scheme \<times> 'd) res" where
  "show_rows eng account [] vec_msg st d = Inr (vec_msg, st, d)"
| "show_rows eng account (a # rows) vec_msg st d =
     (let ct = to_ct_msg a in
      rbind (update_non_read eng account (mt_time ct) 0 st d) (\<lambda>(ok, st', d').
      show_rows eng account rows (vec_msg @ [ct]) st' d'))"

definition read_history :: "'d engine \<Rightarrow> int64 \<Rightarrow> ct_msg_type list \<Rightarrow> 'a sqlite_history_scheme option \<Rightarrow> 'd
    \<Rightarrow> (ct_msg_type list \<times> 'a sqlite_history_scheme \<times> 'd) res" where
  "read_history eng account vec_msg ptr d = (case ptr of
       None \<Rightarrow> Inl (Crash Null_pointer)
     | Some st \<Rightarrow>
         rbind (select_history eng account [] [] st d) (\<lambda>(ok, vec_line, st', d').
         if ok then show_rows eng account vec_line vec_msg st' d'
         else Inr (vec_msg, st', d')))"

definition read_history_non_read :: "'d engine \<Rightarrow> int64 \<Rightarrow> ct_msg_type list \<Rightarrow> 'a sqlite_history_scheme option \<Rightarrow> 'd
    \<Rightarrow> (ct_msg_type list \<times> 'a sqlite_history_scheme \<times> 'd) res" where
  "read_history_non_read eng account vec_msg ptr d = (case ptr of
       None \<Rightarrow> Inl (Crash Null_pointer)
     | Some st \<Rightarrow>
         rbind (select_non_read eng account [] st d) (\<lambda>(ok, vec_line, st', d').
         if ok then show_rows eng account vec_line vec_msg st' d'
         else Inr (vec_msg, st', d')))"

section \<open>What is run and what is shown\<close>

definition run_all :: "'d engine \<Rightarrow> string \<Rightarrow> string list \<Rightarrow> 'd \<Rightarrow> 'd" where
  "run_all eng file sqls d = foldl (\<lambda>d sql. ex_db (eng_exec eng file sql d)) d sqls"

lemma run_all_simps [simp]:
  "run_all eng file [] d = d"
  "run_all eng file (sql # sqls) d = run_all eng file sqls (ex_db (eng_exec eng file sql d))"
  by (simp_all add: run_all_def)

definition mark_read :: "int64 \<Rightarrow> history_row \<Rightarrow> string" where
  "mark_read ac row = set_history_text ''non_read'' ac (fst row) 0"

lemma to_ct_msg_time [simp]: "mt_time (to_ct_msg a) = fst a"
  by (cases a) (simp add: to_ct_msg_def)

lemma history_ready_error [simp]: "history_ready (st\<lparr>db_error := e\<rparr>) = history_ready st"
  by (simp add: history_ready_def)

lemma show_rows_run:
  "history_ready st \<Longrightarrow> db st = Some file
    \<Longrightarrow> \<exists>st'. show_rows eng ac rows vec st d = Inr (vec @ map to_ct_msg rows, st', run_all eng file (map (mark_read ac) rows) d)
      \<and> history_ready st' \<and> db st' = Some file"
proof (induction rows arbitrary: vec st d)
  case (Cons a rows)
  let ?r = "eng_exec eng file (mark_read ac a) d"
  have "update_non_read eng ac (fst a) 0 st d = Inr (ex_ok ?r, st\<lparr>db_error := ex_error ?r\<rparr>, ex_db ?r)"
    using Cons(2,3) by (simp add: update_history_run exec_plain_def exec_db_def Let_def mark_read_def)
  with Cons(1) [of "st\<lparr>db_error := ex_error ?r\<rparr>" "vec @ [to_ct_msg a]" "ex_db ?r"] Cons(2,3)
  show ?case by (simp add: Let_def)
qed simp

lemma select_non_read_run:
  "select_non_read eng ac vec st d = select_history eng ac vec (''SELECT * FROM history_'' @ to_string64 ac @ '' WHERE non_read = 1;'') st d"
  by (simp only: select_non_read_def select_non_read_text rbind_Inr)

lemma reader_run:
  assumes "history_ready st" "db st = Some file"
    and r: "eng_exec eng file sql1 d = r" "ex_ok r" "ex_rows r = map history_cols ts @ rest"
    and "res_map (\<lambda>c. row_map c Map.empty) rest = Inr ms" "ms = [] \<or> (\<exists>e. history_tuple history_names (hd ms) = Inl e)"
    and sql: "sql1 = (if sql = [] then ''SELECT * FROM history_'' @ to_string64 ac @ '';'' else sql)"
  shows "\<exists>st'. rbind (select_history eng ac [] sql st d) (\<lambda>(ok, vec_line, st', d').
      if ok then show_rows eng ac vec_line vec st' d' else Inr (vec, st', d'))
    = Inr (if ms = [] then (vec @ map to_ct_msg ts, st', run_all eng file (map (mark_read ac) ts) (ex_db r))
           else (vec, st', ex_db r)) \<and> history_ready st' \<and> db st' = Some file"
proof -
  let ?st = "st\<lparr>db_error := ex_error r\<rparr>"
  have "select_history eng ac [] sql st d = Inr (ms = [], ts, ?st, ex_db r)"
    using select_history_run [OF assms(1,2) sql r assms(6), of "[]"] assms(7) by (cases ms) auto
  moreover have "history_ready ?st" "db ?st = Some file" using assms(1,2) by simp_all
  ultimately show ?thesis
    using show_rows_run [where st = ?st and eng = eng and ac = ac and rows = ts and vec = vec and d = "ex_db r"] by auto
qed

text \<open>
  Reading. The messages of the friend's table, or only the unread ones, are appended in the order of
  the rows, and each row read is marked with one \<open>UPDATE\<close>. If one row does not convert, nothing is shown
  and nothing is marked.
\<close>

theorem read_marks_messages:
  assumes "history_ready st" "db st = Some file"
    and "reader = read_history \<and> sql = ''SELECT * FROM history_'' @ to_string64 ac @ '';''
      \<or> reader = read_history_non_read \<and> sql = ''SELECT * FROM history_'' @ to_string64 ac @ '' WHERE non_read = 1;''"
    and "eng_exec eng file sql d = r" "ex_ok r" "ex_rows r = map history_cols ts @ rest"
    and "res_map (\<lambda>c. row_map c Map.empty) rest = Inr ms" "ms = [] \<or> (\<exists>e. history_tuple history_names (hd ms) = Inl e)"
  shows "\<exists>st'. reader eng ac vec (Some st) d
      = Inr (if ms = [] then (vec @ map to_ct_msg ts, st', run_all eng file (map (mark_read ac) ts) (ex_db r))
             else (vec, st', ex_db r)) \<and> history_ready st' \<and> db st' = Some file"
  using reader_run [OF assms(1,2,4-8), of "[]" ac vec]
    reader_run [OF assms(1,2,4-8), of "''SELECT * FROM history_'' @ to_string64 ac @ '' WHERE non_read = 1;''" ac vec] assms(3)
  by (auto simp: read_history_def read_history_non_read_def select_non_read_run)

definition unread_engine :: "string list engine" where
  "unread_engine = \<lparr>eng_open = (\<lambda>f d. (True, d)), eng_close = (\<lambda>f d. (True, d)),
     eng_exec = (\<lambda>f sql d. \<lparr>ex_ok = True,
       ex_rows = (if d = [] then map history_cols [(1, 2, 1, ''Text'', ''AL'', ''hi'')] else []),
       ex_error = None, ex_db = d @ [sql]\<rparr>),
     eng_int = (\<lambda>f sql d. None), eng_errmsg = (\<lambda>f d. None)\<rparr>"

theorem read_marks_messages_witness:
  "\<exists>st. read_history_non_read unread_engine 7 [] (Some demo_history) []
    = Inr ([\<lparr>mt_time = 1, mt_types = ''Text'', mt_object = ''AL'', mt_content = ''hi''\<rparr>], st,
        [''SELECT * FROM history_7 WHERE non_read = 1;'', '' UPDATE history_7 SET non_read = 0 WHERE send_time = 1; ''])"
proof -
  let ?sql = "''SELECT * FROM history_'' @ to_string64 7 @ '' WHERE non_read = 1;''"
  let ?r = "eng_exec unread_engine ''h.db'' ?sql []"
  have "\<exists>st'. read_history_non_read unread_engine 7 [] (Some demo_history) []
      = Inr (if [] = ([] :: row list) then ([] @ map to_ct_msg [(1, 2, 1, ''Text'', ''AL'', ''hi'')], st',
          run_all unread_engine ''h.db'' (map (mark_read 7) [(1, 2, 1, ''Text'', ''AL'', ''hi'')]) (ex_db ?r))
        else ([], st', ex_db ?r)) \<and> history_ready st' \<and> db st' = Some ''h.db''"
    by (rule read_marks_messages [OF demo_history_ready, where sql = ?sql and rest = "[]"])
      (simp_all add: unread_engine_def)
  then show ?thesis
    by (auto simp: unread_engine_def mark_read_def set_history_text_def to_ct_msg_def digits_eval)
qed

end
