(* ===== verification/Web_Client.thy ===== *)
theory Web_Client
  imports Web_Files Read_History
begin

text \<open>
  \<open>qweb_client.{h,cpp}\<close>: the client of the task server, which logs in, exchanges messages and keeps the
  two local databases. The object is a record and its functions act on it; signals and sent texts are
  appended to lists. The environment gives the JSON functions, the SQLite calls, whether the socket is
  connected after the texts sent so far, and the readings of the clock. Log output is left out. A
  throwing handler ends the program.
\<close>

section \<open>The object\<close>

datatype client_signal =
    Cs_open
  | Cs_close
  | Cs_recv_msg ct_swap_msg
  | Cs_friends_add
  | Cs_ac_login int64 string string "ct_friends_init list"
  | Cs_ac_info_all int64 ct_ac_info
  | Cs_update_info string bool
  | Cs_update_remarks int64 string
  | Cs_update_friends "ct_friends_init list"
  | Cs_ac_register int64 string bool

record 'd client_env =
  en_codec :: codec
  en_engine :: "'d engine"
  en_conn :: "string list \<Rightarrow> bool"
  en_clock :: "nat \<Rightarrow> int64"

record 'd qweb_client =
  online :: bool
  dbh :: sqlite_history
  dbr :: sqlite_record
  databases :: 'd
  rec_setting :: reconn_setting
  sent :: "string list"
  signals :: "client_signal list"
  ticks :: nat
  closes :: nat

type_synonym 'd client_op = "'d qweb_client \<Rightarrow> ('d qweb_client) res"
type_synonym 'd client_ask = "'d qweb_client \<Rightarrow> (bool \<times> 'd qweb_client) res"

definition qweb_client_init :: "reconn_setting \<Rightarrow> 'd \<Rightarrow> 'd qweb_client" where
  "qweb_client_init rec d = \<lparr>online = False, dbh = sqlite_history_init, dbr = sqlite_record_init, databases = d,
     rec_setting = rec, sent = [], signals = [], ticks = 0, closes = 0\<rparr>"

definition client_emit :: "client_signal \<Rightarrow> 'd qweb_client \<Rightarrow> 'd qweb_client" where
  "client_emit sg st = st\<lparr>signals := signals st @ [sg]\<rparr>"

text \<open>The result of the send is not looked at; what counts is whether the socket is connected afterwards.\<close>

definition client_send_msg :: "'d client_env \<Rightarrow> string \<Rightarrow> 'd qweb_client \<Rightarrow> bool \<times> 'd qweb_client" where
  "client_send_msg env sjson st = (en_conn env (sent st @ [sjson]), st\<lparr>sent := sent st @ [sjson]\<rparr>)"

definition clock_now :: "'d client_env \<Rightarrow> 'd qweb_client \<Rightarrow> int64 \<times> 'd qweb_client" where
  "clock_now env st = (en_clock env (ticks st), st\<lparr>ticks := Suc (ticks st)\<rparr>)"

text \<open>A call on one of the databases.\<close>

definition on_history :: "(sqlite_history \<Rightarrow> 'd \<Rightarrow> (bool \<times> sqlite_history \<times> 'd) res) \<Rightarrow> 'd client_ask" where
  "on_history f st = rbind (f (dbh st) (databases st)) (\<lambda>(ok, h, d). Inr (ok, st\<lparr>dbh := h, databases := d\<rparr>))"

definition on_record :: "(sqlite_record \<Rightarrow> 'd \<Rightarrow> (bool \<times> sqlite_record \<times> 'd) res) \<Rightarrow> 'd client_ask" where
  "on_record f st = rbind (f (dbr st) (databases st)) (\<lambda>(ok, r, d). Inr (ok, st\<lparr>dbr := r, databases := d\<rparr>))"

definition client_open ::
    "(string \<Rightarrow> int32) \<Rightarrow> string \<Rightarrow> int32 \<Rightarrow> string \<Rightarrow> 'd qweb_client \<Rightarrow> int32 \<times> 'd qweb_client" where
  "client_open wc_open ip port txt st =
     (let (ret, rec) = inter_client_open wc_open (rec_setting st) ip port txt in (ret, st\<lparr>rec_setting := rec\<rparr>))"

definition client_close :: "'d qweb_client \<Rightarrow> 'd qweb_client" where
  "client_close st = st\<lparr>closes := Suc (closes st)\<rparr>"

definition is_online :: "'d qweb_client \<Rightarrow> int64" where
  "is_online st = (if online st then 1 else 0)"

definition get_db :: "'d qweb_client \<Rightarrow> sqlite_history" where
  "get_db st = dbh st"

section \<open>Requests\<close>

definition ask_login :: "'d client_env \<Rightarrow> int64 \<Rightarrow> string \<Rightarrow> 'd client_ask" where
  "ask_login env account passwd st =
     rbind (set_ac_login (en_codec env) account passwd) (\<lambda>s. Inr (client_send_msg env s st))"

definition ask_register :: "'d client_env \<Rightarrow> int64 \<Rightarrow> int64 \<Rightarrow> int64 \<Rightarrow> string \<Rightarrow> string \<Rightarrow> string \<Rightarrow> 'd client_ask" where
  "ask_register env phone age sex nickname location passwd st =
     rbind (set_ac_register (en_codec env) phone age sex nickname location passwd) (\<lambda>s. Inr (client_send_msg env s st))"

definition ask_swap_msg :: "'d client_env \<Rightarrow> ct_swap_msg \<Rightarrow> 'd client_ask" where
  "ask_swap_msg env msg st =
     rbind (on_history (insert_history (en_engine env) (sm_target msg)
         (sm_time_to msg, 0, 0, sm_types msg, object_AR, sm_content msg)) st) (\<lambda>(ok, st).
     if ok then
       rbind (set_swap_msg (en_codec env) (sm_target msg) (sm_source msg) (sm_time_to msg) (sm_types msg) (sm_content msg)) (\<lambda>s.
       Inr (client_send_msg env s st))
     else Inr (False, st))"

definition ask_swap_msg_back :: "'d client_env \<Rightarrow> ct_swap_msg_back \<Rightarrow> 'd client_ask" where
  "ask_swap_msg_back env msg st =
     rbind (set_swap_msg_back (en_codec env) (sb_target msg) (sb_source msg) (sb_time_to msg) (sb_time_ok msg)) (\<lambda>s.
     Inr (client_send_msg env s st))"

definition ask_update_info :: "'d client_env \<Rightarrow> ct_ac_info \<Rightarrow> 'd client_ask" where
  "ask_update_info env info st =
     rbind (set_ac_update_info (en_codec env) (ai_account info) (ai_phone info) (ai_age info) (ai_sex info)
       (ai_nickname info) (ai_location info) (ai_icon info)) (\<lambda>s. Inr (client_send_msg env s st))"

definition ask_update_remarks :: "'d client_env \<Rightarrow> int64 \<Rightarrow> int64 \<Rightarrow> string \<Rightarrow> 'd client_ask" where
  "ask_update_remarks env account friends remarks st =
     rbind (set_ac_update_remarks (en_codec env) account friends remarks) (\<lambda>s. Inr (client_send_msg env s st))"

definition ask_info_all :: "'d client_env \<Rightarrow> int64 \<Rightarrow> int64 \<Rightarrow> 'd client_ask" where
  "ask_info_all env types account st =
     rbind (set_ac_info_all (en_codec env) types account) (\<lambda>s. Inr (client_send_msg env s st))"

definition ask_swap_friens_add :: "'d client_env \<Rightarrow> ct_friend_add \<Rightarrow> 'd client_ask" where
  "ask_swap_friens_add env ct st =
     rbind (set_swap_friens_add (en_codec env) (fa_time ct) (fa_account ct) (fa_friends ct) (fa_notes ct) (fa_remarks ct)) (\<lambda>s.
     Inr (client_send_msg env s st))"

definition ask_update_friends :: "'d client_env \<Rightarrow> int64 \<Rightarrow> int64 \<Rightarrow> string \<Rightarrow> string \<Rightarrow> 'd client_ask" where
  "ask_update_friends env account friends ac_remarks fr_remarks st =
     rbind (set_ac_update_friends (en_codec env) account friends ac_remarks fr_remarks) (\<lambda>s.
     Inr (client_send_msg env s st))"

section \<open>Handlers\<close>

text \<open>The loop over the friend records of a reply: those that do not read are skipped; \<open>f\<close> runs for each other one.\<close>

fun read_friends :: "codec \<Rightarrow> (ct_friends_init \<Rightarrow> 'd client_op) \<Rightarrow> string list \<Rightarrow> ct_friends_init list \<Rightarrow> 'd qweb_client
    \<Rightarrow> (ct_friends_init list \<times> 'd qweb_client) res" where
  "read_friends c f [] vec_friends st = Inr (vec_friends, st)"
| "read_friends c f (a # vec) vec_friends st =
     rbind (get_friends_info_json c a) (\<lambda>r. case r of
       None \<Rightarrow> read_friends c f vec vec_friends st
     | Some (friends, nickname, icon, remarks, on_line) \<Rightarrow>
         (let ct = \<lparr>fi_online = on_line, fi_friends = friends, fi_nickname = nickname, fi_icon = icon, fi_remarks = remarks\<rparr>
          in rbind (f ct st) (\<lambda>st'. read_friends c f vec (vec_friends @ [ct]) st')))"

definition task_ac_login_back :: "'d client_env \<Rightarrow> string \<Rightarrow> 'd client_op" where
  "task_ac_login_back env sjson st =
     rbind (get_ac_login_back (en_codec env) sjson) (\<lambda>r. case r of
       None \<Rightarrow> Inr st
     | Some (account, nickname, icon, svec_friends_info) \<Rightarrow>
         rbind (on_history (open_history (en_engine env) account) st) (\<lambda>(ok, st).
         rbind (on_record (open_record (en_engine env) account) st) (\<lambda>(ok, st).
         rbind (get_json_vec (en_codec env) svec_friends_info) (\<lambda>vec.
         rbind (read_friends (en_codec env)
             (\<lambda>ct st. rbind (on_history (create_history (en_engine env) (fi_friends ct)) st) (\<lambda>(ok, st). Inr st)) vec [] st)
           (\<lambda>(vec_friends, st).
         rbind (set_swap_cache (en_codec env) account) (\<lambda>s.
         Inr (snd (client_send_msg env s (client_emit (Cs_ac_login account nickname icon vec_friends) st)))))))))"

definition task_ac_register_back :: "'d client_env \<Rightarrow> string \<Rightarrow> 'd client_op" where
  "task_ac_register_back env sjson st =
     rbind (get_ac_register_back (en_codec env) sjson) (\<lambda>r. case r of
       None \<Rightarrow> Inr st
     | Some (account, passwd, ok) \<Rightarrow> Inr (client_emit (Cs_ac_register account passwd ok) st))"

definition task_swap_friens_add :: "'d client_env \<Rightarrow> string \<Rightarrow> 'd client_op" where
  "task_swap_friens_add env sjson st =
     rbind (get_swap_friens_add (en_codec env) sjson) (\<lambda>r. case r of
       None \<Rightarrow> Inr st
     | Some (time, account, friends, notes, remarks) \<Rightarrow>
         rbind (on_record (insert_record (en_engine env) friends time account notes remarks) st) (\<lambda>(ok, st).
         Inr (if ok then client_emit Cs_friends_add st else st)))"

definition task_ac_update_friends_back :: "'d client_env \<Rightarrow> string \<Rightarrow> 'd client_op" where
  "task_ac_update_friends_back env sjson st =
     rbind (get_ac_update_friends_back (en_codec env) sjson) (\<lambda>r. case r of
       None \<Rightarrow> Inr st
     | Some svec_friends_info \<Rightarrow>
         rbind (get_json_vec (en_codec env) svec_friends_info) (\<lambda>vec.
         rbind (read_friends (en_codec env) (\<lambda>ct. Inr) vec [] st) (\<lambda>(vec_friends, st).
         Inr (client_emit (Cs_update_friends vec_friends) st))))"

definition task_ac_info_all_back :: "'d client_env \<Rightarrow> string \<Rightarrow> 'd client_op" where
  "task_ac_info_all_back env sjson st =
     rbind (get_ac_info_all_back (en_codec env) sjson) (\<lambda>r. case r of
       None \<Rightarrow> Inr st
     | Some (types, account, phone, age, sex, nickname, location, icon) \<Rightarrow>
         Inr (client_emit (Cs_ac_info_all types
           \<lparr>ai_account = account, ai_phone = phone, ai_age = age, ai_sex = sex, ai_nickname = nickname,
            ai_location = location, ai_icon = icon\<rparr>) st))"

definition task_ac_update_info_back :: "'d client_env \<Rightarrow> string \<Rightarrow> 'd client_op" where
  "task_ac_update_info_back env sjson st =
     rbind (get_ac_update_info_back (en_codec env) sjson) (\<lambda>r. case r of
       None \<Rightarrow> Inr st
     | Some (account, icon, ok) \<Rightarrow> Inr (client_emit (Cs_update_info icon ok) st))"

definition task_ac_update_remarks_back :: "'d client_env \<Rightarrow> string \<Rightarrow> 'd client_op" where
  "task_ac_update_remarks_back env sjson st =
     rbind (get_ac_update_remarks_back (en_codec env) sjson) (\<lambda>r. case r of
       None \<Rightarrow> Inr st
     | Some (account, friends, remarks) \<Rightarrow> Inr (client_emit (Cs_update_remarks friends remarks) st))"

definition task_swap_msg :: "'d client_env \<Rightarrow> string \<Rightarrow> 'd client_op" where
  "task_swap_msg env sjson st =
     rbind (get_swap_msg (en_codec env) sjson) (\<lambda>r. case r of
       None \<Rightarrow> Inr st
     | Some (target, source, time_to, type, content) \<Rightarrow>
         rbind (on_history (insert_history (en_engine env) source (time_to, time_to, 1, type, object_AL, content)) st) (\<lambda>(ok, st).
         let st = client_emit (Cs_recv_msg \<lparr>sm_target = target, sm_source = source, sm_time_to = time_to,
                    sm_types = type, sm_content = content\<rparr>) st;
             (time_ok, st) = clock_now env st
         in rbind (set_swap_msg_back (en_codec env) source target time_to time_ok) (\<lambda>s.
            Inr (snd (client_send_msg env s st)))))"

definition task_swap_msg_back :: "'d client_env \<Rightarrow> string \<Rightarrow> 'd client_op" where
  "task_swap_msg_back env sjson st =
     rbind (get_swap_msg_back (en_codec env) sjson) (\<lambda>r. case r of
       None \<Rightarrow> Inr st
     | Some (target, source, time_to, time_ok) \<Rightarrow>
         rbind (on_history (update_feed_back (en_engine env) source time_to time_ok) st) (\<lambda>(ok, st). Inr st))"

definition task_error_info :: "'d client_env \<Rightarrow> string \<Rightarrow> 'd client_op" where
  "task_error_info env sjson st = rbind (get_error_info (en_codec env) sjson) (\<lambda>r. Inr st)"

text \<open>The saved messages, each given to \<open>sl_message\<close> (here \<open>again\<close>) in turn.\<close>

fun deliver :: "(string \<Rightarrow> 'd client_op) \<Rightarrow> string list \<Rightarrow> 'd client_op" where
  "deliver again [] st = Inr st"
| "deliver again (a # vec) st = rbind (again a st) (deliver again vec)"

definition task_swap_cache_back :: "'d client_env \<Rightarrow> (string \<Rightarrow> 'd client_op) \<Rightarrow> string \<Rightarrow> 'd client_op" where
  "task_swap_cache_back env again sjson st =
     rbind (get_swap_cache_back (en_codec env) sjson) (\<lambda>r. case r of
       None \<Rightarrow> Inr st
     | Some svec_sjson \<Rightarrow> rbind (get_json_vec (en_codec env) svec_sjson) (\<lambda>vec. deliver again vec st))"

definition client_sl_open :: "'d qweb_client \<Rightarrow> 'd qweb_client" where
  "client_sl_open st = client_emit Cs_open st"

definition client_sl_close :: "'d qweb_client \<Rightarrow> 'd qweb_client" where
  "client_sl_close st = client_emit Cs_close (st\<lparr>online := False\<rparr>)"

text \<open>The table the constructor fills, by message type.\<close>

definition client_map_fn :: "'d client_env \<Rightarrow> (string \<Rightarrow> 'd client_op) \<Rightarrow> string \<Rightarrow> (string \<Rightarrow> 'd client_op) option" where
  "client_map_fn env again = map_of
     [(''ac_login_back'', task_ac_login_back env),
      (''ac_register_back'', task_ac_register_back env),
      (''ac_info_all_back'', task_ac_info_all_back env),
      (''ac_update_info_back'', task_ac_update_info_back env),
      (''ac_update_remarks_back'', task_ac_update_remarks_back env),
      (''ac_update_friends_back'', task_ac_update_friends_back env),
      (''swap_friens_add'', task_swap_friens_add env),
      (''swap_cache_back'', task_swap_cache_back env again),
      (''swap_msg'', task_swap_msg env),
      (''swap_msg_back'', task_swap_msg_back env),
      (''error_info'', task_error_info env)]"

text \<open>
  \<open>sl_message\<close> calls itself on each saved message of a \<open>swap_cache_back\<close>, which may be such a message
  again. The recursion is unfolded \<open>n\<close> deep at most; the length of the text is deep enough.
\<close>

primrec sl_message_depth :: "nat \<Rightarrow> 'd client_env \<Rightarrow> string \<Rightarrow> 'd client_op" where
  "sl_message_depth 0 env sjson st = Inl Diverges"
| "sl_message_depth (Suc n) env sjson st =
     rbind (check_json (en_codec env) sjson) (\<lambda>r. case r of
       Some (stream, type) \<Rightarrow>
         if stream = sc_s \<or> stream = cc_s then
           (case client_map_fn env (sl_message_depth n env) type of
              Some task \<Rightarrow> task sjson st
            | None \<Rightarrow> Inr st)
         else Inr st
     | None \<Rightarrow> Inr st)"

definition client_sl_message :: "'d client_env \<Rightarrow> string \<Rightarrow> 'd client_op" where
  "client_sl_message env sjson = sl_message_depth (Suc (length sjson)) env sjson"

section \<open>The recursion ends\<close>

lemma obj_string: "map_of m k = Some (JStr t) \<Longrightarrow> t \<in> set (json_strings (JObj m))"
  by (force dest!: map_of_SomeD)

lemma get_extend_string:
  assumes "get_extend js_string js k = Inr t"
  shows "t \<in> set (json_strings js)"
proof -
  from assms obtain e tm where e: "js_read js ''extend'' = Inr e" "js_object e = Inr tm"
      "js_string (case map_of tm k of Some v \<Rightarrow> v | None \<Rightarrow> JNull) = Inr t"
    by (auto simp: get_extend_def rbind_eq_Inr)
  from e(3) have t: "map_of tm k = Some (JStr t)"
    by (auto simp: js_string_def split: option.splits json.splits)
  from e(2) have o: "e = JObj tm" by (auto simp: js_object_def split: json.splits)
  with t obj_string have "t \<in> set (json_strings e)" by metis
  moreover from e(1) o have "js = JObj m \<Longrightarrow> map_of m ''extend'' = Some e" for m
    by (auto simp: js_read_def split: option.splits)
  moreover from e(1) o obtain m where "js = JObj m"
    by (cases js) (auto simp: js_read_def)
  ultimately show ?thesis by (force dest!: map_of_SomeD)
qed

lemma cache_text_shorter:
  assumes "json_codec c" "get_swap_cache_back c s = Inr (Some svec)"
  shows "length svec < length s"
proof -
  from assms(2) obtain js where "parse c s = Inr js" "get_extend js_string js ''svec_sjson'' = Inr svec"
    by (auto simp: get_swap_cache_back_def cs_get_def rbind_eq_Inr catch_all_Inr_iff)
  with json_codec.parse_string_shorter [OF assms(1)] get_extend_string show ?thesis by blast
qed

lemma js_strings_mem: "js_strings js = Inr ss \<Longrightarrow> t \<in> set ss \<Longrightarrow> JStr t \<in> set js"
  by (induction js arbitrary: ss) (auto simp: rbind_eq_Inr js_string_def split: json.splits)

lemma vec_text_shorter:
  assumes "json_codec c" "get_json_vec c s = Inr vec" "t \<in> set vec"
  shows "length t < length s"
proof -
  from assms(2,3) obtain js e where js: "parse c s = Inr js" "js_read js ''vec'' = Inr e" "js_vec_string e = Inr vec"
    by (auto simp: get_json_vec_def rbind_eq_Inr catch_all_Inr_iff)
  from js(3) obtain es where es: "e = JArr es" "js_strings es = Inr vec"
    by (auto simp: js_vec_string_def split: json.splits)
  with assms(3) js_strings_mem have "JStr t \<in> set es" by blast
  then have "t \<in> set (json_strings e)" using es by force
  moreover from js(2) es obtain m where "js = JObj m" "map_of m ''vec'' = Some e"
    by (cases js) (auto simp: js_read_def split: option.splits)
  ultimately have "t \<in> set (json_strings js)" by (force dest!: map_of_SomeD)
  with json_codec.parse_string_shorter [OF assms(1) js(1)] show ?thesis by blast
qed

lemma deliver_cong:
  "(\<And>a st. a \<in> set vec \<Longrightarrow> f a st = g a st) \<Longrightarrow> deliver f vec st = deliver g vec st"
  by (induction vec arbitrary: st) (auto intro: rbind_cong)

lemma task_swap_cache_back_cong:
  assumes "json_codec (en_codec env)" "\<And>a st. length a < length s \<Longrightarrow> f a st = g a st"
  shows "task_swap_cache_back env f s st = task_swap_cache_back env g s st"
proof -
  have "deliver f vec st = deliver g vec st"
    if "get_swap_cache_back (en_codec env) s = Inr (Some svec)" "get_json_vec (en_codec env) svec = Inr vec" for svec vec
    by (rule deliver_cong, rule assms(2))
      (use cache_text_shorter [OF assms(1) that(1)] vec_text_shorter [OF assms(1) that(2)] in fastforce)
  then show ?thesis
    by (auto simp: task_swap_cache_back_def intro!: rbind_cong split: option.splits)
qed

text \<open>Handing on the recursive call is all the table of handlers does with it.\<close>

lemma client_map_fn_cong:
  assumes "json_codec (en_codec env)" "\<And>a st. length a < length s \<Longrightarrow> f a st = g a st"
  shows "(case client_map_fn env f ty of Some task \<Rightarrow> task s st | None \<Rightarrow> Inr st)
    = (case client_map_fn env g ty of Some task \<Rightarrow> task s st | None \<Rightarrow> Inr st)"
  using task_swap_cache_back_cong [OF assms] by (simp add: client_map_fn_def)

lemma sl_message_depth_enough:
  "json_codec (en_codec env) \<Longrightarrow> length s < n \<Longrightarrow> length s < m
    \<Longrightarrow> sl_message_depth n env s st = sl_message_depth m env s st"
proof (induction "length s" arbitrary: s n m st rule: less_induct)
  case less
  obtain n' m' where nm: "n = Suc n'" "m = Suc m'"
    using less(3,4) by (cases n; cases m) auto
  have "sl_message_depth n' env a st = sl_message_depth m' env a st" if "length a < length s" for a st
    by (rule less(1) [OF that less(2)]) (use that nm less(3,4) in simp_all)
  then have "(case client_map_fn env (sl_message_depth n' env) ty of Some task \<Rightarrow> task s st | None \<Rightarrow> Inr st)
      = (case client_map_fn env (sl_message_depth m' env) ty of Some task \<Rightarrow> task s st | None \<Rightarrow> Inr st)" for ty
    by (rule client_map_fn_cong [OF less(2)])
  then show ?case by (simp only: nm sl_message_depth.simps)
qed

text \<open>The equation of the source.\<close>

lemma client_sl_message_eq:
  assumes "json_codec (en_codec env)"
  shows "client_sl_message env s st =
     rbind (check_json (en_codec env) s) (\<lambda>r. case r of
       Some (stream, type) \<Rightarrow>
         if stream = sc_s \<or> stream = cc_s then
           (case client_map_fn env (client_sl_message env) type of Some task \<Rightarrow> task s st | None \<Rightarrow> Inr st)
         else Inr st
     | None \<Rightarrow> Inr st)"
proof -
  have "sl_message_depth (length s) env a st = client_sl_message env a st" if "length a < length s" for a st
    unfolding client_sl_message_def by (rule sl_message_depth_enough [OF assms that]) simp
  then have "(case client_map_fn env (sl_message_depth (length s) env) ty of Some task \<Rightarrow> task s st | None \<Rightarrow> Inr st)
      = (case client_map_fn env (client_sl_message env) ty of Some task \<Rightarrow> task s st | None \<Rightarrow> Inr st)" for ty
    by (rule client_map_fn_cong [OF assms])
  then show ?thesis by (simp only: client_sl_message_def [of env s] sl_message_depth.simps)
qed

lemma client_dispatch:
  assumes "json_codec (en_codec env)" "check_json (en_codec env) s = Inr (Some (stream, type))"
    and "stream = sc_s \<or> stream = cc_s" "client_map_fn env (client_sl_message env) type = Some task"
  shows "client_sl_message env s st = task s st"
  using assms by (simp add: client_sl_message_eq)

lemma client_tasks:
  "client_map_fn env again ''ac_login_back'' = Some (task_ac_login_back env)"
  "client_map_fn env again ''swap_friens_add'' = Some (task_swap_friens_add env)"
  "client_map_fn env again ''swap_cache_back'' = Some (task_swap_cache_back env again)"
  "client_map_fn env again ''swap_msg'' = Some (task_swap_msg env)"
  "client_map_fn env again ''swap_msg_back'' = Some (task_swap_msg_back env)"
  by (simp_all add: client_map_fn_def)

text \<open>The messages another client or the server writes, as the client reads them.\<close>

lemma client_messages:
  assumes "protocol_codec c"
  shows "set_swap_msg c target source time_to type content = Inr s \<Longrightarrow>
      check_json c s = Inr (Some (cc_s, ''swap_msg'')) \<and> get_swap_msg c s = Inr (Some (target, source, time_to, type, content))"
    and "set_swap_msg_back c target source time_to time_ok = Inr s \<Longrightarrow>
      check_json c s = Inr (Some (cc_s, ''swap_msg_back'')) \<and> get_swap_msg_back c s = Inr (Some (target, source, time_to, time_ok))"
    and "set_swap_friens_add c time account friends notes remarks = Inr s \<Longrightarrow>
      check_json c s = Inr (Some (cc_s, ''swap_friens_add''))
      \<and> get_swap_friens_add c s = Inr (Some (time, account, friends, notes, remarks))"
    and "set_swap_cache_back c svec = Inr s \<Longrightarrow>
      check_json c s = Inr (Some (sc_s, ''swap_cache_back'')) \<and> get_swap_cache_back c s = Inr (Some svec)"
    and "set_ac_login_back c account nickname icon info = Inr s \<Longrightarrow>
      check_json c s = Inr (Some (sc_s, ''ac_login_back'')) \<and> get_ac_login_back c s = Inr (Some (account, nickname, icon, info))"
  using set_msg_text [OF assms, of "Swap_msg target source time_to type content" s]
    set_msg_text [OF assms, of "Swap_msg_back target source time_to time_ok" s]
    set_msg_text [OF assms, of "Swap_friens_add time account friends notes remarks" s]
    set_msg_text [OF assms, of "Swap_cache_back svec" s]
    set_msg_text [OF assms, of "Ac_login_back account nickname icon info" s]
  by (auto simp: get_msg_def getters_def to_msg_Some)

lemma client_replies_defined:
  assumes "protocol_codec c"
  shows "\<exists>s. set_swap_msg_back c target source time_to time_ok = Inr s" "\<exists>s. set_swap_cache c account = Inr s"
  using set_msg_defined [OF assms, of "Swap_msg_back target source time_to time_ok"] set_msg_defined [OF assms, of "Swap_cache account"]
  by simp_all

lemma protocol_json: "protocol_codec c \<Longrightarrow> json_codec c"
  by (simp add: protocol_codec_def)

end
