(* ===== verification/Client_Laws.thy ===== *)
theory Client_Laws
  imports Web_Client
begin

text \<open>
  What the task client does: the exchange of a message between two clients, the sequence at login, the
  delivery of saved messages, and the ways a message can end the program.
\<close>

section \<open>An exchange of a message\<close>

text \<open>A statement run on the open history of a client.\<close>

definition run_history :: "'d client_env \<Rightarrow> string \<Rightarrow> 'd qweb_client \<Rightarrow> 'd qweb_client" where
  "run_history env sql st = (let r = eng_exec (en_engine env) (hist_file (dbh st)) sql (databases st)
     in st\<lparr>dbh := (dbh st)\<lparr>db_error := ex_error r\<rparr>, databases := ex_db r\<rparr>)"

definition history_open :: "'d qweb_client \<Rightarrow> bool" where
  "history_open st \<longleftrightarrow> history_ready (dbh st) \<and> db (dbh st) = Some (hist_file (dbh st))"

lemma history_open_run [simp]: "history_open (run_history env sql st) = history_open st"
  by (simp add: history_open_def run_history_def Let_def history_ready_def)

lemma history_open_more [simp]:
  "history_open (st\<lparr>sent := x\<rparr>) = history_open st" "history_open (st\<lparr>ticks := n\<rparr>) = history_open st"
  "history_open (client_emit sg st) = history_open st"
  by (simp_all add: history_open_def client_emit_def)

lemma on_history_run:
  assumes "history_open st" "f (dbh st) (databases st) = exec_plain (en_engine env) (Inr sql) (dbh st) (databases st)"
  shows "on_history f st = Inr (ex_ok (eng_exec (en_engine env) (hist_file (dbh st)) sql (databases st)), run_history env sql st)"
  using assms by (simp add: on_history_def history_open_def exec_plain_def exec_db_def run_history_def Let_def)

lemma object_names_brace_free [simp]: "brace_free object_AL" "brace_free object_AR"
  by (simp_all add: type_names)

lemma ask_swap_msg_run:
  assumes "history_open st" "brace_free ty"
    and "m = \<lparr>sm_target = b, sm_source = a, sm_time_to = t, sm_types = ty, sm_content = co\<rparr>"
    and "ex_ok (eng_exec (en_engine env) (hist_file (dbh st)) (insert_history_text b (t, 0, 0, ty, object_AR, co)) (databases st))"
    and "set_swap_msg (en_codec env) b a t ty co = Inr s"
  shows "ask_swap_msg env m st
    = Inr (client_send_msg env s (run_history env (insert_history_text b (t, 0, 0, ty, object_AR, co)) st))"
proof -
  have "on_history (insert_history (en_engine env) b (t, 0, 0, ty, object_AR, co)) st
      = Inr (True, run_history env (insert_history_text b (t, 0, 0, ty, object_AR, co)) st)"
    using on_history_run [OF assms(1), of "insert_history (en_engine env) b (t, 0, 0, ty, object_AR, co)" env
        "insert_history_text b (t, 0, 0, ty, object_AR, co)"] assms(1,2,4)
    by (simp add: insert_history_run history_open_def)
  with assms(3,5) show ?thesis by (simp add: ask_swap_msg_def)
qed

lemma recv_swap_msg_run:
  assumes c: "protocol_codec (en_codec env)" and "history_open st" "brace_free ty"
    and "set_swap_msg (en_codec env) b a t ty co = Inr s"
    and "set_swap_msg_back (en_codec env) a b t (en_clock env (ticks st)) = Inr ack"
    and m: "m = \<lparr>sm_target = b, sm_source = a, sm_time_to = t, sm_types = ty, sm_content = co\<rparr>"
  shows "client_sl_message env s st = Inr (snd (client_send_msg env ack
    ((client_emit (Cs_recv_msg m) (run_history env (insert_history_text a (t, t, 1, ty, object_AL, co)) st))\<lparr>ticks := Suc (ticks st)\<rparr>)))"
proof -
  note r = client_messages(1) [OF c assms(4)]
  have "on_history (insert_history (en_engine env) a (t, t, 1, ty, object_AL, co)) st
      = Inr (ex_ok (eng_exec (en_engine env) (hist_file (dbh st)) (insert_history_text a (t, t, 1, ty, object_AL, co)) (databases st)),
          run_history env (insert_history_text a (t, t, 1, ty, object_AL, co)) st)"
    by (rule on_history_run [OF assms(2)]) (use assms(2,3) in \<open>simp add: insert_history_run history_open_def\<close>)
  moreover have "client_sl_message env s st = task_swap_msg env s st"
    using client_dispatch [OF protocol_json [OF c]] r client_tasks by blast
  moreover have "ticks (client_emit (Cs_recv_msg m) (run_history env q st)) = ticks st" for q
    by (simp add: client_emit_def run_history_def Let_def)
  ultimately show ?thesis
    using r assms(5) m by (simp add: task_swap_msg_def clock_now_def Let_def)
qed

lemma recv_ack_run:
  assumes c: "protocol_codec (en_codec env)" and "history_open st"
    and "set_swap_msg_back (en_codec env) a b t ok = Inr ack"
  shows "client_sl_message env ack st = Inr (run_history env (set_history_text ''feed_back'' b t ok) st)"
proof -
  note r = client_messages(2) [OF c assms(3)]
  have "on_history (update_feed_back (en_engine env) b t ok) st
      = Inr (ex_ok (eng_exec (en_engine env) (hist_file (dbh st)) (set_history_text ''feed_back'' b t ok) (databases st)),
          run_history env (set_history_text ''feed_back'' b t ok) st)"
    by (rule on_history_run [OF assms(2)]) (use assms(2) in \<open>simp add: update_history_run history_open_def\<close>)
  moreover have "client_sl_message env ack st = task_swap_msg_back env ack st"
    using client_dispatch [OF protocol_json [OF c]] r client_tasks by blast
  ultimately show ?thesis using r by (simp add: task_swap_msg_back_def)
qed

text \<open>
  C2: a text message between two clients. The sender stores it as its own, unacknowledged, and sends one
  text; whatever carries that text to the receiver, it stores the message as unread under the sender's
  account, shows it and answers with one text; that one makes the sender set the acknowledgement time of
  exactly this message in the table of the receiver, and nothing else.
\<close>

theorem message_exchange:
  assumes "protocol_codec (en_codec env_a)" "en_codec env_b = en_codec env_a"
    and "history_open st_a" "history_open st_b" "brace_free ty" "list_all utf8_ok [ty, co]"
    and "m = \<lparr>sm_target = b, sm_source = a, sm_time_to = t, sm_types = ty, sm_content = co\<rparr>"
    and "ex_ok (eng_exec (en_engine env_a) (hist_file (dbh st_a)) (insert_history_text b (t, 0, 0, ty, ''AR'', co)) (databases st_a))"
  shows "\<exists>s ack ok st_a1 st_b1.
    ask_swap_msg env_a m st_a = Inr (ok, st_a1)
    \<and> st_a1 = (run_history env_a (insert_history_text b (t, 0, 0, ty, ''AR'', co)) st_a)\<lparr>sent := sent st_a @ [s]\<rparr>
    \<and> client_sl_message env_b s st_b = Inr st_b1
    \<and> databases st_b1 = databases (run_history env_b (insert_history_text a (t, t, 1, ty, ''AL'', co)) st_b)
    \<and> signals st_b1 = signals st_b @ [Cs_recv_msg m] \<and> sent st_b1 = sent st_b @ [ack]
    \<and> client_sl_message env_a ack st_a1
        = Inr (run_history env_a (set_history_text ''feed_back'' b t (en_clock env_b (ticks st_b))) st_a1)"
proof -
  let ?c = "en_codec env_a"
  obtain s where s: "set_swap_msg ?c b a t ty co = Inr s"
    using set_msg_utf8 [OF assms(1), of "Swap_msg b a t ty co"] assms(6) by auto
  obtain ack where ack: "set_swap_msg_back ?c a b t (en_clock env_b (ticks st_b)) = Inr ack"
    using client_replies_defined(1) [OF assms(1)] by blast
  let ?st_a1 = "(run_history env_a (insert_history_text b (t, 0, 0, ty, ''AR'', co)) st_a)\<lparr>sent := sent st_a @ [s]\<rparr>"
  have a: "ask_swap_msg env_a m st_a = Inr (en_conn env_a (sent st_a @ [s]), ?st_a1)"
    using ask_swap_msg_run [OF assms(3,5,7), of env_a s] assms(8) s
    by (simp add: type_names client_send_msg_def run_history_def Let_def)
  have open_a: "history_open ?st_a1" using assms(3) by simp
  let ?r = "run_history env_b (insert_history_text a (t, t, 1, ty, ''AL'', co)) st_b"
  let ?st_b1 = "snd (client_send_msg env_b ack ((client_emit (Cs_recv_msg m) ?r)\<lparr>ticks := Suc (ticks st_b)\<rparr>))"
  have b: "client_sl_message env_b s st_b = Inr ?st_b1"
    using recv_swap_msg_run [of env_b st_b ty b a t co s ack m] assms s ack by (simp add: type_names)
  have b1: "databases ?st_b1 = databases ?r" "signals ?st_b1 = signals st_b @ [Cs_recv_msg m]" "sent ?st_b1 = sent st_b @ [ack]"
    by (simp_all add: client_send_msg_def client_emit_def run_history_def Let_def)
  show ?thesis
    by (intro exI conjI) (rule a, rule refl, rule b, rule b1(1), rule b1(2), rule b1(3), rule recv_ack_run [OF assms(1) open_a ack])
qed

definition demo_env :: "(string list) client_env" where
  "demo_env = \<lparr>en_codec = text_codec, en_engine = demo_engine, en_conn = (\<lambda>s. True), en_clock = (\<lambda>n. 9)\<rparr>"

definition demo_online :: "(string list) qweb_client" where
  "demo_online = (qweb_client_init \<lparr>min_delay = 0, max_delay = 0, delay_policy = 0\<rparr> [])\<lparr>dbh :=
     sqlite_history_init\<lparr>db := Some ''h.db'', hist_file := ''h.db''\<rparr>\<rparr>"

lemma demo_online_simps [simp]:
  "history_open demo_online" "databases demo_online = []" "signals demo_online = []" "sent demo_online = []"
  "hist_file (dbh demo_online) = ''h.db''" "en_codec demo_env = text_codec" "en_engine demo_env = demo_engine"
  "en_clock demo_env n = 9" "ex_ok (eng_exec demo_engine f sql d)" "ex_db (eng_exec demo_engine f sql d) = d @ [sql]"
  by (simp_all add: demo_online_def qweb_client_init_def history_open_def history_ready_def sqlite_history_init_def
      history_names_def demo_env_def demo_engine_def)

theorem message_exchange_witness:
  "\<exists>s ack ok st_a st_b st_a2.
    ask_swap_msg demo_env \<lparr>sm_target = 2, sm_source = 1, sm_time_to = 5, sm_types = ''Text'', sm_content = ''hi''\<rparr> demo_online
      = Inr (ok, st_a)
    \<and> client_sl_message demo_env s demo_online = Inr st_b
    \<and> databases st_b = [''INSERT INTO history_1 VALUES (5,5,1,'Text','AL','hi');'']
    \<and> client_sl_message demo_env ack st_a = Inr st_a2
    \<and> databases st_a2 = [''INSERT INTO history_2 VALUES (5,0,0,'Text','AR','hi');'',
        '' UPDATE history_2 SET feed_back = 9 WHERE send_time = 5; '']"
proof -
  let ?m = "\<lparr>sm_target = 2, sm_source = 1, sm_time_to = 5, sm_types = ''Text'', sm_content = ''hi''\<rparr>"
  obtain s ack ok st_a st_b where e: "ask_swap_msg demo_env ?m demo_online = Inr (ok, st_a)"
      "st_a = (run_history demo_env (insert_history_text 2 (5, 0, 0, ''Text'', ''AR'', ''hi'')) demo_online)\<lparr>sent := sent demo_online @ [s]\<rparr>"
      "client_sl_message demo_env s demo_online = Inr st_b"
      "databases st_b = databases (run_history demo_env (insert_history_text 1 (5, 5, 1, ''Text'', ''AL'', ''hi'')) demo_online)"
      "client_sl_message demo_env ack st_a = Inr (run_history demo_env (set_history_text ''feed_back'' 2 5 9) st_a)"
    using message_exchange [of demo_env demo_env demo_online demo_online "''Text''" "''hi''" ?m 2 1 5]
      pc.protocol_codec_axioms by auto
  show ?thesis
    by (intro exI conjI) (rule e(1), rule e(3), (simp add: e run_history_def insert_history_text_def set_history_text_def
        digits_eval quoted_def Let_def), rule e(5), (simp add: e run_history_def insert_history_text_def set_history_text_def
        digits_eval quoted_def Let_def))
qed

section \<open>Signing in\<close>

definition read_friend :: "codec \<Rightarrow> string \<Rightarrow> ct_friends_init list" where
  "read_friend c a = (case get_friends_info_json c a of
       Inr (Some (friends, nickname, icon, remarks, on_line)) \<Rightarrow>
         [\<lparr>fi_online = on_line, fi_friends = friends, fi_nickname = nickname, fi_icon = icon, fi_remarks = remarks\<rparr>]
     | _ \<Rightarrow> [])"

lemma only_throws_catch: "only_throws m \<Longrightarrow> catch_all m (Inr x) \<noteq> Inl e"
  by (auto simp: only_throws_def catch_all_def split: sum.splits fault.splits)

lemma only_throws_parse [simp]: "only_throws (parse c s)"
  by (simp add: parse_def split: option.splits)

lemma friends_info_returns: "get_friends_info_json c a \<noteq> Inl e"
  unfolding get_friends_info_json_def
  by (rule only_throws_catch) (intro only_throws_rbind only_throws_parse only_throws_read only_throws_simps)

lemma only_throws_strings: "only_throws (js_strings js)"
  by (induction js) (auto intro!: only_throws_rbind only_throws_read)

lemma json_vec_returns: "get_json_vec c a \<noteq> Inl e"
proof -
  have "only_throws (js_vec_string j)" for j
    by (cases j) (simp_all add: js_vec_string_def only_throws_strings)
  then show ?thesis unfolding get_json_vec_def
    by (intro only_throws_catch only_throws_rbind only_throws_parse only_throws_read) auto
qed

lemma read_friends_run:
  assumes "\<And>ct st. P st \<Longrightarrow> f ct st = Inr (g ct st) \<and> P (g ct st)"
  shows "P st \<Longrightarrow> read_friends c f vec fs st
    = Inr (fs @ concat (map (read_friend c) vec), fold g (concat (map (read_friend c) vec)) st)"
proof (induction vec arbitrary: fs st)
  case (Cons a vec)
  obtain r where r: "get_friends_info_json c a = Inr r"
    using friends_info_returns [of c a] by (cases "get_friends_info_json c a") auto
  show ?case
  proof (cases r)
    case None
    with r Cons show ?thesis by (simp add: read_friend_def)
  next
    case (Some x)
    obtain friends nickname icon remarks on_line where "x = (friends, nickname, icon, remarks, on_line)"
      by (cases x) auto
    with r Some Cons assms show ?thesis by (simp add: read_friend_def Let_def)
  qed
qed simp

lemma read_friends_returns: "(\<And>ct st. f ct st \<noteq> Inl e) \<Longrightarrow> read_friends c f vec fs st \<noteq> Inl e"
  by (induction vec arbitrary: fs st)
    (auto simp: rbind_eq_Inl friends_info_returns Let_def split: option.splits)

text \<open>The statement that makes the table of a friend.\<close>

definition create_history_sql :: "int64 \<Rightarrow> string" where
  "create_history_sql ac = CHR 0x0A # ''        CREATE TABLE IF NOT EXISTS history_'' @ to_string64 ac @ '' ('' @ CHR 0x0A #
     ''            send_time INTEGER PRIMARY KEY,'' @ CHR 0x0A #
     ''            feed_back INTEGER,'' @ CHR 0x0A #
     ''            non_read INTEGER CHECK (non_read >= 0 AND non_read <= 1),'' @ CHR 0x0A #
     ''            types TEXT,'' @ CHR 0x0A #
     ''            object TEXT,'' @ CHR 0x0A #
     ''            content TEXT'' @ CHR 0x0A #
     ''        );'' @ CHR 0x0A # ''        ''"

lemma history_create_template:
  "sformat history_create_text [A_str t, A_str a, A_str b, A_str n, A_str d, A_str e, A_str f] = Inr (CHR 0x0A #
     ''        CREATE TABLE IF NOT EXISTS '' @ t @ '' ('' @ CHR 0x0A #
     ''            '' @ a @ '' INTEGER PRIMARY KEY,'' @ CHR 0x0A # ''            '' @ b @ '' INTEGER,'' @ CHR 0x0A #
     ''            '' @ n @ '' INTEGER CHECK (non_read >= 0 AND non_read <= 1),'' @ CHR 0x0A #
     ''            '' @ d @ '' TEXT,'' @ CHR 0x0A # ''            '' @ e @ '' TEXT,'' @ CHR 0x0A #
     ''            '' @ f @ '' TEXT'' @ CHR 0x0A # ''        );'' @ CHR 0x0A # ''        '')"
  by (subst sformat_fill [of _ "([(CHR 0x0A # ''        CREATE TABLE IF NOT EXISTS '', 0),
      ('' ('' @ CHR 0x0A # ''            '', 1), ('' INTEGER PRIMARY KEY,'' @ CHR 0x0A # ''            '', 2),
      ('' INTEGER,'' @ CHR 0x0A # ''            '', 3),
      ('' INTEGER CHECK (non_read >= 0 AND non_read <= 1),'' @ CHR 0x0A # ''            '', 4),
      ('' TEXT,'' @ CHR 0x0A # ''            '', 5), ('' TEXT,'' @ CHR 0x0A # ''            '', 6)],
      '' TEXT'' @ CHR 0x0A # ''        );'' @ CHR 0x0A # ''        '')"])
    (simp_all add: holes history_create_text_def arg_to_string.simps)

lemma create_history_run:
  "history_ready h \<Longrightarrow> create_history eng ac h d = exec_plain eng (Inr (create_history_sql ac)) h d"
  using make_table_name [of h ac]
  by (simp add: create_history_def make_table_def history_create_template history_ready_def history_names_def create_history_sql_def)

lemma open_history_run:
  assumes "history_ready h" "hist_file h = ''../data/history_{0}.db''" "eng_open eng (''../data/history_'' @ to_string64 a @ ''.db'') d = (True, d')"
  shows "\<exists>h'. open_history eng a h d = Inr (True, h', d') \<and> history_ready h'
    \<and> hist_file h' = ''../data/history_'' @ to_string64 a @ ''.db'' \<and> db h' = Some (hist_file h')"
  using assms by (simp add: open_history_file open_db_def history_ready_def)

lemma open_record_file:
  "rec_file r = ''../data/record_{0}.db''
    \<Longrightarrow> open_record eng a r d = Inr (open_db eng (''../data/record_'' @ to_string64 a @ ''.db'')
      (r\<lparr>rec_file := ''../data/record_'' @ to_string64 a @ ''.db''\<rparr>) d)"
  using sformat_one [of "''../data/record_''" "''.db''" "A_int64 a"] by (simp add: open_record_def arg_to_string.simps)

lemma fold_run_history:
  "databases (fold (\<lambda>ct. run_history env (q ct)) cts st)
      = run_all (en_engine env) (hist_file (dbh st)) (map q cts) (databases st)
    \<and> signals (fold (\<lambda>ct. run_history env (q ct)) cts st) = signals st
    \<and> sent (fold (\<lambda>ct. run_history env (q ct)) cts st) = sent st
    \<and> db (dbh (fold (\<lambda>ct. run_history env (q ct)) cts st)) = db (dbh st)
    \<and> db (dbr (fold (\<lambda>ct. run_history env (q ct)) cts st)) = db (dbr st)"
  by (induction cts arbitrary: st) (simp_all add: run_history_def Let_def)

lemma login_run:
  assumes c: "protocol_codec (en_codec env)" and "history_ready (dbh st)"
    and "hist_file (dbh st) = ''../data/history_{0}.db''" "rec_file (dbr st) = ''../data/record_{0}.db''"
    and "eng_open (en_engine env) (''../data/history_'' @ to_string64 account @ ''.db'') (databases st) = (True, d1)"
    and "eng_open (en_engine env) (''../data/record_'' @ to_string64 account @ ''.db'') d1 = (True, d2)"
    and "set_ac_login_back (en_codec env) account nickname icon info = Inr s"
    and "get_json_vec (en_codec env) info = Inr vec" "friends = concat (map (read_friend (en_codec env)) vec)"
  shows "\<exists>st' q. client_sl_message env s st = Inr st' \<and> set_swap_cache (en_codec env) account = Inr q
    \<and> db (dbh st') = Some (''../data/history_'' @ to_string64 account @ ''.db'')
    \<and> db (dbr st') = Some (''../data/record_'' @ to_string64 account @ ''.db'')
    \<and> databases st' = run_all (en_engine env) (''../data/history_'' @ to_string64 account @ ''.db'')
        (map (\<lambda>ct. create_history_sql (fi_friends ct)) friends) d2
    \<and> signals st' = signals st @ [Cs_ac_login account nickname icon friends] \<and> sent st' = sent st @ [q]"
proof -
  note r = client_messages(5) [OF c assms(7)]
  let ?hf = "''../data/history_'' @ to_string64 account @ ''.db''"
  let ?rf = "''../data/record_'' @ to_string64 account @ ''.db''"
  obtain q where q: "set_swap_cache (en_codec env) account = Inr q"
    using client_replies_defined(2) [OF c] by blast
  obtain h' where h: "open_history (en_engine env) account (dbh st) (databases st) = Inr (True, h', d1)"
      "history_ready h'" "hist_file h' = ?hf" "db h' = Some (hist_file h')"
    using open_history_run [OF assms(2,3,5)] by blast
  let ?st1 = "st\<lparr>dbh := h', databases := d1\<rparr>"
  let ?st2 = "?st1\<lparr>dbr := (dbr st)\<lparr>rec_file := ?rf, db := Some ?rf\<rparr>, databases := d2\<rparr>"
  have o1: "on_history (open_history (en_engine env) account) st = Inr (True, ?st1)"
    by (simp add: on_history_def h)
  have o2: "on_record (open_record (en_engine env) account) ?st1 = Inr (True, ?st2)"
    using assms(6) by (simp add: on_record_def open_record_file [OF assms(4)] open_db_def)
  have opn: "history_open ?st2" using h by (simp add: history_open_def)
  let ?f = "\<lambda>ct st. rbind (on_history (create_history (en_engine env) (fi_friends ct)) st) (\<lambda>(ok, st). Inr st)"
  let ?g = "\<lambda>ct. run_history env (create_history_sql (fi_friends ct))"
  have step: "?f ct st' = Inr (?g ct st') \<and> history_open (?g ct st')" if "history_open st'" for ct st'
    using that on_history_run [OF that, of "create_history (en_engine env) (fi_friends ct)" env "create_history_sql (fi_friends ct)"]
    by (simp add: create_history_run history_open_def [of st'])
  have rd: "read_friends (en_codec env) ?f vec [] ?st2 = Inr (friends, fold ?g friends ?st2)"
    using read_friends_run [where P = history_open and f = ?f and g = ?g and c = "en_codec env" and vec = vec and fs = "[]" and st = ?st2,
        OF step opn]
    by (simp only: assms(9) append_Nil)
  have "client_sl_message env s st = task_ac_login_back env s st"
    using client_dispatch [OF protocol_json [OF c]] r client_tasks by blast
  also have "\<dots> = Inr (snd (client_send_msg env q (client_emit (Cs_ac_login account nickname icon friends) (fold ?g friends ?st2))))"
    using r by (simp only: task_ac_login_back_def rbind_Inr o1 o2 rd q assms(8) prod.case option.case)
  finally have run: "client_sl_message env s st
      = Inr (snd (client_send_msg env q (client_emit (Cs_ac_login account nickname icon friends) (fold ?g friends ?st2))))" .
  show ?thesis
    by (intro exI conjI, rule run, rule q)
      (use fold_run_history [of env "\<lambda>ct. create_history_sql (fi_friends ct)" friends ?st2] h(3,4)
        in \<open>simp_all add: client_send_msg_def client_emit_def\<close>)
qed

text \<open>
  C19: the server's reply to a login. The two databases of the account are opened, one table is made for
  each friend record that reads, in order, the same friends are handed on in one signal, and the saved
  messages of the account are asked for.
\<close>

theorem login_sequence:
  assumes c: "protocol_codec (en_codec env)" and "history_ready (dbh st)"
    and "hist_file (dbh st) = ''../data/history_{0}.db''" "rec_file (dbr st) = ''../data/record_{0}.db''"
    and "eng_open (en_engine env) (''../data/history_'' @ to_string64 account @ ''.db'') (databases st) = (True, d1)"
    and "eng_open (en_engine env) (''../data/record_'' @ to_string64 account @ ''.db'') d1 = (True, d2)"
    and "set_ac_login_back (en_codec env) account nickname icon info = Inr s"
    and "get_json_vec (en_codec env) info = Inr vec" "friends = concat (map (read_friend (en_codec env)) vec)"
  shows "\<exists>st' q. client_sl_message env s st = Inr st' \<and> set_swap_cache (en_codec env) account = Inr q
    \<and> db (dbh st') = Some (''../data/history_'' @ to_string64 account @ ''.db'')
    \<and> db (dbr st') = Some (''../data/record_'' @ to_string64 account @ ''.db'')
    \<and> databases st' = run_all (en_engine env) (''../data/history_'' @ to_string64 account @ ''.db'')
        (map (\<lambda>ct. create_history_sql (fi_friends ct)) friends) d2
    \<and> signals st' = signals st @ [Cs_ac_login account nickname icon friends] \<and> sent st' = sent st @ [q]"
  using assms by (rule login_run)

definition demo_offline :: "(string list) qweb_client" where
  "demo_offline = qweb_client_init \<lparr>min_delay = 0, max_delay = 0, delay_policy = 0\<rparr> []"

lemma demo_offline_simps [simp]:
  "history_ready (dbh demo_offline)" "record_ready (dbr demo_offline)" "databases demo_offline = []"
  "hist_file (dbh demo_offline) = ''../data/history_{0}.db''" "rec_file (dbr demo_offline) = ''../data/record_{0}.db''"
  "signals demo_offline = []" "sent demo_offline = []" "eng_open demo_engine f d = (True, d)"
  by (simp_all add: demo_offline_def qweb_client_init_def history_ready_init record_ready_init demo_open)
    (simp_all add: sqlite_history_init_def sqlite_record_init_def)

theorem login_sequence_witness:
  "\<exists>info s st q. rbind (rbind (set_friends_info_json text_codec 7 ''A'' [] [] True) (\<lambda>f. set_json_vec text_codec [f])) (\<lambda>info.
      set_ac_login_back text_codec 3 ''me'' [] info) = Inr s
    \<and> client_sl_message demo_env s demo_offline = Inr st \<and> databases st = [create_history_sql 7] \<and> sent st = [q]
    \<and> signals st = [Cs_ac_login 3 ''me'' []
        [\<lparr>fi_online = True, fi_friends = 7, fi_nickname = ''A'', fi_icon = [], fi_remarks = []\<rparr>]]"
proof -
  let ?ct = "\<lparr>fi_online = True, fi_friends = 7, fi_nickname = ''A'', fi_icon = [], fi_remarks = []\<rparr>"
  obtain f where f: "set_friends_info_json text_codec 7 ''A'' [] [] True = Inr f"
      "get_friends_info_json text_codec f = Inr (Some (7, ''A'', [], [], True))"
    by (rule friends_info_read [OF tc.json_codec_axioms, of "''A''" "[]" "[]" 7 True]) simp_all
  have "rbind (set_friends_info_json text_codec 7 ''A'' [] [] True) (\<lambda>ft. Inr (utf8_ok ft)) = Inr True"
    by code_simp
  with f have "list_all utf8_ok [f]" by simp
  then obtain info where i: "set_json_vec text_codec [f] = Inr info" "get_json_vec text_codec info = Inr [f]"
    using json_vec_read [OF tc.json_codec_axioms] by metis
  have "rbind (rbind (set_friends_info_json text_codec 7 ''A'' [] [] True) (\<lambda>f. set_json_vec text_codec [f]))
      (\<lambda>i. Inr (utf8_ok i)) = Inr True"
    by code_simp
  with f i have "utf8_ok info" by simp
  then obtain s where s: "set_ac_login_back text_codec 3 ''me'' [] info = Inr s"
    using set_msg_utf8 [OF pc.protocol_codec_axioms, of "Ac_login_back 3 ''me'' [] info"] by auto
  have "concat (map (read_friend text_codec) [f]) = [?ct]" by (simp add: read_friend_def f)
  then obtain st q where "client_sl_message demo_env s demo_offline = Inr st" "databases st = [create_history_sql 7]"
      "signals st = [Cs_ac_login 3 ''me'' [] [?ct]]" "sent st = [q]"
    using login_sequence [of demo_env demo_offline 3 "[]" "[]" "''me''" "[]" info s "[f]" "[?ct]"] s i
      pc.protocol_codec_axioms by auto
  with f i s show ?thesis by auto
qed

text \<open>
  The saved messages the server hands over on request are handled as if each had arrived by itself,
  in their order.
\<close>

theorem cache_delivers:
  assumes c: "protocol_codec (en_codec env)" and "list_all utf8_ok vec"
    and "set_json_vec (en_codec env) vec = Inr svec" "set_swap_cache_back (en_codec env) svec = Inr s"
  shows "client_sl_message env s st = deliver (client_sl_message env) vec st"
proof -
  note r = client_messages(4) [OF c assms(4)]
  have "get_json_vec (en_codec env) svec = Inr vec"
    using json_vec_read [OF protocol_json [OF c] assms(2)] assms(3) by (metis sum.inject(2))
  moreover have "client_sl_message env s st = task_swap_cache_back env (client_sl_message env) s st"
    using client_dispatch [OF protocol_json [OF c]] r client_tasks by blast
  ultimately show ?thesis using r by (simp add: task_swap_cache_back_def)
qed

theorem cache_delivers_witness:
  "\<exists>m s. set_swap_msg_back text_codec 2 1 5 6 = Inr m
    \<and> rbind (set_json_vec text_codec [m]) (set_swap_cache_back text_codec) = Inr s
    \<and> client_sl_message demo_env s demo_online = deliver (client_sl_message demo_env) [m] demo_online"
proof -
  obtain m where m: "set_swap_msg_back text_codec 2 1 5 6 = Inr m"
    using client_replies_defined(1) [OF pc.protocol_codec_axioms] by metis
  have "rbind (set_swap_msg_back text_codec 2 1 5 6) (\<lambda>m. rbind (set_json_vec text_codec [m]) (\<lambda>v. Inr (utf8_ok m \<and> utf8_ok v)))
      = Inr True"
    by code_simp
  with m have "rbind (set_json_vec text_codec [m]) (\<lambda>v. Inr (utf8_ok m \<and> utf8_ok v)) = Inr True"
    by simp
  then obtain svec where svec: "set_json_vec text_codec [m] = Inr svec" "utf8_ok svec" "list_all utf8_ok [m]"
    by (cases "set_json_vec text_codec [m]") auto
  then obtain t where "set_swap_cache_back text_codec svec = Inr t"
    using set_msg_utf8 [OF pc.protocol_codec_axioms, of "Swap_cache_back svec"] by auto
  with m svec cache_delivers [of demo_env "[m]" svec t demo_online] pc.protocol_codec_axioms show ?thesis by auto
qed

section \<open>How the client ends\<close>

lemma friend_request_throws:
  assumes c: "protocol_codec (en_codec env)" and "record_ready (dbr st)"
    and "brace_free l" "brace_free x" "stoi x \<noteq> Inr 0"
    and "set_swap_friens_add (en_codec env) t account friends (l @ CHR ''{'' # x @ CHR ''}'' # r) remarks = Inr s"
  shows "client_sl_message env s st = Inl (Throw Out_of_range)"
proof -
  note m = client_messages(3) [OF c assms(6)]
  have "client_sl_message env s st = task_swap_friens_add env s st"
    using client_dispatch [OF protocol_json [OF c]] m client_tasks by blast
  then show ?thesis
    using m insert_record_bad [OF assms(2-5), where eng = "en_engine env" and d = "databases st"]
    by (simp add: task_swap_friens_add_def on_record_def)
qed

text \<open>
  A friend request whose notes hold a pair of braces around anything but a zero ends the client that
  receives it: the exception of the insertion leaves \<open>sl_message\<close>.
\<close>

theorem friend_request_crash:
  assumes c: "protocol_codec (en_codec env)" and "record_ready (dbr st)"
    and "brace_free l" "brace_free x" "stoi x \<noteq> Inr 0"
    and "set_swap_friens_add (en_codec env) t account friends (l @ CHR ''{'' # x @ CHR ''}'' # r) remarks = Inr s"
  shows "client_sl_message env s st = Inl (Throw Out_of_range)"
  using assms by (rule friend_request_throws)

theorem friend_request_crash_witness:
  "\<exists>s. set_swap_friens_add text_codec 5 8 7 ''hi {you}'' ''bob'' = Inr s
    \<and> client_sl_message demo_env s demo_offline = Inl (Throw Out_of_range)"
proof -
  obtain s where s: "set_swap_friens_add text_codec 5 8 7 ''hi {you}'' ''bob'' = Inr s"
    using set_msg_utf8 [OF pc.protocol_codec_axioms, of "Swap_friens_add 5 8 7 ''hi {you}'' ''bob''"] by auto
  have "stoi ''you'' = Inl (Throw Invalid_argument)" by code_simp
  with s friend_request_crash [of demo_env demo_offline "''hi ''" "''you''" 5 8 7 "[]" "''bob''" s] pc.protocol_codec_axioms
  show ?thesis by auto
qed

definition fmt_only :: "'a res \<Rightarrow> bool" where
  "fmt_only m \<longleftrightarrow> (\<forall>e. m = Inl e \<longrightarrow> e = Throw Out_of_range)"

lemma fmt_only_Inr [simp]: "fmt_only (Inr x)"
  by (simp add: fmt_only_def)

lemma fmt_only_sformat [simp]: "fmt_only (sformat f args)"
  by (auto simp: fmt_only_def dest: sformat_fault)

lemma fmt_only_rbind [intro!]: "fmt_only m \<Longrightarrow> (\<And>x. m = Inr x \<Longrightarrow> fmt_only (f x)) \<Longrightarrow> fmt_only (rbind m f)"
  by (cases m) (auto simp: fmt_only_def)

lemma fmt_only_exec_plain: "fmt_only q \<Longrightarrow> fmt_only (exec_plain eng q st d)"
  by (auto simp: exec_plain_def split: prod.splits)

lemma fmt_only_parse_sql [simp]: "fmt_only (insert_parse_sql sql v app)"
  by (auto simp: insert_parse_sql_def)

lemma fmt_only_insert_mpl [simp]: "fmt_only (insert_mpl sql args)"
  by (induction sql args rule: insert_mpl.induct) auto

lemma fmt_only_ops:
  "fmt_only (insert_history eng ac tup h d)" "fmt_only (update_feed_back eng ac t v h d)"
  "fmt_only (create_history eng ac h d)" "fmt_only (open_history eng ac h d)"
  "fmt_only (insert_record eng ac t fr notes remarks r d)" "fmt_only (open_record eng ac r d)"
  by (auto simp: insert_history_def update_feed_back_def create_history_def open_history_def insert_record_def
      open_record_def make_table_def to_tabel_def insert_db_def update_db_def insert_sql_def update_sql_def
      intro!: fmt_only_exec_plain split: prod.splits)

lemma fmt_only_on:
  "(\<And>h d. fmt_only (f h d)) \<Longrightarrow> fmt_only (on_history f st)"
  "(\<And>r d. fmt_only (g r d)) \<Longrightarrow> fmt_only (on_record g st)"
  by (auto simp: on_history_def on_record_def split: prod.splits)

lemma fmt_only_read_friends: "(\<And>ct st. fmt_only (f ct st)) \<Longrightarrow> fmt_only (read_friends c f vec fs st)"
  by (induction vec arbitrary: fs st)
    (auto simp: fmt_only_def rbind_eq_Inl friends_info_returns Let_def split: option.splits)

text \<open>A reader returns on a text that parses.\<close>

lemma client_readers_return:
  assumes "js_parse c s \<noteq> None"
  shows "get_ac_login_back c s \<noteq> Inl e" "get_ac_register_back c s \<noteq> Inl e" "get_swap_friens_add c s \<noteq> Inl e"
    "get_ac_update_friends_back c s \<noteq> Inl e" "get_ac_info_all_back c s \<noteq> Inl e" "get_ac_update_info_back c s \<noteq> Inl e"
    "get_ac_update_remarks_back c s \<noteq> Inl e" "get_swap_msg c s \<noteq> Inl e" "get_swap_msg_back c s \<noteq> Inl e"
    "get_error_info c s \<noteq> Inl e" "get_swap_cache_back c s \<noteq> Inl e"
  using assms unfolding get_msg_defs
  by (subst cs_get_fault; (intro only_throws_rbind only_throws_get_extend only_throws_read only_throws_simps)?; simp)+

lemma fmt_only_reader: "(\<And>e. m \<noteq> Inl e) \<Longrightarrow> fmt_only m"
  by (simp add: fmt_only_def)

lemma fmt_only_client_tasks:
  assumes c: "protocol_codec (en_codec env)" and p: "js_parse (en_codec env) s \<noteq> None"
  shows "fmt_only (task_ac_login_back env s st)" "fmt_only (task_ac_register_back env s st)"
    "fmt_only (task_ac_info_all_back env s st)" "fmt_only (task_ac_update_info_back env s st)"
    "fmt_only (task_ac_update_remarks_back env s st)" "fmt_only (task_ac_update_friends_back env s st)"
    "fmt_only (task_swap_friens_add env s st)" "fmt_only (task_swap_msg env s st)"
    "fmt_only (task_swap_msg_back env s st)" "fmt_only (task_error_info env s st)"
proof -
  have sets: "fmt_only (set_swap_msg_back (en_codec env) a b t ok)" "fmt_only (set_swap_cache (en_codec env) ac)" for a b t ok ac
    using client_replies_defined(1) [OF c, of a b t ok] client_replies_defined(2) [OF c, of ac] by auto
  note readers = client_readers_return [OF p, THEN fmt_only_reader]
  note rules = fmt_only_rbind fmt_only_on fmt_only_ops readers sets fmt_only_read_friends json_vec_returns [THEN fmt_only_reader]
  show "fmt_only (task_ac_login_back env s st)"
    unfolding task_ac_login_back_def
    by (auto intro!: rules split: option.splits prod.splits)
  show "fmt_only (task_ac_register_back env s st)" "fmt_only (task_ac_info_all_back env s st)"
    "fmt_only (task_ac_update_info_back env s st)" "fmt_only (task_ac_update_remarks_back env s st)"
    "fmt_only (task_error_info env s st)"
    unfolding task_ac_register_back_def task_ac_info_all_back_def task_ac_update_info_back_def
      task_ac_update_remarks_back_def task_error_info_def
    by (auto intro!: rules split: option.splits prod.splits)
  show "fmt_only (task_ac_update_friends_back env s st)" "fmt_only (task_swap_friens_add env s st)"
    "fmt_only (task_swap_msg_back env s st)"
    unfolding task_ac_update_friends_back_def task_swap_friens_add_def task_swap_msg_back_def
    by (auto intro!: rules split: option.splits prod.splits)
  show "fmt_only (task_swap_msg env s st)"
    unfolding task_swap_msg_def Let_def
    by (auto intro!: rules split: option.splits prod.splits)
qed

definition client_fault :: "fault \<Rightarrow> bool" where
  "client_fault e \<longleftrightarrow> e = Crash Assertion_failed \<or> e = Throw Out_of_range"

lemma deliver_fault:
  "(\<And>a st e. a \<in> set vec \<Longrightarrow> f a st = Inl e \<Longrightarrow> client_fault e) \<Longrightarrow> deliver f vec st = Inl e \<Longrightarrow> client_fault e"
  by (induction vec arbitrary: st) (auto simp: rbind_eq_Inl)

lemma task_swap_cache_back_fault:
  assumes "json_codec (en_codec env)" "js_parse (en_codec env) s \<noteq> None"
    and "\<And>a st e. length a < length s \<Longrightarrow> f a st = Inl e \<Longrightarrow> client_fault e"
    and "task_swap_cache_back env f s st = Inl e"
  shows "client_fault e"
proof -
  obtain svec vec where v: "get_swap_cache_back (en_codec env) s = Inr (Some svec)"
      "get_json_vec (en_codec env) svec = Inr vec" "deliver f vec st = Inl e"
    using assms(4) client_readers_return(11) [OF assms(2)] json_vec_returns [of "en_codec env"]
    by (auto simp: task_swap_cache_back_def rbind_eq_Inl split: option.splits)
  have "client_fault e'" if "a \<in> set vec" "f a st' = Inl e'" for a st' e'
    by (rule assms(3) [OF _ that(2)])
      (use cache_text_shorter [OF assms(1) v(1)] vec_text_shorter [OF assms(1) v(2) that(1)] in simp)
  then show ?thesis using v(3) by (rule deliver_fault)
qed

lemma client_map_fn_fault:
  assumes "protocol_codec (en_codec env)" "js_parse (en_codec env) s \<noteq> None"
    and "\<And>a st e. length a < length s \<Longrightarrow> f a st = Inl e \<Longrightarrow> client_fault e"
    and "client_map_fn env f ty = Some task" "task s st = Inl e"
  shows "client_fault e"
proof (cases "ty = ''swap_cache_back''")
  case True
  with assms(4,5) have "task_swap_cache_back env f s st = Inl e" by (simp add: client_map_fn_def)
  with assms(3) show ?thesis using task_swap_cache_back_fault [OF protocol_json [OF assms(1)] assms(2), of f st e] by blast
next
  case False
  with assms(4) have "fmt_only (task s st)"
    using fmt_only_client_tasks [OF assms(1,2)] by (auto simp: client_map_fn_def split: if_splits)
  with assms(5) show ?thesis by (simp add: fmt_only_def client_fault_def)
qed

text \<open>
  C15: the client always comes to the end of a message of the server, however the saved messages in it are
  nested, unless it ends altogether, and only two things end it: the failed assertion of \<open>check_json\<close>
  and a text with braces that reaches a statement.
\<close>

theorem client_message_faults:
  assumes c: "protocol_codec (en_codec env)" and "client_sl_message env s st = Inl e"
  shows "e = Crash Assertion_failed \<or> e = Throw Out_of_range"
  using assms(2)
proof (induction "length s" arbitrary: s st e rule: less_induct)
  case less
  have ih: "client_fault e" if "length a < length s" "client_sl_message env a st = Inl e" for a st e
    using less(1) [OF that] by (simp add: client_fault_def)
  show ?case
  proof (cases "check_json (en_codec env) s")
    case (Inl e')
    with less(2) have "e = e'" by (simp add: client_sl_message_eq [OF protocol_json [OF c]])
    with check_json_fault [OF Inl] show ?thesis by simp
  next
    case (Inr r)
    with less(2) obtain stream ty task where t: "r = Some (stream, ty)"
        "client_map_fn env (client_sl_message env) ty = Some task" "task s st = Inl e"
      by (auto simp: client_sl_message_eq [OF protocol_json [OF c]] split: option.splits if_splits)
    with Inr have "js_parse (en_codec env) s \<noteq> None" using check_json_parses by blast
    from client_map_fn_fault [OF c this ih t(2,3)] show ?thesis by (simp add: client_fault_def)
  qed
qed

theorem client_message_faults_witness:
  "\<exists>s e. client_sl_message demo_env s demo_offline = Inl e \<and> (e = Crash Assertion_failed \<or> e = Throw Out_of_range)"
proof -
  obtain s where s: "set_swap_friens_add text_codec 5 8 7 ''hi {you}'' ''bob'' = Inr s"
    using set_msg_utf8 [OF pc.protocol_codec_axioms, of "Swap_friens_add 5 8 7 ''hi {you}'' ''bob''"] by auto
  have "stoi ''you'' = Inl (Throw Invalid_argument)" by code_simp
  with s have "client_sl_message demo_env s demo_offline = Inl (Throw Out_of_range)"
    using friend_request_throws [of demo_env demo_offline "''hi ''" "''you''" 5 8 7 "[]" "''bob''" s] pc.protocol_codec_axioms
    by simp
  with client_message_faults [of demo_env s demo_offline] pc.protocol_codec_axioms show ?thesis by auto
qed

end
