(* ===== verification/Client_Runs.thy ===== *)
theory Client_Runs
  imports Client_Laws
begin

text \<open>
  The runs of the task client: a step is one call of the program or one event of the connection. What
  holds in every state a run reaches, and what a step never changes.
\<close>

section \<open>Steps\<close>

inductive client_call :: "'d client_env \<Rightarrow> 'd qweb_client \<Rightarrow> 'd qweb_client \<Rightarrow> bool" for env where
  opened: "client_call env st (client_sl_open st)"
| closed: "client_call env st (client_sl_close st)"
| open_call: "client_open wc_open ip port txt st = (ret, st') \<Longrightarrow> client_call env st st'"
| close_call: "client_call env st (client_close st)"
| login: "ask_login env account passwd st = Inr (ok, st') \<Longrightarrow> client_call env st st'"
| register: "ask_register env phone age sex nickname location passwd st = Inr (ok, st') \<Longrightarrow> client_call env st st'"
| swap_msg: "ask_swap_msg env m st = Inr (ok, st') \<Longrightarrow> client_call env st st'"
| swap_msg_back: "ask_swap_msg_back env mb st = Inr (ok, st') \<Longrightarrow> client_call env st st'"
| update_info: "ask_update_info env info st = Inr (ok, st') \<Longrightarrow> client_call env st st'"
| update_remarks: "ask_update_remarks env account friends remarks st = Inr (ok, st') \<Longrightarrow> client_call env st st'"
| info_all: "ask_info_all env types account st = Inr (ok, st') \<Longrightarrow> client_call env st st'"
| friens_add: "ask_swap_friens_add env fa st = Inr (ok, st') \<Longrightarrow> client_call env st st'"
| update_friends: "ask_update_friends env account friends ac_remarks fr_remarks st = Inr (ok, st') \<Longrightarrow> client_call env st st'"

inductive client_step :: "'d client_env \<Rightarrow> 'd qweb_client \<Rightarrow> 'd qweb_client \<Rightarrow> bool" for env where
  call: "client_call env st st' \<Longrightarrow> client_step env st st'"
| message: "client_sl_message env s st = Inr st' \<Longrightarrow> client_step env st st'"

section \<open>What a call on a database keeps\<close>

definition history_template :: string where "history_template = ''../data/history_{0}.db''"

definition history_name :: "int64 \<Rightarrow> string" where "history_name a = ''../data/history_'' @ to_string64 a @ ''.db''"

text \<open>The history is at no file yet, or at the file of one account, open or not.\<close>

definition good_history :: "sqlite_history \<Rightarrow> bool" where
  "good_history h \<longleftrightarrow> history_ready h
     \<and> (hist_file h = history_template \<and> db h = None
        \<or> (\<exists>a. hist_file h = history_name a \<and> (db h = None \<or> db h = Some (hist_file h))))"

definition history_moves :: "sqlite_history \<Rightarrow> sqlite_history \<Rightarrow> bool" where
  "history_moves h h' \<longleftrightarrow> (good_history h \<longrightarrow> good_history h'
     \<and> (hist_file h \<noteq> history_template \<longrightarrow> hist_file h' = hist_file h))"

lemma history_moves_refl [simp]: "history_moves h h"
  by (simp add: history_moves_def)

lemma history_moves_trans: "history_moves h h1 \<Longrightarrow> history_moves h1 h2 \<Longrightarrow> history_moves h h2"
  by (auto simp: history_moves_def)

lemma history_name_not_template: "history_name a \<noteq> history_template"
proof
  assume "history_name a = history_template"
  then have "CHR ''{'' \<in> set (to_string64 a @ ''.db'')" by (simp add: history_name_def history_template_def)
  then show False using brace_free_to_string64 [of a] by (simp add: brace_free_def)
qed

lemma exec_plain_moves: "exec_plain eng q h d = Inr (ok, h', d') \<Longrightarrow> history_moves h h'"
  using exec_plain_history [of eng q h d ok h' d'] by (simp add: history_moves_def good_history_def)

lemma history_ops_move:
  "insert_history eng ac tup h d = Inr (ok, h', d') \<Longrightarrow> history_moves h h'"
  "update_feed_back eng ac t v h d = Inr (ok, h', d') \<Longrightarrow> history_moves h h'"
  "create_history eng ac h d = Inr (ok, h', d') \<Longrightarrow> history_moves h h'"
  by (auto simp: insert_history_def update_feed_back_def create_history_def insert_db_def update_db_def rbind_eq_Inr
      split: prod.splits dest: exec_plain_moves)

lemma open_db_file:
  "open_db eng file h d = (ok, h', d') \<Longrightarrow> history_ready h' = history_ready h \<and> hist_file h' = hist_file h
    \<and> (db h' = None \<or> db h' = Some file)"
  by (auto simp: open_db_def history_ready_def split: prod.splits bool.splits)

lemma open_history_moves:
  assumes "open_history eng a h d = Inr (ok, h', d')"
  shows "history_moves h h'"
proof -
  obtain fl where f: "sformat (hist_file h) [A_int64 a] = Inr fl" "open_db eng fl (h\<lparr>hist_file := fl\<rparr>) d = (ok, h', d')"
    using assms by (auto simp: open_history_def rbind_eq_Inr)
  note o = open_db_file [OF f(2)]
  show ?thesis
  proof (cases "hist_file h = history_template")
    case True
    then have "fl = history_name a"
      using f(1) sformat_one [of "''../data/history_''" "''.db''" "A_int64 a"]
      by (simp add: history_template_def history_name_def arg_to_string.simps)
    then show ?thesis using o True
      by (auto simp: history_moves_def good_history_def history_ready_def)
  next
    case False
    have "good_history h' \<and> hist_file h' = hist_file h" if g: "good_history h"
    proof -
      from g False have "sformat (hist_file h) [A_int64 a] = Inr (hist_file h)"
        by (intro sformat_brace_free) (auto simp: good_history_def history_name_def)
      with f(1) have "fl = hist_file h" by simp
      with o g False show ?thesis by (auto simp: good_history_def history_ready_def)
    qed
    then show ?thesis by (simp add: history_moves_def)
  qed
qed

definition record_moves :: "sqlite_record \<Rightarrow> sqlite_record \<Rightarrow> bool" where
  "record_moves r r' \<longleftrightarrow> (record_ready r \<longrightarrow> record_ready r')"

lemma record_exec_plain: "exec_plain eng q r d = Inr (ok, r', d') \<Longrightarrow> record_moves r r'"
  by (cases q) (auto simp: exec_plain_def record_moves_def dest!: exec_db_record split: prod.splits)

lemma open_db_record: "open_db eng file r d = (ok, r', d') \<Longrightarrow> record_ready r' = record_ready r"
  by (auto simp: open_db_def record_ready_def split: prod.splits bool.splits)

lemma record_ops_move:
  "insert_record eng ac t fr notes remarks r d = Inr (ok, r', d') \<Longrightarrow> record_moves r r'"
  "open_record eng ac r d = Inr (ok, r', d') \<Longrightarrow> record_moves r r'"
proof -
  show "insert_record eng ac t fr notes remarks r d = Inr (ok, r', d') \<Longrightarrow> record_moves r r'"
    by (auto simp: insert_record_def insert_db_def rbind_eq_Inr dest: record_exec_plain)
  assume "open_record eng ac r d = Inr (ok, r', d')"
  then obtain fl where "open_db eng fl (r\<lparr>rec_file := fl\<rparr>) d = (ok, r', d')"
    by (auto simp: open_record_def rbind_eq_Inr)
  from open_db_record [OF this] show "record_moves r r'" by (simp add: record_moves_def record_ready_def)
qed

section \<open>What a step keeps\<close>

definition client_moves :: "'d qweb_client \<Rightarrow> 'd qweb_client \<Rightarrow> bool" where
  "client_moves st st' \<longleftrightarrow> (online st' \<longrightarrow> online st) \<and> history_moves (dbh st) (dbh st') \<and> record_moves (dbr st) (dbr st')"

lemma client_moves_refl [simp]: "client_moves st st"
  by (simp add: client_moves_def record_moves_def)

lemma client_moves_trans: "client_moves st st1 \<Longrightarrow> client_moves st1 st2 \<Longrightarrow> client_moves st st2"
  by (auto simp: client_moves_def record_moves_def intro: history_moves_trans)

lemma client_moves_more [simp]:
  "client_moves st (client_emit sg st') = client_moves st st'"
  "client_moves st (snd (client_send_msg env s st')) = client_moves st st'"
  "client_moves st (st'\<lparr>ticks := n\<rparr>) = client_moves st st'"
  by (simp_all add: client_moves_def client_emit_def client_send_msg_def)

definition moving :: "'d qweb_client \<Rightarrow> ('d qweb_client) res \<Rightarrow> bool" where
  "moving st m \<longleftrightarrow> (\<forall>st'. m = Inr st' \<longrightarrow> client_moves st st')"

lemma movingI: "(\<And>st'. m = Inr st' \<Longrightarrow> client_moves st st') \<Longrightarrow> moving st m"
  by (simp add: moving_def)

lemma moving_Inr [simp]: "moving st (Inr st') = client_moves st st'"
  by (simp add: moving_def)

lemma moving_bind: "(\<And>x. m = Inr x \<Longrightarrow> moving st (f x)) \<Longrightarrow> moving st (rbind m f)"
  by (cases m) (auto simp: moving_def)

lemma moving_step: "client_moves st st1 \<Longrightarrow> moving st1 m \<Longrightarrow> moving st m"
  by (auto simp: moving_def intro: client_moves_trans)

lemma on_history_moves:
  assumes "\<And>h d ok h' d'. f h d = Inr (ok, h', d') \<Longrightarrow> history_moves h h'" "on_history f st = Inr (ok, st')"
  shows "client_moves st st'"
  using assms by (auto simp: on_history_def rbind_eq_Inr client_moves_def record_moves_def)

lemma on_record_moves:
  assumes "\<And>r d ok r' d'. f r d = Inr (ok, r', d') \<Longrightarrow> record_moves r r'" "on_record f st = Inr (ok, st')"
  shows "client_moves st st'"
  using assms by (auto simp: on_record_def rbind_eq_Inr client_moves_def)

lemma history_calls:
  "on_history (insert_history eng ac tup) st = Inr (ok, st') \<Longrightarrow> client_moves st st'"
  "on_history (update_feed_back eng ac t v) st = Inr (ok, st') \<Longrightarrow> client_moves st st'"
  "on_history (create_history eng ac) st = Inr (ok, st') \<Longrightarrow> client_moves st st'"
  "on_history (open_history eng ac) st = Inr (ok, st') \<Longrightarrow> client_moves st st'"
  by (erule on_history_moves [rotated], erule history_ops_move open_history_moves)+

lemma record_calls:
  "on_record (insert_record eng ac t fr notes remarks) st = Inr (ok, st') \<Longrightarrow> client_moves st st'"
  "on_record (open_record eng ac) st = Inr (ok, st') \<Longrightarrow> client_moves st st'"
  by (erule on_record_moves [rotated], erule record_ops_move)+

lemma read_friends_moves:
  assumes "\<And>ct st. moving st (f ct st)"
  shows "read_friends c f vec fs st = Inr (fs', st') \<Longrightarrow> client_moves st st'"
proof (induction vec arbitrary: fs st)
  case (Cons a vec)
  show ?case
  proof (cases "get_friends_info_json c a")
    case (Inr r)
    show ?thesis
    proof (cases r)
      case None
      with Cons Inr show ?thesis by simp
    next
      case (Some x)
      obtain friends nickname icon remarks on_line where x: "x = (friends, nickname, icon, remarks, on_line)"
        by (cases x) auto
      let ?ct = "\<lparr>fi_online = on_line, fi_friends = friends, fi_nickname = nickname, fi_icon = icon, fi_remarks = remarks\<rparr>"
      obtain st1 where "f ?ct st = Inr st1" "read_friends c f vec (fs @ [?ct]) st1 = Inr (fs', st')"
        using Cons(2) Inr Some x by (auto simp: rbind_eq_Inr Let_def)
      with Cons(1) assms [of st ?ct] show ?thesis by (auto simp: moving_def intro: client_moves_trans)
    qed
  qed (use Cons in simp)
qed simp

text \<open>A handler: read the message, then calls, each from the state the one before it left.\<close>

lemma moving_read: "(\<And>x. moving st (f x)) \<Longrightarrow> moving st (rbind m (\<lambda>r. case r of None \<Rightarrow> Inr st | Some x \<Rightarrow> f x))"
  by (rule moving_bind) (simp split: option.splits)

lemma moving_call:
  assumes "\<And>x st1. m = Inr (x, st1) \<Longrightarrow> client_moves st st1" "\<And>x st1. moving st1 (f (x, st1))"
  shows "moving st (rbind m f)"
proof (rule moving_bind)
  fix y assume y: "m = Inr y"
  obtain x st1 where "y = (x, st1)" by (cases y)
  with assms y show "moving st (f y)" by (auto intro: moving_step)
qed

lemma create_history_moving:
  "moving st (rbind (on_history (create_history eng ac) st) (\<lambda>(ok, st). Inr st))"
  by (rule moving_call) (auto dest: history_calls)

text \<open>The reply to a login, after the databases were opened.\<close>

lemma login_rest_moving:
  "moving st (rbind (get_json_vec c info) (\<lambda>vec.
     rbind (read_friends c (\<lambda>ct st. rbind (on_history (create_history eng (fi_friends ct)) st) (\<lambda>(ok, st). Inr st)) vec [] st)
       (\<lambda>(vec_friends, st).
     rbind (set_swap_cache c ac) (\<lambda>s. Inr (snd (client_send_msg env s (client_emit (Cs_ac_login ac nickname icon vec_friends) st)))))))"
proof (rule moving_bind)
  fix vec
  show "moving st (rbind (read_friends c (\<lambda>ct st. rbind (on_history (create_history eng (fi_friends ct)) st) (\<lambda>(ok, st). Inr st)) vec [] st)
       (\<lambda>(vec_friends, st).
     rbind (set_swap_cache c ac) (\<lambda>s. Inr (snd (client_send_msg env s (client_emit (Cs_ac_login ac nickname icon vec_friends) st))))))"
    by (rule moving_call, erule read_friends_moves [OF create_history_moving]) (auto intro!: moving_bind)
qed

lemma task_ac_login_back_moving: "moving st (task_ac_login_back env s st)"
proof -
  have "moving st (rbind (on_history (open_history (en_engine env) ac) st) (\<lambda>(ok, st).
      rbind (on_record (open_record (en_engine env) ac) st) (\<lambda>(ok, st). f st)))"
    if "\<And>st. moving st (f st)" for ac f and st :: "'a qweb_client"
    using that by (auto intro!: moving_call dest: history_calls record_calls)
  note opens = this
  show ?thesis
    unfolding task_ac_login_back_def
    by (rule moving_read) (auto intro!: opens login_rest_moving split: prod.splits)
qed

lemma other_tasks_moving:
  "moving st (task_ac_register_back env s st)" "moving st (task_ac_info_all_back env s st)"
  "moving st (task_ac_update_info_back env s st)" "moving st (task_ac_update_remarks_back env s st)"
  "moving st (task_error_info env s st)"
  unfolding task_ac_register_back_def task_ac_info_all_back_def task_ac_update_info_back_def
    task_ac_update_remarks_back_def task_error_info_def
  by (auto intro!: moving_bind split: prod.splits option.splits)

lemma task_ac_update_friends_back_moving: "moving st (task_ac_update_friends_back env s st)"
  unfolding task_ac_update_friends_back_def
  by (rule moving_read, rule moving_bind, rule moving_call, rule read_friends_moves [where f = "\<lambda>ct. Inr"]) auto

lemma task_swap_friens_add_moving: "moving st (task_swap_friens_add env s st)"
  unfolding task_swap_friens_add_def
  by (rule moving_read) (auto intro!: moving_call dest: record_calls split: prod.splits)

lemma task_swap_msg_back_moving: "moving st (task_swap_msg_back env s st)"
  unfolding task_swap_msg_back_def
  by (rule moving_read) (auto intro!: moving_call dest: history_calls split: prod.splits)

lemma task_swap_msg_moving: "moving st (task_swap_msg env s st)"
  unfolding task_swap_msg_def
  by (rule moving_read) (auto intro!: moving_call moving_bind dest: history_calls simp: Let_def clock_now_def split: prod.splits)

lemma deliver_moving: "(\<And>a st. a \<in> set vec \<Longrightarrow> moving st (f a st)) \<Longrightarrow> moving st (deliver f vec st)"
proof (induction vec arbitrary: st)
  case (Cons a vec)
  have "moving st1 (deliver f vec st1)" for st1 by (rule Cons(1)) (use Cons(2) in auto)
  moreover have "moving st (f a st)" by (rule Cons(2)) simp
  ultimately show ?case by (auto simp: moving_def rbind_eq_Inr intro: client_moves_trans)
qed simp

lemma message_moving:
  assumes "json_codec (en_codec env)"
  shows "moving st (client_sl_message env s st)"
proof (induction "length s" arbitrary: s st rule: less_induct)
  case less
  have cache: "moving st (task_swap_cache_back env (client_sl_message env) s st)"
  proof (rule movingI)
    fix st' assume run: "task_swap_cache_back env (client_sl_message env) s st = Inr st'"
    show "client_moves st st'"
    proof (cases "get_swap_cache_back (en_codec env) s = Inr None")
      case True
      with run show ?thesis by (simp add: task_swap_cache_back_def)
    next
      case False
      with run obtain svec vec where v: "get_swap_cache_back (en_codec env) s = Inr (Some svec)"
          "get_json_vec (en_codec env) svec = Inr vec" "deliver (client_sl_message env) vec st = Inr st'"
        by (auto simp: task_swap_cache_back_def rbind_eq_Inr split: option.splits)
      have "moving st (deliver (client_sl_message env) vec st)"
        by (rule deliver_moving, rule less)
          (use cache_text_shorter [OF assms v(1)] vec_text_shorter [OF assms v(2)] in fastforce)
      with v(3) show ?thesis by (simp add: moving_def)
    qed
  qed
  have "moving st (task s st)" if "client_map_fn env (client_sl_message env) ty = Some task" for ty task
    using that cache task_ac_login_back_moving other_tasks_moving task_ac_update_friends_back_moving
      task_swap_friens_add_moving task_swap_msg_back_moving task_swap_msg_moving
    by (auto simp: client_map_fn_def split: if_splits)
  then show ?case
    unfolding client_sl_message_eq [OF assms, of s]
    by (auto intro!: moving_bind split: option.splits prod.splits)
qed

lemma send_msg_moves: "client_send_msg env q st = (ok, st') \<Longrightarrow> client_moves st st'"
  using client_moves_more(2) [of st env q st] by (simp add: client_moves_def)

lemma client_call_moves:
  assumes "client_call env st st'"
  shows "client_moves st st'"
  using assms
proof cases
  case open_call
  then show ?thesis by (auto simp: client_open_def client_moves_def record_moves_def split: prod.splits)
next
  case swap_msg
  then show ?thesis
    by (auto simp: ask_swap_msg_def rbind_eq_Inr split: if_splits
        dest!: history_calls send_msg_moves intro: client_moves_trans)
qed (auto simp: ask_login_def ask_register_def ask_swap_msg_back_def ask_update_info_def ask_update_remarks_def
    ask_info_all_def ask_swap_friens_add_def ask_update_friends_def client_sl_open_def client_sl_close_def client_close_def
    rbind_eq_Inr client_moves_def record_moves_def client_emit_def client_send_msg_def)

lemma client_step_moves:
  assumes "json_codec (en_codec env)" "client_step env st st'"
  shows "client_moves st st'"
  using assms(2)
proof cases
  case call
  then show ?thesis by (rule client_call_moves)
next
  case message
  with message_moving [OF assms(1), of st] show ?thesis by (simp add: moving_def)
qed

lemma client_run_moves:
  assumes "json_codec (en_codec env)" "(client_step env)\<^sup>*\<^sup>* st st'"
  shows "client_moves st st'"
  using assms(2) by induction (auto intro: client_moves_trans client_step_moves [OF assms(1)])

lemma init_good: "good_history (dbh (qweb_client_init rec d))" "record_ready (dbr (qweb_client_init rec d))"
  "\<not> online (qweb_client_init rec d)"
  by (simp_all add: qweb_client_init_def good_history_def history_ready_init record_ready_init)
    (simp add: sqlite_history_init_def history_template_def)

section \<open>Properties of runs\<close>

text \<open>
  In every state a run of the client reaches, whatever was sent, received or called, \<open>is_online\<close> is
  false, and the table templates and column names of both databases are those of the constructors.
\<close>

theorem client_never_online:
  assumes "json_codec (en_codec env)" "(client_step env)\<^sup>*\<^sup>* (qweb_client_init rec d) st"
  shows "is_online st = 0 \<and> history_ready (dbh st) \<and> record_ready (dbr st)"
  using client_run_moves [OF assms] init_good [of rec d]
  by (auto simp: client_moves_def history_moves_def record_moves_def good_history_def is_online_def)

theorem client_never_online_witness:
  "is_online (client_sl_open demo_offline) = 0 \<and> history_ready (dbh (client_sl_open demo_offline))"
  using client_never_online [of demo_env _ _ "client_sl_open demo_offline"] tc.json_codec_axioms
    r_into_rtranclp [of "client_step demo_env", OF client_step.call [OF client_call.opened [of demo_env demo_offline]]]
  unfolding demo_offline_def by auto

text \<open>
  A client opens the history of one account only. Once it is open, no run of the client, with a login
  to another account or without, opens another file: the history is at the same file or closed.
\<close>

theorem client_one_account:
  assumes "json_codec (en_codec env)" "(client_step env)\<^sup>*\<^sup>* (qweb_client_init rec d) st"
    and "db (dbh st) = Some f" "(client_step env)\<^sup>*\<^sup>* st st'"
  shows "(\<exists>a. f = ''../data/history_'' @ to_string64 a @ ''.db'') \<and> (db (dbh st') = None \<or> db (dbh st') = Some f)"
proof -
  have g: "good_history (dbh st)"
    using client_run_moves [OF assms(1,2)] init_good(1) [of rec d] by (auto simp: client_moves_def history_moves_def)
  with assms(3) obtain a where a: "hist_file (dbh st) = history_name a" "f = history_name a"
    by (auto simp: good_history_def)
  then have "good_history (dbh st') \<and> hist_file (dbh st') = history_name a"
    using client_run_moves [OF assms(1,4)] g history_name_not_template [of a]
    by (auto simp: client_moves_def history_moves_def)
  then have "db (dbh st') = None \<or> db (dbh st') = Some f"
    using a(2) history_name_not_template [of a] by (auto simp: good_history_def)
  moreover have "f = ''../data/history_'' @ to_string64 a @ ''.db''" using a(2) by (simp only: history_name_def)
  ultimately show ?thesis by blast
qed

theorem client_one_account_witness:
  "\<exists>s st. set_ac_login_back text_codec 3 ''me'' ''i'' ''x'' = Inr s \<and> client_sl_message demo_env s demo_offline = Inr st
    \<and> (db (dbh (client_sl_close st)) = None \<or> db (dbh (client_sl_close st)) = Some ''../data/history_3.db'')"
proof -
  obtain s where s: "set_ac_login_back text_codec 3 ''me'' ''i'' ''x'' = Inr s"
    using set_msg_utf8 [OF pc.protocol_codec_axioms, of "Ac_login_back 3 ''me'' ''i'' ''x''"] by auto
  obtain vec where vec: "get_json_vec text_codec ''x'' = Inr vec"
    using json_vec_returns [of text_codec "''x''"] by (cases "get_json_vec text_codec ''x''") auto
  obtain st where st: "client_sl_message demo_env s demo_offline = Inr st" "db (dbh st) = Some ''../data/history_3.db''"
    using login_run [of demo_env demo_offline 3 "[]" "[]" "''me''" "''i''" "''x''" s vec] s vec pc.protocol_codec_axioms
    by (auto simp: digits_eval)
  have "(client_step demo_env)\<^sup>*\<^sup>* demo_offline st" "(client_step demo_env)\<^sup>*\<^sup>* st (client_sl_close st)"
    using client_step.message [OF st(1)] client_step.call [OF client_call.closed [of demo_env st]] by (simp_all add: r_into_rtranclp)
  with client_one_account [of demo_env _ _ st _ "client_sl_close st"] st(2) tc.json_codec_axioms
  have "db (dbh (client_sl_close st)) = None \<or> db (dbh (client_sl_close st)) = Some ''../data/history_3.db''"
    unfolding demo_offline_def by auto
  with s st show ?thesis by blast
qed

end
