(* ===== verification/Client_Traffic.thy ===== *)
theory Client_Traffic
  imports Client_Runs
begin

text \<open>
  What passes between clients: every text a client sends is one of ten protocol messages, and any number
  of clients, joined by a server that relays, saves and answers, simulate one mailbox event by event: a
  text that arrives shows exactly the messages it holds, each once, and acknowledges each once, and
  nothing else shows or acknowledges a message.
\<close>

section \<open>What a client says\<close>

fun client_says :: "msg \<Rightarrow> bool" where
  "client_says (Ac_login account passwd) = True"
| "client_says (Ac_register phone age sex nickname location passwd) = True"
| "client_says (Ac_info_all types account) = True"
| "client_says (Ac_update_info account phone age sex nickname location icon) = True"
| "client_says (Ac_update_remarks account friends remarks) = True"
| "client_says (Ac_update_friends account friends ac_remarks fr_remarks) = True"
| "client_says (Swap_cache target) = True"
| "client_says (Swap_msg target source time_to type content) = True"
| "client_says (Swap_msg_back target source time_to time_ok) = True"
| "client_says (Swap_friens_add time account friends notes remarks) = True"
| "client_says m = False"

text \<open>A message of a user as the protocol writes it, and what is said without being asked for.\<close>

definition swap_of_msg :: "ct_swap_msg \<Rightarrow> msg" where
  "swap_of_msg m = Swap_msg (sm_target m) (sm_source m) (sm_time_to m) (sm_types m) (sm_content m)"

fun is_answer :: "msg \<Rightarrow> bool" where
  "is_answer (Swap_cache target) = True"
| "is_answer (Swap_msg_back target source time_to time_ok) = True"
| "is_answer m = False"

text \<open>
  What a step adds: texts of messages in \<open>Q\<close>, and signals, among them only messages in \<open>P\<close> to show.
\<close>

definition adds :: "codec \<Rightarrow> (msg \<Rightarrow> bool) \<Rightarrow> (ct_swap_msg \<Rightarrow> bool) \<Rightarrow> 'd qweb_client \<Rightarrow> 'd qweb_client \<Rightarrow> bool" where
  "adds c Q P st st' \<longleftrightarrow> (\<exists>ss sgs. sent st' = sent st @ ss \<and> signals st' = signals st @ sgs
     \<and> (\<forall>s \<in> set ss. \<exists>m. Q m \<and> set_msg c m = Inr s) \<and> (\<forall>m. Cs_recv_msg m \<in> set sgs \<longrightarrow> P m))"

text \<open>
  The laws every such relation has, and what follows for the ways the client puts its calls together.
\<close>

locale client_trace =
  fixes R :: "'d qweb_client \<Rightarrow> 'd qweb_client \<Rightarrow> bool"
  assumes keeps_refl: "R st st"
    and keeps_trans: "R st st1 \<Longrightarrow> R st1 st2 \<Longrightarrow> R st st2"
begin

definition keeps :: "'d qweb_client \<Rightarrow> 'd qweb_client res \<Rightarrow> bool" where
  "keeps st m \<longleftrightarrow> (\<forall>st'. m = Inr st' \<longrightarrow> R st st')"

lemma keepsD: "keeps st m \<Longrightarrow> m = Inr st' \<Longrightarrow> R st st'"
  by (simp add: keeps_def)

lemma keeps_Inr [simp]: "keeps st (Inr st') \<longleftrightarrow> R st st'"
  by (simp add: keeps_def)

lemma keeps_bind: "(\<And>x. m = Inr x \<Longrightarrow> keeps st (f x)) \<Longrightarrow> keeps st (rbind m f)"
  by (auto simp: keeps_def rbind_eq_Inr)

lemma keeps_read: "(\<And>x. m = Inr (Some x) \<Longrightarrow> keeps st (f x)) \<Longrightarrow> keeps st (rbind m (\<lambda>r. case r of None \<Rightarrow> Inr st | Some x \<Rightarrow> f x))"
  by (rule keeps_bind) (simp add: keeps_refl split: option.splits)

lemma keeps_call:
  assumes "\<And>x st1. m = Inr (x, st1) \<Longrightarrow> R st st1" "\<And>x st1. keeps st1 (f (x, st1))"
  shows "keeps st (rbind m f)"
  using assms by (auto simp: keeps_def rbind_eq_Inr intro: keeps_trans)

lemma keeps_deliver: "(\<And>a st. a \<in> set vec \<Longrightarrow> keeps st (f a st)) \<Longrightarrow> keeps st (deliver f vec st)"
proof (induction vec arbitrary: st)
  case (Cons a vec)
  have "keeps st1 (deliver f vec st1)" for st1 by (rule Cons(1)) (use Cons(2) in auto)
  moreover have "keeps st (f a st)" by (rule Cons(2)) simp
  ultimately show ?case by (auto simp: keeps_def rbind_eq_Inr intro: keeps_trans)
qed (simp add: keeps_refl)

lemma keeps_friends:
  assumes "\<And>ct st. keeps st (f ct st)"
  shows "read_friends c f vec fs st = Inr (fs', st') \<Longrightarrow> R st st'"
proof (induction vec arbitrary: fs st)
  case (Cons a vec)
  obtain r where r: "get_friends_info_json c a = Inr r" using Cons(2) by (auto simp: rbind_eq_Inr)
  show ?case
  proof (cases r)
    case (Some x)
    obtain friends nickname icon remarks on_line where x: "x = (friends, nickname, icon, remarks, on_line)" by (cases x) auto
    let ?ct = "\<lparr>fi_online = on_line, fi_friends = friends, fi_nickname = nickname, fi_icon = icon, fi_remarks = remarks\<rparr>"
    obtain st1 where "f ?ct st = Inr st1" "read_friends c f vec (fs @ [?ct]) st1 = Inr (fs', st')"
      using Cons(2) r Some x by (auto simp: rbind_eq_Inr Let_def)
    with Cons(1) assms [of st ?ct] show ?thesis by (auto simp: keeps_def intro: keeps_trans)
  qed (use Cons r in simp)
qed (use keeps_refl in simp)

end

lemma adds_refl: "adds c Q P st st"
  by (simp add: adds_def)

lemma adds_trans:
  assumes "adds c Q P st st1" "adds c Q P st1 st2"
  shows "adds c Q P st st2"
proof -
  obtain ss sgs where 1: "sent st1 = sent st @ ss" "signals st1 = signals st @ sgs"
      "\<forall>s \<in> set ss. \<exists>m. Q m \<and> set_msg c m = Inr s" "\<forall>m. Cs_recv_msg m \<in> set sgs \<longrightarrow> P m"
    using assms(1) by (auto simp: adds_def)
  obtain ss' sgs' where 2: "sent st2 = sent st1 @ ss'" "signals st2 = signals st1 @ sgs'"
      "\<forall>s \<in> set ss'. \<exists>m. Q m \<and> set_msg c m = Inr s" "\<forall>m. Cs_recv_msg m \<in> set sgs' \<longrightarrow> P m"
    using assms(2) by (auto simp: adds_def)
  show ?thesis unfolding adds_def using 1 2 by (intro exI [of _ "ss @ ss'"] exI [of _ "sgs @ sgs'"]) auto
qed

interpretation adds: client_trace "adds c Q P" for c Q P
  by unfold_locales (rule adds_refl, rule adds_trans)

lemma adds_mono: "adds c Q P st st' \<Longrightarrow> (\<And>m. Q m \<Longrightarrow> Q' m) \<Longrightarrow> (\<And>m. P m \<Longrightarrow> P' m) \<Longrightarrow> adds c Q' P' st st'"
  unfolding adds_def by blast

named_theorems add_intros \<open>what the calls of a client add\<close>

lemma adds_same [add_intros]: "sent st' = sent st \<Longrightarrow> signals st' = signals st \<Longrightarrow> adds c Q P st st'"
  by (simp add: adds_def)

lemma adds_on_history [add_intros]: "on_history f st = Inr (ok, st') \<Longrightarrow> adds c Q P st st'"
  by (rule adds_same) (auto simp: on_history_def rbind_eq_Inr)

lemma adds_on_record [add_intros]: "on_record f st = Inr (ok, st') \<Longrightarrow> adds c Q P st st'"
  by (rule adds_same) (auto simp: on_record_def rbind_eq_Inr)

lemma adds_emit [add_intros]: "(\<And>m. sg = Cs_recv_msg m \<Longrightarrow> P m) \<Longrightarrow> adds c Q P st (client_emit sg st)"
  by (auto simp: adds_def client_emit_def)

lemma adds_send [add_intros]: "Q m \<Longrightarrow> set_msg c m = Inr s \<Longrightarrow> adds c Q P st (snd (client_send_msg env s st))"
  by (auto simp: adds_def client_send_msg_def)

section \<open>The handlers\<close>

lemma create_history_adds: "adds.keeps c Q P st (rbind (on_history (create_history eng ac) st) (\<lambda>(ok, st). Inr st))"
  by (rule adds.keeps_call) (auto intro: add_intros)

lemma adds_emit_send:
  assumes "\<And>m. sg = Cs_recv_msg m \<Longrightarrow> P m" "Q m" "set_msg c m = Inr s"
  shows "adds c Q P st (snd (client_send_msg env s (client_emit sg st)))"
    "adds c Q P st (snd (client_send_msg env s ((client_emit sg st)\<lparr>ticks := n\<rparr>)))"
proof -
  note e = adds_emit [of sg P c Q, OF assms(1)] and s = adds_send [of Q m c s, OF assms(2,3)]
  show "adds c Q P st (snd (client_send_msg env s (client_emit sg st)))" by (rule adds_trans [OF e s])
  have "adds c Q P (client_emit sg st) ((client_emit sg st)\<lparr>ticks := n\<rparr>)" by (rule adds_same) simp_all
  from adds_trans [OF adds_trans [OF e this] s]
  show "adds c Q P st (snd (client_send_msg env s ((client_emit sg st)\<lparr>ticks := n\<rparr>)))" .
qed

lemma login_adds:
  assumes "\<And>ac. Q (Swap_cache ac)" "en_codec env = c"
  shows "adds.keeps c Q P st (task_ac_login_back env s st)"
proof -
  have rest: "adds.keeps c Q P st (rbind (get_json_vec c info) (\<lambda>vec.
     rbind (read_friends c (\<lambda>ct st. rbind (on_history (create_history eng (fi_friends ct)) st) (\<lambda>(ok, st). Inr st)) vec [] st)
       (\<lambda>(vec_friends, st).
     rbind (set_swap_cache c ac) (\<lambda>s. Inr (snd (client_send_msg env s (client_emit (Cs_ac_login ac nickname icon vec_friends) st)))))))"
    for info ac nickname icon eng and st :: "'a qweb_client"
  proof (rule adds.keeps_bind, rule adds.keeps_call, erule adds.keeps_friends [OF create_history_adds])
    fix x and st1 :: "'a qweb_client"
    show "adds.keeps c Q P st1 (case (x, st1) of (vec_friends, st) \<Rightarrow>
      rbind (set_swap_cache c ac) (\<lambda>s. Inr (snd (client_send_msg env s (client_emit (Cs_ac_login ac nickname icon vec_friends) st)))))"
      by (auto intro!: adds.keeps_bind adds_emit_send(1) [where m = "Swap_cache ac"] assms(1))
  qed
  show ?thesis
    unfolding task_ac_login_back_def assms(2)
    by (auto intro!: adds.keeps_read adds.keeps_call rest intro: add_intros)
qed

lemma quiet_tasks_add:
  "adds.keeps c Q P st (task_ac_register_back env s st)" "adds.keeps c Q P st (task_ac_info_all_back env s st)"
  "adds.keeps c Q P st (task_ac_update_info_back env s st)" "adds.keeps c Q P st (task_ac_update_remarks_back env s st)"
  "adds.keeps c Q P st (task_error_info env s st)"
  unfolding task_ac_register_back_def task_ac_info_all_back_def task_ac_update_info_back_def
    task_ac_update_remarks_back_def task_error_info_def
  by (auto intro!: adds.keeps_bind add_intros adds_refl split: prod.splits option.splits)

lemma call_tasks_add:
  "adds.keeps c Q P st (task_swap_friens_add env s st)" "adds.keeps c Q P st (task_swap_msg_back env s st)"
  unfolding task_swap_friens_add_def task_swap_msg_back_def
  by (auto intro!: adds.keeps_read adds.keeps_call intro: add_intros adds_refl)

lemma update_friends_adds: "adds.keeps c Q P st (task_ac_update_friends_back env s st)"
  unfolding task_ac_update_friends_back_def
  by (rule adds.keeps_read, rule adds.keeps_bind, rule adds.keeps_call, rule adds.keeps_friends [where f = "\<lambda>ct. Inr"])
    (auto intro: adds_refl add_intros)

lemma task_swap_msg_adds:
  assumes "\<And>target source time_to time_ok. Q (Swap_msg_back target source time_to time_ok)" "en_codec env = c"
    and "\<And>m. get_swap_msg c s = Inr (Some (sm_target m, sm_source m, sm_time_to m, sm_types m, sm_content m)) \<Longrightarrow> P m"
  shows "adds.keeps c Q P st (task_swap_msg env s st)"
  unfolding task_swap_msg_def assms(2)
proof (rule adds.keeps_read)
  fix x assume x: "get_swap_msg c s = Inr (Some x)"
  obtain target source time_to type content where t: "x = (target, source, time_to, type, content)" by (cases x) auto
  let ?m = "\<lparr>sm_target = target, sm_source = source, sm_time_to = time_to, sm_types = type, sm_content = content\<rparr>"
  have p: "P ?m" using assms(3) [of ?m] x t by simp
  show "adds.keeps c Q P st (case x of (target, source, time_to, type, content) \<Rightarrow>
      rbind (on_history (insert_history (en_engine env) source (time_to, time_to, 1, type, object_AL, content)) st) (\<lambda>(ok, st).
       let st = client_emit (Cs_recv_msg \<lparr>sm_target = target, sm_source = source, sm_time_to = time_to,
                  sm_types = type, sm_content = content\<rparr>) st;
           (time_ok, st) = clock_now env st
       in rbind (set_swap_msg_back c source target time_to time_ok) (\<lambda>s. Inr (snd (client_send_msg env s st)))))"
    unfolding t prod.case
    by (rule adds.keeps_call, erule adds_on_history)
      (auto simp: clock_now_def Let_def intro!: adds.keeps_bind
        adds_emit_send(2) [where m = "Swap_msg_back source target time_to t" for t] assms(1) simp: p)
qed

text \<open>What a client takes in: a text of another client, a bundle of such texts, or another message of the server.\<close>

inductive may_arrive :: "codec \<Rightarrow> string set \<Rightarrow> string \<Rightarrow> bool" for c sent_texts where
  relay: "s \<in> sent_texts \<Longrightarrow> may_arrive c sent_texts s"
| saved: "set_swap_cache_back c svec = Inr s \<Longrightarrow> get_json_vec c svec = Inr vec \<Longrightarrow> set vec \<subseteq> sent_texts \<Longrightarrow> may_arrive c sent_texts s"
| reply: "msg_stream m = sc_s \<Longrightarrow> (\<And>svec. m \<noteq> Swap_cache_back svec) \<Longrightarrow> set_msg c m = Inr s \<Longrightarrow> may_arrive c sent_texts s"

text \<open>What a text says to a reader of the protocol.\<close>

definition read_msg :: "codec \<Rightarrow> string \<Rightarrow> msg option" where
  "read_msg c s = (case check_json c s of
     Inr (Some (stream, type)) \<Rightarrow> (case get_msg c type s of Inr r \<Rightarrow> r | Inl e \<Rightarrow> None)
   | _ \<Rightarrow> None)"

lemma read_msg_text: "protocol_codec c \<Longrightarrow> set_msg c m = Inr s \<Longrightarrow> read_msg c s = Some m"
  using set_msg_text [of c m s] by (simp add: read_msg_def)

definition said :: "codec \<Rightarrow> string set \<Rightarrow> bool" where
  "said c S \<longleftrightarrow> (\<forall>s \<in> S. \<exists>m. client_says m \<and> set_msg c m = Inr s)"

lemma says_no_cache: "client_says m \<Longrightarrow> m \<noteq> Swap_cache_back svec"
  by (cases m) auto

lemma answer_says: "is_answer m \<Longrightarrow> client_says m"
  by (cases m) auto

text \<open>A message that is no message of a user and no bundle makes a client ask for what was saved at most.\<close>

lemma quiet_message_adds:
  assumes c: "protocol_codec c" "en_codec env = c" and s: "set_msg c m = Inr s"
    and m: "\<And>svec. m \<noteq> Swap_cache_back svec" "\<And>msg. m \<noteq> swap_of_msg msg"
  shows "adds.keeps c (\<lambda>m. \<exists>ac. m = Swap_cache ac) (\<lambda>msg. False) st (client_sl_message env s st)"
proof -
  have "msg_type m \<noteq> ''swap_cache_back''" using m(1) by (cases m) auto
  moreover have "msg_type m \<noteq> ''swap_msg''"
  proof
    assume "msg_type m = ''swap_msg''"
    then obtain target source time_to type content where "m = Swap_msg target source time_to type content" by (cases m) auto
    then show False
      using m(2) [of "\<lparr>sm_target = target, sm_source = source, sm_time_to = time_to, sm_types = type, sm_content = content\<rparr>"]
      by (simp add: swap_of_msg_def)
  qed
  ultimately have "adds.keeps c (\<lambda>m. \<exists>ac. m = Swap_cache ac) (\<lambda>msg. False) st (task s st)"
    if "client_map_fn env (client_sl_message env) (msg_type m) = Some task" for task
    using that login_adds [OF _ c(2)] quiet_tasks_add call_tasks_add update_friends_adds
    by (auto simp: client_map_fn_def split: if_splits)
  then show ?thesis
    unfolding client_sl_message_eq [OF protocol_json [OF c(1)[folded c(2)]], of s] c(2)
    using set_msg_text [OF c(1) s] by (auto simp: adds_refl split: option.splits)
qed

lemma asks_add:
  assumes "rbind (set_msg c m) (\<lambda>s. Inr (client_send_msg env s st)) = Inr (ok, st')" "client_says m"
  shows "adds c client_says P st st'"
proof -
  obtain s where "set_msg c m = Inr s" "client_send_msg env s st = (ok, st')" using assms(1) by (auto simp: rbind_eq_Inr)
  then show ?thesis using adds_send [of client_says m c s P st env] assms(2) by simp
qed

lemmas ask_defs = ask_login_def ask_register_def ask_swap_msg_back_def ask_update_info_def ask_update_remarks_def
  ask_info_all_def ask_swap_friens_add_def ask_update_friends_def

lemma call_adds:
  assumes "client_call env st st'" "en_codec env = c"
  shows "adds c client_says (\<lambda>m. False) st st'"
  using assms(1)
proof cases
  case opened
  then show ?thesis by (auto simp: client_sl_open_def intro: adds_emit)
next
  case closed
  have "adds c client_says (\<lambda>m. False) st (st\<lparr>online := False\<rparr>)" by (rule adds_same) simp_all
  then show ?thesis using closed by (auto simp: client_sl_close_def intro: add_intros adds_trans)
next
  case (login account passwd ok)
  then show ?thesis using asks_add [of c "Ac_login account passwd"] assms(2) by (simp add: ask_defs)
next
  case (register phone age sex nickname location passwd ok)
  then show ?thesis using asks_add [of c "Ac_register phone age sex nickname location passwd"] assms(2) by (simp add: ask_defs)
next
  case (swap_msg m ok)
  then obtain ok1 st1 where h: "on_history (insert_history (en_engine env) (sm_target m)
        (sm_time_to m, 0, 0, sm_types m, object_AR, sm_content m)) st = Inr (ok1, st1)"
      "st' = st1 \<or> rbind (set_msg c (swap_of_msg m)) (\<lambda>s. Inr (client_send_msg env s st1)) = Inr (ok, st')"
    using assms(2) by (auto simp: ask_swap_msg_def rbind_eq_Inr swap_of_msg_def split: if_splits)
  have "adds c client_says (\<lambda>m. False) st1 st'"
    using h(2) asks_add [of c "swap_of_msg m" env st1 ok st'] adds_refl by (auto simp: swap_of_msg_def)
  with adds_on_history [OF h(1)] show ?thesis by (rule adds_trans)
next
  case (swap_msg_back mb ok)
  then show ?thesis using asks_add [of c "Swap_msg_back (sb_target mb) (sb_source mb) (sb_time_to mb) (sb_time_ok mb)"] assms(2)
    by (simp add: ask_defs)
next
  case (update_info info ok)
  then show ?thesis
    using asks_add [of c "Ac_update_info (ai_account info) (ai_phone info) (ai_age info) (ai_sex info) (ai_nickname info)
      (ai_location info) (ai_icon info)"] assms(2) by (simp add: ask_defs)
next
  case (update_remarks account friends remarks ok)
  then show ?thesis using asks_add [of c "Ac_update_remarks account friends remarks"] assms(2) by (simp add: ask_defs)
next
  case (info_all types account ok)
  then show ?thesis using asks_add [of c "Ac_info_all types account"] assms(2) by (simp add: ask_defs)
next
  case (friens_add fa ok)
  then show ?thesis
    using asks_add [of c "Swap_friens_add (fa_time fa) (fa_account fa) (fa_friends fa) (fa_notes fa) (fa_remarks fa)"] assms(2)
    by (simp add: ask_defs)
next
  case (update_friends account friends ac_remarks fr_remarks ok)
  then show ?thesis using asks_add [of c "Ac_update_friends account friends ac_remarks fr_remarks"] assms(2) by (simp add: ask_defs)
qed (auto simp: client_open_def client_close_def intro!: adds_same split: prod.splits)

text \<open>Any text, whoever wrote it.\<close>

lemma any_message_adds:
  assumes "json_codec (en_codec env)"
  shows "adds.keeps (en_codec env) is_answer (\<lambda>m. True) st (client_sl_message env s st)"
proof (induction "length s" arbitrary: s st rule: less_induct)
  case less
  let ?k = "adds.keeps (en_codec env) is_answer (\<lambda>m. True) :: 'a qweb_client \<Rightarrow> _"
  have cache: "?k st (task_swap_cache_back env (client_sl_message env) s st)"
    unfolding task_swap_cache_back_def
  proof (rule adds.keeps_read, rule adds.keeps_bind, rule adds.keeps_deliver)
    fix svec vec t and st :: "'a qweb_client"
    assume "get_swap_cache_back (en_codec env) s = Inr (Some svec)" "get_json_vec (en_codec env) svec = Inr vec" "t \<in> set vec"
    with cache_text_shorter [OF assms] vec_text_shorter [OF assms] have "length t < length s" by fastforce
    then show "?k st (client_sl_message env t st)" by (rule less)
  qed
  have login: "?k st (task_ac_login_back env s st)" by (rule login_adds) simp_all
  have swap: "?k st (task_swap_msg env s st)" by (rule task_swap_msg_adds) simp_all
  have "?k st (task s st)" if "client_map_fn env (client_sl_message env) ty = Some task" for ty task
    using that cache login swap quiet_tasks_add call_tasks_add update_friends_adds
    by (auto simp: client_map_fn_def split: if_splits)
  then show ?case
    unfolding client_sl_message_eq [OF assms, of s]
    by (auto intro!: adds.keeps_bind simp: adds_refl split: option.splits)
qed

section \<open>Clients and their server\<close>

type_synonym 'd network = "nat \<Rightarrow> 'd qweb_client"

definition all_sent :: "'d network \<Rightarrow> string set" where
  "all_sent net = (\<Union>a. set (sent (net a)))"

text \<open>
  The events of a network: a call at one client, with the texts it sends, and a text that reaches a client.
\<close>

datatype net_event = Called nat "string list" | Arrived nat string

inductive net_does :: "codec \<Rightarrow> (nat \<Rightarrow> 'd client_env) \<Rightarrow> net_event \<Rightarrow> 'd network \<Rightarrow> 'd network \<Rightarrow> bool" for c env where
  call: "client_call (env a) (net a) st \<Longrightarrow> sent st = sent (net a) @ ss \<Longrightarrow> net_does c env (Called a ss) net (net(a := st))"
| arrive: "may_arrive c (all_sent net) s \<Longrightarrow> client_sl_message (env b) s (net b) = Inr st
    \<Longrightarrow> net_does c env (Arrived b s) net (net(b := st))"

definition net_step :: "codec \<Rightarrow> (nat \<Rightarrow> 'd client_env) \<Rightarrow> 'd network \<Rightarrow> 'd network \<Rightarrow> bool" where
  "net_step c env net net' \<longleftrightarrow> (\<exists>ev. net_does c env ev net net')"

text \<open>The runs of a labelled step relation, with their events.\<close>

inductive event_runs :: "('e \<Rightarrow> 's \<Rightarrow> 's \<Rightarrow> bool) \<Rightarrow> 's \<Rightarrow> 'e list \<Rightarrow> 's \<Rightarrow> bool" for does s where
  none: "event_runs does s [] s"
| more: "event_runs does s evs s1 \<Longrightarrow> does ev s1 s2 \<Longrightarrow> event_runs does s (evs @ [ev]) s2"

lemma net_run_events: "(net_step c env)\<^sup>*\<^sup>* net net' \<Longrightarrow> \<exists>evs. event_runs (net_does c env) net evs net'"
  by (induction rule: rtranclp_induct) (auto simp: net_step_def intro: event_runs.intros)

text \<open>
  The mailbox: for each client what it wrote, what was delivered to it and what it acknowledged, in order.
  A client writes one message or one acknowledgement at a time, or none; a delivery is of messages some
  client wrote, each of which is shown and acknowledged to its sender once.
\<close>

type_synonym ack = "int64 \<times> int64 \<times> int64"

record mailbox =
  wrote :: "nat \<Rightarrow> ct_swap_msg list"
  inbox :: "nat \<Rightarrow> ct_swap_msg list"
  acked :: "nat \<Rightarrow> ack list"

datatype mail_event = Wrote nat "ct_swap_msg list" "ack list" | Delivered nat "ct_swap_msg list"

definition ack_of :: "ct_swap_msg \<Rightarrow> ack" where
  "ack_of m = (sm_source m, sm_target m, sm_time_to m)"

inductive mailbox_does :: "mail_event \<Rightarrow> mailbox \<Rightarrow> mailbox \<Rightarrow> bool" where
  wrote: "length ms + length ks \<le> 1
    \<Longrightarrow> mailbox_does (Wrote a ms ks) mb (mb\<lparr>wrote := (wrote mb)(a := wrote mb a @ ms), acked := (acked mb)(a := acked mb a @ ks)\<rparr>)"
| delivered: "set ms \<subseteq> (\<Union>a. set (wrote mb a))
    \<Longrightarrow> mailbox_does (Delivered b ms) mb
          (mb\<lparr>inbox := (inbox mb)(b := inbox mb b @ ms), acked := (acked mb)(b := acked mb b @ map ack_of ms)\<rparr>)"

definition empty_mailbox :: mailbox where
  "empty_mailbox = \<lparr>wrote = \<lambda>a. [], inbox = \<lambda>a. [], acked = \<lambda>a. []\<rparr>"

text \<open>The messages and the acknowledgements a text holds, and the messages it delivers, those of a bundle one by one.\<close>

fun swap_in :: "msg option \<Rightarrow> ct_swap_msg list" where
  "swap_in (Some (Swap_msg target source time_to type content)) =
     [\<lparr>sm_target = target, sm_source = source, sm_time_to = time_to, sm_types = type, sm_content = content\<rparr>]"
| "swap_in r = []"

fun ack_in :: "msg option \<Rightarrow> ack list" where
  "ack_in (Some (Swap_msg_back target source time_to time_ok)) = [(target, source, time_to)]"
| "ack_in r = []"

definition text_swaps :: "codec \<Rightarrow> string list \<Rightarrow> ct_swap_msg list" where
  "text_swaps c ss = concat (map (\<lambda>s. swap_in (read_msg c s)) ss)"

definition text_acks :: "codec \<Rightarrow> string list \<Rightarrow> ack list" where
  "text_acks c ss = concat (map (\<lambda>s. ack_in (read_msg c s)) ss)"

definition delivers :: "codec \<Rightarrow> string \<Rightarrow> ct_swap_msg list" where
  "delivers c s = (case read_msg c s of
     Some (Swap_cache_back svec) \<Rightarrow> (case get_json_vec c svec of Inr vec \<Rightarrow> text_swaps c vec | Inl e \<Rightarrow> [])
   | _ \<Rightarrow> text_swaps c [s])"

fun shown_by :: "client_signal \<Rightarrow> ct_swap_msg list" where
  "shown_by (Cs_recv_msg m) = [m]"
| "shown_by sg = []"

definition signal_swaps :: "client_signal list \<Rightarrow> ct_swap_msg list" where
  "signal_swaps sgs = concat (map shown_by sgs)"

fun as_mail :: "codec \<Rightarrow> net_event \<Rightarrow> mail_event" where
  "as_mail c (Called a ss) = Wrote a (text_swaps c ss) (text_acks c ss)"
| "as_mail c (Arrived b s) = Delivered b (delivers c s)"

definition mailbox_of :: "codec \<Rightarrow> 'd network \<Rightarrow> mailbox" where
  "mailbox_of c net = \<lparr>wrote = \<lambda>a. text_swaps c (sent (net a)), inbox = \<lambda>a. signal_swaps (signals (net a)),
     acked = \<lambda>a. text_acks c (sent (net a))\<rparr>"

section \<open>The simulation\<close>

lemma text_swaps_more [simp]: "text_swaps c [] = []" "text_swaps c (ss @ ss') = text_swaps c ss @ text_swaps c ss'"
  by (simp_all add: text_swaps_def)

lemma text_acks_more [simp]: "text_acks c [] = []" "text_acks c (ss @ ss') = text_acks c ss @ text_acks c ss'"
  by (simp_all add: text_acks_def)

lemma signal_swaps_more [simp]: "signal_swaps [] = []" "signal_swaps (sgs @ sgs') = signal_swaps sgs @ signal_swaps sgs'"
  by (simp_all add: signal_swaps_def)

text \<open>One client takes a step that delivers \<open>ms\<close>.\<close>

definition takes :: "codec \<Rightarrow> ct_swap_msg list \<Rightarrow> 'd qweb_client \<Rightarrow> 'd qweb_client \<Rightarrow> bool" where
  "takes c ms st st' \<longleftrightarrow> text_swaps c (sent st') = text_swaps c (sent st)
     \<and> text_acks c (sent st') = text_acks c (sent st) @ map ack_of ms
     \<and> signal_swaps (signals st') = signal_swaps (signals st) @ ms"

lemma quiet_takes:
  assumes "protocol_codec c" "adds c (\<lambda>m. \<exists>ac. m = Swap_cache ac) (\<lambda>msg. False) st st'"
  shows "takes c [] st st'"
proof -
  obtain ss sgs where s: "sent st' = sent st @ ss" "signals st' = signals st @ sgs"
      "\<forall>s \<in> set ss. \<exists>ac. set_msg c (Swap_cache ac) = Inr s" "\<forall>m. Cs_recv_msg m \<notin> set sgs"
    using assms(2) unfolding adds_def by blast
  have "\<exists>ac. read_msg c s = Some (Swap_cache ac)" if "s \<in> set ss" for s
    using s(3) that read_msg_text [OF assms(1)] by blast
  then have "text_swaps c ss = [] \<and> text_acks c ss = []" by (force simp: text_swaps_def text_acks_def)
  moreover have "shown_by sg = []" if "sg \<in> set sgs" for sg using s(4) that by (cases sg) auto
  ultimately show ?thesis using s(1,2) by (simp add: takes_def signal_swaps_def)
qed

text \<open>The text of a user's message, an acknowledgement, or another text a client or the server writes.\<close>

lemma swap_text_takes:
  assumes c: "protocol_codec c" "en_codec env = c" and s: "set_msg c (swap_of_msg m) = Inr s"
    and run: "client_sl_message env s st = Inr st'"
  shows "takes c [m] st st'"
proof -
  note msg = client_messages(1) [OF c(1) s [unfolded swap_of_msg_def set_msg.simps]]
  have "client_sl_message env s st = task_swap_msg env s st"
    by (rule client_dispatch [OF protocol_json [OF c(1)[folded c(2)]]]) (use msg c(2) client_tasks in auto)
  with run have "task_swap_msg env s st = Inr st'" by simp
  then obtain ok st1 t ack where h: "on_history (insert_history (en_engine env) (sm_source m)
        (sm_time_to m, sm_time_to m, 1, sm_types m, object_AL, sm_content m)) st = Inr (ok, st1)"
      "set_swap_msg_back c (sm_source m) (sm_target m) (sm_time_to m) t = Inr ack"
      "sent st' = sent st1 @ [ack]" "signals st' = signals st1 @ [Cs_recv_msg m]"
    using msg c(2) by (auto simp: task_swap_msg_def rbind_eq_Inr clock_now_def client_emit_def client_send_msg_def Let_def)
  have "read_msg c ack = Some (Swap_msg_back (sm_source m) (sm_target m) (sm_time_to m) t)"
    by (rule read_msg_text [OF c(1)]) (simp add: h(2))
  moreover have "sent st1 = sent st" "signals st1 = signals st"
    using h(1) by (auto simp: on_history_def rbind_eq_Inr)
  ultimately show ?thesis using h(3,4) by (simp add: takes_def text_swaps_def text_acks_def signal_swaps_def ack_of_def)
qed

lemma no_cache_takes:
  assumes c: "protocol_codec c" "en_codec env = c" and s: "set_msg c m = Inr s" "\<And>svec. m \<noteq> Swap_cache_back svec"
    and run: "client_sl_message env s st = Inr st'"
  shows "takes c (text_swaps c [s]) st st'"
proof (cases "\<exists>msg. m = swap_of_msg msg")
  case True
  then obtain msg where m: "m = swap_of_msg msg" by blast
  have "text_swaps c [s] = [msg]" using read_msg_text [OF c(1) s(1)] by (simp add: text_swaps_def m swap_of_msg_def)
  then show ?thesis using swap_text_takes [OF c s(1) [unfolded m] run] by simp
next
  case False
  have "swap_in (Some m) = []"
  proof (cases m)
    case (Swap_msg target source time_to type content)
    with False show ?thesis
      by (auto simp: swap_of_msg_def dest: spec [of _ "\<lparr>sm_target = target, sm_source = source, sm_time_to = time_to,
          sm_types = type, sm_content = content\<rparr>"])
  qed simp_all
  then have "text_swaps c [s] = []" using read_msg_text [OF c(1) s(1)] by (simp add: text_swaps_def)
  moreover have "takes c [] st st'"
    by (rule quiet_takes [OF c(1)], rule adds.keepsD [OF quiet_message_adds [OF c s(1)] run]) (use s(2) False in auto)
  ultimately show ?thesis by simp
qed

lemma bundle_takes:
  assumes "protocol_codec c" "en_codec env = c"
  shows "said c (set vec) \<Longrightarrow> deliver (client_sl_message env) vec st = Inr st' \<Longrightarrow> takes c (text_swaps c vec) st st'"
proof (induction vec arbitrary: st)
  case (Cons s vec)
  obtain st1 where st1: "client_sl_message env s st = Inr st1" "deliver (client_sl_message env) vec st1 = Inr st'"
    using Cons(3) by (auto simp: rbind_eq_Inr)
  obtain m where m: "client_says m" "set_msg c m = Inr s" using Cons(2) by (auto simp: said_def)
  have "takes c (text_swaps c [s]) st st1" by (rule no_cache_takes [OF assms m(2) says_no_cache [OF m(1)] st1(1)])
  moreover have "takes c (text_swaps c vec) st1 st'" using Cons(1) [OF _ st1(2)] Cons(2) by (simp add: said_def)
  moreover have "text_swaps c (s # vec) = text_swaps c [s] @ text_swaps c vec" by (simp add: text_swaps_def)
  ultimately show ?case by (simp add: takes_def)
qed (simp add: takes_def)

text \<open>Whatever arrives delivers what it holds.\<close>

lemma arrive_takes:
  assumes c: "protocol_codec c" "en_codec env = c" and S: "said c S" "may_arrive c S s"
    and run: "client_sl_message env s st = Inr st'"
  shows "takes c (delivers c s) st st'"
  using S(2)
proof cases
  case relay
  then obtain m where m: "client_says m" "set_msg c m = Inr s" using S(1) by (auto simp: said_def)
  have "delivers c s = text_swaps c [s]"
    using read_msg_text [OF c(1) m(2)] says_no_cache [OF m(1)] by (simp add: delivers_def split: msg.split)
  then show ?thesis using no_cache_takes [OF c m(2) says_no_cache [OF m(1)] run] by simp
next
  case (saved svec vec)
  note msg = client_messages(4) [OF c(1) saved(1)]
  have "client_sl_message env s st = task_swap_cache_back env (client_sl_message env) s st"
    by (rule client_dispatch [OF protocol_json [OF c(1)[folded c(2)]]]) (use msg c(2) client_tasks in auto)
  also have "\<dots> = deliver (client_sl_message env) vec st"
    using msg saved(2) c(2) by (simp add: task_swap_cache_back_def)
  finally have "deliver (client_sl_message env) vec st = Inr st'" using run by simp
  moreover have "said c (set vec)" using S(1) saved(3) by (auto simp: said_def)
  moreover have "delivers c s = text_swaps c vec"
    using read_msg_text [OF c(1), of "Swap_cache_back svec" s] saved(1,2) by (simp add: delivers_def)
  ultimately show ?thesis using bundle_takes [OF c] by simp
next
  case (reply m)
  have "delivers c s = text_swaps c [s]"
    using read_msg_text [OF c(1) reply(3)] reply(2) by (simp add: delivers_def split: msg.split)
  then show ?thesis using no_cache_takes [OF c reply(3,2) run] by simp
qed

text \<open>A call sends one text at most, and shows nothing.\<close>

lemma call_sends:
  assumes "client_call env st st'"
  obtains ss where "sent st' = sent st @ ss" "length ss \<le> 1"
proof -
  have "\<exists>ss. sent st' = sent st @ ss \<and> length ss \<le> 1"
    using assms
    by cases (auto simp: ask_defs ask_swap_msg_def rbind_eq_Inr client_send_msg_def client_sl_open_def client_sl_close_def
        client_emit_def client_open_def client_close_def on_history_def split: prod.splits if_splits)
  then show thesis using that by blast
qed

lemma call_shows_nothing:
  assumes "client_call env st st'" "en_codec env = c"
  shows "signal_swaps (signals st') = signal_swaps (signals st)"
proof -
  obtain sgs where s: "signals st' = signals st @ sgs" "\<forall>m. Cs_recv_msg m \<notin> set sgs"
    using call_adds [OF assms] by (auto simp: adds_def)
  have "shown_by sg = []" if "sg \<in> set sgs" for sg using s(2) that by (cases sg) auto
  then show ?thesis using s(1) by (simp add: signal_swaps_def)
qed

lemma said_more:
  assumes "adds c client_says P (net b) st" "said c (all_sent net)"
  shows "said c (all_sent (net(b := st)))"
proof -
  obtain ss where ss: "sent st = sent (net b) @ ss" "\<forall>s \<in> set ss. \<exists>m. client_says m \<and> set_msg c m = Inr s"
    using assms(1) by (auto simp: adds_def)
  have "all_sent (net(b := st)) \<subseteq> all_sent net \<union> set ss"
    using ss(1) by (force simp: all_sent_def split: if_splits)
  then show ?thesis using assms(2) ss(2) by (auto simp: said_def)
qed

lemma net_step_said:
  assumes "protocol_codec c" "\<And>a. en_codec (env a) = c" "net_does c env ev net net'" "said c (all_sent net)"
  shows "said c (all_sent net')"
  using assms(3)
proof cases
  case (call a st ss)
  then show ?thesis using said_more [OF call_adds [OF call(3) assms(2)] assms(4)] by simp
next
  case (arrive s b st)
  have "json_codec (en_codec (env b))" using protocol_json [OF assms(1)] assms(2) by simp
  then have "adds c is_answer (\<lambda>m. True) (net b) st" using adds.keepsD [OF any_message_adds arrive(4)] assms(2) by simp
  then have "adds c client_says (\<lambda>m. True) (net b) st" by (rule adds_mono) (simp_all add: answer_says)
  then show ?thesis unfolding arrive(2) by (rule said_more [OF _ assms(4)])
qed

lemma text_swaps_said:
  assumes "protocol_codec c" "said c (set ss)" "m \<in> set (text_swaps c ss)"
  shows "\<exists>s \<in> set ss. set_msg c (swap_of_msg m) = Inr s"
proof -
  obtain s where s: "s \<in> set ss" "m \<in> set (swap_in (read_msg c s))" using assms(3) by (auto simp: text_swaps_def)
  obtain m' where m': "set_msg c m' = Inr s" using assms(2) s(1) by (auto simp: said_def)
  have "m' = swap_of_msg m" using s(2) read_msg_text [OF assms(1) m'] by (cases m') (auto simp: swap_of_msg_def)
  with m' s(1) show ?thesis by blast
qed

text \<open>What can be delivered was written.\<close>

lemma text_swaps_mem: "m \<in> set (text_swaps c ss) \<longleftrightarrow> (\<exists>s \<in> set ss. m \<in> set (text_swaps c [s]))"
  by (auto simp: text_swaps_def)

lemma wrote_all_sent: "(\<Union>a. set (wrote (mailbox_of c net) a)) = {m. \<exists>s \<in> all_sent net. m \<in> set (text_swaps c [s])}"
  by (simp add: mailbox_of_def all_sent_def set_eq_iff text_swaps_mem [of _ c "sent (net a)" for a])

lemma delivers_written:
  assumes c: "protocol_codec c" and S: "said c (all_sent net)" "may_arrive c (all_sent net) s"
  shows "set (delivers c s) \<subseteq> (\<Union>a. set (wrote (mailbox_of c net) a))"
  using S(2)
proof cases
  case relay
  then obtain m where m: "client_says m" "set_msg c m = Inr s" using S(1) by (auto simp: said_def)
  have "delivers c s = text_swaps c [s]"
    using read_msg_text [OF c m(2)] says_no_cache [OF m(1)] by (simp add: delivers_def split: msg.split)
  then show ?thesis using relay by (auto simp: wrote_all_sent)
next
  case (saved svec vec)
  have "delivers c s = text_swaps c vec"
    using read_msg_text [OF c, of "Swap_cache_back svec" s] saved(1,2) by (simp add: delivers_def)
  then show ?thesis using saved(3) by (fastforce simp: wrote_all_sent text_swaps_mem [of _ c vec])
next
  case (reply m)
  have "read_msg c s = Some m" by (rule read_msg_text [OF c reply(3)])
  then have "delivers c s = swap_in (Some m)" using reply(2) by (cases m) (auto simp: delivers_def text_swaps_def)
  moreover have "swap_in (Some m) = []" using reply(1) by (cases m) (simp_all add: frame_consts)
  ultimately have "delivers c s = []" by simp
  then show ?thesis by simp
qed

lemma net_event_mailbox:
  assumes c: "protocol_codec c" "\<And>a. en_codec (env a) = c" and ev: "net_does c env ev net net'" and said: "said c (all_sent net)"
  shows "mailbox_does (as_mail c ev) (mailbox_of c net) (mailbox_of c net')"
  using ev
proof cases
  case (call a st ss)
  obtain ss' where "sent st = sent (net a) @ ss'" "length ss' \<le> 1" by (rule call_sends [OF call(3)])
  then have "length ss \<le> 1" using call(4) by simp
  then have one: "length (text_swaps c ss) + length (text_acks c ss) \<le> 1"
  proof (cases ss)
    case (Cons s rest)
    show ?thesis
    proof (cases "read_msg c s")
      case (Some m)
      then show ?thesis using \<open>length ss \<le> 1\<close> Cons by (cases m) (simp_all add: text_swaps_def text_acks_def)
    qed (use \<open>length ss \<le> 1\<close> Cons in \<open>simp add: text_swaps_def text_acks_def\<close>)
  qed simp
  let ?mb = "mailbox_of c net"
  have "mailbox_of c net' = ?mb\<lparr>wrote := (wrote ?mb)(a := wrote ?mb a @ text_swaps c ss),
      acked := (acked ?mb)(a := acked ?mb a @ text_acks c ss)\<rparr>"
    using call(4) call_shows_nothing [OF call(3) c(2)] by (auto simp: call(2) mailbox_of_def)
  then show ?thesis using mailbox_does.wrote [OF one, of a ?mb] by (simp add: call(1))
next
  case (arrive s b st)
  note t = arrive_takes [OF c(1) c(2) said arrive(3,4)]
  let ?mb = "mailbox_of c net"
  have "mailbox_of c net' = ?mb\<lparr>inbox := (inbox ?mb)(b := inbox ?mb b @ delivers c s),
      acked := (acked ?mb)(b := acked ?mb b @ map ack_of (delivers c s))\<rparr>"
    using t by (auto simp: arrive(2) mailbox_of_def takes_def)
  then show ?thesis using mailbox_does.delivered [OF delivers_written [OF c(1) said arrive(3)], of b] by (simp add: arrive(1))
qed

lemma net_run_mailbox:
  assumes "protocol_codec c" "\<And>a. en_codec (env a) = c" "event_runs (net_does c env) net evs net'" "said c (all_sent net)"
  shows "said c (all_sent net') \<and> event_runs mailbox_does (mailbox_of c net) (map (as_mail c) evs) (mailbox_of c net')"
  using assms(3)
proof induction
  case (more evs net1 ev net2)
  then show ?case
    using net_step_said [OF assms(1,2) more(2)] net_event_mailbox [OF assms(1,2) more(2)] by (auto intro: event_runs.more)
qed (use assms(4) in \<open>simp add: event_runs.none\<close>)

text \<open>What a run of the mailbox says of its inboxes.\<close>

fun delivered_to :: "nat \<Rightarrow> mail_event \<Rightarrow> ct_swap_msg list" where
  "delivered_to b (Delivered a ms) = (if a = b then ms else [])"
| "delivered_to b (Wrote a ms ks) = []"

lemma mailbox_inbox:
  assumes "event_runs mailbox_does mb evs mb'"
  shows "inbox mb' b = inbox mb b @ concat (map (delivered_to b) evs)"
  using assms
proof induction
  case (more evs mb1 ev mb2)
  from more(2) show ?case by cases (use more(3) in auto)
qed simp

lemma mailbox_inbox_written:
  assumes "event_runs mailbox_does mb evs mb'" "\<And>b. set (inbox mb b) \<subseteq> (\<Union>a. set (wrote mb a))"
  shows "set (inbox mb' b) \<subseteq> (\<Union>a. set (wrote mb' a))"
  using assms(1)
proof (induction arbitrary: b)
  case (more evs mb1 ev mb2)
  from more(2) show ?case
  proof cases
    case (wrote ms ks a)
    have "(\<Union>a. set (mailbox.wrote mb1 a)) \<subseteq> (\<Union>a. set (mailbox.wrote mb2 a))" by (auto simp: wrote(2))
    moreover have "inbox mb2 b = inbox mb1 b" by (simp add: wrote(2))
    ultimately show ?thesis using more(3) [of b] by auto
  next
    case (delivered ms b')
    then show ?thesis using more(3) [of b] by (auto simp: delivered(2) split: if_splits)
  qed
qed (use assms(2) in simp)

section \<open>Properties\<close>

text \<open>
  C9: whatever was called and whatever arrived, every text a client has sent is one of the ten messages of
  a client, well formed: \<open>check_json\<close> accepts it with its stream and type, and the function that reads
  this type gives back the values that were written.
\<close>

theorem client_speaks_protocol:
  assumes "protocol_codec (en_codec env)" "(client_step env)\<^sup>*\<^sup>* (qweb_client_init rec d) st"
  shows "\<forall>s \<in> set (sent st). \<exists>m. client_says m \<and> set_msg (en_codec env) m = Inr s
    \<and> check_json (en_codec env) s = Inr (Some (msg_stream m, msg_type m)) \<and> get_msg (en_codec env) (msg_type m) s = Inr (Some m)"
proof -
  have step: "adds (en_codec env) client_says (\<lambda>m. True) st1 st2" if "client_step env st1 st2" for st1 st2
    using that
  proof cases
    case call
    show ?thesis by (rule adds_mono [OF call_adds [OF call refl]]) simp_all
  next
    case (message s)
    show ?thesis
      by (rule adds_mono [OF adds.keepsD [OF any_message_adds [OF protocol_json [OF assms(1)]] message] answer_says]) simp_all
  qed
  have "adds (en_codec env) client_says (\<lambda>m. True) (qweb_client_init rec d) st"
    using assms(2) by induction (auto intro: adds_refl adds_trans step)
  then show ?thesis using set_msg_text [OF assms(1)] by (force simp: adds_def qweb_client_init_def)
qed

theorem client_speaks_protocol_witness:
  "\<exists>ok st. ask_login demo_env 5 ''pw'' demo_offline = Inr (ok, st) \<and> length (sent st) = 1
    \<and> (\<forall>s \<in> set (sent st). \<exists>m. client_says m \<and> get_msg text_codec (msg_type m) s = Inr (Some m))"
proof -
  obtain s where s: "set_ac_login text_codec 5 ''pw'' = Inr s"
    using set_msg_utf8 [OF pc.protocol_codec_axioms, of "Ac_login 5 ''pw''"] by auto
  obtain ok st where st: "ask_login demo_env 5 ''pw'' demo_offline = Inr (ok, st)" "length (sent st) = 1"
    using s by (auto simp: ask_login_def client_send_msg_def demo_offline_def qweb_client_init_def)
  have "(client_step demo_env)\<^sup>*\<^sup>* demo_offline st" using st(1) by (blast intro: client_step.call client_call.login r_into_rtranclp)
  with client_speaks_protocol [of demo_env _ _ st] st show ?thesis
    using pc.protocol_codec_axioms unfolding demo_offline_def by fastforce
qed

text \<open>Clients that have said and shown nothing yet, and one message of client 1 to client 2.\<close>

definition fresh_network :: "'d network \<Rightarrow> bool" where
  "fresh_network net \<longleftrightarrow> (\<forall>a. sent (net a) = [] \<and> signals (net a) = [])"

lemma fresh_mailbox: "fresh_network net \<Longrightarrow> mailbox_of c net = empty_mailbox \<and> said c (all_sent net)"
  by (simp add: fresh_network_def mailbox_of_def empty_mailbox_def all_sent_def said_def)

lemma demo_relay:
  "\<exists>net m s. event_runs (net_does text_codec (\<lambda>a. demo_env)) (\<lambda>a. demo_online) [Called 1 [s], Arrived 2 s] net
     \<and> Cs_recv_msg m \<in> set (signals (net 2)) \<and> sm_content m = ''hi'' \<and> set_msg text_codec (swap_of_msg m) = Inr s"
proof -
  let ?m = "\<lparr>sm_target = 2, sm_source = 1, sm_time_to = 5, sm_types = ''Text'', sm_content = ''hi''\<rparr>" and ?c = text_codec
  note c = pc.protocol_codec_axioms
  obtain s where s: "set_swap_msg ?c 2 1 5 ''Text'' ''hi'' = Inr s"
    using set_msg_utf8 [OF c, of "Swap_msg 2 1 5 ''Text'' ''hi''"] by auto
  obtain ack where ack: "set_swap_msg_back ?c 1 2 5 9 = Inr ack"
    using client_replies_defined(1) [OF c] by blast
  have b: "brace_free ''Text''" by (simp add: brace_free_def)
  obtain ok st_a where a: "ask_swap_msg demo_env ?m demo_online = Inr (ok, st_a)" "sent st_a = sent demo_online @ [s]"
    using ask_swap_msg_run [of demo_online "''Text''" ?m 2 1 5 "''hi''" demo_env s] s b
    by (auto simp: client_send_msg_def run_history_def Let_def)
  obtain st_b where st_b: "client_sl_message demo_env s demo_online = Inr st_b" "signals st_b = [Cs_recv_msg ?m]"
    using recv_swap_msg_run [of demo_env demo_online "''Text''" 2 1 5 "''hi''" s ack ?m] c s ack b
    by (auto simp: client_send_msg_def client_emit_def run_history_def Let_def)
  let ?n = "(\<lambda>a. demo_online)(1 := st_a)"
  have "net_does ?c (\<lambda>a. demo_env) (Called 1 [s]) (\<lambda>a. demo_online) ?n"
    by (rule net_does.call, rule client_call.swap_msg, rule a(1), rule a(2))
  moreover have "net_does ?c (\<lambda>a. demo_env) (Arrived 2 s) ?n (?n(2 := st_b))"
    by (rule net_does.arrive, rule may_arrive.relay) (use a(2) st_b(1) in \<open>auto simp: all_sent_def\<close>)
  ultimately have "event_runs (net_does ?c (\<lambda>a. demo_env)) (\<lambda>a. demo_online) (([] @ [Called 1 [s]]) @ [Arrived 2 s]) (?n(2 := st_b))"
    by (intro event_runs.more [OF event_runs.more [OF event_runs.none]])
  then show ?thesis using st_b(2) s by (intro exI [of _ "?n(2 := st_b)"] exI [of _ ?m] exI [of _ s]) (simp add: swap_of_msg_def)
qed

lemma demo_relay_steps:
  "\<exists>net m. (net_step text_codec (\<lambda>a. demo_env))\<^sup>*\<^sup>* (\<lambda>a. demo_online) net \<and> Cs_recv_msg m \<in> set (signals (net 2)) \<and> sm_content m = ''hi''"
proof -
  have "(net_step c env)\<^sup>*\<^sup>* net net'" if "event_runs (net_does c env) net evs net'" for c env evs and net net' :: "(string list) network"
    using that by induction (auto simp: net_step_def intro: rtranclp.rtrancl_into_rtrancl)
  then show ?thesis using demo_relay by blast
qed

text \<open>
  C3: any number of clients and a server that relays their texts, keeps them for later and answers for
  itself simulate one mailbox event by event. The run of the mailbox with the corresponding events ends in
  what the network shows: a text that arrives delivers the messages it holds (those of a bundle one by
  one), which some client wrote, in their order and each once, to the client it reaches, which acknowledges
  each of them once to its sender; a call of a client writes at most one message or acknowledgement and
  delivers nothing; nothing else is shown or acknowledged.
\<close>

theorem network_refines_mailbox:
  assumes "protocol_codec c" "\<forall>a. en_codec (env a) = c" "fresh_network net" "event_runs (net_does c env) net evs net'"
  shows "event_runs mailbox_does empty_mailbox (map (as_mail c) evs) (mailbox_of c net')
    \<and> (\<forall>b. signal_swaps (signals (net' b)) = concat (map (\<lambda>ev. case ev of Arrived a s \<Rightarrow> if a = b then delivers c s else [] | _ \<Rightarrow> []) evs))"
proof -
  note f = fresh_mailbox [OF assms(3), of c]
  have run: "event_runs mailbox_does empty_mailbox (map (as_mail c) evs) (mailbox_of c net')"
    using net_run_mailbox [OF assms(1) _ assms(4)] assms(2) f by simp
  have "delivered_to b (as_mail c ev) = (case ev of Arrived a s \<Rightarrow> if a = b then delivers c s else [] | _ \<Rightarrow> [])" for ev b
    by (cases ev) simp_all
  with mailbox_inbox [OF run]
  have "signal_swaps (signals (net' b)) = concat (map (\<lambda>ev. case ev of Arrived a s \<Rightarrow> if a = b then delivers c s else [] | _ \<Rightarrow> []) evs)" for b
    by (simp add: mailbox_of_def empty_mailbox_def comp_def)
  with run show ?thesis by blast
qed

theorem network_refines_mailbox_witness:
  "\<exists>(net :: (string list) network) m. sm_content m = ''hi'' \<and> signal_swaps (signals (net 2)) = [m]
     \<and> event_runs mailbox_does empty_mailbox [Wrote 1 [m] [], Delivered 2 [m]] (mailbox_of text_codec net)"
proof -
  note c = pc.protocol_codec_axioms
  obtain net m s where r: "event_runs (net_does text_codec (\<lambda>a. demo_env)) (\<lambda>a. demo_online) [Called 1 [s], Arrived 2 s] net"
      "sm_content m = ''hi''" "set_msg text_codec (swap_of_msg m) = Inr s"
    using demo_relay by blast
  have f: "fresh_network (\<lambda>a. demo_online)" by (simp add: fresh_network_def)
  have "read_msg text_codec s = Some (swap_of_msg m)" by (rule read_msg_text [OF c r(3)])
  then have "text_swaps text_codec [s] = [m]" "text_acks text_codec [s] = []" "delivers text_codec s = [m]"
    by (simp_all add: text_swaps_def text_acks_def delivers_def swap_of_msg_def)
  moreover have "\<forall>a. en_codec ((\<lambda>a :: nat. demo_env) a) = text_codec" by simp
  note network_refines_mailbox [OF c this f r(1)]
  ultimately show ?thesis using r(2) by (intro exI [of _ net] exI [of _ m]) simp
qed

text \<open>
  C4: nobody is shown a message nobody sent. In every state such a network reaches, a message signalled to
  a user, with its receiver, sender, time, type and content, is what some client wrote and sent.
\<close>

theorem shown_was_sent:
  assumes "protocol_codec c" "\<forall>a. en_codec (env a) = c" "fresh_network net"
    and "(net_step c env)\<^sup>*\<^sup>* net net'" "Cs_recv_msg m \<in> set (signals (net' b))"
  shows "\<exists>a. \<exists>s \<in> set (sent (net' a)). set_swap_msg c (sm_target m) (sm_source m) (sm_time_to m) (sm_types m) (sm_content m) = Inr s"
proof -
  note f = fresh_mailbox [OF assms(3), of c]
  obtain evs where "event_runs (net_does c env) net evs net'" using net_run_events [OF assms(4)] by blast
  note run = net_run_mailbox [OF assms(1) _ this conjunct2 [OF f]]
  have r: "event_runs mailbox_does (mailbox_of c net) (map (as_mail c) evs) (mailbox_of c net')" "said c (all_sent net')"
    using run assms(2) by auto
  have "m \<in> set (inbox (mailbox_of c net') b)"
    using assms(5) by (force simp: mailbox_of_def signal_swaps_def)
  moreover have "set (inbox (mailbox_of c net') b) \<subseteq> (\<Union>a. set (wrote (mailbox_of c net') a))"
    by (rule mailbox_inbox_written [OF r(1)]) (simp add: f empty_mailbox_def)
  ultimately obtain a where "m \<in> set (text_swaps c (sent (net' a)))"
    by (auto simp: mailbox_of_def)
  moreover have "said c (set (sent (net' a)))" using r(2) by (auto simp: said_def all_sent_def)
  ultimately show ?thesis using text_swaps_said [OF assms(1)] by (force simp: swap_of_msg_def)
qed

theorem shown_was_sent_witness:
  "\<exists>(net :: (string list) network) m a. Cs_recv_msg m \<in> set (signals (net 2)) \<and> sm_content m = ''hi''
     \<and> (\<exists>s \<in> set (sent (net (a :: nat))). set_swap_msg text_codec (sm_target m) (sm_source m) (sm_time_to m) (sm_types m) ''hi'' = Inr s)"
proof -
  obtain net m where r: "(net_step text_codec (\<lambda>a. demo_env))\<^sup>*\<^sup>* (\<lambda>a. demo_online) net" "Cs_recv_msg m \<in> set (signals (net 2))"
      "sm_content m = ''hi''"
    using demo_relay_steps by blast
  have "fresh_network (\<lambda>a. demo_online)" by (simp add: fresh_network_def)
  from shown_was_sent [OF pc.protocol_codec_axioms _ this r(1,2)] r(2,3) show ?thesis by auto
qed

end
