(* ===== verification/Sql_Text.thy ===== *)
theory Sql_Text
  imports Sqlite_Op
begin

text \<open>
  Reading the SQL texts the program writes: a literal, a number and a literal, a quoted text and a literal. The
  engines that interpret the laws of the databases are built from these readers.
\<close>

text \<open>A text with no quote and no zero byte: between quotes it reads as it was meant.\<close>

definition plain_text :: "string \<Rightarrow> bool" where
  "plain_text s \<longleftrightarrow> CHR 0x27 \<notin> set s \<and> CHR 0x00 \<notin> set s"

fun strip :: "string \<Rightarrow> string \<Rightarrow> string option" where
  "strip [] s = Some s"
| "strip (c # l) [] = None"
| "strip (c # l) (x # s) = (if c = x then strip l s else None)"

definition number_char :: "char \<Rightarrow> bool" where
  "number_char c \<longleftrightarrow> is_digit c \<or> c = CHR ''-''"

definition number_then :: "string \<Rightarrow> string \<Rightarrow> (int64 \<times> string) option" where
  "number_then l s = (case strto_int (takeWhile number_char s) of
     None \<Rightarrow> None
   | Some v \<Rightarrow> map_option (\<lambda>r. (word_of_int v, r)) (strip l (dropWhile number_char s)))"

definition quoted_then :: "string \<Rightarrow> string \<Rightarrow> (string \<times> string) option" where
  "quoted_then l s = (case s of
     [] \<Rightarrow> None
   | c # r \<Rightarrow> if c = CHR 0x27
       then map_option (\<lambda>r'. (takeWhile (\<lambda>x. x \<noteq> CHR 0x27) r, r')) (strip l (drop 1 (dropWhile (\<lambda>x. x \<noteq> CHR 0x27) r)))
       else None)"

lemma strip_append [simp]: "strip l (l @ s) = Some s"
  by (induction l) simp_all

lemma number_then_text [simp]:
  assumes "l = [] \<or> \<not> number_char (hd l)" "l = [] \<longrightarrow> s = [] \<or> \<not> number_char (hd s)"
  shows "number_then l (to_string64 n @ l @ s) = Some (n, s)"
proof -
  have c: "\<forall>c \<in> set (to_string64 n). number_char c" using to_string64_chars by (auto simp: number_char_def)
  have "takeWhile number_char (l @ s) = []" "dropWhile number_char (l @ s) = l @ s"
    using assms by (cases l; cases s; auto)+
  then have "takeWhile number_char (to_string64 n @ l @ s) = to_string64 n" "dropWhile number_char (to_string64 n @ l @ s) = l @ s"
    using c by (simp_all add: takeWhile_append dropWhile_append)
  then show ?thesis by (simp add: number_then_def to_string64_def)
qed

lemma quoted_then_text: "plain_text t \<Longrightarrow> quoted_then l (quoted t @ l @ s) = Some (t, s)"
proof -
  assume "plain_text t"
  then have "takeWhile (\<lambda>x. x \<noteq> CHR 0x27) (t @ CHR 0x27 # l @ s) = t" "dropWhile (\<lambda>x. x \<noteq> CHR 0x27) (t @ CHR 0x27 # l @ s) = CHR 0x27 # l @ s"
    by (auto simp: plain_text_def takeWhile_append dropWhile_append)
  then show ?thesis by (simp add: quoted_then_def quoted_def)
qed

lemma no_number_chars: "\<not> number_char (CHR '' '')" "\<not> number_char (CHR '','')" "\<not> number_char (CHR '';'')" "\<not> number_char (CHR '')'')"
  by code_simp+

end
