(* ===== verification/History_Store.thy ===== *)
theory History_Store
  imports Client_Laws Sql_Text "HOL-Library.Multiset"
begin

text \<open>
  The history as a store: what SQLite does with the statements of \<open>sqlite_history\<close>, as laws of the
  parameter \<open>eng\<close>, and what the client keeps of its messages under these laws.
\<close>

section \<open>The statements\<close>

datatype history_stmt = Hs_create int64 | Hs_insert int64 history_row | Hs_feed_back int64 int64 int64
  | Hs_non_read int64 int64 int64 | Hs_all int64 | Hs_unread int64

definition sum_text :: "int64 \<Rightarrow> string" where
  "sum_text ac = ''SELECT SUM(non_read) FROM history_'' @ to_string64 ac @ '';''"

fun stmt_text :: "history_stmt \<Rightarrow> string" where
  "stmt_text (Hs_create ac) = create_history_sql ac"
| "stmt_text (Hs_insert ac row) = insert_history_text ac row"
| "stmt_text (Hs_feed_back ac t v) = set_history_text ''feed_back'' ac t v"
| "stmt_text (Hs_non_read ac t v) = set_history_text ''non_read'' ac t v"
| "stmt_text (Hs_all ac) = ''SELECT * FROM history_'' @ to_string64 ac @ '';''"
| "stmt_text (Hs_unread ac) = ''SELECT * FROM history_'' @ to_string64 ac @ '' WHERE non_read = 1;''"

text \<open>A statement whose texts read as they were meant.\<close>

fun plain_stmt :: "history_stmt \<Rightarrow> bool" where
  "plain_stmt (Hs_insert ac (t, f, n, ty, ob, co)) = (plain_text ty \<and> plain_text ob \<and> plain_text co)"
| "plain_stmt q = True"

section \<open>The store\<close>

text \<open>
  The tables of one file, by friend, in a file that only this program writes. The time of a message is its
  integer primary key: no two rows have the same, and the table is written here in the order of the times
  (which says nothing of the order in which a \<open>SELECT\<close> gives its rows). The names of the tables stand in the
  statements without quotes, so \<open>history_-5\<close> is a syntax error: there is no table of a negative account.
\<close>

type_synonym store = "int64 \<rightharpoonup> history_row list"

definition row_unread :: "history_row \<Rightarrow> int64" where
  "row_unread row = fst (snd (snd row))"

definition row_time :: "history_row \<Rightarrow> int" where
  "row_time row = sint (fst row)"

definition set_feed_back :: "int64 \<Rightarrow> int64 \<Rightarrow> history_row \<Rightarrow> history_row" where
  "set_feed_back t v row = (case row of (t', f, n, rest) \<Rightarrow> if t' = t then (t', v, n, rest) else row)"

definition set_non_read :: "int64 \<Rightarrow> int64 \<Rightarrow> history_row \<Rightarrow> history_row" where
  "set_non_read t v row = (case row of (t', f, n, rest) \<Rightarrow> if t' = t then (t', f, v, rest) else row)"

definition flag :: "int64 \<Rightarrow> bool" where
  "flag n \<longleftrightarrow> n = 0 \<or> n = 1"

fun run_stmt :: "history_stmt \<Rightarrow> store \<Rightarrow> bool \<times> history_row list \<times> store" where
  "run_stmt (Hs_create ac) s =
     (if sint ac < 0 then (False, [], s) else (True, [], if s ac = None then s(ac \<mapsto> []) else s))"
| "run_stmt (Hs_insert ac row) s = (case s ac of
     None \<Rightarrow> (False, [], s)
   | Some rows \<Rightarrow>
       if fst row \<in> fst ` set rows \<or> \<not> flag (row_unread row) then (False, [], s)
       else (True, [], s(ac \<mapsto> insort_key row_time row rows)))"
| "run_stmt (Hs_feed_back ac t v) s = (case s ac of
     None \<Rightarrow> (False, [], s)
   | Some rows \<Rightarrow> (True, [], s(ac \<mapsto> map (set_feed_back t v) rows)))"
| "run_stmt (Hs_non_read ac t v) s = (case s ac of
     None \<Rightarrow> (False, [], s)
   | Some rows \<Rightarrow>
       if t \<in> fst ` set rows \<and> \<not> flag v then (False, [], s)
       else (True, [], s(ac \<mapsto> map (set_non_read t v) rows)))"
| "run_stmt (Hs_all ac) s = (case s ac of None \<Rightarrow> (False, [], s) | Some rows \<Rightarrow> (True, rows, s))"
| "run_stmt (Hs_unread ac) s = (case s ac of
     None \<Rightarrow> (False, [], s)
   | Some rows \<Rightarrow> (True, filter (\<lambda>row. row_unread row = 1) rows, s))"

lemma set_non_read_simps [simp]: "fst (set_non_read t v row) = fst row" "row_time (set_non_read t v row) = row_time row"
  "fst (set_feed_back t v row) = fst row" "row_time (set_feed_back t v row) = row_time row"
  "row_unread (set_feed_back t v row) = row_unread row"
  by (auto simp: set_non_read_def set_feed_back_def row_time_def row_unread_def split: prod.splits)

text \<open>Marking rows one after the other.\<close>

definition mark_rows :: "int64 set \<Rightarrow> history_row \<Rightarrow> history_row" where
  "mark_rows ts row = (if fst row \<in> ts then set_non_read (fst row) 0 row else row)"

lemma mark_rows_more: "mark_rows ts (set_non_read t 0 row) = mark_rows (insert t ts) row"
  by (auto simp: mark_rows_def set_non_read_def split: prod.splits)

text \<open>A call that runs one statement on an open history.\<close>

definition runs :: "(string \<Rightarrow> 'd \<Rightarrow> store) \<Rightarrow> history_stmt \<Rightarrow> sqlite_history \<Rightarrow> 'd \<Rightarrow> (bool \<times> sqlite_history \<times> 'd) res \<Rightarrow> bool" where
  "runs tabs q h d m \<longleftrightarrow> (\<exists>h' d'. m = Inr (fst (run_stmt q (tabs (hist_file h) d)), h', d')
     \<and> history_ready h' \<and> hist_file h' = hist_file h \<and> db h' = db h \<and> tabs (hist_file h) d' = snd (snd (run_stmt q (tabs (hist_file h) d))))"

text \<open>
  The library on these statements. The rows of a \<open>SELECT\<close>, which has no \<open>ORDER BY\<close>, come in any order; \<open>SUM\<close> of
  no row is \<open>NULL\<close>, which reads as 0.
\<close>

locale history_sql =
  fixes eng :: "'d engine" and tabs :: "string \<Rightarrow> 'd \<Rightarrow> store"
  assumes exec_ok: "plain_stmt q \<Longrightarrow> ex_ok (eng_exec eng f (stmt_text q) d) = fst (run_stmt q (tabs f d))"
    and exec_rows: "plain_stmt q \<Longrightarrow> \<exists>rows. mset rows = mset (fst (snd (run_stmt q (tabs f d))))
      \<and> ex_rows (eng_exec eng f (stmt_text q) d) = map history_cols rows"
    and exec_tabs: "plain_stmt q \<Longrightarrow> tabs f (ex_db (eng_exec eng f (stmt_text q) d)) = snd (snd (run_stmt q (tabs f d)))"
    and named: "tabs f d ac = Some rows \<Longrightarrow> 0 \<le> sint ac"
    and sum_rows: "tabs f d ac = Some rows \<Longrightarrow> \<forall>row \<in> set rows. flag (row_unread row)
      \<Longrightarrow> eng_int eng f (sum_text ac) d = Some (of_nat (length (filter (\<lambda>row. row_unread row = 1) rows)))"
begin

lemma exec_plain_runs:
  assumes "history_ready h" "db h = Some (hist_file h)" "plain_stmt q"
  shows "runs tabs q h d (exec_plain eng (Inr (stmt_text q)) h d)"
  using assms(1,2) exec_ok [OF assms(3)] exec_tabs [OF assms(3)]
  by (simp add: runs_def exec_plain_def exec_db_def Let_def)

lemma ops_run:
  assumes "history_ready h" "db h = Some (hist_file h)"
  shows "runs tabs (Hs_create ac) h d (create_history eng ac h d)"
    "runs tabs (Hs_feed_back ac t v) h d (update_feed_back eng ac t v h d)"
    "runs tabs (Hs_non_read ac t v) h d (update_non_read eng ac t v h d)"
    "\<lbrakk>brace_free ty; brace_free ob; plain_text ty; plain_text ob; plain_text co\<rbrakk>
      \<Longrightarrow> runs tabs (Hs_insert ac (t, f, n, ty, ob, co)) h d (insert_history eng ac (t, f, n, ty, ob, co) h d)"
  using exec_plain_runs [OF assms, of "Hs_create ac"] exec_plain_runs [OF assms, of "Hs_feed_back ac t v"]
    exec_plain_runs [OF assms, of "Hs_non_read ac t v"] exec_plain_runs [OF assms, of "Hs_insert ac (t, f, n, ty, ob, co)"]
  by (simp_all add: create_history_run assms(1) update_history_run insert_history_run)

lemma marks_all:
  "tabs f d ac = Some rows \<Longrightarrow> tabs f (run_all eng f (map (mark_read ac) ts) d) = (tabs f d)(ac \<mapsto> map (mark_rows (fst ` set ts)) rows)"
proof (induction ts arbitrary: d rows)
  case Nil
  have "mark_rows {} row = row" for row by (simp add: mark_rows_def)
  with Nil show ?case by (simp add: fun_upd_idem)
next
  case (Cons x ts)
  let ?d = "ex_db (eng_exec eng f (mark_read ac x) d)" and ?rows = "map (set_non_read (fst x) 0) rows"
  have d: "tabs f ?d = (tabs f d)(ac \<mapsto> ?rows)"
    using exec_tabs [of "Hs_non_read ac (fst x) 0" f d] Cons(2) by (simp add: mark_read_def flag_def)
  then show ?case using Cons(1) [of ?d ?rows] by (simp add: comp_def mark_rows_more fun_eq_iff)
qed

lemma select_rows:
  assumes "history_ready h" "db h = Some f" "tabs f d ac = Some rows"
  shows "\<exists>out h' d'. select_history eng ac vec [] h d = Inr (True, vec @ out, h', d') \<and> mset out = mset rows \<and> tabs f d' = tabs f d"
proof -
  let ?q = "Hs_all ac"
  let ?r = "eng_exec eng f (stmt_text ?q) d"
  obtain out where out: "mset out = mset rows" "ex_rows ?r = map history_cols out"
    using assms(3) exec_rows [of ?q f d] by auto
  have r: "ex_ok ?r" "ex_rows ?r = map history_cols out @ []" "tabs f (ex_db ?r) = tabs f d"
    using assms(3) exec_ok [of ?q] out(2) exec_tabs [of ?q] by simp_all
  have "select_history eng ac vec [] h d = (case convert_rows (history_tuple history_names) [] (vec @ out) of
      (ok, out) \<Rightarrow> Inr (ok, out, h\<lparr>db_error := ex_error ?r\<rparr>, ex_db ?r))"
    by (rule select_history_run [OF assms(1,2) _ refl r(1,2)]) simp_all
  with r(3) out(1) show ?thesis by simp
qed

lemma count_rows:
  assumes "history_ready h" "db h = Some f" "tabs f d ac = Some rows" "\<forall>row \<in> set rows. flag (row_unread row)"
  shows "count_non_read eng ac h d = Inr (of_nat (length (filter (\<lambda>row. row_unread row = 1) rows)))"
proof -
  have "sformat ''SELECT SUM(non_read) FROM {0};'' [A_str (''history_'' @ to_string64 ac)] = Inr (sum_text ac)"
    using sformat_one [of "''SELECT SUM(non_read) FROM ''" "'';''" "A_str (''history_'' @ to_string64 ac)"]
    by (simp add: sum_text_def arg_to_string.simps)
  then show ?thesis using sum_rows [OF assms(3,4)] assms(1,2) by (simp add: count_non_read_def make_table_name query_int_def)
qed

lemma read_unread:
  assumes "history_ready h" "db h = Some f" "tabs f d ac = Some rows"
  shows "\<exists>out h' d'. read_history_non_read eng ac vec (Some h) d = Inr (vec @ map to_ct_msg out, h', d')
    \<and> mset out = mset (filter (\<lambda>row. row_unread row = 1) rows) \<and> history_ready h' \<and> db h' = db h
    \<and> tabs f d' = (tabs f d)(ac \<mapsto> map (mark_rows (fst ` set (filter (\<lambda>row. row_unread row = 1) rows))) rows)"
proof -
  let ?q = "Hs_unread ac" and ?un = "filter (\<lambda>row. row_unread row = 1) rows"
  let ?r = "eng_exec eng f (stmt_text ?q) d"
  obtain ts where ts: "mset ts = mset ?un" "ex_rows ?r = map history_cols ts"
    using assms(3) exec_rows [of ?q f d] by auto
  have r: "ex_ok ?r" "ex_rows ?r = map history_cols ts @ []" "tabs f (ex_db ?r) = tabs f d"
    using assms(3) exec_ok [of ?q] ts(2) exec_tabs [of ?q] by simp_all
  have "\<exists>st'. rbind (select_history eng ac [] (stmt_text ?q) h d) (\<lambda>(ok, vec_line, st', d').
      if ok then show_rows eng ac vec_line vec st' d' else Inr (vec, st', d'))
    = Inr (if [] = ([] :: row list) then (vec @ map to_ct_msg ts, st', run_all eng f (map (mark_read ac) ts) (ex_db ?r))
           else (vec, st', ex_db ?r)) \<and> history_ready st' \<and> db st' = Some f"
    by (rule reader_run [OF assms(1,2) refl r(1,2)]) simp_all
  moreover have "tabs f (run_all eng f (map (mark_read ac) ts) (ex_db ?r))
      = (tabs f d)(ac \<mapsto> map (mark_rows (fst ` set ?un)) rows)"
    using marks_all [of f "ex_db ?r" ac rows ts] r(3) assms(3) mset_eq_setD [OF ts(1)] by simp
  ultimately show ?thesis using assms(2) ts(1) by (auto simp: read_history_non_read_def select_non_read_run)
qed

end

section \<open>Well-formed stores\<close>

definition table_ok :: "history_row list \<Rightarrow> bool" where
  "table_ok rows \<longleftrightarrow> sorted_wrt (<) (map row_time rows) \<and> (\<forall>row \<in> set rows. flag (row_unread row))"

definition store_ok :: "store \<Rightarrow> bool" where
  "store_ok s \<longleftrightarrow> (\<forall>ac rows. s ac = Some rows \<longrightarrow> table_ok rows)"

lemma distinct_insort: "distinct (map f (insort_key f x xs)) \<longleftrightarrow> distinct (f x # map f xs)"
  by (induction xs) (auto simp: set_insort_key)

lemma length_filter_insort: "length (filter P (insort_key f x xs)) = length (filter P (x # xs))"
  by (induction xs) simp_all

lemma table_ok_insert:
  assumes "table_ok rows" "fst row \<notin> fst ` set rows" "flag (row_unread row)"
  shows "table_ok (insort_key row_time row rows)"
proof -
  have "distinct (map row_time rows)" "sorted (map row_time rows)"
    using assms(1) by (simp_all add: table_ok_def strict_sorted_iff)
  moreover have "row_time row \<notin> set (map row_time rows)"
    using assms(2) by (force simp: row_time_def dest: signed_word_eqI)
  ultimately have "sorted_wrt (<) (map row_time (insort_key row_time row rows))"
    by (simp add: strict_sorted_iff sorted_insort_key distinct_insort)
  with assms show ?thesis by (auto simp: table_ok_def set_insort_key)
qed

lemma row_unread_set: "row_unread (set_non_read t v row) = (if fst row = t then v else row_unread row)"
  by (cases row) (simp add: set_non_read_def row_unread_def)

lemma table_ok_set:
  "table_ok rows \<Longrightarrow> table_ok (map (set_feed_back t v) rows)"
  "table_ok rows \<Longrightarrow> flag v \<or> t \<notin> fst ` set rows \<Longrightarrow> table_ok (map (set_non_read t v) rows)"
  by (auto simp: table_ok_def comp_def row_unread_set)

text \<open>Once the unread rows are marked, none is unread.\<close>

lemma marked_rows:
  fixes rows :: "history_row list"
  defines "ts \<equiv> fst ` set (filter (\<lambda>row. row_unread row = 1) rows)"
  shows "filter (\<lambda>row. row_unread row = 1) (map (mark_rows ts) rows) = []"
    "\<forall>row \<in> set rows. flag (row_unread row) \<Longrightarrow> \<forall>row \<in> set (map (mark_rows ts) rows). flag (row_unread row)"
proof -
  have "row_unread (mark_rows ts row) = (if fst row \<in> ts then 0 else row_unread row)" for row
    by (simp add: mark_rows_def row_unread_set)
  then show "filter (\<lambda>row. row_unread row = 1) (map (mark_rows ts) rows) = []"
    "\<forall>row \<in> set rows. flag (row_unread row) \<Longrightarrow> \<forall>row \<in> set (map (mark_rows ts) rows). flag (row_unread row)"
    by (auto simp: filter_empty_conv flag_def ts_def)
qed

lemma store_ok_run: "store_ok s \<Longrightarrow> store_ok (snd (snd (run_stmt q s)))"
  by (cases q) (auto simp: store_ok_def table_ok_insert table_ok_set split: option.splits, simp add: table_ok_def)

section \<open>A library with these laws\<close>

text \<open>It reads the statements the program writes and keeps the tables of every file.\<close>

definition create_tail :: string where
  "create_tail = '' ('' @ CHR 0x0A #
     ''            send_time INTEGER PRIMARY KEY,'' @ CHR 0x0A #
     ''            feed_back INTEGER,'' @ CHR 0x0A #
     ''            non_read INTEGER CHECK (non_read >= 0 AND non_read <= 1),'' @ CHR 0x0A #
     ''            types TEXT,'' @ CHR 0x0A #
     ''            object TEXT,'' @ CHR 0x0A #
     ''            content TEXT'' @ CHR 0x0A #
     ''        );'' @ CHR 0x0A # ''        ''"

definition parse_insert :: "string \<Rightarrow> history_stmt option" where
  "parse_insert s =
     Option.bind (number_then '' VALUES ('' s) (\<lambda>(ac, s).
     Option.bind (number_then '','' s) (\<lambda>(t, s).
     Option.bind (number_then '','' s) (\<lambda>(f, s).
     Option.bind (number_then '','' s) (\<lambda>(n, s).
     Option.bind (quoted_then '','' s) (\<lambda>(ty, s).
     Option.bind (quoted_then '','' s) (\<lambda>(ob, s).
     Option.bind (quoted_then '');'' s) (\<lambda>(co, s).
     if s = [] then Some (Hs_insert ac (t, f, n, ty, ob, co)) else None)))))))"

definition parse_set :: "string \<Rightarrow> history_stmt option" where
  "parse_set s =
     Option.bind (number_then '' SET '' s) (\<lambda>(ac, s).
     case strip ''feed_back = '' s of
       Some s \<Rightarrow>
         Option.bind (number_then '' WHERE send_time = '' s) (\<lambda>(v, s).
         Option.bind (number_then ''; '' s) (\<lambda>(t, s). Some (Hs_feed_back ac t v)))
     | None \<Rightarrow>
         Option.bind (strip ''non_read = '' s) (\<lambda>s.
         Option.bind (number_then '' WHERE send_time = '' s) (\<lambda>(v, s).
         Option.bind (number_then ''; '' s) (\<lambda>(t, s). Some (Hs_non_read ac t v)))))"

definition parse_select :: "string \<Rightarrow> history_stmt option" where
  "parse_select s = Option.bind (number_then [] s) (\<lambda>(ac, s).
     if s = '';'' then Some (Hs_all ac) else if s = '' WHERE non_read = 1;'' then Some (Hs_unread ac) else None)"

definition parse_stmt :: "string \<Rightarrow> history_stmt option" where
  "parse_stmt s =
     (case strip ''INSERT INTO history_'' s of
        Some r \<Rightarrow> parse_insert r
      | None \<Rightarrow> (case strip '' UPDATE history_'' s of
          Some r \<Rightarrow> parse_set r
        | None \<Rightarrow> (case strip ''SELECT * FROM history_'' s of
            Some r \<Rightarrow> parse_select r
          | None \<Rightarrow> Option.bind (strip (CHR 0x0A # ''        CREATE TABLE IF NOT EXISTS history_'') s) (\<lambda>r.
              map_option (\<lambda>(ac, r). Hs_create ac) (number_then create_tail r)))))"

type_synonym disk_tables = "string \<Rightarrow> store"

text \<open>The tables that statements can name.\<close>

definition nameable :: "store \<Rightarrow> store" where
  "nameable s ac = (if sint ac < 0 then None else s ac)"

lemma nameable_run: "nameable (snd (snd (run_stmt q (nameable s)))) = snd (snd (run_stmt q (nameable s)))"
  by (cases q) (auto simp: nameable_def fun_eq_iff split: option.splits if_splits)

definition disk_tabs :: "string \<Rightarrow> disk_tables \<Rightarrow> store" where
  "disk_tabs f d = nameable (d f)"

definition store_engine :: "disk_tables engine" where
  "store_engine = \<lparr>eng_open = (\<lambda>f d. (True, d)), eng_close = (\<lambda>f d. (True, d)),
     eng_exec = (\<lambda>f sql d. case parse_stmt sql of
         None \<Rightarrow> \<lparr>ex_ok = False, ex_rows = [], ex_error = Some ''error'', ex_db = d\<rparr>
       | Some q \<Rightarrow> (case run_stmt q (disk_tabs f d) of (ok, rows, s) \<Rightarrow>
           \<lparr>ex_ok = ok, ex_rows = map history_cols rows, ex_error = (if ok then None else Some ''error''), ex_db = d(f := s)\<rparr>)),
     eng_int = (\<lambda>f sql d. Option.bind (strip ''SELECT SUM(non_read) FROM history_'' sql) (\<lambda>s.
       Option.bind (number_then '';'' s) (\<lambda>(ac, s).
       map_option (\<lambda>rows. of_nat (length (filter (\<lambda>row. row_unread row = 1) rows))) (disk_tabs f d ac)))),
     eng_errmsg = (\<lambda>f d. None)\<rparr>"

text \<open>The next number and the text after it, with the literal written as one.\<close>

lemma number_lit:
  "number_then '' VALUES ('' (to_string64 n @ '' VALUES ('' @ s) = Some (n, s)"
  "number_then '','' (to_string64 n @ '','' @ s) = Some (n, s)"
  "number_then '' SET '' (to_string64 n @ '' SET '' @ s) = Some (n, s)"
  "number_then '' WHERE send_time = '' (to_string64 n @ '' WHERE send_time = '' @ s) = Some (n, s)"
  "number_then ''; '' (to_string64 n @ ''; '') = Some (n, [])"
  "number_then '';'' (to_string64 n @ '';'') = Some (n, [])"
  "number_then create_tail (to_string64 n @ create_tail) = Some (n, [])"
  "number_then [] (to_string64 n @ '';'') = Some (n, '';'')"
  "number_then [] (to_string64 n @ '' WHERE non_read = 1;'') = Some (n, '' WHERE non_read = 1;'')"
  using number_then_text [of "'' VALUES (''" s n] number_then_text [of "'',''" s n] number_then_text [of "'' SET ''" s n]
    number_then_text [of "'' WHERE send_time = ''" s n] number_then_text [of "''; ''" "[]" n] number_then_text [of "'';''" "[]" n]
    number_then_text [of create_tail "[]" n] number_then_text [of "[]" "'';''" n] number_then_text [of "[]" "'' WHERE non_read = 1;''" n]
  by (simp_all add: no_number_chars create_tail_def)

lemma parse_insert_text:
  assumes "plain_text ty" "plain_text ob" "plain_text co"
  shows "parse_insert (to_string64 ac @ '' VALUES ('' @ to_string64 t @ '','' @ to_string64 f @ '','' @ to_string64 n @ '',''
      @ quoted ty @ '','' @ quoted ob @ '','' @ quoted co @ '');'') = Some (Hs_insert ac (t, f, n, ty, ob, co))"
  using quoted_then_text [OF assms(1)] quoted_then_text [OF assms(2)] quoted_then_text [OF assms(3), of "'');''" "[]"]
  by (simp only: parse_insert_def number_lit bind.bind_lunit prod.case append_Nil2 simp_thms if_True)

lemma parse_set_text:
  "parse_set (to_string64 ac @ '' SET '' @ ''feed_back = '' @ to_string64 v @ '' WHERE send_time = '' @ to_string64 t @ ''; '')
     = Some (Hs_feed_back ac t v)"
  "parse_set (to_string64 ac @ '' SET '' @ ''non_read = '' @ to_string64 v @ '' WHERE send_time = '' @ to_string64 t @ ''; '')
     = Some (Hs_non_read ac t v)"
proof -
  have "strip ''feed_back = '' (''non_read = '' @ s) = None" for s by simp
  then show "parse_set (to_string64 ac @ '' SET '' @ ''non_read = '' @ to_string64 v @ '' WHERE send_time = '' @ to_string64 t @ ''; '')
     = Some (Hs_non_read ac t v)"
    by (simp only: parse_set_def number_lit bind.bind_lunit prod.case option.case strip_append)
  show "parse_set (to_string64 ac @ '' SET '' @ ''feed_back = '' @ to_string64 v @ '' WHERE send_time = '' @ to_string64 t @ ''; '')
     = Some (Hs_feed_back ac t v)"
    by (simp only: parse_set_def number_lit bind.bind_lunit prod.case option.case strip_append)
qed

lemma parse_stmt_text: "plain_stmt q \<Longrightarrow> parse_stmt (stmt_text q) = Some q"
proof (cases q)
  case (Hs_create ac)
  have "create_history_sql ac = (CHR 0x0A # ''        CREATE TABLE IF NOT EXISTS history_'') @ to_string64 ac @ create_tail"
    by (simp add: create_history_sql_def create_tail_def)
  then show ?thesis using number_lit(7) [of ac]
    by (simp only: parse_stmt_def Hs_create stmt_text.simps) simp
next
  case (Hs_insert ac row)
  assume q: "plain_stmt q"
  obtain t f n ty ob co where row: "row = (t, f, n, ty, ob, co)" by (cases row)
  have "stmt_text q = ''INSERT INTO history_'' @ to_string64 ac @ '' VALUES ('' @ to_string64 t @ '','' @ to_string64 f @ '','' @ to_string64 n @ '',''
      @ quoted ty @ '','' @ quoted ob @ '','' @ quoted co @ '');''"
    by (simp add: Hs_insert row insert_history_text_def)
  then show ?thesis using parse_insert_text [of ty ob co ac t f n] q
    by (simp only: parse_stmt_def strip_append option.case Hs_insert row plain_stmt.simps)
next
  case (Hs_feed_back ac t v)
  have "stmt_text q = '' UPDATE history_'' @ to_string64 ac @ '' SET '' @ ''feed_back = '' @ to_string64 v @ '' WHERE send_time = '' @ to_string64 t @ ''; ''"
    by (simp add: Hs_feed_back set_history_text_def)
  moreover have "strip ''INSERT INTO history_'' ('' UPDATE history_'' @ s) = None" for s by simp
  ultimately show ?thesis
    by (simp only: parse_stmt_def strip_append option.case Hs_feed_back parse_set_text)
next
  case (Hs_non_read ac t v)
  have "stmt_text q = '' UPDATE history_'' @ to_string64 ac @ '' SET '' @ ''non_read = '' @ to_string64 v @ '' WHERE send_time = '' @ to_string64 t @ ''; ''"
    by (simp add: Hs_non_read set_history_text_def)
  moreover have "strip ''INSERT INTO history_'' ('' UPDATE history_'' @ s) = None" for s by simp
  ultimately show ?thesis
    by (simp only: parse_stmt_def strip_append option.case Hs_non_read parse_set_text)
next
  case (Hs_all ac)
  have "strip ''INSERT INTO history_'' (''SELECT * FROM history_'' @ s) = None" "strip '' UPDATE history_'' (''SELECT * FROM history_'' @ s) = None" for s
    by simp_all
  then show ?thesis using number_lit(8) [of ac]
    by (simp only: parse_stmt_def strip_append option.case Hs_all stmt_text.simps parse_select_def) simp
next
  case (Hs_unread ac)
  have "strip ''INSERT INTO history_'' (''SELECT * FROM history_'' @ s) = None" "strip '' UPDATE history_'' (''SELECT * FROM history_'' @ s) = None" for s
    by simp_all
  then show ?thesis using number_lit(9) [of ac]
    by (simp only: parse_stmt_def strip_append option.case Hs_unread stmt_text.simps parse_select_def) simp
qed

interpretation hs: history_sql store_engine disk_tabs
proof
  fix q f and d :: disk_tables
  assume q: "plain_stmt q"
  obtain ok rows s where r: "run_stmt q (disk_tabs f d) = (ok, rows, s)" by (metis prod.exhaust)
  show "ex_ok (eng_exec store_engine f (stmt_text q) d) = fst (run_stmt q (disk_tabs f d))"
    "\<exists>rows. mset rows = mset (fst (snd (run_stmt q (disk_tabs f d))))
      \<and> ex_rows (eng_exec store_engine f (stmt_text q) d) = map history_cols rows"
    by (auto simp: store_engine_def parse_stmt_text [OF q] r)
  show "disk_tabs f (ex_db (eng_exec store_engine f (stmt_text q) d)) = snd (snd (run_stmt q (disk_tabs f d)))"
    using nameable_run [of q "d f"] r by (simp add: store_engine_def parse_stmt_text [OF q] disk_tabs_def)
next
  fix f ac and d :: disk_tables and rows
  assume s: "disk_tabs f d ac = Some rows"
  then show "0 \<le> sint ac" by (simp add: disk_tabs_def nameable_def split: if_splits)
  have "strip ''SELECT SUM(non_read) FROM history_'' (sum_text ac) = Some (to_string64 ac @ '';'')"
    unfolding sum_text_def by (rule strip_append)
  with s show "eng_int store_engine f (sum_text ac) d = Some (of_nat (length (filter (\<lambda>row. row_unread row = 1) rows)))"
    using number_lit(6) [of ac] by (simp add: store_engine_def)
qed

section \<open>Properties\<close>

text \<open>
  C7: the history is the store. On an open history every operation of \<open>sqlite_history\<close> answers and changes the
  tables as the store does: creating a table, which fails for a negative account (its name is no name of a
  table), inserting a message whose type and object hold no brace and whose texts hold no quote and no zero
  byte, and the two updates; reading a table gives each of its messages once, in any order, and changes no
  table, and counting gives the number of the unread ones; an account below zero has no table and gets none.
\<close>

theorem history_is_store:
  assumes "history_sql eng tabs" "history_ready h" "db h = Some (hist_file h)"
  shows "runs tabs (Hs_create ac) h d (create_history eng ac h d)
    \<and> runs tabs (Hs_feed_back ac t v) h d (update_feed_back eng ac t v h d)
    \<and> runs tabs (Hs_non_read ac t v) h d (update_non_read eng ac t v h d)
    \<and> (brace_free ty \<and> brace_free ob \<and> plain_text ty \<and> plain_text ob \<and> plain_text co
        \<longrightarrow> runs tabs (Hs_insert ac (t, f, n, ty, ob, co)) h d (insert_history eng ac (t, f, n, ty, ob, co) h d))
    \<and> (\<forall>rows. tabs (hist_file h) d ac = Some rows \<and> table_ok rows
        \<longrightarrow> (\<exists>out h' d'. select_history eng ac vec [] h d = Inr (True, vec @ out, h', d') \<and> mset out = mset rows
            \<and> tabs (hist_file h) d' = tabs (hist_file h) d)
          \<and> count_non_read eng ac h d = Inr (of_nat (length (filter (\<lambda>row. row_unread row = 1) rows))))
    \<and> (sint ac < 0 \<longrightarrow> tabs (hist_file h) d ac = None \<and> (\<exists>h' d'. create_history eng ac h d = Inr (False, h', d')
        \<and> tabs (hist_file h) d' = tabs (hist_file h) d))"
proof -
  have "tabs (hist_file h) d ac = None" if "sint ac < 0"
    using history_sql.named [OF assms(1), of "hist_file h" d ac] that by (cases "tabs (hist_file h) d ac") auto
  moreover have "\<exists>h' d'. create_history eng ac h d = Inr (False, h', d') \<and> tabs (hist_file h) d' = tabs (hist_file h) d" if "sint ac < 0"
    using history_sql.ops_run(1) [OF assms, of ac d] that by (auto simp: runs_def)
  ultimately show ?thesis
    using history_sql.ops_run [OF assms] history_sql.select_rows [OF assms] history_sql.count_rows [OF assms]
    by (simp add: table_ok_def)
qed

lemma run_history_tabs:
  "history_sql (en_engine env) tabs \<Longrightarrow> plain_stmt q \<Longrightarrow> tabs (hist_file (dbh st)) (databases (run_history env (stmt_text q) st))
    = snd (snd (run_stmt q (tabs (hist_file (dbh st)) (databases st))))"
  using history_sql.exec_tabs [of "en_engine env" tabs q] by (simp add: run_history_def Let_def)

lemma run_history_file [simp]: "hist_file (dbh (run_history env q st)) = hist_file (dbh st)"
  "sent (run_history env q st) = sent st" "signals (run_history env q st) = signals st" "ticks (run_history env q st) = ticks st"
  by (simp_all add: run_history_def Let_def)

lemma swap_msg_stored:
  assumes "protocol_codec (en_codec env)" "history_sql (en_engine env) tabs" "history_open st"
    and "set_swap_msg (en_codec env) b a t ty co = Inr s" "brace_free ty" "plain_text ty" "plain_text co"
  shows "\<exists>st1 ack. client_sl_message env s st = Inr st1 \<and> history_open st1 \<and> hist_file (dbh st1) = hist_file (dbh st)
    \<and> tabs (hist_file (dbh st)) (databases st1)
      = snd (snd (run_stmt (Hs_insert a (t, t, 1, ty, object_AL, co)) (tabs (hist_file (dbh st)) (databases st))))
    \<and> signals st1 = signals st @ [Cs_recv_msg \<lparr>sm_target = b, sm_source = a, sm_time_to = t, sm_types = ty, sm_content = co\<rparr>]
    \<and> sent st1 = sent st @ [ack] \<and> set_swap_msg_back (en_codec env) a b t (en_clock env (ticks st)) = Inr ack"
proof -
  let ?q = "Hs_insert a (t, t, 1, ty, object_AL, co)"
  let ?m = "\<lparr>sm_target = b, sm_source = a, sm_time_to = t, sm_types = ty, sm_content = co\<rparr>"
  obtain ack where ack: "set_swap_msg_back (en_codec env) a b t (en_clock env (ticks st)) = Inr ack"
    using client_replies_defined(1) [OF assms(1)] by blast
  have "plain_stmt ?q" using assms(6,7) by (simp add: plain_text_def type_names)
  note r = run_history_tabs [OF assms(2) this, of st]
  show ?thesis
    using recv_swap_msg_run [OF assms(1,3,5,4) ack refl] r assms(3) ack
    by (simp add: client_send_msg_def client_emit_def history_open_def run_history_def Let_def history_ready_def)
qed

text \<open>
  C6: a message that is received is kept, on three conditions. The history is open and holds a table for its
  sender in which its time is not taken; its type holds no brace; and neither its type nor its content holds a
  quote or a zero byte (a message such as \<open>it's\<close> ends its statement early and is not covered). Then it is among the unread
  messages that are read next, one more is counted until then, and after that reading finds none and the count is zero.
\<close>

theorem message_kept:
  assumes "protocol_codec (en_codec env)" "history_sql (en_engine env) tabs" "history_open st"
    and "set_swap_msg (en_codec env) b a t ty co = Inr s" "brace_free ty" "plain_text ty" "plain_text co"
    and "tabs (hist_file (dbh st)) (databases st) a = Some rows" "table_ok rows" "t \<notin> fst ` set rows"
  shows "\<exists>st1 msgs h d. client_sl_message env s st = Inr st1
    \<and> count_non_read (en_engine env) a (dbh st1) (databases st1) = Inr (of_nat (length (filter (\<lambda>row. row_unread row = 1) rows)) + 1)
    \<and> read_history_non_read (en_engine env) a [] (Some (dbh st1)) (databases st1) = Inr (msgs, h, d)
    \<and> set msgs = insert \<lparr>mt_time = t, mt_types = ty, mt_object = object_AL, mt_content = co\<rparr>
        (to_ct_msg ` {row \<in> set rows. row_unread row = 1})
    \<and> count_non_read (en_engine env) a h d = Inr 0 \<and> (\<exists>h' d'. read_history_non_read (en_engine env) a [] (Some h) d = Inr ([], h', d'))"
proof -
  let ?row = "(t, t, 1, ty, object_AL, co)" and ?f = "hist_file (dbh st)" and ?un = "\<lambda>row :: history_row. row_unread row = 1"
  let ?rows = "insort_key row_time ?row rows"
  obtain st1 where st1: "client_sl_message env s st = Inr st1" "history_open st1" "hist_file (dbh st1) = ?f"
      "tabs ?f (databases st1) = snd (snd (run_stmt (Hs_insert a ?row) (tabs ?f (databases st))))"
    using swap_msg_stored [OF assms(1-7)] by blast
  have flag: "flag (row_unread ?row)" by (simp add: flag_def row_unread_def)
  have rows: "tabs ?f (databases st1) a = Some ?rows" using st1(4) assms(8,10) flag by simp
  have ok: "table_ok ?rows" by (rule table_ok_insert) (use assms(9,10) flag in simp_all)
  have h1: "history_ready (dbh st1)" "db (dbh st1) = Some ?f" using st1(2,3) by (simp_all add: history_open_def)
  note eng = history_sql.read_unread [OF assms(2)] history_sql.count_rows [OF assms(2)]
  obtain out h d where h: "read_history_non_read (en_engine env) a [] (Some (dbh st1)) (databases st1) = Inr (map to_ct_msg out, h, d)"
      "mset out = mset (filter ?un ?rows)" "history_ready h" "db h = db (dbh st1)"
      "tabs ?f d a = Some (map (mark_rows (fst ` set (filter ?un ?rows))) ?rows)"
    using eng(1) [OF h1 rows, of "[]"] by auto
  note out = mset_eq_setD [OF h(2)]
  let ?rows2 = "map (mark_rows (fst ` set (filter ?un ?rows))) ?rows"
  have flags: "\<forall>row \<in> set ?rows. flag (row_unread row)" using ok by (simp add: table_ok_def)
  note none = marked_rows(1) [of ?rows] and flags2 = marked_rows(2) [OF flags]
  have h2: "db h = Some ?f" using h(4) h1(2) by simp
  have "count_non_read (en_engine env) a (dbh st1) (databases st1) = Inr (of_nat (length (filter ?un rows)) + 1)"
    using eng(2) [OF h1 rows flags] by (simp add: length_filter_insort row_unread_def add.commute)
  moreover have "count_non_read (en_engine env) a h d = Inr 0"
    unfolding eng(2) [OF h(3) h2 h(5) flags2] none by simp
  moreover have "\<exists>h' d'. read_history_non_read (en_engine env) a [] (Some h) d = Inr ([], h', d')"
    using eng(1) [OF h(3) h2 h(5), of "[]"] unfolding none by auto
  moreover have "set (map to_ct_msg out) = insert \<lparr>mt_time = t, mt_types = ty, mt_object = object_AL, mt_content = co\<rparr>
        (to_ct_msg ` {row \<in> set rows. row_unread row = 1})"
    unfolding set_map out by (auto simp: set_insort_key to_ct_msg_def row_unread_def image_iff)
  ultimately show ?thesis using st1(1) h(1) by blast
qed

text \<open>
  C39: two messages of one friend with the same time. The second one is shown and acknowledged like any
  other, and the history does not keep it; the same collision when a message is written makes \<open>ask_swap_msg\<close>
  answer false and send nothing.
\<close>

theorem same_time_lost:
  assumes "protocol_codec (en_codec env)" "history_sql (en_engine env) tabs" "history_open st"
    and "set_swap_msg (en_codec env) b a t ty co = Inr s" "brace_free ty" "plain_text ty" "plain_text co"
    and "tabs (hist_file (dbh st)) (databases st) a = Some rows" "t \<in> fst ` set rows"
  shows "\<exists>st1 ack. client_sl_message env s st = Inr st1
    \<and> signals st1 = signals st @ [Cs_recv_msg \<lparr>sm_target = b, sm_source = a, sm_time_to = t, sm_types = ty, sm_content = co\<rparr>]
    \<and> sent st1 = sent st @ [ack] \<and> set_swap_msg_back (en_codec env) a b t (en_clock env (ticks st)) = Inr ack
    \<and> tabs (hist_file (dbh st)) (databases st1) = tabs (hist_file (dbh st)) (databases st)
    \<and> (\<exists>st2. ask_swap_msg env \<lparr>sm_target = a, sm_source = b, sm_time_to = t, sm_types = ty, sm_content = co\<rparr> st = Inr (False, st2)
        \<and> sent st2 = sent st \<and> tabs (hist_file (dbh st)) (databases st2) = tabs (hist_file (dbh st)) (databases st))"
proof -
  let ?q = "Hs_insert a (t, 0, 0, ty, object_AR, co)" and ?f = "hist_file (dbh st)"
  have q: "plain_stmt ?q" using assms(6,7) by (simp add: plain_text_def type_names)
  have run: "run_stmt ?q (tabs ?f (databases st)) = (False, [], tabs ?f (databases st))" using assms(8,9) by simp
  have "on_history (insert_history (en_engine env) a (t, 0, 0, ty, object_AR, co)) st
      = Inr (ex_ok (eng_exec (en_engine env) ?f (stmt_text ?q) (databases st)), run_history env (stmt_text ?q) st)"
    by (rule on_history_run [OF assms(3)])
      (use assms(3,5) in \<open>simp add: insert_history_run history_open_def\<close>)
  then have "ask_swap_msg env \<lparr>sm_target = a, sm_source = b, sm_time_to = t, sm_types = ty, sm_content = co\<rparr> st
      = Inr (False, run_history env (stmt_text ?q) st)"
    using history_sql.exec_ok [OF assms(2) q] run by (simp add: ask_swap_msg_def)
  moreover have "tabs ?f (databases (run_history env (stmt_text ?q) st)) = tabs ?f (databases st)"
    using run_history_tabs [OF assms(2) q, of st] run by simp
  moreover have "run_stmt (Hs_insert a (t, t, 1, ty, object_AL, co)) (tabs ?f (databases st)) = (False, [], tabs ?f (databases st))"
    using assms(8,9) by simp
  ultimately show ?thesis using swap_msg_stored [OF assms(1-7)] by fastforce
qed

section \<open>Witnesses\<close>

definition store_env :: "disk_tables client_env" where
  "store_env = \<lparr>en_codec = text_codec, en_engine = store_engine, en_conn = (\<lambda>s. True), en_clock = (\<lambda>n. 9)\<rparr>"

definition store_client :: "history_row list \<Rightarrow> disk_tables qweb_client" where
  "store_client rows = (qweb_client_init \<lparr>min_delay = 0, max_delay = 0, delay_policy = 0\<rparr> (\<lambda>f. [7 \<mapsto> rows]))\<lparr>dbh :=
     sqlite_history_init\<lparr>db := Some ''h.db'', hist_file := ''h.db''\<rparr>\<rparr>"

lemma store_client_simps [simp]:
  "history_open (store_client rows)" "disk_tabs f (databases (store_client rows)) 7 = Some rows" "hist_file (dbh (store_client rows)) = ''h.db''"
  "signals (store_client rows) = []" "sent (store_client rows) = []" "en_codec store_env = text_codec" "en_engine store_env = store_engine"
  "en_clock store_env n = 9" "ticks (store_client rows) = 0"
  by (simp_all add: store_client_def store_env_def qweb_client_init_def history_open_def history_ready_def sqlite_history_init_def history_names_def
      disk_tabs_def nameable_def)

definition demo_row :: history_row where
  "demo_row = (3, 3, 1, ''Text'', ''AL'', ''hi'')"

lemma demo_row_ok: "table_ok [demo_row]" "fst demo_row = 3" "row_unread demo_row = 1"
  by (simp_all add: demo_row_def table_ok_def flag_def row_unread_def)

lemma demo_texts: "brace_free ''Text''" "plain_text ''Text''" "plain_text ''there''"
  by (simp_all add: brace_free_def plain_text_def)

theorem history_is_store_witness:
  "\<exists>h d. insert_history store_engine 7 (5, 5, 1, ''Text'', ''AL'', ''there'') (dbh (store_client [demo_row])) (databases (store_client [demo_row]))
      = Inr (True, h, d) \<and> disk_tabs ''h.db'' d 7 = Some [demo_row, (5, 5, 1, ''Text'', ''AL'', ''there'')]"
proof -
  let ?st = "store_client [demo_row]"
  have h: "history_ready (dbh ?st)" "db (dbh ?st) = Some (hist_file (dbh ?st))" using store_client_simps(1) unfolding history_open_def by blast+
  have "brace_free ''AL''" "plain_text ''AL''" by (simp_all add: brace_free_def plain_text_def)
  with history_is_store [OF hs.history_sql_axioms h] demo_texts
  have "runs disk_tabs (Hs_insert 7 (5, 5, 1, ''Text'', ''AL'', ''there'')) (dbh ?st) (databases ?st)
      (insert_history store_engine 7 (5, 5, 1, ''Text'', ''AL'', ''there'') (dbh ?st) (databases ?st))"
    by blast
  then show ?thesis by (auto simp: runs_def demo_row_def flag_def row_unread_def row_time_def)
qed

theorem message_kept_witness:
  "\<exists>s st1 msgs h d. set_swap_msg text_codec 9 7 5 ''Text'' ''there'' = Inr s \<and> client_sl_message store_env s (store_client [demo_row]) = Inr st1
    \<and> count_non_read store_engine 7 (dbh st1) (databases st1) = Inr 2
    \<and> read_history_non_read store_engine 7 [] (Some (dbh st1)) (databases st1) = Inr (msgs, h, d)
    \<and> mt_content ` set msgs = {''hi'', ''there''} \<and> count_non_read store_engine 7 h d = Inr 0"
proof -
  note c = pc.protocol_codec_axioms
  obtain s where s: "set_swap_msg text_codec 9 7 5 ''Text'' ''there'' = Inr s"
    using set_msg_utf8 [OF c, of "Swap_msg 9 7 5 ''Text'' ''there''"] by auto
  have "(5 :: int64) \<notin> fst ` set [demo_row]" by (simp add: demo_row_ok)
  then obtain st1 msgs h d where m: "client_sl_message store_env s (store_client [demo_row]) = Inr st1"
      "count_non_read store_engine 7 (dbh st1) (databases st1) = Inr 2"
      "read_history_non_read store_engine 7 [] (Some (dbh st1)) (databases st1) = Inr (msgs, h, d)"
      "set msgs = insert \<lparr>mt_time = 5, mt_types = ''Text'', mt_object = object_AL, mt_content = ''there''\<rparr>
        (to_ct_msg ` {row \<in> set [demo_row]. row_unread row = 1})"
      "count_non_read store_engine 7 h d = Inr 0"
    using message_kept [of store_env disk_tabs "store_client [demo_row]" 9 7 5 "''Text''" "''there''" s "[demo_row]"]
      c s hs.history_sql_axioms demo_texts demo_row_ok by auto
  have "{row \<in> set [demo_row]. row_unread row = 1} = {demo_row}" using demo_row_ok(3) by auto
  then have "mt_content ` set msgs = {''hi'', ''there''}"
    unfolding m(4) by (auto simp: demo_row_def to_ct_msg_def)
  with s m show ?thesis by blast
qed

theorem same_time_lost_witness:
  "\<exists>s st1 ack. set_swap_msg text_codec 9 7 3 ''Text'' ''there'' = Inr s \<and> client_sl_message store_env s (store_client [demo_row]) = Inr st1
    \<and> sent st1 = [ack] \<and> disk_tabs ''h.db'' (databases st1) 7 = Some [demo_row]"
proof -
  note c = pc.protocol_codec_axioms
  obtain s where s: "set_swap_msg text_codec 9 7 3 ''Text'' ''there'' = Inr s"
    using set_msg_utf8 [OF c, of "Swap_msg 9 7 3 ''Text'' ''there''"] by auto
  then show ?thesis
    using same_time_lost [of store_env disk_tabs "store_client [demo_row]" 9 7 3 "''Text''" "''there''" s "[demo_row]"]
      c hs.history_sql_axioms demo_texts demo_row_ok by fastforce
qed

end
