(* ===== verification/Ui_Layout.thy ===== *)
theory Ui_Layout
  imports Chat_Prelude
begin

text \<open>
  \<open>qmove_pos\<close>, \<open>qframe_line\<close>, \<open>qarea_wid\<close> and \<open>qlab_wrap\<close>: where the widgets are put. A function that
  moves and resizes widgets gives the positions and sizes it passes to \<open>move\<close> and \<open>resize\<close>; coordinates
  are integers, the values being far from the bounds of \<open>int\<close>. Painting is left out. The widths of
  characters come from a font, a parameter.
\<close>

type_synonym qpoint = "int \<times> int"
type_synonym qsize = "int \<times> int"

section \<open>\<open>qmove_pos\<close>\<close>

record move_state =
  pos_move :: qpoint
  max_wide :: int
  max_high :: int
  count_row :: int
  count_column :: int
  moved :: "qpoint list"

definition fn_move :: "qpoint \<Rightarrow> int \<Rightarrow> int \<Rightarrow> int \<Rightarrow> qsize \<Rightarrow> move_state \<Rightarrow> move_state" where
  "fn_move pos space row column it st =
     (let x = fst (pos_move st); y = snd (pos_move st);
          now_wide = (x + fst it) - fst pos;
          now_high = (y + snd it) - snd pos;
          st1 = st\<lparr>moved := moved st @ [(x, y)],
                    max_wide := (if max_wide st < now_wide then now_wide else max_wide st),
                    max_high := (if max_high st < now_high then now_high else max_high st)\<rparr>
      in if row > 0 then
           let st2 = st1\<lparr>pos_move := (x + fst it + space, y), count_row := count_row st1 + 1\<rparr>
           in if count_row st2 \<ge> row then st2\<lparr>pos_move := (fst pos, y + snd it + space), count_row := 0\<rparr> else st2
         else if column > 0 then
           let st2 = st1\<lparr>pos_move := (x, y + snd it + space), count_column := count_column st1 + 1\<rparr>
           in if count_column st2 \<ge> column then st2\<lparr>pos_move := (x + fst it + space, snd pos), count_column := 0\<rparr> else st2
         else st1)"

text \<open>\<open>qSqrt\<close>, cut off to an integer by the assignment to \<open>row\<close>.\<close>

definition sqrt_floor :: "nat \<Rightarrow> nat" where
  "sqrt_floor n = length (takeWhile (\<lambda>k. k * k \<le> n) [1..<Suc n])"

definition default_row :: "nat \<Rightarrow> int res" where
  "default_row n = (let row = sqrt_floor n in
     if row = 0 then Inl (Crash Division_by_zero) else Inr (int (row + (n div row - row) div 2)))"

type_synonym qmove_pos = "qsize list"

definition add_wid :: "qsize \<Rightarrow> qmove_pos \<Rightarrow> qmove_pos" where
  "add_wid wid vec = vec @ [wid]"

text \<open>The positions are those of the widgets in the order they were added.\<close>

definition move_group :: "qpoint \<Rightarrow> int \<Rightarrow> int \<Rightarrow> int \<Rightarrow> bool \<Rightarrow> qmove_pos \<Rightarrow> (qpoint list \<times> qsize) res" where
  "move_group pos space row column is_reverse vec =
     rbind (if row < 0 \<and> column < 0 then default_row (length vec) else Inr row) (\<lambda>row.
       let st = fold (fn_move pos space row column) (if is_reverse then rev vec else vec)
                  \<lparr>pos_move = pos, max_wide = 0, max_high = 0, count_row = 0, count_column = 0, moved = []\<rparr>
       in Inr (if is_reverse then rev (moved st) else moved st, (max_wide st, max_high st)))"

definition move_x :: "qpoint \<Rightarrow> int \<Rightarrow> qmove_pos \<Rightarrow> (qpoint list \<times> qsize) res" where
  "move_x pos space = move_group pos space (-1) 1 False"

definition move_xr :: "qpoint \<Rightarrow> int \<Rightarrow> qmove_pos \<Rightarrow> (qpoint list \<times> qsize) res" where
  "move_xr pos space = move_group pos space (-1) 1 True"

definition move_y :: "qpoint \<Rightarrow> int \<Rightarrow> qmove_pos \<Rightarrow> (qpoint list \<times> qsize) res" where
  "move_y pos space = move_group pos space 1 (-1) False"

definition move_yr :: "qpoint \<Rightarrow> int \<Rightarrow> qmove_pos \<Rightarrow> (qpoint list \<times> qsize) res" where
  "move_yr pos space = move_group pos space 1 (-1) True"

text \<open>\<open>move_center\<close>, with C++ division, which cuts towards zero.\<close>

definition cdiv2 :: "int \<Rightarrow> int" where
  "cdiv2 n = (if n < 0 then - (- n div 2) else n div 2)"

definition qmove_center :: "qsize \<Rightarrow> qsize \<Rightarrow> qpoint" where
  "qmove_center desk wid = (cdiv2 (fst desk - fst wid), cdiv2 (snd desk - snd wid))"

section \<open>\<open>qframe_line\<close>\<close>

text \<open>A frame and the one widget placed in it.\<close>

record qframe_line =
  fr_frame :: bool
  fr_col :: nat
  fr_size :: qsize
  wid_size :: qsize
  wid_pos :: qpoint

definition calc_size :: "qsize \<Rightarrow> int \<Rightarrow> qsize" where
  "calc_size mx padding = (fst mx - padding * 2, snd mx - padding * 2)"

definition frame_move_center :: "int \<Rightarrow> qframe_line \<Rightarrow> qframe_line" where
  "frame_move_center padding fr =
     fr\<lparr>wid_pos := (padding, padding), fr_size := (fst (wid_size fr) + padding * 2, snd (wid_size fr) + padding * 2)\<rparr>"

definition resize_center :: "qsize \<Rightarrow> int \<Rightarrow> qframe_line \<Rightarrow> qframe_line" where
  "resize_center sz padding fr =
     fr\<lparr>fr_size := sz, wid_size := calc_size sz padding, wid_pos := (padding, padding)\<rparr>"

definition set_frame :: "bool \<Rightarrow> qframe_line \<Rightarrow> qframe_line" where
  "set_frame frame fr = fr\<lparr>fr_frame := frame\<rparr>"

definition set_col :: "nat \<Rightarrow> qframe_line \<Rightarrow> qframe_line" where
  "set_col col fr = fr\<lparr>fr_col := col\<rparr>"

section \<open>\<open>qarea_wid\<close>\<close>

text \<open>
  The scroll area. The greatest value of its scroll bar is Qt's, a function of the heights of the view
  and of the widget in it.
\<close>

record 'm qarea_wid =
  view_size :: qsize
  area_width :: int
  area_height :: int
  bar_value :: int
  items :: "('m \<times> qpoint) list"

type_synonym bar_range = "int \<Rightarrow> int \<Rightarrow> int"

definition bar_maximum :: "bar_range \<Rightarrow> 'm qarea_wid \<Rightarrow> int" where
  "bar_maximum rng a = rng (snd (view_size a)) (area_height a)"

definition area_init_size :: "qsize \<Rightarrow> 'm qarea_wid \<Rightarrow> 'm qarea_wid" where
  "area_init_size sz a = a\<lparr>area_width := fst sz - 5, area_height := 0, view_size := sz\<rparr>"

definition add_width_wid :: "int \<Rightarrow> 'm qarea_wid \<Rightarrow> 'm qarea_wid" where
  "add_width_wid width a = a\<lparr>area_width := area_width a + width\<rparr>"

definition add_height_wid :: "int \<Rightarrow> 'm qarea_wid \<Rightarrow> 'm qarea_wid" where
  "add_height_wid height a = a\<lparr>area_height := area_height a + height\<rparr>"

definition show_bottom_bar :: "bar_range \<Rightarrow> 'm qarea_wid \<Rightarrow> 'm qarea_wid" where
  "show_bottom_bar rng a = a\<lparr>bar_value := bar_maximum rng a\<rparr>"

definition check_bottom_bar :: "bar_range \<Rightarrow> 'm qarea_wid \<Rightarrow> bool" where
  "check_bottom_bar rng a \<longleftrightarrow> bar_value a = bar_maximum rng a"

definition area_add_wid :: "bar_range \<Rightarrow> 'm \<Rightarrow> int \<Rightarrow> int \<Rightarrow> 'm qarea_wid \<Rightarrow> 'm qarea_wid" where
  "area_add_wid rng wid height space a =
     (let is_bottom = check_bottom_bar rng a;
          a1 = a\<lparr>items := items a @ [(wid, (0, area_height a))]\<rparr>;
          a2 = add_height_wid (height + space) a1
      in if is_bottom then show_bottom_bar rng a2 else a2)"

section \<open>\<open>qlab_wrap\<close>\<close>

type_synonym qchar = "16 word"
type_synonym qstring16 = "qchar list"

record font_metrics =
  char_advance :: "qchar \<Rightarrow> int"
  text_advance :: "qstring16 \<Rightarrow> int"
  font_height :: int

record qlab_wrap =
  lw_frame :: bool
  lw_max_width :: int
  lw_text :: qstring16
  lw_text_new :: qstring16
  lw_font :: font_metrics
  lw_size :: qsize

definition line_break :: qchar where "line_break = 10"

fun split_lines :: "qstring16 \<Rightarrow> qstring16 list" where
  "split_lines [] = [[]]"
| "split_lines (c # cs) =
     (if c = line_break then [] # split_lines cs else (c # hd (split_lines cs)) # tl (split_lines cs))"

fun calc_break :: "qstring16 \<Rightarrow> int" where
  "calc_break [] = 0"
| "calc_break (c # cs) = (if c = line_break then 1 else 0) + calc_break cs"

definition calc_max_width :: "qstring16 \<Rightarrow> font_metrics \<Rightarrow> int" where
  "calc_max_width txt fm =
     fold (\<lambda>l mx. let width = text_advance fm l in if mx < width then width else mx) (split_lines txt) 0"

fun break_loop :: "font_metrics \<Rightarrow> int \<Rightarrow> int \<Rightarrow> qstring16 \<Rightarrow> qstring16" where
  "break_loop fm width count [] = []"
| "break_loop fm width count (c # cs) =
     (let chat_width = char_advance fm c; count = count + chat_width in
      if count \<ge> width then line_break # c # break_loop fm width chat_width cs
      else c # break_loop fm width count cs)"

definition insert_break :: "qstring16 \<Rightarrow> font_metrics \<Rightarrow> int \<Rightarrow> qstring16" where
  "insert_break txt fm width = break_loop fm width 0 txt"

definition wrap_update_text :: "qlab_wrap \<Rightarrow> qlab_wrap" where
  "wrap_update_text w =
     (let fm = lw_font w;
          text_new = insert_break (lw_text w) fm (lw_max_width w);
          line_wrap = calc_break text_new + 1;
          line_max = calc_max_width (lw_text w) fm
      in w\<lparr>lw_text_new := text_new,
           lw_size := (if line_max > lw_max_width w then lw_max_width w else line_max, font_height fm * line_wrap)\<rparr>)"

definition wrap_set_text :: "qstring16 \<Rightarrow> qlab_wrap \<Rightarrow> qlab_wrap" where
  "wrap_set_text text w = w\<lparr>lw_text := text\<rparr>"

definition wrap_set_font :: "font_metrics \<Rightarrow> qlab_wrap \<Rightarrow> qlab_wrap" where
  "wrap_set_font font w = w\<lparr>lw_font := font\<rparr>"

definition set_width_max :: "int \<Rightarrow> qlab_wrap \<Rightarrow> qlab_wrap" where
  "set_width_max width w = w\<lparr>lw_max_width := width\<rparr>"

definition wrap_set_frame :: "bool \<Rightarrow> qlab_wrap \<Rightarrow> qlab_wrap" where
  "wrap_set_frame frame w = w\<lparr>lw_frame := frame\<rparr>"

definition wrap_get_text :: "qlab_wrap \<Rightarrow> qstring16" where
  "wrap_get_text w = lw_text w"


section \<open>Layouts\<close>

abbreviation (input) start_move :: "qpoint \<Rightarrow> move_state" where
  "start_move pos \<equiv> \<lparr>pos_move = pos, max_wide = 0, max_high = 0, count_row = 0, count_column = 0, moved = []\<rparr>"

lemma fn_move_moved: "moved (fn_move pos sp r c it st) = moved st @ [pos_move st]"
  by (simp add: fn_move_def Let_def)

lemma fn_move_max:
  "max_wide (fn_move pos sp r c it st) = max (max_wide st) (fst (pos_move st) + fst it - fst pos)"
  "max_high (fn_move pos sp r c it st) = max (max_high st) (snd (pos_move st) + snd it - snd pos)"
  by (simp_all add: fn_move_def Let_def)

lemma fold_moved_length: "length (moved (fold (fn_move pos sp r c) vec st)) = length (moved st) + length vec"
  by (induction vec arbitrary: st) (simp_all add: fn_move_moved)

lemma fold_max_mono:
  "max_wide st \<le> max_wide (fold (fn_move pos sp r c) vec st)" "max_high st \<le> max_high (fold (fn_move pos sp r c) vec st)"
  by (induction vec arbitrary: st) (simp_all, metis fn_move_max max.bounded_iff, metis fn_move_max max.bounded_iff)

lemma fold_moved_prefix: "\<exists>ps. moved (fold (fn_move pos sp r c) vec st) = moved st @ ps"
  by (induction vec arbitrary: st) (simp, metis append.assoc fn_move_moved fold_simps(2))

lemma fold_moved_first: "vec \<noteq> [] \<Longrightarrow>
    moved (fold (fn_move pos sp r c) vec st) ! length (moved st) = pos_move st"
  using fold_moved_prefix [of pos sp r c "tl vec" "fn_move pos sp r c (hd vec) st"]
  by (cases vec) (auto simp: fn_move_moved)

text \<open>The size that is returned bounds every widget.\<close>

lemma fold_in_box:
  "i < length vec \<Longrightarrow> moved (fold (fn_move pos sp r c) vec st) ! (length (moved st) + i) = p \<Longrightarrow>
    fst p + fst (vec ! i) - fst pos \<le> max_wide (fold (fn_move pos sp r c) vec st)
    \<and> snd p + snd (vec ! i) - snd pos \<le> max_high (fold (fn_move pos sp r c) vec st)"
proof (induction vec arbitrary: st i)
  case (Cons it vec)
  let ?st = "fn_move pos sp r c it st"
  show ?case
  proof (cases i)
    case 0
    then have "p = pos_move st" using Cons(3) fold_moved_first [of "it # vec" pos sp r c st] by simp
    then have "fst p + fst it - fst pos \<le> max_wide ?st" "snd p + snd it - snd pos \<le> max_high ?st"
      by (simp_all add: fn_move_max)
    with 0 show ?thesis using fold_max_mono [of ?st pos sp r c vec] by auto
  next
    case (Suc j)
    with Cons(2,3) show ?thesis using Cons(1) [of j ?st] by (simp add: fn_move_moved)
  qed
qed simp

lemma fold_box_reached:
  assumes "vec \<noteq> []"
  shows "(\<exists>i<length vec. fst (moved (fold (fn_move pos sp r c) vec st) ! (length (moved st) + i)) + fst (vec ! i) - fst pos
            = max_wide (fold (fn_move pos sp r c) vec st))
      \<or> max_wide (fold (fn_move pos sp r c) vec st) = max_wide st"
  using assms
proof (induction vec arbitrary: st)
  case (Cons it vec)
  let ?st = "fn_move pos sp r c it st"
  let ?e = "fold (fn_move pos sp r c) vec ?st"
  have first: "moved ?e ! length (moved st) = pos_move st" using fold_moved_first [of "it # vec" pos sp r c st] by simp
  have "max_wide ?e = max_wide ?st \<or> (\<exists>i<length vec. fst (moved ?e ! (length (moved ?st) + i)) + fst (vec ! i) - fst pos = max_wide ?e)"
    using Cons(1) [of ?st] by (cases "vec = []") auto
  then show ?case
  proof
    assume "max_wide ?e = max_wide ?st"
    then have "max_wide ?e = max_wide st \<or> fst (moved ?e ! (length (moved st) + 0)) + fst ((it # vec) ! 0) - fst pos = max_wide ?e"
      using first by (simp add: fn_move_max max_def)
    then show ?thesis by (metis fold_simps(2) length_greater_0_conv list.distinct(1))
  next
    assume "\<exists>i<length vec. fst (moved ?e ! (length (moved ?st) + i)) + fst (vec ! i) - fst pos = max_wide ?e"
    then obtain i where "i < length vec" "fst (moved ?e ! (length (moved st) + Suc i)) + fst ((it # vec) ! Suc i) - fst pos = max_wide ?e"
      by (auto simp: fn_move_moved)
    then show ?thesis by (metis Suc_less_eq fold_simps(2) length_Cons)
  qed
qed simp

text \<open>Widgets of one size form a grid, in rows or in columns.\<close>

definition row_cell :: "qpoint \<Rightarrow> int \<Rightarrow> nat \<Rightarrow> qsize \<Rightarrow> nat \<Rightarrow> qpoint" where
  "row_cell pos space n wid k =
     (fst pos + int (k mod n) * (fst wid + space), snd pos + int (k div n) * (snd wid + space))"

definition column_cell :: "qpoint \<Rightarrow> int \<Rightarrow> nat \<Rightarrow> qsize \<Rightarrow> nat \<Rightarrow> qpoint" where
  "column_cell pos space n wid k =
     (fst pos + int (k div n) * (fst wid + space), snd pos + int (k mod n) * (snd wid + space))"

lemma div_mod_Suc:
  assumes "0 < n"
  shows "Suc k mod n = (if Suc (k mod n) = n then 0 else Suc (k mod n))"
    and "Suc k div n = (if Suc (k mod n) = n then Suc (k div n) else k div n)"
  using assms by (simp_all add: mod_Suc div_Suc)

lemma fold_replicate_Suc: "fold f (replicate (Suc k) a) s = f a (fold f (replicate k a) s)"
proof -
  have "replicate (Suc k) a = replicate k a @ [a]" by (simp add: replicate_append_same)
  then show ?thesis by (simp del: replicate_Suc)
qed

lemma fn_move_row:
  assumes "0 < n" "pos_move st = row_cell pos sp n wid k" "count_row st = int (k mod n)"
  shows "pos_move (fn_move pos sp (int n) c wid st) = row_cell pos sp n wid (Suc k)
    \<and> count_row (fn_move pos sp (int n) c wid st) = int (Suc k mod n)"
proof (cases "Suc (k mod n) = n")
  case True
  then have "int (k mod n) + 1 \<ge> int n" by linarith
  moreover have "Suc k mod n = 0" "Suc k div n = Suc (k div n)" using True assms(1) by (simp_all add: div_mod_Suc)
  ultimately show ?thesis using assms by (simp add: fn_move_def Let_def row_cell_def algebra_simps)
next
  case False
  then have "\<not> int (k mod n) + 1 \<ge> int n" using mod_less_divisor [OF assms(1), of k] by linarith
  moreover have "Suc k mod n = Suc (k mod n)" "Suc k div n = k div n" using False assms(1) by (simp_all add: div_mod_Suc)
  ultimately show ?thesis using assms by (simp add: fn_move_def Let_def row_cell_def algebra_simps)
qed

lemma fn_move_column:
  assumes "0 < n" "r \<le> 0" "pos_move st = column_cell pos sp n wid k" "count_column st = int (k mod n)"
  shows "pos_move (fn_move pos sp r (int n) wid st) = column_cell pos sp n wid (Suc k)
    \<and> count_column (fn_move pos sp r (int n) wid st) = int (Suc k mod n)"
proof (cases "Suc (k mod n) = n")
  case True
  then have "int (k mod n) + 1 \<ge> int n" by linarith
  moreover have "Suc k mod n = 0" "Suc k div n = Suc (k div n)" using True assms(1) by (simp_all add: div_mod_Suc)
  ultimately show ?thesis using assms by (simp add: fn_move_def Let_def column_cell_def algebra_simps)
next
  case False
  then have "\<not> int (k mod n) + 1 \<ge> int n" using mod_less_divisor [OF assms(1), of k] by linarith
  moreover have "Suc k mod n = Suc (k mod n)" "Suc k div n = k div n" using False assms(1) by (simp_all add: div_mod_Suc)
  ultimately show ?thesis using assms by (simp add: fn_move_def Let_def column_cell_def algebra_simps)
qed

lemma fold_row_grid:
  assumes "0 < n"
  shows "moved (fold (fn_move pos sp (int n) c) (replicate k wid) (start_move pos)) = map (row_cell pos sp n wid) [0..<k]
    \<and> pos_move (fold (fn_move pos sp (int n) c) (replicate k wid) (start_move pos)) = row_cell pos sp n wid k
    \<and> count_row (fold (fn_move pos sp (int n) c) (replicate k wid) (start_move pos)) = int (k mod n)"
  using assms
  by (induction k) (simp add: row_cell_def, simp only: fold_replicate_Suc fn_move_moved fn_move_row, simp)

lemma fold_column_grid:
  assumes "0 < n" "r \<le> 0"
  shows "moved (fold (fn_move pos sp r (int n)) (replicate k wid) (start_move pos)) = map (column_cell pos sp n wid) [0..<k]
    \<and> pos_move (fold (fn_move pos sp r (int n)) (replicate k wid) (start_move pos)) = column_cell pos sp n wid k
    \<and> count_column (fold (fn_move pos sp r (int n)) (replicate k wid) (start_move pos)) = int (k mod n)"
  using assms
  by (induction k) (simp add: column_cell_def, simp only: fold_replicate_Suc fn_move_moved fn_move_column, simp)

text \<open>\<open>move_x\<close> and \<open>move_y\<close>: a line of widgets of any sizes.\<close>

fun line_x :: "int \<Rightarrow> int \<Rightarrow> int \<Rightarrow> qsize list \<Rightarrow> qpoint list" where
  "line_x x y space [] = []"
| "line_x x y space (wid # vec) = (x, y) # line_x (x + fst wid + space) y space vec"

fun line_y :: "int \<Rightarrow> int \<Rightarrow> int \<Rightarrow> qsize list \<Rightarrow> qpoint list" where
  "line_y x y space [] = []"
| "line_y x y space (wid # vec) = (x, y) # line_y x (y + snd wid + space) space vec"

lemma fold_line_x:
  "snd (pos_move st) = snd pos \<Longrightarrow> count_column st = 0 \<Longrightarrow>
    moved (fold (fn_move pos sp (- 1) 1) vec st) = moved st @ line_x (fst (pos_move st)) (snd pos) sp vec"
proof (induction vec arbitrary: st)
  case (Cons wid vec)
  let ?st = "fn_move pos sp (- 1) 1 wid st"
  have "pos_move ?st = (fst (pos_move st) + fst wid + sp, snd pos)" "count_column ?st = 0"
    using Cons(2,3) by (simp_all add: fn_move_def Let_def)
  then show ?case using Cons(1) [of ?st] Cons(2) by (simp add: fn_move_moved prod_eq_iff)
qed simp

lemma fold_line_y:
  "fst (pos_move st) = fst pos \<Longrightarrow> count_row st = 0 \<Longrightarrow>
    moved (fold (fn_move pos sp 1 (- 1)) vec st) = moved st @ line_y (fst pos) (snd (pos_move st)) sp vec"
proof (induction vec arbitrary: st)
  case (Cons wid vec)
  let ?st = "fn_move pos sp 1 (- 1) wid st"
  have "pos_move ?st = (fst pos, snd (pos_move st) + snd wid + sp)" "count_row ?st = 0"
    using Cons(2,3) by (simp_all add: fn_move_def Let_def)
  then show ?case using Cons(1) [of ?st] Cons(2) by (simp add: fn_move_moved prod_eq_iff)
qed simp

lemma line_x_nth: "i < length vec \<Longrightarrow> line_x x y sp vec ! i = (x + (\<Sum>w\<leftarrow>take i vec. fst w + sp), y)"
  by (induction vec arbitrary: x i) (simp, case_tac i, simp_all)

lemma line_y_nth: "i < length vec \<Longrightarrow> line_y x y sp vec ! i = (x, y + (\<Sum>w\<leftarrow>take i vec. snd w + sp))"
  by (induction vec arbitrary: y i) (simp, case_tac i, simp_all)

lemma line_length [simp]: "length (line_x x y sp vec) = length vec" "length (line_y x y sp vec) = length vec"
  by (induction vec arbitrary: x y) simp_all

lemma sum_take_gap:
  fixes f :: "'a \<Rightarrow> int"
  assumes "i < j" "j < length vec" "\<forall>w \<in> set vec. 0 \<le> f w" "0 \<le> sp"
  shows "(\<Sum>w\<leftarrow>take i vec. f w + sp) + f (vec ! i) + sp \<le> (\<Sum>w\<leftarrow>take j vec. f w + sp)"
proof -
  have "take j vec = take i vec @ [vec ! i] @ take (j - Suc i) (drop (Suc i) vec)"
    using assms(1,2) by (metis Suc_leI append.assoc append_Cons append_Nil le_add_diff_inverse less_trans take_Suc_conv_app_nth take_add)
  moreover have "0 \<le> (\<Sum>w\<leftarrow>take (j - Suc i) (drop (Suc i) vec). f w + sp)"
    using assms(3,4) by (intro sum_list_nonneg) (auto dest!: in_set_takeD in_set_dropD)
  ultimately show ?thesis by simp
qed

lemma move_group_cases:
  "0 < r \<Longrightarrow> move_group pos sp r c False vec
     = Inr (moved (fold (fn_move pos sp r c) vec (start_move pos)),
           max_wide (fold (fn_move pos sp r c) vec (start_move pos)), max_high (fold (fn_move pos sp r c) vec (start_move pos)))"
  "0 < c \<Longrightarrow> move_group pos sp r c False vec
     = Inr (moved (fold (fn_move pos sp r c) vec (start_move pos)),
           max_wide (fold (fn_move pos sp r c) vec (start_move pos)), max_high (fold (fn_move pos sp r c) vec (start_move pos)))"
  by (simp_all add: move_group_def Let_def)

lemma takeWhile_upt:
  assumes "m \<le> n" "\<forall>k. 1 \<le> k \<and> k \<le> m \<longrightarrow> P k" "m < n \<Longrightarrow> \<not> P (Suc m)"
  shows "takeWhile P [1..<Suc n] = [1..<Suc m]"
proof -
  have "[1..<Suc n] = [1..<Suc m] @ [Suc m..<Suc n]" using upt_add_eq_append [of 1 "Suc m" "n - m"] assms(1) by simp
  moreover have "takeWhile P [Suc m..<Suc n] = []" using assms(3) by (cases "m < n") (simp_all add: upt_conv_Cons del: upt_Suc)
  moreover have "\<forall>k \<in> set [1..<Suc m]. P k" using assms(2) by auto
  ultimately show ?thesis by (simp only: takeWhile_append2 append_Nil2)
qed

lemma sqrt_floor_bounds: "sqrt_floor n * sqrt_floor n \<le> n \<and> n < Suc (sqrt_floor n) * Suc (sqrt_floor n)"
proof -
  define m where "m = (LEAST m. n < Suc m * Suc m)"
  have ex: "n < Suc n * Suc n" by simp
  have l: "n < Suc m * Suc m" unfolding m_def by (rule LeastI [of "\<lambda>m. n < Suc m * Suc m", OF ex])
  have k: "k * k \<le> n" if "k \<le> m" for k
  proof (cases k)
    case (Suc j)
    then show ?thesis using that not_less_Least [of j "\<lambda>m. n < Suc m * Suc m"] unfolding m_def by simp
  qed simp
  have "m \<le> n" using k [of m] by (cases m) auto
  then have "takeWhile (\<lambda>k. k * k \<le> n) [1..<Suc n] = [1..<Suc m]" using k l by (intro takeWhile_upt) auto
  then have "sqrt_floor n = m" by (simp add: sqrt_floor_def del: upt_Suc)
  with k l show ?thesis by simp
qed

lemma default_row_eq:
  assumes "0 < k"
  shows "\<exists>n. default_row k = Inr (int n) \<and> 0 < n \<and> sqrt_floor k \<le> n \<and> n \<le> k div sqrt_floor k"
proof -
  let ?r = "sqrt_floor k"
  have r: "0 < ?r" using sqrt_floor_bounds [of k] assms by (cases ?r) auto
  moreover have "?r \<le> k div ?r" using r sqrt_floor_bounds [of k] by (simp add: less_eq_div_iff_mult_less_eq)
  then have "?r + (k div ?r - ?r) div 2 \<le> k div ?r" by linarith
  ultimately show ?thesis by (intro exI [of _ "?r + (k div ?r - ?r) div 2"]) (simp add: default_row_def Let_def)
qed

text \<open>
  Widgets of one size form a grid. With a row limit the \<open>k\<close>-th widget is in column \<open>k mod n\<close> of line
  \<open>k div n\<close>, with a column limit the other way round; without a limit the length of a row is between the
  two factors next to the square root of the number of widgets; and without a limit and without widgets
  the division by that root traps.
\<close>

theorem move_group_grid:
  assumes "0 < n"
  shows "(\<exists>s. move_group pos sp (int n) c False (replicate k wid) = Inr (map (row_cell pos sp n wid) [0..<k], s))
    \<and> (\<exists>s. move_group pos sp (- 1) (int n) False (replicate k wid) = Inr (map (column_cell pos sp n wid) [0..<k], s))
    \<and> (0 < k \<longrightarrow> (\<exists>m s. sqrt_floor k \<le> m \<and> m \<le> k div sqrt_floor k
          \<and> move_group pos sp (- 1) (- 1) False (replicate k wid) = Inr (map (row_cell pos sp m wid) [0..<k], s)))
    \<and> move_group pos sp (- 1) (- 1) b [] = Inl (Crash Division_by_zero)"
proof (intro conjI impI)
  show "\<exists>s. move_group pos sp (int n) c False (replicate k wid) = Inr (map (row_cell pos sp n wid) [0..<k], s)"
    using assms fold_row_grid [OF assms, of pos sp c k wid] by (simp add: move_group_cases)
  show "\<exists>s. move_group pos sp (- 1) (int n) False (replicate k wid) = Inr (map (column_cell pos sp n wid) [0..<k], s)"
    using assms fold_column_grid [OF assms, of "- 1" pos sp k wid] by (simp add: move_group_cases)
  show "\<exists>m s. sqrt_floor k \<le> m \<and> m \<le> k div sqrt_floor k
      \<and> move_group pos sp (- 1) (- 1) False (replicate k wid) = Inr (map (row_cell pos sp m wid) [0..<k], s)" if k: "0 < k"
  proof -
    obtain m where "default_row k = Inr (int m)" "0 < m" "sqrt_floor k \<le> m" "m \<le> k div sqrt_floor k"
      using default_row_eq [OF k] by blast
    then show ?thesis using fold_row_grid [of m pos sp "- 1" k wid]
      by (intro exI [of _ m]) (simp add: move_group_def Let_def)
  qed
  show "move_group pos sp (- 1) (- 1) b [] = Inl (Crash Division_by_zero)"
    by (simp add: move_group_def default_row_def sqrt_floor_def)
qed

theorem move_group_grid_witness:
  "\<exists>s. move_group (0, 0) 1 2 (- 1) False (replicate 3 (10, 5)) = Inr ([(0, 0), (11, 0), (0, 6)], s)"
  using move_group_grid [of 2 "(0, 0)" 1 "- 1" 3 "(10, 5)" False] by (simp add: row_cell_def upt_rec)

text \<open>
  In a line, along either axis, the widgets stand one after the other in the order they were added,
  with exactly the given gap between them, so none overlap; and the size that is returned covers all of
  them, whatever the layout.
\<close>

theorem move_line:
  assumes "\<forall>w \<in> set vec. 0 \<le> fst w \<and> 0 \<le> snd w" "0 \<le> sp"
  shows "\<exists>px sx py sy. move_x pos sp vec = Inr (px, sx) \<and> move_y pos sp vec = Inr (py, sy)
    \<and> length px = length vec \<and> length py = length vec
    \<and> (\<forall>j < length vec. px ! j = (fst pos + (\<Sum>w\<leftarrow>take j vec. fst w + sp), snd pos)
        \<and> py ! j = (fst pos, snd pos + (\<Sum>w\<leftarrow>take j vec. snd w + sp))
        \<and> fst (px ! j) + fst (vec ! j) \<le> fst pos + fst sx \<and> snd pos + snd (vec ! j) \<le> snd pos + snd sx
        \<and> fst pos + fst (vec ! j) \<le> fst pos + fst sy \<and> snd (py ! j) + snd (vec ! j) \<le> snd pos + snd sy
        \<and> (\<forall>i < j. fst (px ! i) + fst (vec ! i) + sp \<le> fst (px ! j) \<and> snd (py ! i) + snd (vec ! i) + sp \<le> snd (py ! j)))"
proof -
  let ?x = "fold (fn_move pos sp (- 1) 1) vec (start_move pos)" and ?y = "fold (fn_move pos sp 1 (- 1)) vec (start_move pos)"
  have m: "moved ?x = line_x (fst pos) (snd pos) sp vec" "moved ?y = line_y (fst pos) (snd pos) sp vec"
    using fold_line_x [of "start_move pos" pos sp vec] fold_line_y [of "start_move pos" pos sp vec] by simp_all
  have b: "fst (moved ?x ! j) + fst (vec ! j) - fst pos \<le> max_wide ?x" "snd (moved ?x ! j) + snd (vec ! j) - snd pos \<le> max_high ?x"
      "fst (moved ?y ! j) + fst (vec ! j) - fst pos \<le> max_wide ?y" "snd (moved ?y ! j) + snd (vec ! j) - snd pos \<le> max_high ?y"
    if "j < length vec" for j
    using fold_in_box [OF that, of pos sp "- 1" 1 "start_move pos"] fold_in_box [OF that, of pos sp 1 "- 1" "start_move pos"] by simp_all
  have "move_x pos sp vec = Inr (moved ?x, (max_wide ?x, max_high ?x))" "move_y pos sp vec = Inr (moved ?y, (max_wide ?y, max_high ?y))"
    by (simp_all add: move_x_def move_y_def move_group_cases)
  moreover have "fst (moved ?x ! i) + fst (vec ! i) + sp \<le> fst (moved ?x ! j)" "snd (moved ?y ! i) + snd (vec ! i) + sp \<le> snd (moved ?y ! j)"
    if "i < j" "j < length vec" for i j
    using sum_take_gap [OF that, of fst sp] sum_take_gap [OF that, of snd sp] assms that by (simp_all add: m line_x_nth line_y_nth)
  ultimately show ?thesis using b by (intro exI) (auto simp: m line_x_nth line_y_nth algebra_simps)
qed

theorem move_line_witness:
  "\<exists>s. move_x (5, 5) 5 [(60, 30), (180, 30)] = Inr ([(5, 5), (70, 5)], s)"
proof -
  obtain px sx where p: "move_x (5, 5) 5 [(60, 30), (180, 30)] = Inr (px, sx)" "length px = 2"
      "\<forall>j < 2. px ! j = (5 + (\<Sum>w\<leftarrow>take j [(60, 30 :: int), (180, 30)]. fst w + 5), 5)"
    using move_line [of "[(60, 30), (180, 30)]" 5 "(5, 5)"] by auto
  have "px ! 0 = (5, 5)" "px ! 1 = (70, 5)" using p(3) [rule_format, of 0] p(3) [rule_format, of 1] by simp_all
  with p(2) have "px = [(5, 5), (70, 5)]" by (cases px; cases "tl px") auto
  with p(1) show ?thesis by blast
qed

text \<open>In a row the next line starts below the last widget of the row, not below its tallest one.\<close>

lemma move_group_uneven:
  "move_group (0, 0) 5 2 (- 1) False [(10, 50), (10, 10), (10, 10)] = Inr ([(0, 0), (15, 0), (0, 15)], (25, 50))"
  by code_simp

section \<open>The scroll area\<close>

definition add_all :: "bar_range \<Rightarrow> int \<Rightarrow> ('m \<times> int) list \<Rightarrow> 'm qarea_wid \<Rightarrow> 'm qarea_wid" where
  "add_all rng space ws a = fold (\<lambda>(wid, h). area_add_wid rng wid h space) ws a"

fun stacked :: "int \<Rightarrow> int \<Rightarrow> ('m \<times> int) list \<Rightarrow> ('m \<times> qpoint) list" where
  "stacked y space [] = []"
| "stacked y space ((wid, h) # ws) = (wid, (0, y)) # stacked (y + h + space) space ws"

lemma area_add_wid_simps [simp]:
  "items (area_add_wid rng wid h space a) = items a @ [(wid, (0, area_height a))]"
  "area_height (area_add_wid rng wid h space a) = area_height a + h + space"
  "view_size (area_add_wid rng wid h space a) = view_size a"
  "area_width (area_add_wid rng wid h space a) = area_width a"
  by (simp_all add: area_add_wid_def Let_def add_height_wid_def show_bottom_bar_def)

lemma area_add_wid_bar:
  "bar_value (area_add_wid rng wid h space a) =
    (if check_bottom_bar rng a then bar_maximum rng (area_add_wid rng wid h space a) else bar_value a)"
  by (simp add: area_add_wid_def Let_def add_height_wid_def show_bottom_bar_def bar_maximum_def)

lemma add_all_items: "items (add_all rng sp ws a) = items a @ stacked (area_height a) sp ws
    \<and> area_height (add_all rng sp ws a) = area_height a + (\<Sum>(wid, h)\<leftarrow>ws. h + sp)"
  by (induction ws arbitrary: a) (auto simp: add_all_def algebra_simps)

lemma add_all_bottom:
  "check_bottom_bar rng a \<Longrightarrow> check_bottom_bar rng (add_all rng sp ws a)"
proof (induction ws arbitrary: a)
  case (Cons w ws)
  then have "check_bottom_bar rng (area_add_wid rng (fst w) (snd w) sp a)"
    using area_add_wid_bar [of rng "fst w" "snd w" sp a] by (simp add: check_bottom_bar_def)
  with Cons(1) show ?case by (auto simp: add_all_def split: prod.splits)
qed (simp add: add_all_def)

lemma add_all_scrolled:
  assumes "\<And>y z. y \<le> z \<Longrightarrow> rng (snd (view_size a)) y \<le> rng (snd (view_size a)) z"
    and "\<forall>w \<in> set ws. 0 \<le> snd w" "0 \<le> sp" "bar_value a < bar_maximum rng a"
  shows "bar_value (add_all rng sp ws a) = bar_value a"
  using assms
proof (induction ws arbitrary: a)
  case (Cons w ws)
  let ?a = "area_add_wid rng (fst w) (snd w) sp a"
  have v: "bar_value ?a = bar_value a" using Cons(5) area_add_wid_bar [of rng "fst w" "snd w" sp a]
    by (simp add: check_bottom_bar_def)
  have "bar_maximum rng a \<le> bar_maximum rng ?a" using Cons(2) [of "area_height a" "area_height ?a"] Cons(3,4) by (simp add: bar_maximum_def)
  with v Cons(5) have "bar_value ?a < bar_maximum rng ?a" by simp
  then show ?case using Cons(1) [of ?a] Cons(2,3,4) v by (auto simp: add_all_def split: prod.splits)
qed (simp add: add_all_def)

text \<open>
  The scroll area stacks what is added to it. Every widget is put right below the ones before it,
  the area is as high as all of them with their gaps, a view that shows the bottom goes on showing it,
  and a view that is scrolled up stays where it is.
\<close>

theorem scroll_area:
  assumes "\<And>y z. y \<le> z \<Longrightarrow> rng (snd (view_size a)) y \<le> rng (snd (view_size a)) z"
    and "\<forall>w \<in> set ws. 0 \<le> snd w" "0 \<le> sp" "bar_value a \<le> bar_maximum rng a"
  shows "items (add_all rng sp ws a) = items a @ stacked (area_height a) sp ws
    \<and> area_height (add_all rng sp ws a) = area_height a + (\<Sum>(wid, h)\<leftarrow>ws. h + sp)
    \<and> bar_value (add_all rng sp ws a)
        = (if check_bottom_bar rng a then bar_maximum rng (add_all rng sp ws a) else bar_value a)"
  using add_all_items [of rng sp ws a] add_all_bottom [of rng a sp ws] add_all_scrolled [of rng a ws sp] assms
  by (auto simp: check_bottom_bar_def)

definition demo_area :: "string qarea_wid" where
  "demo_area = area_init_size (100, 50) \<lparr>view_size = (0, 0), area_width = 0, area_height = 0, bar_value = 0, items = []\<rparr>"

definition demo_range :: bar_range where
  "demo_range view area = max 0 (area - view)"

theorem scroll_area_witness:
  "items (add_all demo_range 10 [(''a'', 30), (''b'', 40)] demo_area) = [(''a'', (0, 0)), (''b'', (0, 40))]
    \<and> bar_value (add_all demo_range 10 [(''a'', 30), (''b'', 40)] demo_area) = 40"
proof -
  have "items (add_all demo_range 10 [(''a'', 30), (''b'', 40)] demo_area) = items demo_area @ stacked (area_height demo_area) 10 [(''a'', 30), (''b'', 40)]
    \<and> area_height (add_all demo_range 10 [(''a'', 30), (''b'', 40)] demo_area) = area_height demo_area + (\<Sum>(wid, h)\<leftarrow>[(''a'', 30), (''b'', 40)]. h + 10)
    \<and> bar_value (add_all demo_range 10 [(''a'', 30), (''b'', 40)] demo_area)
        = (if check_bottom_bar demo_range demo_area then bar_maximum demo_range (add_all demo_range 10 [(''a'', 30), (''b'', 40)] demo_area)
           else bar_value demo_area)"
    by (rule scroll_area) (auto simp: demo_range_def demo_area_def area_init_size_def bar_maximum_def)
  moreover have "view_size (add_all demo_range 10 [(''a'', 30), (''b'', 40)] demo_area) = (100, 50)"
    by (simp add: add_all_def demo_area_def area_init_size_def)
  ultimately show ?thesis
    by (simp add: demo_area_def area_init_size_def check_bottom_bar_def bar_maximum_def demo_range_def)
qed

section \<open>Line breaks\<close>

lemma split_lines_not_Nil [simp]: "split_lines t \<noteq> []"
  by (cases t) simp_all

lemma calc_break_lines: "calc_break t + 1 = int (length (split_lines t))"
  by (induction t) (auto simp: Suc_diff_Suc length_tl)

definition line_width :: "font_metrics \<Rightarrow> qstring16 \<Rightarrow> int" where
  "line_width fm l = (\<Sum>c\<leftarrow>l. char_advance fm c)"

lemma break_loop_text: "filter (\<lambda>c. c \<noteq> line_break) (break_loop fm w n t) = filter (\<lambda>c. c \<noteq> line_break) t"
  by (induction t arbitrary: n) (simp_all add: Let_def)

lemma break_loop_lines:
  assumes "\<forall>c \<in> set t. 0 \<le> char_advance fm c \<and> char_advance fm c < w" "0 \<le> n" "n < w"
  shows "n + line_width fm (hd (split_lines (break_loop fm w n t))) < w
    \<and> (\<forall>l \<in> set (tl (split_lines (break_loop fm w n t))). line_width fm l < w)"
  using assms
proof (induction t arbitrary: n)
  case (Cons c t)
  let ?a = "char_advance fm c"
  let ?n = "if n + ?a \<ge> w then ?a else n + ?a"
  let ?ls = "split_lines (break_loop fm w ?n t)"
  have c: "0 \<le> ?a" "?a < w" "0 \<le> ?n" "?n < w" using Cons(2,3) by (auto split: if_splits)
  with Cons(1) [of ?n] Cons(2) have ih: "?n + line_width fm (hd ?ls) < w" "\<forall>l \<in> set (tl ?ls). line_width fm l < w"
    by simp_all
  have "split_lines (break_loop fm w n (c # t))
      = (if n + ?a \<ge> w then [[]] else []) @ (if c = line_break then [] # ?ls else (c # hd ?ls) # tl ?ls)"
    by (simp add: Let_def)
  moreover have "line_width fm (c # hd ?ls) = ?a + line_width fm (hd ?ls)" by (simp add: line_width_def)
  moreover have "\<forall>l \<in> set ?ls. line_width fm l < w" using ih c(3) by (cases ?ls) auto
  ultimately show ?case using ih c Cons(4) by (auto simp: line_width_def [of fm "[]"])
qed (simp add: line_width_def)

text \<open>
  C36: wrapping changes a text only by line breaks; when each character by itself is narrower than the
  label, every line of the wrapped text is too; and the label is given the height of exactly these lines
  and never more than its width.
\<close>

theorem wrapped_text_fits:
  assumes "\<forall>c \<in> set (lw_text w). 0 \<le> char_advance (lw_font w) c \<and> char_advance (lw_font w) c < lw_max_width w"
    and "0 < lw_max_width w"
  shows "filter (\<lambda>c. c \<noteq> line_break) (lw_text_new (wrap_update_text w)) = filter (\<lambda>c. c \<noteq> line_break) (lw_text w)
    \<and> (\<forall>l \<in> set (split_lines (lw_text_new (wrap_update_text w))). line_width (lw_font w) l < lw_max_width w)
    \<and> snd (lw_size (wrap_update_text w))
        = font_height (lw_font w) * int (length (split_lines (lw_text_new (wrap_update_text w))))
    \<and> fst (lw_size (wrap_update_text w)) \<le> lw_max_width w"
proof -
  let ?ls = "split_lines (break_loop (lw_font w) (lw_max_width w) 0 (lw_text w))"
  have "\<forall>l \<in> set ?ls. line_width (lw_font w) l < lw_max_width w"
    using break_loop_lines [OF assms(1), of 0] assms(2) by (cases ?ls) auto
  then show ?thesis
    by (simp add: wrap_update_text_def insert_break_def Let_def break_loop_text calc_break_lines)
qed

definition demo_label :: qlab_wrap where
  "demo_label = \<lparr>lw_frame = False, lw_max_width = 25, lw_text = [97, 98, 10, 99], lw_text_new = [],
     lw_font = \<lparr>char_advance = (\<lambda>c. if c = 10 then 0 else 10), text_advance = (\<lambda>t. 10 * int (length t)), font_height = 20\<rparr>,
     lw_size = (0, 0)\<rparr>"

text \<open>The width is not counted anew at a break of the text, so a break is inserted next to the one that is there.\<close>

lemma demo_label_text: "lw_text_new (wrap_update_text demo_label) = [97, 98, 10, 10, 99]"
  by (simp add: wrap_update_text_def insert_break_def demo_label_def line_break_def Let_def)

theorem wrapped_text_fits_witness:
  "snd (lw_size (wrap_update_text demo_label)) = 60 \<and> fst (lw_size (wrap_update_text demo_label)) \<le> 25"
  using wrapped_text_fits [of demo_label] by (simp add: demo_label_text) (simp add: demo_label_def line_break_def)

end
