(* ===== verification/Ui_Widgets.thy ===== *)
theory Ui_Widgets
  imports Ui_Layout Structs
begin

text \<open>
  The widgets of the chat window: \<open>qbutt_line\<close>, \<open>qlab_img\<close>, \<open>qedit_txt\<close>, the messages of \<open>wid_msg_abs.h\<close>,
  \<open>wid_message\<close>, \<open>wid_chat_input\<close>, \<open>wid_chat_output\<close>, \<open>wid_chat\<close>, and the functions of \<open>typedef_struct.h\<close>
  that make framed widgets. A \<open>QString\<close> is given by its UTF-8 text. What the program asks of Qt is a
  parameter: the numbers of texts, the characters of a text, the two fonts, images and their scaling, the
  size of a new widget and the range of a scroll bar.
\<close>

record ui_env =
  qt_number :: "int64 \<Rightarrow> string"
  qt_to_longlong :: "string \<Rightarrow> int64"
  qt_chars :: "string \<Rightarrow> qstring16"
  qt_font_text :: font_metrics
  qt_font_hint :: font_metrics
  qt_image :: "string \<Rightarrow> qsize option"
  qt_scaled :: "qsize \<Rightarrow> qsize \<Rightarrow> qsize"
  qt_child_size :: qsize
  qt_bar :: bar_range

section \<open>\<open>qbutt_line\<close>\<close>

datatype status = E_leave | E_enter | E_press

fun status_num :: "status \<Rightarrow> nat" where
  "status_num E_leave = 0"
| "status_num E_enter = 1"
| "status_num E_press = 2"

instantiation status :: linorder
begin

definition less_eq_status :: "status \<Rightarrow> status \<Rightarrow> bool" where
  "less_eq_status a b \<longleftrightarrow> status_num a \<le> status_num b"

definition less_status :: "status \<Rightarrow> status \<Rightarrow> bool" where
  "less_status a b \<longleftrightarrow> status_num a < status_num b"

instance
proof
  fix x y z :: status
  show "x < y \<longleftrightarrow> x \<le> y \<and> \<not> y \<le> x" by (auto simp: less_eq_status_def less_status_def)
  show "x \<le> x" by (simp add: less_eq_status_def)
  show "x \<le> y \<Longrightarrow> y \<le> z \<Longrightarrow> x \<le> z" by (simp add: less_eq_status_def)
  show "x \<le> y \<Longrightarrow> y \<le> x \<Longrightarrow> x = y" by (cases x; cases y) (simp_all add: less_eq_status_def)
  show "x \<le> y \<or> y \<le> x" by (auto simp: less_eq_status_def)
qed

end

definition darkGray :: nat where "darkGray = 0x808080"
definition darkGreen :: nat where "darkGreen = 0x008000"
definition darkRed :: nat where "darkRed = 0x800000"

record qbutt_line =
  bt_keep :: bool
  bt_kep_st :: status
  bt_status :: status
  bt_col :: nat
  bt_text :: string

text \<open>\<open>_kep_st\<close> is not initialised.\<close>

definition qbutt_line_init :: "status \<Rightarrow> qbutt_line" where
  "qbutt_line_init junk = \<lparr>bt_keep = False, bt_kep_st = junk, bt_status = E_leave, bt_col = darkGray, bt_text = ''null''\<rparr>"

definition switch_status :: "status \<Rightarrow> qbutt_line \<Rightarrow> qbutt_line" where
  "switch_status st b =
     (if bt_keep b then
        (if st \<ge> bt_kep_st b then b\<lparr>bt_status := st\<rparr> else b\<lparr>bt_status := bt_kep_st b\<rparr>)
      else b\<lparr>bt_status := st\<rparr>)"

definition keep_status :: "bool \<Rightarrow> status \<Rightarrow> qbutt_line \<Rightarrow> qbutt_line" where
  "keep_status keep st b = switch_status E_leave (b\<lparr>bt_keep := keep, bt_kep_st := st\<rparr>)"

definition butt_set_col :: "nat \<Rightarrow> qbutt_line \<Rightarrow> qbutt_line" where
  "butt_set_col col b = b\<lparr>bt_col := col\<rparr>"

definition butt_set_text :: "string \<Rightarrow> qbutt_line \<Rightarrow> qbutt_line" where
  "butt_set_text t b = b\<lparr>bt_text := t\<rparr>"

text \<open>The events of a button; a click is signalled before the status changes.\<close>

datatype butt_action = Enter_event | Press_event | Leave_event | Release_event bool

definition butt_event :: "butt_action \<Rightarrow> qbutt_line \<Rightarrow> bool \<times> qbutt_line" where
  "butt_event ev b = (case ev of
       Enter_event \<Rightarrow> (False, switch_status E_enter b)
     | Press_event \<Rightarrow> (False, switch_status E_press b)
     | Leave_event \<Rightarrow> (False, switch_status E_leave b)
     | Release_event inside \<Rightarrow> (inside, switch_status E_enter b))"

text \<open>What \<open>paintEvent\<close> draws: the filled ground, the inner line and the outer line.\<close>

definition butt_paint :: "qbutt_line \<Rightarrow> bool \<times> bool \<times> bool" where
  "butt_paint b = (bt_status b \<ge> E_press, bt_status b \<ge> E_enter, bt_status b \<ge> E_leave)"

section \<open>\<open>qlab_img\<close>\<close>

record qlab_img =
  im_frame :: bool
  im_click :: bool
  im_keep :: bool
  im_size :: qsize
  im_file :: string
  im_pix :: "qsize option"
  im_wid :: qsize

definition qlab_img_init :: "ui_env \<Rightarrow> bool \<Rightarrow> qlab_img" where
  "qlab_img_init ui junk = \<lparr>im_frame = False, im_click = False, im_keep = junk, im_size = (-1, -1), im_file = [],
     im_pix = None, im_wid = qt_child_size ui\<rparr>"

definition img_set_frame :: "bool \<Rightarrow> qlab_img \<Rightarrow> qlab_img" where
  "img_set_frame frame i = i\<lparr>im_frame := frame\<rparr>"

definition set_img :: "string \<Rightarrow> qlab_img \<Rightarrow> qlab_img" where
  "set_img f i = i\<lparr>im_file := f\<rparr>"

definition set_keep :: "bool \<Rightarrow> qsize \<Rightarrow> qlab_img \<Rightarrow> qlab_img" where
  "set_keep keep sz i = i\<lparr>im_keep := keep, im_size := sz\<rparr>"

definition set_click :: "bool \<Rightarrow> qlab_img \<Rightarrow> qlab_img" where
  "set_click click i = i\<lparr>im_click := click\<rparr>"

definition update_img :: "ui_env \<Rightarrow> qlab_img \<Rightarrow> qlab_img" where
  "update_img ui i = (case qt_image ui (im_file i) of
       Some pix \<Rightarrow>
         (let sz = (if fst (im_size i) \<noteq> 0 then im_size i else pix);
              scaled = (if im_keep i then qt_scaled ui pix sz else sz)
          in i\<lparr>im_pix := Some scaled, im_wid := scaled\<rparr>)
     | None \<Rightarrow> i\<lparr>im_pix := None\<rparr>)"

definition img_release :: "bool \<Rightarrow> qlab_img \<Rightarrow> bool" where
  "img_release inside i = (im_click i \<and> inside)"

section \<open>Framed widgets\<close>

definition new_frame :: "ui_env \<Rightarrow> qframe_line" where
  "new_frame ui = \<lparr>fr_frame = True, fr_col = darkGray, fr_size = qt_child_size ui, wid_size = qt_child_size ui, wid_pos = (0, 0)\<rparr>"

record line_edit =
  le_text :: string
  le_center :: bool
  le_focus :: bool

definition fn_LineEdit :: "ui_env \<Rightarrow> qsize \<Rightarrow> qframe_line \<times> line_edit" where
  "fn_LineEdit ui sz = (resize_center sz 5 (new_frame ui), \<lparr>le_text = [], le_center = False, le_focus = True\<rparr>)"

definition fn_LineEdit_txt :: "ui_env \<Rightarrow> string \<Rightarrow> qsize \<Rightarrow> qframe_line \<times> line_edit" where
  "fn_LineEdit_txt ui tx sz = (let (c, d) = fn_LineEdit ui sz in (c, d\<lparr>le_text := tx\<rparr>))"

definition fn_LineEdit_non :: "ui_env \<Rightarrow> string \<Rightarrow> qsize \<Rightarrow> qframe_line \<times> line_edit" where
  "fn_LineEdit_non ui tx sz =
     (let (c, d) = fn_LineEdit ui sz
      in (set_col 0xaa0000 c, d\<lparr>le_text := tx, le_center := True, le_focus := False\<rparr>))"

definition fn_qedit_txt :: "ui_env \<Rightarrow> qsize \<Rightarrow> int \<Rightarrow> qframe_line \<times> line_edit" where
  "fn_qedit_txt ui sz padding = (resize_center sz padding (new_frame ui), \<lparr>le_text = [], le_center = False, le_focus = True\<rparr>)"

definition fn_Label :: "ui_env \<Rightarrow> string \<Rightarrow> qsize \<Rightarrow> qframe_line \<times> string" where
  "fn_Label ui str sz = (resize_center sz 5 (new_frame ui), str)"

definition fn_fimg :: "ui_env \<Rightarrow> bool \<Rightarrow> string \<Rightarrow> qsize \<Rightarrow> qframe_line \<times> qlab_img" where
  "fn_fimg ui junk icon sz =
     (let lab = update_img ui (set_keep False (calc_size sz 5) (set_img icon (qlab_img_init ui junk)));
          fr = resize_center sz 5 (new_frame ui)
      in (fr, lab\<lparr>im_wid := wid_size fr\<rparr>))"

text \<open>\<open>qedit_txt\<close>: the text that is sent is taken out of the field.\<close>

definition get_send_text :: "line_edit \<Rightarrow> string \<times> line_edit" where
  "get_send_text ed = (le_text ed, ed\<lparr>le_text := []\<rparr>)"

datatype key_modifier = No_modifier | Some_modifier
datatype key = Key_Return | Key_Enter | Key_other

text \<open>Whether a key is the signal to send instead of a change of the text.\<close>

definition keyPressEvent :: "key_modifier \<Rightarrow> key \<Rightarrow> bool" where
  "keyPressEvent md k = (md = No_modifier \<and> (k = Key_Return \<or> k = Key_Enter))"

section \<open>Messages\<close>

definition new_label :: "ui_env \<Rightarrow> qlab_wrap" where
  "new_label ui = \<lparr>lw_frame = False, lw_max_width = 500, lw_text = [], lw_text_new = [], lw_font = qt_font_text ui,
     lw_size = qt_child_size ui\<rparr>"

datatype wid_msg =
    Msg_text qframe_line qlab_wrap
  | Msg_hint qframe_line qlab_wrap
  | Msg_img qframe_line qlab_img

fun msg_frame :: "wid_msg \<Rightarrow> qframe_line" where
  "msg_frame (Msg_text fr lab) = fr"
| "msg_frame (Msg_hint fr lab) = fr"
| "msg_frame (Msg_img fr lab) = fr"

definition text_update_msg :: "ui_env \<Rightarrow> string \<Rightarrow> int \<Rightarrow> int \<Rightarrow> wid_msg" where
  "text_update_msg ui tx mx padding =
     (let lab = wrap_set_text (qt_chars ui tx) (new_label ui);
          size_wid = mx - padding * 2;
          lab = wrap_update_text (set_width_max size_wid lab)
      in Msg_text (frame_move_center padding ((new_frame ui)\<lparr>wid_size := lw_size lab\<rparr>)) lab)"

definition hint_update_msg :: "ui_env \<Rightarrow> string \<Rightarrow> int \<Rightarrow> int \<Rightarrow> wid_msg" where
  "hint_update_msg ui tx mx padding =
     (let lab = wrap_set_font (qt_font_hint ui) (wrap_set_text (qt_chars ui tx) (new_label ui));
          size_wid = mx - padding * 2;
          lab = wrap_update_text (set_width_max size_wid lab)
      in Msg_hint (frame_move_center 0 (set_frame False ((new_frame ui)\<lparr>wid_size := lw_size lab\<rparr>))) lab)"

definition img_update_msg :: "ui_env \<Rightarrow> string \<Rightarrow> int \<Rightarrow> int \<Rightarrow> wid_msg" where
  "img_update_msg ui tx mx padding =
     (let lab = set_img tx (qlab_img_init ui False);
          pix_width = (case qt_image ui (im_file lab) of Some pix \<Rightarrow> fst pix | None \<Rightarrow> 0);
          width = (if pix_width > mx then mx else pix_width) - padding * 2;
          lab = update_img ui (set_keep True (width, width) lab)
      in Msg_img (frame_move_center padding ((new_frame ui)\<lparr>wid_size := im_wid lab\<rparr>)) lab)"

datatype qalign = AlignCenter | AlignLeft | AlignRight

record wid_message =
  wm_size :: qsize
  wm_msg :: wid_msg
  wm_msg_pos :: qpoint
  wm_icon :: "(qpoint \<times> string) option"
  wm_tips :: "qpoint option"

abbreviation sizes_message :: fsize_message where
  "sizes_message \<equiv> the_fsize_message"

definition make_icon :: "ui_env \<Rightarrow> string \<Rightarrow> qframe_line \<times> qlab_img" where
  "make_icon ui f =
     (let mx = sint (msg_icon sizes_message); space = sint (msg_space sizes_message);
          size_max = (mx, mx); size_icon = calc_size size_max space;
          lab = update_img ui (set_keep False size_icon (set_img f (qlab_img_init ui False)));
          icon = resize_center size_max space (new_frame ui)
      in (icon, lab\<lparr>im_wid := wid_size icon\<rparr>))"

definition make_tips :: "ui_env \<Rightarrow> qframe_line" where
  "make_tips ui = (let mx = sint (msg_icon sizes_message) in set_frame False ((new_frame ui)\<lparr>fr_size := (mx, mx)\<rparr>))"

text \<open>\<open>wid_message::make_msg\<close>. The widgets that are not laid out stay at the origin.\<close>

definition message_make_msg :: "ui_env \<Rightarrow> wid_msg \<Rightarrow> qalign \<Rightarrow> string \<Rightarrow> wid_message res" where
  "message_make_msg ui msg flg img =
     (let mw = sint (msg_max_width sizes_message); icon_max = sint (msg_icon sizes_message);
          space = sint (msg_space sizes_message); sz = fr_size (msg_frame msg)
      in if flg = AlignCenter \<and> img = [] then
           Inr \<lparr>wm_size = (mw, snd sz), wm_msg = msg, wm_msg_pos = (cdiv2 mw - cdiv2 (fst sz), 0), wm_icon = None, wm_tips = None\<rparr>
         else
           (let width_msg = fst sz + space * 2 + icon_max * 2;
                icon = fr_size (fst (make_icon ui img)); tips = fr_size (make_tips ui);
                move = add_wid tips (add_wid sz (add_wid icon []));
                high = (if snd sz > icon_max then snd sz else icon_max)
            in rbind (case flg of
                  AlignLeft \<Rightarrow> move_x (0, 0) space move
                | AlignRight \<Rightarrow> move_xr (mw - width_msg, 0) space move
                | AlignCenter \<Rightarrow> Inr ([(0, 0), (0, 0), (0, 0)], (0, 0))) (\<lambda>(ps, _).
               Inr \<lparr>wm_size = (mw, high), wm_msg = msg, wm_msg_pos = ps ! 1, wm_icon = Some (ps ! 0, img), wm_tips = Some (ps ! 2)\<rparr>)))"

section \<open>\<open>wid_chat_input\<close>\<close>

record wid_chat_input =
  icon_left :: string
  icon_right :: string
  edit_text :: line_edit

definition set_icon :: "string \<Rightarrow> string \<Rightarrow> wid_chat_input \<Rightarrow> wid_chat_input" where
  "set_icon left right inp = inp\<lparr>icon_left := left, icon_right := right\<rparr>"

text \<open>A message of another type leaves the pointer to its widget null.\<close>

definition input_make_msg :: "ui_env \<Rightarrow> ct_msg_type \<Rightarrow> wid_chat_input \<Rightarrow> wid_message res" where
  "input_make_msg ui ct inp =
     (let mw = sint (msg_width sizes_message); padding = sint (msg_padding sizes_message);
          make = (if mt_types ct = types_Text then Some text_update_msg
                  else if mt_types ct = types_Hint then Some hint_update_msg
                  else if mt_types ct = types_Img then Some img_update_msg
                  else None);
          (flg, icon) = (if mt_object ct = object_AL then (AlignLeft, icon_left inp)
                         else if mt_object ct = object_AR then (AlignRight, icon_right inp)
                         else (AlignCenter, []))
      in case make of
           None \<Rightarrow> Inl (Crash Null_pointer)
         | Some update_msg \<Rightarrow> message_make_msg ui (update_msg ui (mt_content ct) mw padding) flg icon)"

definition is_img :: "ui_env \<Rightarrow> string \<Rightarrow> bool" where
  "is_img ui f \<longleftrightarrow> qt_image ui f \<noteq> None"

text \<open>The message \<open>send_text\<close> signals, if any; the time is the clock's.\<close>

definition send_text :: "int64 \<Rightarrow> string \<Rightarrow> ct_msg_type option" where
  "send_text now tx =
     (if tx \<noteq> [] then Some \<lparr>mt_time = now, mt_types = types_Text, mt_object = object_AR, mt_content = tx\<rparr> else None)"

definition input_send :: "int64 \<Rightarrow> wid_chat_input \<Rightarrow> ct_msg_type option \<times> wid_chat_input" where
  "input_send now inp = (let (tx, ed) = get_send_text (edit_text inp) in (send_text now tx, inp\<lparr>edit_text := ed\<rparr>))"

definition input_drop :: "ui_env \<Rightarrow> int64 \<Rightarrow> string list \<Rightarrow> ct_msg_type list" where
  "input_drop ui now ls =
     concat (map (\<lambda>f. if is_img ui f
        then [\<lparr>mt_time = now, mt_types = types_File, mt_object = object_AR, mt_content = f\<rparr>] else []) ls)"

section \<open>\<open>wid_chat_output\<close> and \<open>wid_chat\<close>\<close>

record wid_chat =
  ch_input :: wid_chat_input
  ch_area :: "wid_message qarea_wid"
  ch_shown :: bool

definition output_init_size :: "qsize \<Rightarrow> 'm qarea_wid \<Rightarrow> 'm qarea_wid" where
  "output_init_size sz a = area_init_size (calc_size sz 5) a"

definition add_message :: "ui_env \<Rightarrow> wid_message \<Rightarrow> wid_chat \<Rightarrow> wid_chat" where
  "add_message ui msg ch =
     ch\<lparr>ch_area := area_add_wid (qt_bar ui) msg (snd (wm_size msg)) (sint (space_msg the_fsize_ioput)) (ch_area ch)\<rparr>"

definition wid_chat_init :: wid_chat where
  "wid_chat_init =
     \<lparr>ch_input = \<lparr>icon_left = [], icon_right = [], edit_text = \<lparr>le_text = [], le_center = False, le_focus = True\<rparr>\<rparr>,
      ch_area = output_init_size (sint (max_width the_fsize_ioput), sint (height_output the_fsize_ioput))
        \<lparr>view_size = (0, 0), area_width = 0, area_height = 0, bar_value = 0, items = []\<rparr>,
      ch_shown = False\<rparr>"

text \<open>The slot of \<open>wid_chat\<close> for a message to send: it is shown.\<close>

definition chat_sent :: "ui_env \<Rightarrow> ct_msg_type \<Rightarrow> wid_chat \<Rightarrow> wid_chat res" where
  "chat_sent ui msg ch = rbind (input_make_msg ui msg (ch_input ch)) (\<lambda>m. Inr (add_message ui m ch))"

section \<open>Buttons\<close>

fun event_status :: "butt_action \<Rightarrow> status" where
  "event_status Enter_event = E_enter"
| "event_status Press_event = E_press"
| "event_status Leave_event = E_leave"
| "event_status (Release_event inside) = E_enter"

fun butt_run :: "butt_action list \<Rightarrow> qbutt_line \<Rightarrow> bool list \<times> qbutt_line" where
  "butt_run [] b = ([], b)"
| "butt_run (ev # evs) b = (let (c, b1) = butt_event ev b; (cs, b2) = butt_run evs b1 in (c # cs, b2))"

lemma switch_status_eq: "switch_status st b = b\<lparr>bt_status := (if bt_keep b then max st (bt_kep_st b) else st)\<rparr>"
  by (simp add: switch_status_def max_def)

lemma butt_event_eq: "butt_event ev b =
    ((\<exists>i. ev = Release_event i \<and> i), b\<lparr>bt_status := (if bt_keep b then max (event_status ev) (bt_kep_st b) else event_status ev)\<rparr>)"
  by (cases ev) (auto simp: butt_event_def switch_status_eq)

lemma butt_run_eq: "butt_run evs b =
    (map (\<lambda>ev. \<exists>i. ev = Release_event i \<and> i) evs,
     if evs = [] then b
     else b\<lparr>bt_status := (if bt_keep b then max (event_status (last evs)) (bt_kep_st b) else event_status (last evs))\<rparr>)"
  by (induction evs arbitrary: b) (auto simp: butt_event_eq Let_def)

text \<open>
  A button that is kept in a status never falls below it. After any events it is in the status of the
  last event or in the kept one, whichever is higher, and each release of the mouse inside it, and nothing
  else, is a click.
\<close>

theorem kept_button:
  "snd (butt_run evs (keep_status keep st b))
      = b\<lparr>bt_keep := keep, bt_kep_st := st,
          bt_status := (let last_status = (if evs = [] then E_leave else event_status (last evs))
                        in if keep then max last_status st else last_status)\<rparr>
    \<and> fst (butt_run evs (keep_status keep st b)) = map (\<lambda>ev. ev = Release_event True) evs"
proof -
  have "(\<exists>i. ev = Release_event i \<and> i) = (ev = Release_event True)" for ev by auto
  then show ?thesis by (simp add: butt_run_eq keep_status_def switch_status_eq)
qed

section \<open>Messages of a chat\<close>

lemma fold_max_width: "m \<le> fold (\<lambda>l mx. if mx < f l then f l else mx) ls (m :: int)"
proof (induction ls arbitrary: m)
  case (Cons l ls)
  show ?case using Cons [of "f l"] Cons [of m] by (cases "m < f l") auto
qed simp

lemma wrap_width: "0 \<le> lw_max_width w \<Longrightarrow> 0 \<le> fst (lw_size (wrap_update_text w)) \<and> fst (lw_size (wrap_update_text w)) \<le> lw_max_width w"
  using fold_max_width [of 0 "text_advance (lw_font w)" "split_lines (lw_text w)"]
  by (simp add: wrap_update_text_def calc_max_width_def Let_def)

lemma frame_sizes [simp]:
  "fr_size (resize_center sz p fr) = sz" "fr_size (set_frame b fr) = fr_size fr" "fr_size (set_col c fr) = fr_size fr"
  "fr_size (frame_move_center p fr) = (fst (wid_size fr) + p * 2, snd (wid_size fr) + p * 2)"
  "wid_size (set_frame b fr) = wid_size fr"
  by (simp_all add: resize_center_def set_frame_def set_col_def frame_move_center_def)

lemma message_constants:
  "sint (msg_max_width the_fsize_message) = 485" "sint (msg_icon the_fsize_message) = 50" "sint (msg_space the_fsize_message) = 5"
  "sint (msg_width the_fsize_message) = 375" "sint (msg_padding the_fsize_message) = 5"
  by (simp_all add: the_fsize_message_def Let_def)

lemma text_widths:
  "fst (fr_size (msg_frame (text_update_msg ui tx 375 5))) \<in> {10..375}"
  "fst (fr_size (msg_frame (hint_update_msg ui tx 375 5))) \<in> {0..365}"
  using wrap_width [of "set_width_max 365 (wrap_set_text (qt_chars ui tx) (new_label ui))"]
    wrap_width [of "set_width_max 365 (wrap_set_font (qt_font_hint ui) (wrap_set_text (qt_chars ui tx) (new_label ui)))"]
  by (simp_all add: text_update_msg_def hint_update_msg_def Let_def set_width_max_def)

lemma icon_tips_sizes: "fr_size (fst (make_icon ui img)) = (50, 50)" "fr_size (make_tips ui) = (50, 50)"
  by (simp_all add: make_icon_def make_tips_def message_constants Let_def)

lemma line_of_three:
  "\<exists>s. move_x pos sp [a, b, c] = Inr ([pos, (fst pos + fst a + sp, snd pos), (fst pos + fst a + sp + fst b + sp, snd pos)], s)"
  "\<exists>s. move_xr pos sp [a, b, c] = Inr ([(fst pos + fst c + sp + fst b + sp, snd pos), (fst pos + fst c + sp, snd pos), pos], s)"
  using fold_line_x [of "start_move pos" pos sp "[a, b, c]"] fold_line_x [of "start_move pos" pos sp "[c, b, a]"]
  by (simp_all add: move_x_def move_xr_def move_group_def Let_def)

lemma make_msg_sides:
  assumes "w = fst (fr_size (msg_frame msg))" "h = snd (fr_size (msg_frame msg))"
  shows "message_make_msg ui msg AlignLeft img = Inr \<lparr>wm_size = (485, max h 50), wm_msg = msg, wm_msg_pos = (55, 0),
      wm_icon = Some ((0, 0), img), wm_tips = Some (60 + w, 0)\<rparr>"
    and "message_make_msg ui msg AlignRight img = Inr \<lparr>wm_size = (485, max h 50), wm_msg = msg, wm_msg_pos = (430 - w, 0),
      wm_icon = Some ((435, 0), img), wm_tips = Some (375 - w, 0)\<rparr>"
proof -
  obtain s where "move_x (0, 0) 5 [(50, 50), fr_size (msg_frame msg), (50, 50)] = Inr ([(0, 0), (55, 0), (60 + w, 0)], s)"
    using line_of_three(1) [of "(0, 0)" 5 "(50, 50)" "fr_size (msg_frame msg)" "(50, 50)"] assms(1) by auto
  then show "message_make_msg ui msg AlignLeft img = Inr \<lparr>wm_size = (485, max h 50), wm_msg = msg, wm_msg_pos = (55, 0),
      wm_icon = Some ((0, 0), img), wm_tips = Some (60 + w, 0)\<rparr>"
    by (simp add: message_make_msg_def message_constants icon_tips_sizes add_wid_def Let_def assms(2) max_def)
  obtain t where "move_xr (375 - w, 0) 5 [(50, 50), fr_size (msg_frame msg), (50, 50)] = Inr ([(435, 0), (430 - w, 0), (375 - w, 0)], t)"
    using line_of_three(2) [of "(375 - w, 0)" 5 "(50, 50)" "fr_size (msg_frame msg)" "(50, 50)"] assms(1) by auto
  then show "message_make_msg ui msg AlignRight img = Inr \<lparr>wm_size = (485, max h 50), wm_msg = msg, wm_msg_pos = (430 - w, 0),
      wm_icon = Some ((435, 0), img), wm_tips = Some (375 - w, 0)\<rparr>"
    by (simp add: message_make_msg_def message_constants icon_tips_sizes add_wid_def Let_def assms max_def)
qed

text \<open>
  A text or hint of either side fits in its row of 485: on the left from the icon at the edge over the
  text to the tip, on the right mirrored with the icon ending at the right edge, each 5 apart.
\<close>

theorem text_message_fits:
  assumes "mt_types ct \<in> {types_Text, types_Hint}" "mt_object ct \<in> {object_AL, object_AR}"
  shows "\<exists>m w. input_make_msg ui ct inp = Inr m \<and> w = fst (fr_size (msg_frame (wm_msg m))) \<and> 0 \<le> w \<and> w \<le> 375 \<and> fst (wm_size m) = 485
    \<and> (if mt_object ct = object_AL
       then wm_icon m = Some ((0, 0), icon_left inp) \<and> wm_msg_pos m = (50 + 5, 0) \<and> wm_tips m = Some (50 + 5 + w + 5, 0) \<and> 50 + 5 + w + 5 + 50 \<le> 485
       else wm_icon m = Some ((485 - 50, 0), icon_right inp) \<and> wm_msg_pos m = (485 - 50 - 5 - w, 0) \<and> wm_tips m = Some (485 - 50 - 5 - w - 5 - 50, 0)
         \<and> 0 \<le> 485 - 50 - 5 - w - 5 - 50)"
proof -
  obtain up where up: "(if mt_types ct = types_Text then Some text_update_msg
       else if mt_types ct = types_Hint then Some hint_update_msg
       else if mt_types ct = types_Img then Some img_update_msg else None) = Some up"
      "fst (fr_size (msg_frame (up ui (mt_content ct) 375 5))) \<in> {0..375}"
  proof (cases "mt_types ct = types_Text")
    case True
    then show ?thesis using that [of text_update_msg] text_widths(1) [of ui "mt_content ct"] by simp
  next
    case False
    then have "mt_types ct = types_Hint" "types_Hint \<noteq> types_Text" using assms(1) by auto
    then show ?thesis using that [of hint_update_msg] text_widths(2) [of ui "mt_content ct"] by simp
  qed
  have "object_AL \<noteq> object_AR" by (simp add: type_names)
  let ?m = "up ui (mt_content ct) 375 5"
  show ?thesis
  proof (cases "mt_object ct = object_AL")
    case True
    then have "input_make_msg ui ct inp = message_make_msg ui ?m AlignLeft (icon_left inp)"
      using up(1) by (simp add: input_make_msg_def message_constants Let_def)
    then show ?thesis using up(2) True make_msg_sides(1) [OF refl refl, of ui ?m "icon_left inp"] by simp
  next
    case False
    then have "input_make_msg ui ct inp = message_make_msg ui ?m AlignRight (icon_right inp)"
      using up(1) assms(2) by (simp add: input_make_msg_def message_constants Let_def)
    then show ?thesis using up(2) False make_msg_sides(2) [OF refl refl, of ui ?m "icon_right inp"] by simp
  qed
qed

definition demo_ui :: ui_env where
  "demo_ui = \<lparr>qt_number = to_string64, qt_to_longlong = (\<lambda>s. case stoll s of Inr n \<Rightarrow> n | Inl e \<Rightarrow> 0),
     qt_chars = map (\<lambda>c. of_char c), qt_font_text = lw_font demo_label, qt_font_hint = lw_font demo_label,
     qt_image = (\<lambda>f. if f = ''a.png'' then Some (20, 10) else None), qt_scaled = (\<lambda>pix sz. sz), qt_child_size = (100, 30),
     qt_bar = demo_range\<rparr>"

theorem text_message_fits_witness:
  "\<exists>m w. input_make_msg demo_ui \<lparr>mt_time = 1, mt_types = ''Text'', mt_object = ''AR'', mt_content = ''hi''\<rparr> (ch_input wid_chat_init) = Inr m
    \<and> wm_icon m = Some ((435, 0), []) \<and> wm_msg_pos m = (430 - w, 0)"
  using text_message_fits [of "\<lparr>mt_time = 1, mt_types = ''Text'', mt_object = ''AR'', mt_content = ''hi''\<rparr>" demo_ui "ch_input wid_chat_init"]
  by (auto simp: type_names wid_chat_init_def)

text \<open>
  Every image that is dropped on the input field is signalled as a file, and a file is a type for which
  no widget is made: the slot of the chat window then calls through a null pointer.
\<close>

theorem dropped_image_crash:
  assumes "f \<in> set ls" "is_img ui f"
  shows "input_drop ui now ls \<noteq> [] \<and> (\<forall>msg \<in> set (input_drop ui now ls). chat_sent ui msg ch = Inl (Crash Null_pointer))"
proof -
  have "chat_sent ui \<lparr>mt_time = now, mt_types = types_File, mt_object = object_AR, mt_content = g\<rparr> ch = Inl (Crash Null_pointer)" for g
    by (simp add: chat_sent_def input_make_msg_def Let_def type_names)
  then show ?thesis using assms by (auto simp: input_drop_def split: if_splits)
qed

theorem dropped_image_crash_witness:
  "\<exists>msg. input_drop demo_ui 7 [''a.png''] = [msg] \<and> chat_sent demo_ui msg wid_chat_init = Inl (Crash Null_pointer)"
  using dropped_image_crash [of "''a.png''" "[''a.png'']" demo_ui 7 wid_chat_init]
  by (simp add: is_img_def demo_ui_def input_drop_def)

end
