(* ===== verification/Person_Info.thy ===== *)
theory Person_Info
  imports Ui_Widgets
begin

text \<open>
  \<open>wid_person_info\<close>, \<open>wid_dialog_box\<close> and \<open>wid_friend_add\<close>: the form of an account, in its four kinds, what its
  buttons signal, the dialog that asks before a profile is saved, and the search for an account. Chinese
  texts are given by their UTF-8 bytes. The widgets of a form are the list of the frames its layout places.
\<close>

section \<open>Texts\<close>

definition lab_account :: string where "lab_account = [CHR 0xE8, CHR 0xB4, CHR 0xA6, CHR 0xE5, CHR 0x8F, CHR 0xB7]"
definition lab_nickname :: string where "lab_nickname = [CHR 0xE6, CHR 0x98, CHR 0xB5, CHR 0xE7, CHR 0xA7, CHR 0xB0]"
definition lab_phone :: string where "lab_phone = [CHR 0xE7, CHR 0x94, CHR 0xB5, CHR 0xE8, CHR 0xAF, CHR 0x9D]"
definition lab_age :: string where "lab_age = [CHR 0xE5, CHR 0xB9, CHR 0xB4, CHR 0xE9, CHR 0xBE, CHR 0x84]"
definition lab_sex :: string where "lab_sex = [CHR 0xE6, CHR 0x80, CHR 0xA7, CHR 0xE5, CHR 0x88, CHR 0xAB]"
definition lab_location :: string where "lab_location = [CHR 0xE5, CHR 0x9C, CHR 0xB0, CHR 0xE5, CHR 0x9D, CHR 0x80]"
definition lab_remarks :: string where "lab_remarks = [CHR 0xE5, CHR 0xA4, CHR 0x87, CHR 0xE6, CHR 0xB3, CHR 0xA8]"
definition lab_friend_remarks :: string where
  "lab_friend_remarks =
    [CHR 0xE5, CHR 0xA5, CHR 0xBD, CHR 0xE5, CHR 0x8F, CHR 0x8B, CHR 0xE5, CHR 0xA4, CHR 0x87, CHR 0xE6, CHR 0xB3, CHR 0xA8]"
definition lab_notes :: string where
  "lab_notes =
    [CHR 0xE7, CHR 0x94, CHR 0xB3, CHR 0xE8, CHR 0xAF, CHR 0xB7, CHR 0xE4, CHR 0xBF, CHR 0xA1, CHR 0xE6, CHR 0x81, CHR 0xAF]"
definition tx_cancel :: string where "tx_cancel = [CHR 0xE5, CHR 0x8F, CHR 0x96, CHR 0xE6, CHR 0xB6, CHR 0x88]"
definition tx_ok :: string where "tx_ok = [CHR 0xE7, CHR 0xA1, CHR 0xAE, CHR 0xE8, CHR 0xAE, CHR 0xA4]"
definition tx_add :: string where "tx_add = [CHR 0xE6, CHR 0xB7, CHR 0xBB, CHR 0xE5, CHR 0x8A, CHR 0xA0]"
definition tx_refuse :: string where "tx_refuse = [CHR 0xE6, CHR 0x8B, CHR 0x92, CHR 0xE7, CHR 0xBB, CHR 0x9D]"
definition tx_agree :: string where "tx_agree = [CHR 0xE5, CHR 0x90, CHR 0x8C, CHR 0xE6, CHR 0x84, CHR 0x8F]"
definition sex_female :: string where "sex_female = [CHR 0xE5, CHR 0xA5, CHR 0xB3]"
definition sex_male :: string where "sex_male = [CHR 0xE7, CHR 0x94, CHR 0xB7]"
definition tx_ask :: string where
  "tx_ask =
    [CHR 0xE4, CHR 0xBD, CHR 0xA0, CHR 0xE5, CHR 0xA5, CHR 0xBD, CHR 0x2C, CHR 0xE5, CHR 0xA6, CHR 0x82, CHR 0xE6, CHR 0x9E,
     CHR 0x9C, CHR 0xE6, CHR 0x83, CHR 0xB3, CHR 0xE8, CHR 0xAE, CHR 0xA4, CHR 0xE8, CHR 0xAF, CHR 0x86, CHR 0xE4, CHR 0xB8,
     CHR 0x80, CHR 0xE4, CHR 0xB8, CHR 0x8B, CHR 0xE8, CHR 0xAF, CHR 0xB7, CHR 0xE4, CHR 0xBA, CHR 0xA4, CHR 0xE4, CHR 0xB8,
     CHR 0xAA, CHR 0xE6, CHR 0x9C, CHR 0x8B, CHR 0xE5, CHR 0x8F, CHR 0x8B, CHR 0xE5, CHR 0x90, CHR 0xA7, CHR 0x21]"



definition box_confirm_title :: string where
  "box_confirm_title =
    [CHR 0xE7, CHR 0xA1, CHR 0xAE, CHR 0xE8, CHR 0xAE, CHR 0xA4, CHR 0xE4, CHR 0xBF, CHR 0xAE, CHR 0xE6, CHR 0x94, CHR 0xB9]"

definition box_confirm :: string where
  "box_confirm =
    [CHR 0x3C, CHR 0x3C, CHR 0x20, CHR 0xE4, CHR 0xB8, CHR 0xAA, CHR 0xE4, CHR 0xBA, CHR 0xBA, CHR 0xE4, CHR 0xBF, CHR 0xA1,
     CHR 0xE6, CHR 0x81, CHR 0xAF, CHR 0xE4, CHR 0xBB, CHR 0xA5, CHR 0xE6, CHR 0x94, CHR 0xB9, CHR 0xE5, CHR 0x8F, CHR 0x98,
     CHR 0xEF, CHR 0xBC, CHR 0x8C, CHR 0xE8, CHR 0xAF, CHR 0xB7, CHR 0xE7, CHR 0xA1, CHR 0xAE, CHR 0xE8, CHR 0xAE, CHR 0xA4,
     CHR 0xE4, CHR 0xBF, CHR 0xAE, CHR 0xE6, CHR 0x94, CHR 0xB9, CHR 0xE4, CHR 0xB8, CHR 0xAA, CHR 0xE4, CHR 0xBA, CHR 0xBA,
     CHR 0xE4, CHR 0xBF, CHR 0xA1, CHR 0xE6, CHR 0x81, CHR 0xAF, CHR 0x20, CHR 0x3E, CHR 0x3E]"

definition box_limit_title :: string where
  "box_limit_title =
    [CHR 0xE4, CHR 0xBF, CHR 0xAE, CHR 0xE6, CHR 0x94, CHR 0xB9, CHR 0xE9, CHR 0x99, CHR 0x90, CHR 0xE5, CHR 0x88, CHR 0xB6]"

definition box_limit :: string where
  "box_limit =
    [CHR 0xE6, CHR 0x80, CHR 0xA7, CHR 0xE5, CHR 0x88, CHR 0xAB, CHR 0xEF, CHR 0xBC, CHR 0x9A, CHR 0xE7, CHR 0x94, CHR 0xB7,
     CHR 0x20, CHR 0xE6, CHR 0x88, CHR 0x96, CHR 0xE7, CHR 0x9A, CHR 0x84, CHR 0x20, CHR 0xE5, CHR 0xA5, CHR 0xB3, CHR 0x20,
     CHR 0x0A, CHR 0xE5, CHR 0xB9, CHR 0xB4, CHR 0xE9, CHR 0xBE, CHR 0x84, CHR 0xEF, CHR 0xBC, CHR 0x9A, CHR 0x30, CHR 0x20,
     CHR 0xE8, CHR 0x87, CHR 0xB3, CHR 0x20, CHR 0x32, CHR 0x30, CHR 0x30]"

section \<open>The dialog\<close>

datatype en_level = Box_info | Box_debug | Box_warning | Box_error

record wid_dialog_box =
  dl_ok :: bool
  dl_col :: nat
  dl_butts :: "qpoint list"
  dl_size :: qsize
  dl_title :: string

datatype dialog_click = Click_no | Click_ok | Click_close

definition dialog_init :: wid_dialog_box where
  "dialog_init = \<lparr>dl_ok = False, dl_col = darkGray, dl_butts = [], dl_size = (0, 0), dl_title = []\<rparr>"

definition dialog_clicked :: "dialog_click \<Rightarrow> wid_dialog_box \<Rightarrow> wid_dialog_box" where
  "dialog_clicked c b = (case c of Click_no \<Rightarrow> b\<lparr>dl_ok := False\<rparr> | Click_ok \<Rightarrow> b\<lparr>dl_ok := True\<rparr> | Click_close \<Rightarrow> b)"

text \<open>The dialog is open until the first click on one of its buttons or on the close button.\<close>

definition make_box ::
  "ui_env \<Rightarrow> string \<Rightarrow> string \<Rightarrow> en_level \<Rightarrow> int \<Rightarrow> int \<Rightarrow> dialog_click \<Rightarrow> wid_dialog_box \<Rightarrow> (bool \<times> wid_dialog_box) res" where
  "make_box ui title tx en mx_width high click b =
     (let space = 5; butt_high = 30;
          (f, _) = fn_Label ui tx (mx_width, high);
          f = (case en of Box_debug \<Rightarrow> set_col 0x00aa00 f | Box_warning \<Rightarrow> set_col 0xaaaa00 f
               | Box_error \<Rightarrow> set_col 0xaa0000 f | Box_info \<Rightarrow> f);
          butt = (cdiv2 mx_width - space, butt_high)
      in rbind (move_x (0, high + 5) (space * 2) (add_wid butt (add_wid butt []))) (\<lambda>(ps, _).
         let b = dialog_clicked click (b\<lparr>dl_col := fr_col f, dl_butts := ps, dl_title := title,
                    dl_size := (mx_width, high + butt_high + space * 2)\<rparr>)
         in Inr (dl_ok b, b)))"

section \<open>The form\<close>

record ct_person_str =
  ps_notes :: string
  ps_icon :: string
  ps_remarks :: string
  ps_account :: string
  ps_phone :: string
  ps_age :: string
  ps_sex :: string
  ps_nickname :: string
  ps_location :: string

record ct_person_edit =
  pe_remarks :: "line_edit option"
  pe_account :: "line_edit option"
  pe_phone :: "line_edit option"
  pe_age :: "line_edit option"
  pe_sex :: "line_edit option"
  pe_nickname :: "line_edit option"
  pe_location :: "line_edit option"
  pe_notes :: "line_edit option"

type_synonym placed = "qpoint \<times> qsize"

record wid_person_info =
  pi_edit :: ct_person_edit
  pi_save :: ct_person_str
  cancel_text :: string
  save_text :: string
  butts_hidden :: bool
  add_hidden :: bool
  pi_img :: "qlab_img option"
  pi_size :: qsize
  pi_places :: "placed list"

definition size_lab :: qsize where "size_lab = (60, 30)"
definition size_edit :: qsize where "size_edit = (180, 30)"
definition size_butt :: qsize where "size_butt = (120, 40)"
definition size_add :: qsize where "size_add = (fst size_butt * 2 + 5, snd size_butt)"

definition person_init :: wid_person_info where
  "person_init =
     \<lparr>pi_edit = \<lparr>pe_remarks = None, pe_account = None, pe_phone = None, pe_age = None, pe_sex = None, pe_nickname = None,
         pe_location = None, pe_notes = None\<rparr>,
      pi_save = \<lparr>ps_notes = [], ps_icon = [], ps_remarks = [], ps_account = [], ps_phone = [], ps_age = [], ps_sex = [],
         ps_nickname = [], ps_location = []\<rparr>,
      cancel_text = tx_cancel, save_text = tx_ok, butts_hidden = False, add_hidden = True, pi_img = None, pi_size = (0, 0),
      pi_places = []\<rparr>"

definition set_info :: "ui_env \<Rightarrow> ct_ac_info \<Rightarrow> wid_person_info \<Rightarrow> wid_person_info" where
  "set_info ui info p =
     (let sex = (if ai_sex info = 0 then sex_female else sex_male)
      in p\<lparr>pi_save := (pi_save p)\<lparr>ps_account := qt_number ui (ai_account info), ps_phone := qt_number ui (ai_phone info),
             ps_age := qt_number ui (ai_age info), ps_sex := sex, ps_nickname := ai_nickname info,
             ps_location := ai_location info\<rparr>\<rparr>)"

definition set_info_remarks :: "string \<Rightarrow> string \<Rightarrow> string \<Rightarrow> wid_person_info \<Rightarrow> wid_person_info" where
  "set_info_remarks remarks icon notes p =
     (let s = pi_save p;
          s = (if remarks \<noteq> [] then s\<lparr>ps_remarks := remarks\<rparr> else s);
          s = (if icon \<noteq> [] then s\<lparr>ps_icon := icon\<rparr> else s);
          s = (if notes \<noteq> [] then s\<lparr>ps_notes := notes\<rparr> else s)
      in p\<lparr>pi_save := s\<rparr>)"

definition add_row :: "ui_env \<Rightarrow> string \<Rightarrow> qframe_line \<Rightarrow> qmove_pos \<Rightarrow> qmove_pos" where
  "add_row ui lab c move = (let (a, b) = fn_Label ui lab size_lab in add_wid (fr_size c) (add_wid (fr_size a) move))"

definition init_edit :: "ui_env \<Rightarrow> wid_person_info \<Rightarrow> wid_person_info res" where
  "init_edit ui p =
     (let s = pi_save p; move = [];
          (c0, d0) = fn_LineEdit_non ui (ps_account s) size_edit;
          move = add_row ui lab_account c0 move;
          (c1, d1) = fn_LineEdit_txt ui (ps_nickname s) size_edit;
          move = add_row ui lab_nickname c1 move;
          (c2, d2) = fn_LineEdit_txt ui (ps_phone s) size_edit;
          move = add_row ui lab_phone c2 move;
          (c3, d3) = fn_LineEdit_txt ui (ps_age s) size_edit;
          move = add_row ui lab_age c3 move;
          (c4, d4) = fn_LineEdit_txt ui (ps_sex s) size_edit;
          move = add_row ui lab_sex c4 move;
          (c5, d5) = fn_LineEdit_txt ui (ps_location s) size_edit;
          move = add_row ui lab_location c5 move;
          move = add_wid size_butt (add_wid size_butt move)
      in rbind (move_group (5, 5) 5 2 (- 1) False move) (\<lambda>(ps, sz).
         Inr (p\<lparr>pi_edit := (pi_edit p)\<lparr>pe_account := Some d0, pe_nickname := Some d1, pe_phone := Some d2,
                   pe_age := Some d3, pe_sex := Some d4, pe_location := Some d5\<rparr>,
                  pi_size := (fst sz + 5 * 2, snd sz + 5 * 2), pi_places := zip ps move\<rparr>)))"

definition init_friends :: "ui_env \<Rightarrow> wid_person_info \<Rightarrow> wid_person_info res" where
  "init_friends ui p =
     (let s = pi_save p; move = [];
          (c0, d0) = fn_LineEdit_txt ui (ps_remarks s) size_edit;
          move = add_row ui lab_remarks c0 move;
          (c1, d1) = fn_LineEdit_non ui (ps_account s) size_edit;
          move = add_row ui lab_account c1 move;
          (c2, d2) = fn_LineEdit_non ui (ps_nickname s) size_edit;
          move = add_row ui lab_nickname c2 move;
          (c3, d3) = fn_LineEdit_non ui (ps_phone s) size_edit;
          move = add_row ui lab_phone c3 move;
          (c4, d4) = fn_LineEdit_non ui (ps_age s) size_edit;
          move = add_row ui lab_age c4 move;
          (c5, d5) = fn_LineEdit_non ui (ps_sex s) size_edit;
          move = add_row ui lab_sex c5 move;
          (c6, d6) = fn_LineEdit_non ui (ps_location s) size_edit;
          move = add_row ui lab_location c6 move;
          move = add_wid size_butt (add_wid size_butt move)
      in rbind (move_group (5, 5) 5 2 (- 1) False move) (\<lambda>(ps, sz).
         let size1 = (fst sz + 5 * 2, snd sz + 5 * 2);
             (f, img) = fn_fimg ui False (ps_icon s) (200 + 10, 200 + 10)
         in Inr (p\<lparr>pi_edit := (pi_edit p)\<lparr>pe_remarks := Some d0, pe_account := Some d1, pe_nickname := Some d2,
                   pe_phone := Some d3, pe_age := Some d4, pe_sex := Some d5, pe_location := Some d6\<rparr>,
                  pi_img := Some img, pi_size := (fst size1 + fst (fr_size f) + 5, snd size1),
                  pi_places := zip ps move @ [((fst size1, 5), fr_size f)]\<rparr>)))"

definition init_add_ask :: "ui_env \<Rightarrow> wid_person_info \<Rightarrow> wid_person_info res" where
  "init_add_ask ui p =
     (let s = pi_save p; move = [];
          (c0, d0) = fn_LineEdit_non ui (ps_account s) size_edit;
          move = add_row ui lab_account c0 move;
          (c1, d1) = fn_LineEdit_non ui (ps_nickname s) size_edit;
          move = add_row ui lab_nickname c1 move;
          (c2, d2) = fn_LineEdit_non ui (ps_phone s) size_edit;
          move = add_row ui lab_phone c2 move;
          (c3, d3) = fn_LineEdit_non ui (ps_age s) size_edit;
          move = add_row ui lab_age c3 move;
          (c4, d4) = fn_LineEdit_non ui (ps_sex s) size_edit;
          move = add_row ui lab_sex c4 move;
          (c5, d5) = fn_LineEdit_non ui (ps_location s) size_edit;
          move = add_row ui lab_location c5 move;
          (c6, d6) = fn_LineEdit_txt ui (ps_remarks s) size_edit;
          move = add_row ui lab_friend_remarks c6 move;
          (a, _) = fn_Label ui lab_notes size_lab;
          (c, d) = fn_qedit_txt ui (fst size_edit + (200 + 5 * 3), snd size_edit + 50) 5;
          move = add_wid (fr_size c) (add_wid (fr_size a) move);
          d = d\<lparr>le_text := tx_ask\<rparr>;
          move = add_wid size_add move
      in rbind (move_group (5, 5) 5 2 (- 1) False move) (\<lambda>(ps, sz).
         let (f, img) = fn_fimg ui False (ps_icon s) (200 + 5 * 2, 200 + 5 * 2)
         in Inr (p\<lparr>pi_edit := (pi_edit p)\<lparr>pe_account := Some d0, pe_nickname := Some d1, pe_phone := Some d2,
                   pe_age := Some d3, pe_sex := Some d4, pe_location := Some d5, pe_remarks := Some d6, pe_notes := Some d\<rparr>,
                  butts_hidden := True, add_hidden := False, pi_img := Some img, pi_size := (fst sz + 5 * 2, snd sz + 5 * 2),
                  pi_places := zip ps move @ [((fst size_lab + fst size_edit + 5 * 3, 5), fr_size f)]\<rparr>)))"

definition init_add_recv :: "ui_env \<Rightarrow> wid_person_info \<Rightarrow> wid_person_info res" where
  "init_add_recv ui p =
     (let s = pi_save p; move = [];
          (c0, d0) = fn_LineEdit_non ui (ps_account s) size_edit;
          move = add_row ui lab_account c0 move;
          (c1, d1) = fn_LineEdit_non ui (ps_nickname s) size_edit;
          move = add_row ui lab_nickname c1 move;
          (c2, d2) = fn_LineEdit_non ui (ps_phone s) size_edit;
          move = add_row ui lab_phone c2 move;
          (c3, d3) = fn_LineEdit_non ui (ps_age s) size_edit;
          move = add_row ui lab_age c3 move;
          (c4, d4) = fn_LineEdit_non ui (ps_sex s) size_edit;
          move = add_row ui lab_sex c4 move;
          (c5, d5) = fn_LineEdit_non ui (ps_location s) size_edit;
          move = add_row ui lab_location c5 move;
          (c6, d6) = fn_LineEdit_txt ui (ps_remarks s) size_edit;
          move = add_row ui lab_friend_remarks c6 move;
          (a, _) = fn_Label ui lab_notes size_lab;
          (c, d) = fn_qedit_txt ui (fst size_edit + (200 + 5 * 3), snd size_edit + 50) 5;
          move = add_wid (fr_size c) (add_wid (fr_size a) move);
          d = d\<lparr>le_text := ps_notes s, le_focus := False\<rparr>;
          move = add_wid size_butt (add_wid size_butt move)
      in rbind (move_group (5, 5) 5 2 (- 1) False move) (\<lambda>(ps, sz).
         let (f, img) = fn_fimg ui False (ps_icon s) (200 + 5 * 2, 200 + 5 * 2)
         in Inr (p\<lparr>pi_edit := (pi_edit p)\<lparr>pe_account := Some d0, pe_nickname := Some d1, pe_phone := Some d2,
                   pe_age := Some d3, pe_sex := Some d4, pe_location := Some d5, pe_remarks := Some d6, pe_notes := Some d\<rparr>,
                  cancel_text := tx_refuse, save_text := tx_agree, pi_img := Some img, pi_size := (fst sz + 5 * 2, snd sz + 5 * 2),
                  pi_places := zip ps move @ [((fst size_lab + fst size_edit + 5 * 3, 5), fr_size f)]\<rparr>)))"

text \<open>The text of a field; a field that was not made is a null pointer.\<close>

definition edit_of :: "line_edit option \<Rightarrow> string res" where
  "edit_of e = (case e of None \<Rightarrow> Inl (Crash Null_pointer) | Some ed \<Rightarrow> Inr (le_text ed))"

fun all_same :: "(string \<times> line_edit option) list \<Rightarrow> bool res" where
  "all_same [] = Inr True"
| "all_same ((s, e) # fs) = rbind (edit_of e) (\<lambda>t. if s \<noteq> t then Inr False else all_same fs)"

definition not_change_info :: "wid_person_info \<Rightarrow> bool res" where
  "not_change_info p = (let s = pi_save p; e = pi_edit p in
     all_same [(ps_account s, pe_account e), (ps_phone s, pe_phone e), (ps_age s, pe_age e), (ps_sex s, pe_sex e),
               (ps_nickname s, pe_nickname e), (ps_location s, pe_location e)])"

definition not_change_remarks :: "wid_person_info \<Rightarrow> bool" where
  "not_change_remarks p = (case pe_remarks (pi_edit p) of
       Some ed \<Rightarrow> (if le_text ed = ps_remarks (pi_save p) then True else False)
     | None \<Rightarrow> True)"

definition is_verification_info :: "ui_env \<Rightarrow> wid_person_info \<Rightarrow> bool res" where
  "is_verification_info ui p =
     rbind (edit_of (pe_age (pi_edit p))) (\<lambda>ag. let age = qt_to_longlong ui ag in
     rbind (edit_of (pe_phone (pi_edit p))) (\<lambda>ph.
       if sint (qt_to_longlong ui ph) < 0 then Inr False
       else if sint age < 0 \<or> sint age > 200 then Inr False
       else rbind (edit_of (pe_sex (pi_edit p))) (\<lambda>sex.
         if sex \<noteq> sex_male \<and> sex \<noteq> sex_female \<and> sex \<noteq> [] then Inr False else Inr True)))"

definition set_text :: "string \<Rightarrow> line_edit option \<Rightarrow> line_edit option res" where
  "set_text t e = (case e of None \<Rightarrow> Inl (Crash Null_pointer) | Some ed \<Rightarrow> Inr (Some (ed\<lparr>le_text := t\<rparr>)))"

definition set_text_if :: "string \<Rightarrow> line_edit option \<Rightarrow> line_edit option" where
  "set_text_if t e = map_option (\<lambda>ed. ed\<lparr>le_text := t\<rparr>) e"

definition update_info :: "ui_env \<Rightarrow> wid_person_info \<Rightarrow> wid_person_info res" where
  "update_info ui p =
     (let s = pi_save p; e = pi_edit p;
          e = e\<lparr>pe_remarks := set_text_if (ps_remarks s) (pe_remarks e), pe_notes := set_text_if (ps_notes s) (pe_notes e)\<rparr>;
          img = map_option (\<lambda>i. update_img ui (set_img (ps_icon s) i)) (pi_img p)
      in rbind (set_text (ps_account s) (pe_account e)) (\<lambda>ac.
         rbind (set_text (ps_phone s) (pe_phone e)) (\<lambda>ph.
         rbind (set_text (ps_age s) (pe_age e)) (\<lambda>ag.
         rbind (set_text (ps_sex s) (pe_sex e)) (\<lambda>sx.
         rbind (set_text (ps_nickname s) (pe_nickname e)) (\<lambda>nk.
         rbind (set_text (ps_location s) (pe_location e)) (\<lambda>lc.
         Inr (p\<lparr>pi_edit := e\<lparr>pe_account := ac, pe_phone := ph, pe_age := ag, pe_sex := sx, pe_nickname := nk, pe_location := lc\<rparr>,
                 pi_img := img\<rparr>))))))))"

text \<open>\<open>sex\<close> is not initialised, and not set when the field holds neither of the two texts.\<close>

definition get_edit_info :: "ui_env \<Rightarrow> int64 \<Rightarrow> wid_person_info \<Rightarrow> ct_ac_info res" where
  "get_edit_info ui junk p =
     (let e = pi_edit p in
      rbind (edit_of (pe_sex e)) (\<lambda>sx.
      let sex = (if sx = sex_female then 0 else if sx = sex_male then 1 else junk) in
      rbind (edit_of (pe_account e)) (\<lambda>ac. rbind (edit_of (pe_phone e)) (\<lambda>ph. rbind (edit_of (pe_age e)) (\<lambda>ag.
      rbind (edit_of (pe_nickname e)) (\<lambda>nk. rbind (edit_of (pe_location e)) (\<lambda>lc.
        Inr \<lparr>ai_account = qt_to_longlong ui ac, ai_phone = qt_to_longlong ui ph, ai_age = qt_to_longlong ui ag,
             ai_sex = sex, ai_nickname = nk, ai_location = lc, ai_icon = []\<rparr>)))))))"

definition get_edit_remarks :: "wid_person_info \<Rightarrow> string" where
  "get_edit_remarks p = (case pe_remarks (pi_edit p) of Some ed \<Rightarrow> le_text ed | None \<Rightarrow> [])"

definition get_edit_notes :: "wid_person_info \<Rightarrow> string \<times> wid_person_info" where
  "get_edit_notes p = (case pe_notes (pi_edit p) of
       Some ed \<Rightarrow> (let (t, ed') = get_send_text ed in (t, p\<lparr>pi_edit := (pi_edit p)\<lparr>pe_notes := Some ed'\<rparr>\<rparr>))
     | None \<Rightarrow> ([], p))"

datatype person_signal =
    Ps_box en_level
  | Ps_save_info ct_ac_info
  | Ps_save_remarks string
  | Ps_add_friend ct_ac_info string string
  | Ps_not_change

text \<open>The slot of \<open>sn_save\<close>, with the click that closes the dialog it may open.\<close>

definition person_save :: "ui_env \<Rightarrow> dialog_click \<Rightarrow> int64 \<Rightarrow> bool \<Rightarrow> wid_person_info \<Rightarrow> person_signal list res" where
  "person_save ui click junk save p =
     (if save then
        rbind (not_change_info p) (\<lambda>same.
        if \<not> same then
          rbind (is_verification_info ui p) (\<lambda>valid.
          if valid then
            rbind (make_box ui box_confirm_title box_confirm Box_warning 300 100 click dialog_init) (\<lambda>(ok, _).
            if ok then rbind (get_edit_info ui junk p) (\<lambda>ct. Inr [Ps_box Box_warning, Ps_save_info ct])
            else Inr [Ps_box Box_warning])
          else rbind (make_box ui box_limit_title box_limit Box_warning 300 100 click dialog_init) (\<lambda>_. Inr [Ps_box Box_warning]))
        else if \<not> not_change_remarks p then Inr [Ps_save_remarks (get_edit_remarks p), Ps_not_change]
        else Inr [Ps_not_change])
      else Inr [Ps_not_change])"

text \<open>The slots of the three buttons.\<close>

definition cancel_clicked :: "ui_env \<Rightarrow> dialog_click \<Rightarrow> int64 \<Rightarrow> wid_person_info \<Rightarrow> person_signal list res" where
  "cancel_clicked ui click junk p = person_save ui click junk False p"

definition save_clicked :: "ui_env \<Rightarrow> dialog_click \<Rightarrow> int64 \<Rightarrow> wid_person_info \<Rightarrow> person_signal list res" where
  "save_clicked ui click junk p = person_save ui click junk True p"

definition add_clicked :: "ui_env \<Rightarrow> int64 \<Rightarrow> wid_person_info \<Rightarrow> (person_signal list \<times> wid_person_info) res" where
  "add_clicked ui junk p =
     rbind (get_edit_info ui junk p) (\<lambda>ct.
     let remarks = get_edit_remarks p; (notes, p1) = get_edit_notes p
     in Inr ([Ps_add_friend ct remarks notes], p1))"

section \<open>\<open>wid_friend_add\<close>\<close>

record wid_friend_add =
  ad_edit :: line_edit
  ad_info :: wid_person_info
  ad_size :: qsize

definition friend_add_init :: "ui_env \<Rightarrow> wid_friend_add res" where
  "friend_add_init ui =
     (let space = 5; (a, b) = fn_Label ui lab_account size_lab; (c, d) = fn_LineEdit_txt ui [] size_edit in
      rbind (move_x (space, space) space (add_wid size_lab (add_wid (fr_size c) (add_wid (fr_size a) [])))) (\<lambda>_.
      rbind (init_add_ask ui person_init) (\<lambda>info.
      rbind (move_y (space, space) (space * 6) (add_wid (pi_size info) (add_wid (fr_size a) []))) (\<lambda>(_, sz).
      Inr \<lparr>ad_edit = d, ad_info = info, ad_size = sz\<rparr>))))"

text \<open>The search button signals the kind of request and the account asked for.\<close>

definition find_clicked :: "ui_env \<Rightarrow> wid_friend_add \<Rightarrow> int64 \<times> int64" where
  "find_clicked ui ad = (en_info_value E_ask_ac, qt_to_longlong ui (le_text (ad_edit ad)))"

text \<open>The slot for the answer; it may ask for the download of the icon, whose callback comes next.\<close>

definition find_back :: "ui_env \<Rightarrow> world \<Rightarrow> ct_ac_info \<Rightarrow> wid_friend_add \<Rightarrow> (int64 option \<times> wid_friend_add) res" where
  "find_back ui w info ad =
     (let p = set_info ui info (ad_info ad);
          (ask, p) = (if \<not> is_exists_icon w (ai_account info) then (Some (ai_account info), p)
                      else (None, set_info_remarks [] (to_path_icon (ai_account info)) [] p))
      in rbind (update_info ui p) (\<lambda>p. Inr (ask, ad\<lparr>ad_info := p\<rparr>)))"

definition find_icon_cb :: "ui_env \<Rightarrow> bool \<Rightarrow> int64 \<Rightarrow> string \<Rightarrow> wid_friend_add \<Rightarrow> wid_friend_add res" where
  "find_icon_cb ui ok account save_path ad =
     (if ok then
        rbind (update_info ui (set_info_remarks [] (to_path_icon account) [] (ad_info ad))) (\<lambda>p. Inr (ad\<lparr>ad_info := p\<rparr>))
      else Inr ad)"

section \<open>The layout of the forms\<close>

definition apart :: "placed \<Rightarrow> placed \<Rightarrow> bool" where
  "apart a b = (case (a, b) of (((x, y), (w, h)), ((x', y'), (w', h'))) \<Rightarrow>
     x + w \<le> x' \<or> x' + w' \<le> x \<or> y + h \<le> y' \<or> y' + h' \<le> y)"

definition inside :: "qsize \<Rightarrow> placed \<Rightarrow> bool" where
  "inside sz a = (case a of ((x, y), (w, h)) \<Rightarrow> 0 \<le> x \<and> 0 \<le> y \<and> x + w \<le> fst sz \<and> y + h \<le> snd sz)"

definition form_fits :: "wid_person_info res \<Rightarrow> bool" where
  "form_fits r = (case r of Inr q \<Rightarrow> sorted_wrt apart (pi_places q) \<and> list_all (inside (pi_size q)) (pi_places q) | Inl e \<Rightarrow> False)"

definition form_made :: "wid_person_info \<Rightarrow> bool" where
  "form_made q \<longleftrightarrow> pe_account (pi_edit q) \<noteq> None \<and> pe_phone (pi_edit q) \<noteq> None \<and> pe_age (pi_edit q) \<noteq> None
     \<and> pe_sex (pi_edit q) \<noteq> None \<and> pe_nickname (pi_edit q) \<noteq> None \<and> pe_location (pi_edit q) \<noteq> None"

lemma fn_sizes [simp]:
  "fr_size (fst (fn_LineEdit_txt ui tx sz)) = sz" "fr_size (fst (fn_LineEdit_non ui tx sz)) = sz"
  "fr_size (fst (fn_qedit_txt ui sz pad)) = sz" "fr_size (fst (fn_Label ui tx sz)) = sz" "fr_size (fst (fn_fimg ui junk icon sz)) = sz"
  by (simp_all add: fn_LineEdit_txt_def fn_LineEdit_non_def fn_LineEdit_def fn_qedit_txt_def fn_Label_def fn_fimg_def Let_def)

lemma add_row_eq [simp]: "add_row ui lab c move = move @ [size_lab, fr_size c]"
  by (simp add: add_row_def add_wid_def split_beta)

abbreviation rows :: "nat \<Rightarrow> qsize list" where
  "rows n \<equiv> concat (replicate n [(60, 30), (180, 30)])"

definition layout_fits :: "qsize list \<Rightarrow> qsize \<Rightarrow> placed list \<Rightarrow> qsize \<Rightarrow> bool" where
  "layout_fits move sz extra whole =
     (case move_group (5, 5) 5 2 (- 1) False move of
        Inr (ps, sz') \<Rightarrow> sz' = sz \<and> sorted_wrt apart (zip ps move @ extra) \<and> list_all (inside whole) (zip ps move @ extra)
      | Inl e \<Rightarrow> False)"

lemma fn_move_two:
  "fn_move (5, 5) 5 2 (- 1) (w, h) \<lparr>pos_move = (x, y), max_wide = a, max_high = b, count_row = 0, count_column = 0, moved = m\<rparr>
    = \<lparr>pos_move = (x + w + 5, y), max_wide = max a (x + w - 5), max_high = max b (y + h - 5), count_row = 1, count_column = 0,
       moved = m @ [(x, y)]\<rparr>"
  "fn_move (5, 5) 5 2 (- 1) (w, h) \<lparr>pos_move = (x, y), max_wide = a, max_high = b, count_row = 1, count_column = 0, moved = m\<rparr>
    = \<lparr>pos_move = (5, y + h + 5), max_wide = max a (x + w - 5), max_high = max b (y + h - 5), count_row = 0, count_column = 0,
       moved = m @ [(x, y)]\<rparr>"
  by (simp_all add: fn_move_def max_def Let_def)

lemma form_layouts:
  "layout_fits (rows 6 @ [(120, 40), (120, 40)]) (245, 250) [] (255, 260)"
  "layout_fits (rows 7 @ [(120, 40), (120, 40)]) (245, 285) [((255, 5), (210, 210))] (470, 295)"
  "layout_fits (rows 7 @ [(60, 30), (395, 80), (245, 40)]) (460, 370) [((255, 5), (210, 210))] (470, 380)"
  "layout_fits (rows 7 @ [(60, 30), (395, 80), (120, 40), (120, 40)]) (460, 370) [((255, 5), (210, 210))] (470, 380)"
  by (simp_all add: layout_fits_def move_group_def fn_move_two numeral_eq_Suc replicate.simps apart_def inside_def del: upt.simps)

lemma layout_fitsD:
  assumes "layout_fits move sz extra whole"
  obtains ps where "move_group (5, 5) 5 2 (- 1) False move = Inr (ps, sz)"
    "sorted_wrt apart (zip ps move @ extra)" "list_all (inside whole) (zip ps move @ extra)"
  using assms by (auto simp: layout_fits_def split: sum.splits)

lemmas form_sizes = size_lab_def size_edit_def size_butt_def size_add_def

lemma concat_rows: "concat (replicate (Suc n) [(60, 30), (180, 30)]) = [(60, 30), (180, 30)] @ concat (replicate n [(60, 30), (180, 30)])"
  by simp

lemma init_edit_made: "\<exists>q. init_edit ui p = Inr q \<and> form_fits (Inr q) \<and> form_made q"
proof (rule layout_fitsD [OF form_layouts(1)])
  fix ps
  assume "move_group (5, 5) 5 2 (- 1) False (rows 6 @ [(120, 40), (120, 40)]) = Inr (ps, (245, 250))"
    "sorted_wrt apart (zip ps (rows 6 @ [(120, 40), (120, 40)]) @ [])" "list_all (inside (255, 260)) (zip ps (rows 6 @ [(120, 40), (120, 40)]) @ [])"
  then show ?thesis
    by (simp add: init_edit_def Let_def split_beta add_wid_def form_sizes numeral_eq_Suc form_fits_def form_made_def)
qed

lemma init_friends_made: "\<exists>q. init_friends ui p = Inr q \<and> form_fits (Inr q) \<and> form_made q"
proof (rule layout_fitsD [OF form_layouts(2)])
  fix ps
  assume "move_group (5, 5) 5 2 (- 1) False (rows 7 @ [(120, 40), (120, 40)]) = Inr (ps, (245, 285))"
    "sorted_wrt apart (zip ps (rows 7 @ [(120, 40), (120, 40)]) @ [((255, 5), (210, 210))])"
    "list_all (inside (470, 295)) (zip ps (rows 7 @ [(120, 40), (120, 40)]) @ [((255, 5), (210, 210))])"
  then show ?thesis
    by (simp add: init_friends_def Let_def split_beta add_wid_def form_sizes numeral_eq_Suc form_fits_def form_made_def)
qed

lemma init_add_ask_made: "\<exists>q. init_add_ask ui p = Inr q \<and> form_fits (Inr q) \<and> form_made q"
proof (rule layout_fitsD [OF form_layouts(3)])
  fix ps
  assume "move_group (5, 5) 5 2 (- 1) False (rows 7 @ [(60, 30), (395, 80), (245, 40)]) = Inr (ps, (460, 370))"
    "sorted_wrt apart (zip ps (rows 7 @ [(60, 30), (395, 80), (245, 40)]) @ [((255, 5), (210, 210))])"
    "list_all (inside (470, 380)) (zip ps (rows 7 @ [(60, 30), (395, 80), (245, 40)]) @ [((255, 5), (210, 210))])"
  then show ?thesis
    by (simp add: init_add_ask_def Let_def split_beta add_wid_def form_sizes numeral_eq_Suc form_fits_def form_made_def)
qed

lemma init_add_recv_made: "\<exists>q. init_add_recv ui p = Inr q \<and> form_fits (Inr q) \<and> form_made q"
proof (rule layout_fitsD [OF form_layouts(4)])
  fix ps
  assume "move_group (5, 5) 5 2 (- 1) False (rows 7 @ [(60, 30), (395, 80), (120, 40), (120, 40)]) = Inr (ps, (460, 370))"
    "sorted_wrt apart (zip ps (rows 7 @ [(60, 30), (395, 80), (120, 40), (120, 40)]) @ [((255, 5), (210, 210))])"
    "list_all (inside (470, 380)) (zip ps (rows 7 @ [(60, 30), (395, 80), (120, 40), (120, 40)]) @ [((255, 5), (210, 210))])"
  then show ?thesis
    by (simp add: init_add_recv_def Let_def split_beta add_wid_def form_sizes numeral_eq_Suc form_fits_def form_made_def)
qed

text \<open>
  The four forms are laid out without overlap: no two of the labels, fields, buttons and the picture of
  a form share a point, and all of them are inside the window that the form resizes itself to.
\<close>

theorem forms_fit:
  "form_fits (init_edit ui p) \<and> form_fits (init_friends ui p) \<and> form_fits (init_add_ask ui p) \<and> form_fits (init_add_recv ui p)"
  using init_edit_made [of ui p] init_friends_made [of ui p] init_add_ask_made [of ui p] init_add_recv_made [of ui p] by auto

section \<open>Filling and saving a form\<close>

text \<open>What the program relies on of Qt's numbers.\<close>

locale qt_numbers =
  fixes number :: "int64 \<Rightarrow> string" and to_longlong :: "string \<Rightarrow> int64"
  assumes to_longlong_number: "to_longlong (number n) = n"
begin

lemma number_inject: "number m = number n \<longleftrightarrow> m = n"
  by (metis to_longlong_number)

end

interpretation demo_numbers: qt_numbers "qt_number demo_ui" "qt_to_longlong demo_ui"
  by unfold_locales (simp add: demo_ui_def)

lemma form_madeE:
  assumes "form_made q"
  obtains ac ph ag sx nk lc where "pe_account (pi_edit q) = Some ac" "pe_phone (pi_edit q) = Some ph" "pe_age (pi_edit q) = Some ag"
    "pe_sex (pi_edit q) = Some sx" "pe_nickname (pi_edit q) = Some nk" "pe_location (pi_edit q) = Some lc"
  using assms by (auto simp: form_made_def)

lemma sex_texts: "sex_female \<noteq> sex_male" "sex_female \<noteq> []" "sex_male \<noteq> []"
  by (simp_all add: sex_female_def sex_male_def)

lemma set_info_fields [simp]: "pi_edit (set_info ui info q) = pi_edit q" "pi_img (set_info ui info q) = pi_img q"
  by (simp_all add: set_info_def Let_def)

lemma update_info_fields:
  assumes "form_made q"
  shows "\<exists>q'. update_info ui q = Inr q' \<and> pi_save q' = pi_save q \<and> form_made q'
    \<and> edit_of (pe_account (pi_edit q')) = Inr (ps_account (pi_save q)) \<and> edit_of (pe_phone (pi_edit q')) = Inr (ps_phone (pi_save q))
    \<and> edit_of (pe_age (pi_edit q')) = Inr (ps_age (pi_save q)) \<and> edit_of (pe_sex (pi_edit q')) = Inr (ps_sex (pi_save q))
    \<and> edit_of (pe_nickname (pi_edit q')) = Inr (ps_nickname (pi_save q)) \<and> edit_of (pe_location (pi_edit q')) = Inr (ps_location (pi_save q))
    \<and> pe_remarks (pi_edit q') = set_text_if (ps_remarks (pi_save q)) (pe_remarks (pi_edit q))
    \<and> pe_notes (pi_edit q') = set_text_if (ps_notes (pi_save q)) (pe_notes (pi_edit q))"
  using assms by (rule form_madeE) (simp add: update_info_def set_text_def edit_of_def form_made_def Let_def)

text \<open>
  A form filled with a profile gives the profile back. The account, numbers and texts are those that
  were set, the sex is 0 or 1, the icon is empty, and the form counts as not changed.
\<close>

theorem profile_roundtrip:
  assumes "qt_numbers (qt_number ui) (qt_to_longlong ui)" "form_made q"
  shows "\<exists>q'. update_info ui (set_info ui info q) = Inr q'
    \<and> get_edit_info ui junk q' = Inr (info\<lparr>ai_sex := (if ai_sex info = 0 then 0 else 1), ai_icon := []\<rparr>)
    \<and> not_change_info q' = Inr True \<and> not_change_remarks q'"
proof -
  note reads = qt_numbers.to_longlong_number [OF assms(1)]
  have "form_made (set_info ui info q)" using assms(2) by (simp add: form_made_def)
  then obtain q' where "update_info ui (set_info ui info q) = Inr q'" and
      q: "pi_save q' = pi_save (set_info ui info q)"
      "edit_of (pe_account (pi_edit q')) = Inr (qt_number ui (ai_account info))" "edit_of (pe_phone (pi_edit q')) = Inr (qt_number ui (ai_phone info))"
      "edit_of (pe_age (pi_edit q')) = Inr (qt_number ui (ai_age info))"
      "edit_of (pe_sex (pi_edit q')) = Inr (if ai_sex info = 0 then sex_female else sex_male)"
      "edit_of (pe_nickname (pi_edit q')) = Inr (ai_nickname info)" "edit_of (pe_location (pi_edit q')) = Inr (ai_location info)"
      "pe_remarks (pi_edit q') = set_text_if (ps_remarks (pi_save q)) (pe_remarks (pi_edit q))"
    using update_info_fields [of "set_info ui info q" ui] by (auto simp: set_info_def Let_def)
  moreover have "get_edit_info ui junk q' = Inr (info\<lparr>ai_sex := (if ai_sex info = 0 then 0 else 1), ai_icon := []\<rparr>)"
    by (simp add: get_edit_info_def q reads sex_texts sex_texts(1) [symmetric])
  moreover have "not_change_info q' = Inr True" by (simp add: not_change_info_def q set_info_def Let_def)
  moreover have "not_change_remarks q'" using q(1,8)
    by (auto simp: not_change_remarks_def set_text_if_def set_info_def Let_def split: option.splits)
  ultimately show ?thesis by blast
qed

definition demo_info :: ct_ac_info where
  "demo_info = \<lparr>ai_account = 5, ai_phone = 110, ai_age = 19, ai_sex = 7, ai_nickname = ''n'', ai_location = ''l'', ai_icon = ''i''\<rparr>"

theorem profile_roundtrip_witness:
  "\<exists>q q'. init_edit demo_ui person_init = Inr q \<and> update_info demo_ui (set_info demo_ui demo_info q) = Inr q'
    \<and> get_edit_info demo_ui 3 q' = Inr (demo_info\<lparr>ai_sex := 1, ai_icon := []\<rparr>)"
proof -
  obtain q where q: "init_edit demo_ui person_init = Inr q" "form_made q" using init_edit_made by blast
  from profile_roundtrip [OF demo_numbers.qt_numbers_axioms this(2), of demo_info 3] obtain q' where
    "update_info demo_ui (set_info demo_ui demo_info q) = Inr q'" "get_edit_info demo_ui 3 q' = Inr (demo_info\<lparr>ai_sex := 1, ai_icon := []\<rparr>)"
    by (auto simp: demo_info_def)
  with q(1) show ?thesis by blast
qed

lemma make_box_returns: "\<exists>b. make_box ui title tx en w h click dialog_init = Inr (click = Click_ok, b)"
  by (auto simp: make_box_def move_x_def move_group_cases dialog_clicked_def dialog_init_def Let_def split_beta split: dialog_click.splits)

text \<open>
  Saving a form always comes to an end, and a profile is handed on only when it was changed, when the
  question was answered with yes, and when its phone number is not negative and its age from 0 to 200. Its
  sex is then 0 or 1, unless the field is empty: an empty field is accepted, and what is handed on is a
  variable that nothing was ever stored in.
\<close>

theorem saved_profile:
  assumes "form_made q"
  shows "\<exists>sigs. person_save ui click junk save q = Inr sigs
    \<and> (\<forall>ct. Ps_save_info ct \<in> set sigs \<longrightarrow> save \<and> click = Click_ok \<and> not_change_info q = Inr False
        \<and> 0 \<le> sint (ai_phone ct) \<and> 0 \<le> sint (ai_age ct) \<and> sint (ai_age ct) \<le> 200
        \<and> (if edit_of (pe_sex (pi_edit q)) = Inr [] then ai_sex ct = junk else ai_sex ct = 0 \<or> ai_sex ct = 1))"
proof -
  obtain ac ph ag sx nk lc where e: "pe_account (pi_edit q) = Some ac" "pe_phone (pi_edit q) = Some ph" "pe_age (pi_edit q) = Some ag"
      "pe_sex (pi_edit q) = Some sx" "pe_nickname (pi_edit q) = Some nk" "pe_location (pi_edit q) = Some lc"
    by (rule form_madeE [OF assms])
  have "\<exists>same. not_change_info q = Inr same" by (auto simp: not_change_info_def e edit_of_def Let_def)
  then obtain same where same: "not_change_info q = Inr same" by blast
  obtain b where box: "make_box ui box_confirm_title box_confirm Box_warning 300 100 click dialog_init = Inr (click = Click_ok, b)"
    using make_box_returns by blast
  obtain b' where box': "make_box ui box_limit_title box_limit Box_warning 300 100 click dialog_init = Inr (click = Click_ok, b')"
    using make_box_returns by blast
  define ct where "ct = \<lparr>ai_account = qt_to_longlong ui (le_text ac), ai_phone = qt_to_longlong ui (le_text ph),
    ai_age = qt_to_longlong ui (le_text ag), ai_sex = (if le_text sx = sex_female then 0 else if le_text sx = sex_male then 1 else junk),
    ai_nickname = le_text nk, ai_location = le_text lc, ai_icon = []\<rparr>"
  have g: "get_edit_info ui junk q = Inr ct" by (simp add: get_edit_info_def e edit_of_def ct_def)
  have v: "is_verification_info ui q = Inr (0 \<le> sint (ai_phone ct) \<and> 0 \<le> sint (ai_age ct) \<and> sint (ai_age ct) \<le> 200
      \<and> (le_text sx = sex_male \<or> le_text sx = sex_female \<or> le_text sx = []))"
    by (auto simp: is_verification_info_def e edit_of_def ct_def Let_def)
  have sx: "edit_of (pe_sex (pi_edit q)) = Inr (le_text sx)" by (simp add: e edit_of_def)
  have s: "le_text sx = [] \<Longrightarrow> ai_sex ct = junk" "le_text sx = sex_male \<or> le_text sx = sex_female \<Longrightarrow> ai_sex ct = 0 \<or> ai_sex ct = 1"
    using sex_texts by (auto simp: ct_def)
  show ?thesis
    using s sex_texts by (auto simp: person_save_def same box box' g v sx)
qed

definition demo_field :: "string \<Rightarrow> line_edit option" where
  "demo_field tx = Some \<lparr>le_text = tx, le_center = False, le_focus = True\<rparr>"

definition demo_form :: wid_person_info where
  "demo_form = person_init\<lparr>pi_edit := \<lparr>pe_remarks = None, pe_account = demo_field ''5'', pe_phone = demo_field ''7'',
     pe_age = demo_field ''9'', pe_sex = demo_field [], pe_nickname = demo_field ''new'', pe_location = demo_field [], pe_notes = None\<rparr>\<rparr>"

theorem saved_profile_witness:
  "\<exists>ct. person_save demo_ui Click_ok 3 True demo_form = Inr [Ps_box Box_warning, Ps_save_info ct] \<and> ai_sex ct = 3"
proof -
  obtain b where b: "make_box demo_ui box_confirm_title box_confirm Box_warning 300 100 Click_ok dialog_init = Inr (True, b)"
    using make_box_returns [of demo_ui box_confirm_title box_confirm Box_warning 300 100 Click_ok] by auto
  have n: "not_change_info demo_form = Inr False"
    by (simp add: not_change_info_def demo_form_def demo_field_def person_init_def edit_of_def Let_def)
  have v: "is_verification_info demo_ui demo_form = Inr True"
    by (simp add: is_verification_info_def demo_form_def demo_field_def edit_of_def demo_ui_def stoll_def strto_int_def
        read_digits_def is_digit_def is_space_def digits_value_def digit_val_def Let_def)
  obtain ct where g: "get_edit_info demo_ui 3 demo_form = Inr ct"
    by (simp add: get_edit_info_def demo_form_def demo_field_def edit_of_def)
  have "person_save demo_ui Click_ok 3 True demo_form = Inr [Ps_box Box_warning, Ps_save_info ct]"
    by (simp add: person_save_def n v b g)
  moreover have "form_made demo_form" "edit_of (pe_sex (pi_edit demo_form)) = Inr []"
    by (simp_all add: demo_form_def demo_field_def form_made_def edit_of_def)
  ultimately show ?thesis using saved_profile [of demo_form demo_ui Click_ok 3 True] by auto
qed

end
