(* ===== verification/Friend_List.thy ===== *)
theory Friend_List
  imports Person_Info
begin

text \<open>
  \<open>wid_friend_butt\<close>, \<open>wid_friend_info\<close> and \<open>wid_friend_list\<close>: the buttons of the friends, the pages of the
  account and the list that ties them to the chat windows. The objects of the friends are kept in a list in
  the order they were made and a pointer to one is its index, since two objects may stand for one account.
  A signal of the list is appended to its signals, except the request for the history, whose slot changes
  the list while it runs and is a parameter of the operations that emit it.
\<close>

section \<open>\<open>wid_friend_butt\<close>\<close>

record friend_butt =
  fb_status :: ct_friends_init
  fb_frame :: qframe_line
  fb_img :: qlab_img
  fb_butt :: qbutt_line
  fb_butt_size :: qsize
  fb_size :: qsize

definition friend_butt_init :: "ui_env \<Rightarrow> ct_friends_init \<Rightarrow> friend_butt" where
  "friend_butt_init ui junk =
     \<lparr>fb_status = junk, fb_frame = new_frame ui, fb_img = qlab_img_init ui False, fb_butt = qbutt_line_init E_leave,
      fb_butt_size = (0, 0), fb_size = (0, 0)\<rparr>"

definition set_status :: "ct_friends_init \<Rightarrow> friend_butt \<Rightarrow> friend_butt" where
  "set_status ct b = b\<lparr>fb_status := ct\<rparr>"

definition butt_init_size :: "ui_env \<Rightarrow> qsize \<Rightarrow> friend_butt \<Rightarrow> friend_butt" where
  "butt_init_size ui sz b =
     (let size_icon = (snd sz, snd sz);
          (f, img) = fn_fimg ui False (fi_icon (fb_status b)) size_icon;
          size_butt = (fst sz - fst size_icon, snd sz - snd size_icon);
          butt = qbutt_line_init E_leave;
          butt = (if fi_remarks (fb_status b) = [] then butt_set_text (fi_nickname (fb_status b)) butt
                  else butt_set_text (fi_remarks (fb_status b)) butt)
      in b\<lparr>fb_frame := f, fb_img := set_click True img, fb_butt := butt,
           fb_butt_size := (fst size_butt - 5, snd size_icon), fb_size := sz\<rparr>)"

definition update_butt :: "ui_env \<Rightarrow> friend_butt \<Rightarrow> friend_butt" where
  "update_butt ui b =
     (let img = update_img ui (set_img (fi_icon (fb_status b)) (fb_img b));
          butt = (if fi_remarks (fb_status b) = [] then butt_set_text (fi_nickname (fb_status b)) (fb_butt b)
                  else butt_set_text (fi_remarks (fb_status b)) (fb_butt b))
      in b\<lparr>fb_img := img, fb_butt := butt\<rparr>)"

section \<open>\<open>wid_friend_info\<close>\<close>

datatype info_page = P_extend | P_person | P_add

record wid_friend_info =
  wi_img :: qlab_img
  wi_name :: qbutt_line
  wi_shown :: "info_page \<Rightarrow> bool"
  wi_person :: wid_person_info
  wi_add :: wid_friend_add
  wi_extend_size :: qsize

text \<open>Showing one widget of a list and hiding the others, as both classes do.\<close>

definition show_one :: "'p list \<Rightarrow> 'p option \<Rightarrow> ('p \<Rightarrow> bool) \<Rightarrow> 'p \<Rightarrow> bool" where
  "show_one vec wid shown = fold (\<lambda>a sh. sh(a := (wid = Some a))) vec shown"

definition info_show_wid_extend :: "info_page option \<Rightarrow> wid_friend_info \<Rightarrow> wid_friend_info" where
  "info_show_wid_extend wid st = st\<lparr>wi_shown := show_one [P_extend, P_person, P_add] wid (wi_shown st)\<rparr>"

definition friend_info_init :: "ui_env \<Rightarrow> wid_friend_info res" where
  "friend_info_init ui =
     rbind (init_edit ui person_init) (\<lambda>person.
     rbind (friend_add_init ui) (\<lambda>ad.
     let size_icon = (100, 100); size_extend = (150, 0) :: qsize; butt = (fst size_extend - 5 * 2, 30) :: qsize; n = 7;
         img = update_img ui (set_keep False (calc_size size_icon 5) (set_click True (qlab_img_init ui False)))
     in Inr \<lparr>wi_img = img, wi_name = qbutt_line_init E_leave, wi_shown = (\<lambda>p. False), wi_person = person, wi_add = ad,
             wi_extend_size = (fst size_extend, n * (snd butt + 5) + 5)\<rparr>))"

definition info_set_icon :: "ui_env \<Rightarrow> string \<Rightarrow> wid_friend_info \<Rightarrow> wid_friend_info" where
  "info_set_icon ui icon st = st\<lparr>wi_img := update_img ui (set_img icon (wi_img st))\<rparr>"

definition info_set_name :: "string \<Rightarrow> wid_friend_info \<Rightarrow> wid_friend_info" where
  "info_set_name name st = st\<lparr>wi_name := butt_set_text name (wi_name st)\<rparr>"

definition show_extend :: "wid_friend_info \<Rightarrow> wid_friend_info" where
  "show_extend st = info_show_wid_extend (Some P_extend) st"

definition status_extend :: "int \<Rightarrow> wid_friend_info \<Rightarrow> wid_friend_info" where
  "status_extend status st =
     (if status = 0 then info_show_wid_extend None (st\<lparr>wi_shown := (wi_shown st)(P_extend := True)\<rparr>) else st)"

definition tip_person :: string where
  "tip_person = [CHR 0xE4, CHR 0xB8, CHR 0xAA, CHR 0xE4, CHR 0xBA, CHR 0xBA, CHR 0xE8, CHR 0xB5, CHR 0x84, CHR 0xE6, CHR 0x96, CHR 0x99]"

definition tip_add :: string where
  "tip_add = [CHR 0xE6, CHR 0xB7, CHR 0xBB, CHR 0xE5, CHR 0x8A, CHR 0xA0, CHR 0xE5, CHR 0xA5, CHR 0xBD, CHR 0xE5, CHR 0x8F, CHR 0x8B]"

text \<open>The slot of \<open>sn_click_extend\<close>; the result says whether \<open>sn_info_all\<close> is emitted.\<close>

definition click_extend :: "string \<Rightarrow> wid_friend_info \<Rightarrow> bool \<times> wid_friend_info" where
  "click_extend tips st =
     (if tips = tip_person then (True, info_show_wid_extend (Some P_person) st)
      else if tips = tip_add then (False, info_show_wid_extend (Some P_add) st)
      else (False, st))"

section \<open>\<open>wid_friend_list\<close>\<close>

record ct_friend =
  cf_status :: ct_friends_init
  cf_butt :: friend_butt
  cf_chat :: "wid_chat option"

datatype main_page = M_chat | M_setting | M_person

datatype list_signal =
    Ls_account_info int64 int64
  | Ls_send_msg ct_swap_msg
  | Ls_download_icon int64
  | Ls_upload_icon int64 string
  | Ls_update_info ct_ac_info
  | Ls_update_remarks int64 int64 string

record wid_friend_list =
  li_account :: int64
  li_passwd :: string
  li_icon :: string
  li_shown :: "main_page \<Rightarrow> bool"
  li_show :: "nat option"
  li_area :: "nat qarea_wid"
  li_info :: wid_friend_info
  li_fd_info :: wid_person_info
  li_friends :: "ct_friend list"
  li_map :: "int64 \<rightharpoonup> nat"
  li_signals :: "list_signal list"

type_synonym 's list_op = "wid_friend_list \<times> 's \<Rightarrow> (wid_friend_list \<times> 's) res"
type_synonym 's history_slot = "int64 \<Rightarrow> bool \<Rightarrow> 's list_op"

definition path_icon :: string where "path_icon = ''../data/head_icon/''"
definition list_size_icon :: qsize where "list_size_icon = (240 - 5 * 3, 40)"

definition list_show_wid_extend :: "main_page option \<Rightarrow> wid_friend_list \<Rightarrow> wid_friend_list" where
  "list_show_wid_extend wid st = st\<lparr>li_shown := show_one [M_chat, M_setting, M_person] wid (li_shown st)\<rparr>"

text \<open>The account is not initialised.\<close>

definition friend_list_init :: "ui_env \<Rightarrow> int64 \<Rightarrow> wid_friend_list res" where
  "friend_list_init ui junk =
     rbind (friend_info_init ui) (\<lambda>info.
     rbind (init_friends ui person_init) (\<lambda>fd_info.
     Inr \<lparr>li_account = junk, li_passwd = [], li_icon = [], li_shown = (\<lambda>p. p = M_chat), li_show = None,
          li_area = area_init_size (calc_size (240, 350) 5)
            \<lparr>view_size = (0, 0), area_width = 0, area_height = 0, bar_value = 0, items = []\<rparr>,
          li_info = info, li_fd_info = fd_info, li_friends = [], li_map = (\<lambda>ac. None), li_signals = []\<rparr>))"

definition emit :: "list_signal \<Rightarrow> wid_friend_list \<Rightarrow> wid_friend_list" where
  "emit sig st = st\<lparr>li_signals := li_signals st @ [sig]\<rparr>"

definition upd_friend :: "nat \<Rightarrow> (ct_friend \<Rightarrow> ct_friend) \<Rightarrow> wid_friend_list \<Rightarrow> wid_friend_list" where
  "upd_friend i f st = st\<lparr>li_friends := (li_friends st)[i := f (li_friends st ! i)]\<rparr>"

definition upd_butt :: "nat \<Rightarrow> (friend_butt \<Rightarrow> friend_butt) \<Rightarrow> wid_friend_list \<Rightarrow> wid_friend_list" where
  "upd_butt i f st = upd_friend i (\<lambda>ct. ct\<lparr>cf_butt := f (cf_butt ct)\<rparr>) st"

text \<open>A call through the pointer to the chat window of a friend.\<close>

definition upd_chat :: "nat \<Rightarrow> (wid_chat \<Rightarrow> wid_chat res) \<Rightarrow> wid_friend_list \<Rightarrow> wid_friend_list res" where
  "upd_chat i f st =
     (case cf_chat (li_friends st ! i) of
        None \<Rightarrow> Inl (Crash Null_pointer)
      | Some ch \<Rightarrow> rbind (f ch) (\<lambda>ch'. Inr (upd_friend i (\<lambda>ct. ct\<lparr>cf_chat := Some ch'\<rparr>) st)))"

definition set_login_info :: "int64 \<Rightarrow> string \<Rightarrow> wid_friend_list \<Rightarrow> wid_friend_list" where
  "set_login_info account passwd st = st\<lparr>li_account := account, li_passwd := passwd\<rparr>"

definition update_info_icon :: "ui_env \<Rightarrow> wid_friend_list \<Rightarrow> wid_friend_list" where
  "update_info_icon ui st =
     st\<lparr>li_info := info_set_icon ui (path_icon @ ''icon_'' @ to_string64 (li_account st)) (li_info st)\<rparr>"

definition get_friend :: "int64 \<Rightarrow> wid_friend_list \<Rightarrow> nat option" where
  "get_friend account st = (case li_map st account of Some i \<Rightarrow> Some i | None \<Rightarrow> None)"

definition add_friend_remarks :: "ui_env \<Rightarrow> int64 \<Rightarrow> string \<Rightarrow> wid_friend_list \<Rightarrow> wid_friend_list res" where
  "add_friend_remarks ui account remarks st =
     (case li_map st account of
        Some i \<Rightarrow>
          (let st = upd_friend i (\<lambda>ct. ct\<lparr>cf_status := (cf_status ct)\<lparr>fi_remarks := remarks\<rparr>\<rparr>) st;
               st = upd_butt i (\<lambda>b. update_butt ui (b\<lparr>fb_status := (fb_status b)\<lparr>fi_remarks := remarks\<rparr>\<rparr>)) st
           in rbind (update_info ui (set_info_remarks remarks [] [] (li_fd_info st))) (\<lambda>p. Inr (st\<lparr>li_fd_info := p\<rparr>)))
      | None \<Rightarrow> Inr st)"

definition add_person_account :: "ui_env \<Rightarrow> ct_ac_info \<Rightarrow> wid_friend_list \<Rightarrow> wid_friend_list res" where
  "add_person_account ui ct st =
     rbind (update_info ui (set_info ui ct (wi_person (li_info st)))) (\<lambda>p. Inr (st\<lparr>li_info := (li_info st)\<lparr>wi_person := p\<rparr>\<rparr>))"

definition add_person_friends :: "ui_env \<Rightarrow> ct_ac_info \<Rightarrow> wid_friend_list \<Rightarrow> wid_friend_list res" where
  "add_person_friends ui ct st =
     (case li_map st (ai_account ct) of
        Some i \<Rightarrow>
          (let remarks = fi_remarks (cf_status (li_friends st ! i)); icon = fi_icon (cf_status (li_friends st ! i))
           in rbind (update_info ui (set_info_remarks remarks icon [] (set_info ui ct (li_fd_info st)))) (\<lambda>p.
              Inr (list_show_wid_extend (Some M_person) (st\<lparr>li_fd_info := p\<rparr>))))
      | None \<Rightarrow> Inr st)"

definition update_ac_icon :: "ui_env \<Rightarrow> int64 \<Rightarrow> string \<Rightarrow> wid_friend_list \<Rightarrow> wid_friend_list" where
  "update_ac_icon ui account path st =
     (if account = li_account st then st\<lparr>li_info := info_set_icon ui path (li_info st)\<rparr>
      else (case li_map st account of
          Some i \<Rightarrow> upd_butt i (\<lambda>b. update_butt ui (b\<lparr>fb_status := (fb_status b)\<lparr>fi_icon := path\<rparr>\<rparr>)) st
        | None \<Rightarrow> st))"

definition init_login :: "ui_env \<Rightarrow> world \<Rightarrow> int64 \<Rightarrow> string \<Rightarrow> string \<Rightarrow> wid_friend_list \<Rightarrow> wid_friend_list" where
  "init_login ui w account nickname icon st =
     (let st = st\<lparr>li_account := account, li_icon := path_icon @ icon, li_info := info_set_name nickname (li_info st)\<rparr>
      in if is_exists w (li_icon st) then st\<lparr>li_info := info_set_icon ui (li_icon st) (li_info st)\<rparr>
         else emit (Ls_download_icon (li_account st)) st)"

definition show_msg_history :: "ui_env \<Rightarrow> nat \<Rightarrow> ct_msg_type \<Rightarrow> wid_friend_list \<Rightarrow> wid_friend_list res" where
  "show_msg_history ui i ct st =
     upd_chat i (\<lambda>ch. rbind (input_make_msg ui ct (ch_input ch)) (\<lambda>msg. Inr (add_message ui msg ch))) st"

fun show_all_history :: "ui_env \<Rightarrow> nat \<Rightarrow> ct_msg_type list \<Rightarrow> wid_friend_list \<Rightarrow> wid_friend_list res" where
  "show_all_history ui i [] st = Inr st"
| "show_all_history ui i (a # vec) st = rbind (show_msg_history ui i a st) (show_all_history ui i vec)"

definition set_history_msg :: "ui_env \<Rightarrow> int64 \<Rightarrow> ct_msg_type list \<Rightarrow> wid_friend_list \<Rightarrow> wid_friend_list res" where
  "set_history_msg ui account vec st =
     (case get_friend account st of Some i \<Rightarrow> show_all_history ui i vec st | None \<Rightarrow> Inr st)"

definition ch_connect_col :: "nat \<Rightarrow> bool \<Rightarrow> wid_friend_list \<Rightarrow> wid_friend_list" where
  "ch_connect_col i connect st =
     upd_butt i (\<lambda>b. b\<lparr>fb_frame := set_col (if connect then darkGreen else darkRed) (fb_frame b)\<rparr>) st"

definition ch_keep_col :: "nat \<Rightarrow> bool \<Rightarrow> wid_friend_list \<Rightarrow> wid_friend_list" where
  "ch_keep_col i online st =
     upd_butt i (\<lambda>b. b\<lparr>fb_butt := butt_set_col (if online then darkGreen else darkRed) (keep_status True E_enter (fb_butt b))\<rparr>) st"

text \<open>\<open>add_friend\<close>: \<open>emplace\<close> leaves an entry of the map as it is.\<close>

definition add_friend :: "ui_env \<Rightarrow> world \<Rightarrow> ct_friends_init \<Rightarrow> wid_friend_list \<Rightarrow> wid_friend_list" where
  "add_friend ui w status st =
     (let status = status\<lparr>fi_icon := path_icon @ fi_icon status\<rparr>;
          butt = set_status status (friend_butt_init ui status);
          st = (if \<not> is_exists w (fi_icon status) then emit (Ls_download_icon (fi_friends status)) st else st);
          butt = butt_init_size ui list_size_icon butt;
          i = length (li_friends st);
          st = st\<lparr>li_area := area_add_wid (qt_bar ui) i (snd (fb_size butt)) 5 (li_area st),
                  li_friends := li_friends st @ [\<lparr>cf_status = status, cf_butt = butt, cf_chat = None\<rparr>]\<rparr>;
          st = ch_connect_col i (fi_online status) st
      in st\<lparr>li_map := (case li_map st (fi_friends status) of
            None \<Rightarrow> (li_map st)(fi_friends status := Some i) | Some j \<Rightarrow> li_map st)\<rparr>)"

definition update_connect :: "int64 \<Rightarrow> bool \<Rightarrow> wid_friend_list \<Rightarrow> wid_friend_list" where
  "update_connect account online st =
     (case li_map st account of
        Some i \<Rightarrow> ch_connect_col i online (upd_friend i (\<lambda>ct. ct\<lparr>cf_status := (cf_status ct)\<lparr>fi_online := online\<rparr>\<rparr>) st)
      | None \<Rightarrow> st)"

definition update_show_friend :: "nat \<Rightarrow> wid_friend_list \<Rightarrow> wid_friend_list res" where
  "update_show_friend i st =
     (let show_chat = upd_chat i (\<lambda>ch. Inr (ch\<lparr>ch_shown := True\<rparr>)) in
      case li_show st of
        Some j \<Rightarrow>
          (if j \<noteq> i then
             rbind (upd_chat j (\<lambda>ch. Inr (ch\<lparr>ch_shown := False\<rparr>))
               (upd_butt j (\<lambda>b. b\<lparr>fb_butt := butt_set_col darkGray (keep_status False E_enter (fb_butt b))\<rparr>) st)) (\<lambda>st.
             show_chat (st\<lparr>li_show := Some i\<rparr>))
           else show_chat (st\<lparr>li_show := Some i\<rparr>))
      | None \<Rightarrow> show_chat (st\<lparr>li_show := Some i\<rparr>))"

definition make_chat :: "'s history_slot \<Rightarrow> nat \<Rightarrow> 's list_op" where
  "make_chat read i x =
     (let (st, s) = x; ct = li_friends st ! i in
      case cf_chat ct of
        None \<Rightarrow>
          (let chat = wid_chat_init\<lparr>ch_input := set_icon (fi_icon (cf_status ct)) (li_icon st) (ch_input wid_chat_init)\<rparr>
           in read (fi_friends (cf_status ct)) False (upd_friend i (\<lambda>ct. ct\<lparr>cf_chat := Some chat\<rparr>) st, s))
      | Some ch \<Rightarrow> Inr x)"

definition list_show_bottom_bar :: "ui_env \<Rightarrow> wid_friend_list \<Rightarrow> wid_friend_list res" where
  "list_show_bottom_bar ui st =
     (case li_show st of
        None \<Rightarrow> Inl (Crash Null_pointer)
      | Some i \<Rightarrow> upd_chat i (\<lambda>ch. Inr (ch\<lparr>ch_area := show_bottom_bar (qt_bar ui) (ch_area ch)\<rparr>)) st)"

text \<open>A click on the button of a friend.\<close>

definition friend_clicked :: "ui_env \<Rightarrow> 's history_slot \<Rightarrow> nat \<Rightarrow> 's list_op" where
  "friend_clicked ui read i x =
     rbind (make_chat read i x) (\<lambda>(st, s).
     rbind (update_show_friend i (ch_keep_col i (fi_online (cf_status (li_friends st ! i))) st)) (\<lambda>st.
     rbind (list_show_bottom_bar ui st) (\<lambda>st.
     Inr (list_show_wid_extend (Some M_chat) st, s))))"

text \<open>A click on the picture of a friend.\<close>

definition icon_clicked :: "nat \<Rightarrow> wid_friend_list \<Rightarrow> wid_friend_list" where
  "icon_clicked i st = emit (Ls_account_info (en_info_value E_friends) (fi_friends (fb_status (cf_butt (li_friends st ! i))))) st"

definition add_recv_msg :: "'s history_slot \<Rightarrow> ct_swap_msg \<Rightarrow> 's list_op" where
  "add_recv_msg read ct x =
     (let (st, s) = x; account = sm_source ct in
      case get_friend account st of
        None \<Rightarrow> Inr x
      | Some i \<Rightarrow> (if cf_chat (li_friends st ! i) \<noteq> None \<and> li_show st = Some i then read account True x else Inr x))"

text \<open>
  A message signalled by the input of a chat: the slot of the window shows it, then that of the list hands
  it on.
\<close>

definition chat_signal :: "ui_env \<Rightarrow> nat \<Rightarrow> ct_msg_type \<Rightarrow> wid_friend_list \<Rightarrow> wid_friend_list res" where
  "chat_signal ui i msg st =
     rbind (upd_chat i (chat_sent ui msg) st) (\<lambda>st.
     let cts = \<lparr>sm_target = fi_friends (cf_status (li_friends st ! i)), sm_source = li_account st, sm_time_to = mt_time msg,
                sm_types = mt_types msg, sm_content = mt_content msg\<rparr>
     in list_show_bottom_bar ui (emit (Ls_send_msg cts) st))"

text \<open>The send button or the return key in the input of a chat, and a drop of files on it.\<close>

definition chat_send :: "ui_env \<Rightarrow> int64 \<Rightarrow> nat \<Rightarrow> wid_friend_list \<Rightarrow> wid_friend_list res" where
  "chat_send ui now i st =
     (case cf_chat (li_friends st ! i) of
        None \<Rightarrow> Inl (Crash Null_pointer)
      | Some ch \<Rightarrow>
          (let (msg, inp) = input_send now (ch_input ch);
               st = upd_friend i (\<lambda>ct. ct\<lparr>cf_chat := Some (ch\<lparr>ch_input := inp\<rparr>)\<rparr>) st
           in case msg of None \<Rightarrow> Inr st | Some m \<Rightarrow> chat_signal ui i m st))"

fun chat_signals :: "ui_env \<Rightarrow> nat \<Rightarrow> ct_msg_type list \<Rightarrow> wid_friend_list \<Rightarrow> wid_friend_list res" where
  "chat_signals ui i [] st = Inr st"
| "chat_signals ui i (m # ms) st = rbind (chat_signal ui i m st) (chat_signals ui i ms)"

definition chat_drop :: "ui_env \<Rightarrow> int64 \<Rightarrow> string list \<Rightarrow> nat \<Rightarrow> wid_friend_list \<Rightarrow> wid_friend_list res" where
  "chat_drop ui now ls i st = chat_signals ui i (input_drop ui now ls) st"

text \<open>The slots for the signals of the pages.\<close>

definition list_show_setting :: "wid_friend_list \<Rightarrow> wid_friend_list" where
  "list_show_setting st =
     list_show_wid_extend (Some M_setting) (st\<lparr>li_info := info_show_wid_extend (Some P_extend) (li_info st)\<rparr>)"

definition list_click_extend :: "string \<Rightarrow> wid_friend_list \<Rightarrow> wid_friend_list" where
  "list_click_extend tips st =
     (let (ask, info) = click_extend tips (li_info st);
          st = (if ask then emit (Ls_account_info (en_info_value E_account) (li_account st)) st else st)
      in st\<lparr>li_info := info\<rparr>)"

definition list_change_icon :: "ui_env \<Rightarrow> string \<Rightarrow> wid_friend_list \<Rightarrow> wid_friend_list" where
  "list_change_icon ui f st = (if is_img ui f then emit (Ls_upload_icon (li_account st) f) st else st)"

fun own_signals :: "person_signal list \<Rightarrow> wid_friend_list \<Rightarrow> wid_friend_list" where
  "own_signals [] st = st"
| "own_signals (sig # sigs) st = own_signals sigs (case sig of
       Ps_save_info ct \<Rightarrow> emit (Ls_update_info ct) st
     | Ps_not_change \<Rightarrow> st\<lparr>li_info := info_show_wid_extend (Some P_extend) (li_info st)\<rparr>
     | _ \<Rightarrow> st)"

definition own_save :: "ui_env \<Rightarrow> dialog_click \<Rightarrow> int64 \<Rightarrow> bool \<Rightarrow> wid_friend_list \<Rightarrow> wid_friend_list res" where
  "own_save ui click junk save st =
     rbind (person_save ui click junk save (wi_person (li_info st))) (\<lambda>sigs. Inr (own_signals sigs st))"

fun friend_signals :: "ui_env \<Rightarrow> int64 \<Rightarrow> person_signal list \<Rightarrow> wid_friend_list \<Rightarrow> wid_friend_list res" where
  "friend_signals ui junk [] st = Inr st"
| "friend_signals ui junk (sig # sigs) st = rbind (case sig of
       Ps_save_remarks remarks \<Rightarrow>
         rbind (get_edit_info ui junk (li_fd_info st)) (\<lambda>ct.
         Inr (emit (Ls_update_remarks (li_account st) (ai_account ct) remarks) st))
     | _ \<Rightarrow> Inr st) (friend_signals ui junk sigs)"

definition friend_save :: "ui_env \<Rightarrow> dialog_click \<Rightarrow> int64 \<Rightarrow> bool \<Rightarrow> wid_friend_list \<Rightarrow> wid_friend_list res" where
  "friend_save ui click junk save st =
     rbind (person_save ui click junk save (li_fd_info st)) (\<lambda>sigs. friend_signals ui junk sigs st)"

section \<open>What can be seen of the list\<close>

text \<open>Of each friend: whether there is a chat window, whether it is shown, and whether the button is kept.\<close>

definition friend_view :: "ct_friend \<Rightarrow> bool option \<times> bool" where
  "friend_view ct = (map_option ch_shown (cf_chat ct), bt_keep (fb_butt (cf_butt ct)))"

definition views :: "wid_friend_list \<Rightarrow> (bool option \<times> bool) list" where
  "views st = map friend_view (li_friends st)"

definition same_view :: "wid_friend_list \<Rightarrow> wid_friend_list \<Rightarrow> bool" where
  "same_view st st' \<longleftrightarrow> views st' = views st \<and> li_show st' = li_show st \<and> li_map st' = li_map st"

definition same_list :: "wid_friend_list \<Rightarrow> wid_friend_list \<Rightarrow> bool" where
  "same_list st st' \<longleftrightarrow> same_view st st' \<and> li_shown st' = li_shown st"

named_theorems view_intros \<open>operations that leave what is seen of the list as it is\<close>

lemma views_length: "length (views st) = length (li_friends st)"
  by (simp add: views_def)

lemma same_list_refl [simp, view_intros]: "same_list st st"
  by (simp add: same_list_def same_view_def)

lemma same_list_trans: "same_list st st' \<Longrightarrow> same_list st' st'' \<Longrightarrow> same_list st st''"
  by (simp add: same_list_def same_view_def)

lemma views_update: "views (upd_friend i f st) = (views st)[i := friend_view (f (li_friends st ! i))]"
  by (simp add: views_def upd_friend_def map_update)

lemma upd_friend_fields [simp]:
  "li_show (upd_friend i f st) = li_show st" "li_map (upd_friend i f st) = li_map st" "li_shown (upd_friend i f st) = li_shown st"
  "li_account (upd_friend i f st) = li_account st" "li_signals (upd_friend i f st) = li_signals st"
  "length (li_friends (upd_friend i f st)) = length (li_friends st)" "li_fd_info (upd_friend i f st) = li_fd_info st"
  "li_info (upd_friend i f st) = li_info st" "li_icon (upd_friend i f st) = li_icon st"
  by (simp_all add: upd_friend_def)

lemma upd_friend_nth: "i < length (li_friends st) \<Longrightarrow>
    li_friends (upd_friend i f st) ! j = (if j = i then f (li_friends st ! i) else li_friends st ! j)"
  by (simp add: upd_friend_def nth_list_update)

lemma upd_friend_quiet: "(\<And>ct. friend_view (f ct) = friend_view ct) \<Longrightarrow> same_list st (upd_friend i f st)"
proof -
  assume f: "\<And>ct. friend_view (f ct) = friend_view ct"
  have "views (upd_friend i f st) = (views st)[i := friend_view (li_friends st ! i)]" by (simp add: views_update f)
  also have "\<dots> = views st"
  proof (cases "i < length (li_friends st)")
    case True
    then have "friend_view (li_friends st ! i) = views st ! i" by (simp add: views_def)
    then show ?thesis by (simp only: list_update_id)
  qed (simp add: list_update_beyond views_length)
  finally show ?thesis by (simp add: same_list_def same_view_def)
qed

lemma upd_butt_quiet: "(\<And>b. bt_keep (fb_butt (f b)) = bt_keep (fb_butt b)) \<Longrightarrow> same_list st (upd_butt i f st)"
  unfolding upd_butt_def by (rule upd_friend_quiet) (simp add: friend_view_def)

lemma upd_chat_quiet:
  assumes "\<And>ch ch'. f ch = Inr ch' \<Longrightarrow> ch_shown ch' = ch_shown ch" "upd_chat i f st = Inr st'"
  shows "same_list st st'"
proof -
  obtain ch ch' where c: "cf_chat (li_friends st ! i) = Some ch" "f ch = Inr ch'" "st' = upd_friend i (\<lambda>ct. ct\<lparr>cf_chat := Some ch'\<rparr>) st"
    using assms(2) by (auto simp: upd_chat_def rbind_eq_Inr split: option.splits)
  have "views st' = views st"
  proof (cases "i < length (li_friends st)")
    case True
    then have "views st ! i = friend_view ((li_friends st ! i)\<lparr>cf_chat := Some ch'\<rparr>)"
      using c(1) assms(1) [OF c(2)] by (simp add: views_def friend_view_def)
    then show ?thesis by (simp add: c(3) views_update) (metis list_update_id)
  next
    case False
    then show ?thesis by (simp add: c(3) views_update list_update_beyond views_length)
  qed
  then show ?thesis by (simp add: c(3) same_list_def same_view_def)
qed

text \<open>Other records than these leave it as it is, too.\<close>

lemma field_quiet [simp, view_intros]:
  "same_list st (st\<lparr>li_info := info\<rparr>)" "same_list st (st\<lparr>li_fd_info := p\<rparr>)" "same_list st (emit sig st)"
  "same_list st (st\<lparr>li_account := ac, li_passwd := pw\<rparr>)"
  by (simp_all add: same_list_def same_view_def views_def emit_def)

lemma keep_unchanged [simp]:
  "bt_keep (butt_set_text t b) = bt_keep b" "bt_keep (butt_set_col c b) = bt_keep b"
  "bt_keep (fb_butt (update_butt ui fb)) = bt_keep (fb_butt fb)"
  "bt_keep (keep_status k s b) = k"
  by (simp_all add: butt_set_text_def butt_set_col_def update_butt_def keep_status_def switch_status_def Let_def)

lemma quiet_add_friend_remarks [view_intros]: "add_friend_remarks ui ac re st = Inr st' \<Longrightarrow> same_list st st'"
proof -
  assume r: "add_friend_remarks ui ac re st = Inr st'"
  show ?thesis
  proof (cases "li_map st ac")
    case (Some i)
    let ?a = "upd_friend i (\<lambda>ct. ct\<lparr>cf_status := (cf_status ct)\<lparr>fi_remarks := re\<rparr>\<rparr>) st"
    let ?b = "upd_butt i (\<lambda>b. update_butt ui (b\<lparr>fb_status := (fb_status b)\<lparr>fi_remarks := re\<rparr>\<rparr>)) ?a"
    have "same_list st ?a" by (rule upd_friend_quiet) (simp add: friend_view_def)
    moreover have "same_list ?a ?b" by (rule upd_butt_quiet) simp
    moreover have "same_list ?b st'" using r Some by (auto simp: add_friend_remarks_def rbind_eq_Inr Let_def)
    ultimately show ?thesis by (blast intro: same_list_trans)
  qed (use r in \<open>simp add: add_friend_remarks_def\<close>)
qed

lemma quiet_add_person_account [view_intros]: "add_person_account ui ct st = Inr st' \<Longrightarrow> same_list st st'"
  by (auto simp: add_person_account_def rbind_eq_Inr)

lemma quiet_update_ac_icon [view_intros]: "same_list st (update_ac_icon ui ac path st)"
  by (auto simp: update_ac_icon_def intro!: upd_butt_quiet split: option.splits)

lemma quiet_info_icon [view_intros]: "same_list st (update_info_icon ui st)"
  by (simp add: update_info_icon_def)

lemma quiet_init_login [view_intros]: "same_list st (init_login ui w ac nick icon st)"
  by (simp add: init_login_def Let_def emit_def) (simp add: same_list_def same_view_def views_def)

lemma quiet_show_msg [view_intros]: "show_msg_history ui i ct st = Inr st' \<Longrightarrow> same_list st st'"
  unfolding show_msg_history_def by (erule upd_chat_quiet [rotated]) (auto simp: rbind_eq_Inr add_message_def)

lemma quiet_show_all [view_intros]: "show_all_history ui i vec st = Inr st' \<Longrightarrow> same_list st st'"
  by (induction vec arbitrary: st) (auto simp: rbind_eq_Inr dest!: quiet_show_msg intro: same_list_trans)

lemma quiet_set_history [view_intros]: "set_history_msg ui ac vec st = Inr st' \<Longrightarrow> same_list st st'"
  by (auto simp: set_history_msg_def split: option.splits intro: quiet_show_all)

lemma quiet_connect_col [view_intros]: "same_list st (ch_connect_col i c st)"
  unfolding ch_connect_col_def by (rule upd_butt_quiet) simp

lemma quiet_update_connect [view_intros]: "same_list st (update_connect ac online st)"
proof (cases "li_map st ac")
  case (Some i)
  have "same_list st (upd_friend i (\<lambda>ct. ct\<lparr>cf_status := (cf_status ct)\<lparr>fi_online := online\<rparr>\<rparr>) st)"
    by (rule upd_friend_quiet) (simp add: friend_view_def)
  then show ?thesis using Some by (auto simp: update_connect_def intro: same_list_trans quiet_connect_col)
qed (simp add: update_connect_def)

lemma quiet_bottom [view_intros]: "list_show_bottom_bar ui st = Inr st' \<Longrightarrow> same_list st st'"
  by (auto simp: list_show_bottom_bar_def split: option.splits elim!: upd_chat_quiet [rotated])

lemma quiet_chat_signal [view_intros]: "chat_signal ui i msg st = Inr st' \<Longrightarrow> same_list st st'"
proof -
  assume "chat_signal ui i msg st = Inr st'"
  then obtain st1 sig where "upd_chat i (chat_sent ui msg) st = Inr st1" "list_show_bottom_bar ui (emit sig st1) = Inr st'"
    by (auto simp: chat_signal_def rbind_eq_Inr Let_def)
  moreover from this(1) have "same_list st st1"
    by (elim upd_chat_quiet [rotated]) (auto simp: chat_sent_def rbind_eq_Inr add_message_def)
  ultimately show ?thesis by (metis field_quiet(3) quiet_bottom same_list_trans)
qed

lemma quiet_chat_signals [view_intros]: "chat_signals ui i ms st = Inr st' \<Longrightarrow> same_list st st'"
  by (induction ms arbitrary: st) (auto simp: rbind_eq_Inr dest!: quiet_chat_signal intro: same_list_trans)

lemma quiet_chat_send [view_intros]: "chat_send ui now i st = Inr st' \<Longrightarrow> same_list st st'"
proof -
  assume r: "chat_send ui now i st = Inr st'"
  then obtain ch where c: "cf_chat (li_friends st ! i) = Some ch" by (auto simp: chat_send_def split: option.splits)
  obtain msg inp where s: "input_send now (ch_input ch) = (msg, inp)" by fastforce
  let ?st = "upd_friend i (\<lambda>ct. ct\<lparr>cf_chat := Some (ch\<lparr>ch_input := inp\<rparr>)\<rparr>) st"
  have "upd_chat i (\<lambda>ch. Inr (ch\<lparr>ch_input := inp\<rparr>)) st = Inr ?st" by (simp add: upd_chat_def c)
  then have "same_list st ?st" by (elim upd_chat_quiet [rotated]) auto
  moreover have "same_list ?st st'" using r c s
    by (auto simp: chat_send_def Let_def split: option.splits intro: quiet_chat_signal)
  ultimately show ?thesis by (rule same_list_trans)
qed

lemma quiet_own_signals [view_intros]: "same_list st (own_signals sigs st)"
  by (induction sigs arbitrary: st) (auto split: person_signal.splits intro: same_list_trans [rotated] field_quiet)

lemma quiet_own_save [view_intros]: "own_save ui click junk save st = Inr st' \<Longrightarrow> same_list st st'"
  by (auto simp: own_save_def rbind_eq_Inr intro: quiet_own_signals)

lemma quiet_friend_signals [view_intros]: "friend_signals ui junk sigs st = Inr st' \<Longrightarrow> same_list st st'"
  by (induction sigs arbitrary: st)
    (auto simp: rbind_eq_Inr split: person_signal.splits intro: same_list_trans [OF field_quiet(3)])

lemma quiet_friend_save [view_intros]: "friend_save ui click junk save st = Inr st' \<Longrightarrow> same_list st st'"
  by (auto simp: friend_save_def rbind_eq_Inr intro: quiet_friend_signals)

lemma quiet_small [view_intros]:
  "same_list st (set_login_info ac pw st)" "same_list st (icon_clicked i st)" "same_list st (list_click_extend tips st)"
  "same_list st (list_change_icon ui f st)"
  by (auto simp: set_login_info_def icon_clicked_def list_click_extend_def list_change_icon_def Let_def split_beta
      intro: same_list_trans [OF field_quiet(3) field_quiet(1)])

section \<open>Runs of the list\<close>

text \<open>A slot that reads the history as the wiring of the program does, for any messages read.\<close>

definition slot_of :: "ui_env \<Rightarrow> (int64 \<Rightarrow> bool \<Rightarrow> ct_msg_type list) \<Rightarrow> unit history_slot" where
  "slot_of ui msgs ac b x = rbind (set_history_msg ui ac (msgs ac b) (fst x)) (\<lambda>st. Inr (st, snd x))"

inductive list_step :: "ui_env \<Rightarrow> wid_friend_list \<Rightarrow> wid_friend_list \<Rightarrow> bool" for ui where
  clicked: "i < length (li_friends st) \<Longrightarrow> friend_clicked ui (slot_of ui msgs) i (st, ()) = Inr (st', ()) \<Longrightarrow> list_step ui st st'"
| added: "list_step ui st (add_friend ui w status st)"
| received: "add_recv_msg (slot_of ui msgs) ct (st, ()) = Inr (st', ()) \<Longrightarrow> list_step ui st st'"
| sent: "chat_send ui now i st = Inr st' \<Longrightarrow> list_step ui st st'"
| dropped: "chat_drop ui now ls i st = Inr st' \<Longrightarrow> list_step ui st st'"
| login: "list_step ui st (init_login ui w ac nick icon st)"
| login_info: "list_step ui st (set_login_info ac pw st)"
| connection: "list_step ui st (update_connect ac online st)"
| icon: "list_step ui st (update_ac_icon ui ac path st)"
| info_icon: "list_step ui st (update_info_icon ui st)"
| remarks: "add_friend_remarks ui ac re st = Inr st' \<Longrightarrow> list_step ui st st'"
| own_info: "add_person_account ui info st = Inr st' \<Longrightarrow> list_step ui st st'"
| friend_info: "add_person_friends ui info st = Inr st' \<Longrightarrow> list_step ui st st'"
| icon_clicked: "list_step ui st (icon_clicked i st)"
| setting: "list_step ui st (list_show_setting st)"
| extend: "list_step ui st (list_click_extend tips st)"
| change_icon: "list_step ui st (list_change_icon ui f st)"
| own_save: "own_save ui click junk save st = Inr st' \<Longrightarrow> list_step ui st st'"
| friend_save: "friend_save ui click junk save st = Inr st' \<Longrightarrow> list_step ui st st'"

definition list_inv :: "wid_friend_list \<Rightarrow> bool" where
  "list_inv st \<longleftrightarrow>
     (\<forall>ac i. li_map st ac = Some i \<longrightarrow> i < length (views st))
     \<and> (\<forall>i. li_show st = Some i \<longrightarrow> i < length (views st))
     \<and> (\<forall>j < length (views st). (fst (views st ! j) = Some True \<longleftrightarrow> li_show st = Some j) \<and> (snd (views st ! j) \<longleftrightarrow> li_show st = Some j))
     \<and> (\<exists>p. li_shown st = (\<lambda>q. q = p))"

lemma list_inv_same: "same_list st st' \<Longrightarrow> list_inv st \<Longrightarrow> list_inv st'"
  by (simp add: list_inv_def same_list_def same_view_def)

lemma show_one_pages: "show_one [M_chat, M_setting, M_person] (Some p) shown = (\<lambda>q. q = p)"
proof
  fix q
  show "show_one [M_chat, M_setting, M_person] (Some p) shown q = (q = p)" by (cases p; cases q) (simp_all add: show_one_def)
qed

lemma list_inv_page:
  assumes "same_view st st'" "list_inv st"
  shows "list_inv (list_show_wid_extend (Some p) st')"
proof -
  have "views (list_show_wid_extend (Some p) st') = views st" "li_show (list_show_wid_extend (Some p) st') = li_show st"
    "li_map (list_show_wid_extend (Some p) st') = li_map st" "li_shown (list_show_wid_extend (Some p) st') = (\<lambda>q. q = p)"
    using assms(1) by (simp_all add: list_show_wid_extend_def show_one_pages same_view_def views_def)
  with assms(2) show ?thesis by (auto simp: list_inv_def)
qed

lemma butt_init_keep [simp]: "bt_keep (fb_butt (butt_init_size ui sz b)) = False"
  by (simp add: butt_init_size_def Let_def split_beta qbutt_line_init_def butt_set_text_def)

text \<open>Adding a friend.\<close>

lemma add_friend_view:
  "views (add_friend ui w status st) = views st @ [(None, False)] \<and> li_show (add_friend ui w status st) = li_show st
   \<and> li_shown (add_friend ui w status st) = li_shown st
   \<and> li_map (add_friend ui w status st) = (case li_map st (fi_friends status) of
        None \<Rightarrow> (li_map st)(fi_friends status := Some (length (views st))) | Some j \<Rightarrow> li_map st)"
proof -
  obtain st1 where st1: "add_friend ui w status st =
      (ch_connect_col (length (li_friends st)) (fi_online status) st1)\<lparr>li_map := (case li_map st (fi_friends status) of
            None \<Rightarrow> (li_map st)(fi_friends status := Some (length (li_friends st))) | Some j \<Rightarrow> li_map st)\<rparr>"
      "views st1 = views st @ [(None, False)]" "li_show st1 = li_show st" "li_shown st1 = li_shown st"
  proof
    let ?s = "status\<lparr>fi_icon := path_icon @ fi_icon status\<rparr>"
    let ?e = "if \<not> is_exists w (fi_icon ?s) then emit (Ls_download_icon (fi_friends ?s)) st else st"
    let ?b = "butt_init_size ui list_size_icon (set_status ?s (friend_butt_init ui ?s))"
    let ?st1 = "?e\<lparr>li_area := area_add_wid (qt_bar ui) (length (li_friends st)) (snd (fb_size ?b)) 5 (li_area ?e),
        li_friends := li_friends ?e @ [\<lparr>cf_status = ?s, cf_butt = ?b, cf_chat = None\<rparr>]\<rparr>"
    show "views ?st1 = views st @ [(None, False)]" "li_show ?st1 = li_show st" "li_shown ?st1 = li_shown st"
      by (simp_all add: views_def emit_def friend_view_def)
    have "li_map (ch_connect_col i c x) = li_map x" for i c x by (simp add: ch_connect_col_def upd_butt_def)
    then show "add_friend ui w status st =
      (ch_connect_col (length (li_friends st)) (fi_online status) ?st1)\<lparr>li_map := (case li_map st (fi_friends status) of
            None \<Rightarrow> (li_map st)(fi_friends status := Some (length (li_friends st))) | Some j \<Rightarrow> li_map st)\<rparr>"
      by (simp add: add_friend_def Let_def emit_def split: option.split)
  qed
  have "same_list st1 (ch_connect_col (length (li_friends st)) (fi_online status) st1)" by (rule quiet_connect_col)
  with st1 show ?thesis by (simp add: same_list_def same_view_def) (simp add: views_def split: option.split)
qed

lemma list_inv_add:
  assumes "list_inv st"
  shows "list_inv (add_friend ui w status st)"
  using assms add_friend_view [of ui w status st]
  by (auto simp: list_inv_def nth_append less_Suc_eq split: option.splits if_splits)

text \<open>A click.\<close>

lemma upd_chat_shown:
  assumes "i < length (li_friends st)" "cf_chat (li_friends st ! i) \<noteq> None"
  shows "\<exists>st'. upd_chat i (\<lambda>ch. Inr (ch\<lparr>ch_shown := b\<rparr>)) st = Inr st' \<and> views st' = (views st)[i := (Some b, snd (views st ! i))]
    \<and> li_show st' = li_show st \<and> li_map st' = li_map st \<and> li_shown st' = li_shown st"
proof -
  have "snd (views st ! i) = bt_keep (fb_butt (cf_butt (li_friends st ! i)))" using assms(1) by (simp add: views_def friend_view_def)
  then show ?thesis using assms by (auto simp: upd_chat_def views_update friend_view_def)
qed

lemma views_chat: "j < length (views st) \<Longrightarrow> fst (views st ! j) = None \<longleftrightarrow> cf_chat (li_friends st ! j) = None"
  by (simp add: views_def friend_view_def)

lemma slot_quiet: "slot_of ui msgs ac b (st, s) = Inr (st', s') \<Longrightarrow> same_list st st'"
  by (auto simp: slot_of_def rbind_eq_Inr intro: quiet_set_history)

lemma make_chat_view:
  assumes "i < length (views st)" "make_chat (slot_of ui msgs) i (st, ()) = Inr (st', ())"
  shows "views st' = (views st)[i := (Some (fst (views st ! i) = Some True), snd (views st ! i))]
    \<and> li_show st' = li_show st \<and> li_map st' = li_map st \<and> li_shown st' = li_shown st"
proof (cases "cf_chat (li_friends st ! i)")
  case None
  let ?ch = "wid_chat_init\<lparr>ch_input := set_icon (fi_icon (cf_status (li_friends st ! i))) (li_icon st) (ch_input wid_chat_init)\<rparr>"
  let ?st = "upd_friend i (\<lambda>ct. ct\<lparr>cf_chat := Some ?ch\<rparr>) st"
  have "slot_of ui msgs (fi_friends (cf_status (li_friends st ! i))) False (?st, ()) = Inr (st', ())"
    using assms(2) None by (simp add: make_chat_def Let_def)
  then have "same_list ?st st'" by (rule slot_quiet)
  moreover have "views st ! i = (None, bt_keep (fb_butt (cf_butt (li_friends st ! i))))"
    using assms(1) None by (simp add: views_def friend_view_def)
  moreover have "ch_shown ?ch = False" by (simp add: wid_chat_init_def)
  ultimately show ?thesis by (simp add: same_list_def same_view_def views_update friend_view_def)
next
  case (Some ch)
  then have "st' = st" using assms(2) by (simp add: make_chat_def Let_def)
  moreover have "views st ! i = (Some (ch_shown ch), bt_keep (fb_butt (cf_butt (li_friends st ! i))))"
    using assms(1) Some by (simp add: views_def friend_view_def)
  then have "(Some (fst (views st ! i) = Some True), snd (views st ! i)) = views st ! i" by simp
  ultimately show ?thesis by (metis list_update_id)
qed

lemma upd_butt_keep:
  assumes "i < length (views st)" "\<And>b. bt_keep (fb_butt (f b)) = k"
  shows "views (upd_butt i f st) = (views st)[i := (fst (views st ! i), k)] \<and> li_show (upd_butt i f st) = li_show st
    \<and> li_map (upd_butt i f st) = li_map st \<and> li_shown (upd_butt i f st) = li_shown st"
proof -
  have "fst (views st ! i) = map_option ch_shown (cf_chat (li_friends st ! i))" using assms(1) by (simp add: views_def friend_view_def)
  then show ?thesis using assms by (simp add: upd_butt_def views_update friend_view_def)
qed

lemma update_show_view:
  assumes "i < length (views st)" "fst (views st ! i) \<noteq> None"
    and "\<forall>j. li_show st = Some j \<longrightarrow> j < length (views st) \<and> fst (views st ! j) \<noteq> None"
  shows "\<exists>st'. update_show_friend i st = Inr st' \<and> li_show st' = Some i \<and> li_map st' = li_map st \<and> length (views st') = length (views st)
    \<and> views st' ! i = (Some True, snd (views st ! i))
    \<and> (\<forall>j < length (views st). j \<noteq> i \<longrightarrow> views st' ! j = (if li_show st = Some j then (Some False, False) else views st ! j))"
proof -
  have show_i: "\<exists>st'. upd_chat i (\<lambda>ch. Inr (ch\<lparr>ch_shown := True\<rparr>)) (s\<lparr>li_show := Some i\<rparr>) = Inr st'
      \<and> views st' = (views s)[i := (Some True, snd (views s ! i))] \<and> li_show st' = Some i \<and> li_map st' = li_map s"
    if "i < length (views s)" "fst (views s ! i) \<noteq> None" for s
  proof -
    have "views (s\<lparr>li_show := Some i\<rparr>) = views s" by (simp add: views_def)
    with upd_chat_shown [of i "s\<lparr>li_show := Some i\<rparr>" True] that views_chat [OF that(1)] show ?thesis by (simp add: views_length) metis
  qed
  show ?thesis
  proof (cases "\<exists>j. li_show st = Some j \<and> j \<noteq> i")
    case False
    then have "update_show_friend i st = upd_chat i (\<lambda>ch. Inr (ch\<lparr>ch_shown := True\<rparr>)) (st\<lparr>li_show := Some i\<rparr>)"
      by (auto simp: update_show_friend_def Let_def split: option.splits)
    moreover obtain st' where "upd_chat i (\<lambda>ch. Inr (ch\<lparr>ch_shown := True\<rparr>)) (st\<lparr>li_show := Some i\<rparr>) = Inr st'"
        "views st' = (views st)[i := (Some True, snd (views st ! i))]" "li_show st' = Some i" "li_map st' = li_map st"
      using show_i [OF assms(1,2)] by blast
    ultimately show ?thesis using False assms(1) by (intro exI [of _ st']) simp
  next
    case True
    then obtain j where j: "li_show st = Some j" "j \<noteq> i" by blast
    let ?b = "upd_butt j (\<lambda>b. b\<lparr>fb_butt := butt_set_col darkGray (keep_status False E_enter (fb_butt b))\<rparr>) st"
    have jl: "j < length (views st)" "fst (views st ! j) \<noteq> None" using assms(3) j(1) by auto
    have b: "views ?b = (views st)[j := (fst (views st ! j), False)]" "li_map ?b = li_map st"
      using upd_butt_keep [OF jl(1), where k = False and f = "\<lambda>b. b\<lparr>fb_butt := butt_set_col darkGray (keep_status False E_enter (fb_butt b))\<rparr>"]
      by simp_all
    have lb: "length (views ?b) = length (views st)" "fst (views ?b ! j) \<noteq> None" using b(1) jl by simp_all
    have jb: "j < length (li_friends ?b)" "cf_chat (li_friends ?b ! j) \<noteq> None"
      using lb jl(1) views_chat [of j ?b] views_length [of ?b] by argo+
    then obtain st1 where st1: "upd_chat j (\<lambda>ch. Inr (ch\<lparr>ch_shown := False\<rparr>)) ?b = Inr st1"
        "views st1 = (views ?b)[j := (Some False, snd (views ?b ! j))]" "li_map st1 = li_map ?b"
      using upd_chat_shown [of j ?b False] by blast
    have v1: "views st1 = (views st)[j := (Some False, False)]" using st1(2) b(1) jl by simp
    obtain st2 where st2: "upd_chat i (\<lambda>ch. Inr (ch\<lparr>ch_shown := True\<rparr>)) (st1\<lparr>li_show := Some i\<rparr>) = Inr st2"
        "views st2 = (views st1)[i := (Some True, snd (views st1 ! i))]" "li_show st2 = Some i" "li_map st2 = li_map st1"
      using show_i [of st1] assms(1,2) v1 j(2) by auto
    have "update_show_friend i st = Inr st2" using st1(1) st2(1) j by (simp add: update_show_friend_def Let_def)
    moreover have "views st2 = (views st)[j := (Some False, False), i := (Some True, snd (views st ! i))]"
      using st2(2) v1 j(2) by simp
    ultimately show ?thesis using st2(3,4) st1(3) b(2) j assms(1) by (intro exI [of _ st2]) (simp add: nth_list_update)
  qed
qed

lemma friend_clicked_view:
  assumes "i < length (views st)" "list_inv st" "friend_clicked ui (slot_of ui msgs) i (st, ()) = Inr (st', ())"
  shows "li_show st' = Some i \<and> li_map st' = li_map st \<and> length (views st') = length (views st) \<and> views st' ! i = (Some True, True)
    \<and> (\<forall>j < length (views st). j \<noteq> i \<longrightarrow> views st' ! j = (if li_show st = Some j then (Some False, False) else views st ! j))
    \<and> li_shown st' = (\<lambda>q. q = M_chat)"
proof -
  obtain st1 where s1: "make_chat (slot_of ui msgs) i (st, ()) = Inr (st1, ())"
    using assms(3) by (auto simp: friend_clicked_def rbind_eq_Inr)
  let ?on = "fi_online (cf_status (li_friends st1 ! i))"
  obtain st3 st4 where s: "update_show_friend i (ch_keep_col i ?on st1) = Inr st3"
      "list_show_bottom_bar ui st3 = Inr st4" "st' = list_show_wid_extend (Some M_chat) st4"
    using assms(3) s1 by (auto simp: friend_clicked_def rbind_eq_Inr)
  have v1: "views st1 = (views st)[i := (Some (fst (views st ! i) = Some True), snd (views st ! i))]" "li_show st1 = li_show st" "li_map st1 = li_map st"
    using make_chat_view [OF assms(1) s1] by auto
  let ?k = "ch_keep_col i ?on st1"
  have vk: "views ?k = (views st)[i := (Some (fst (views st ! i) = Some True), True)]" "li_show ?k = li_show st" "li_map ?k = li_map st"
    using upd_butt_keep [of i st1 _ True] assms(1) v1 unfolding ch_keep_col_def by simp_all
  have shown: "j < length (views st) \<and> fst (views st ! j) = Some True" if "li_show st = Some j" for j
    using assms(2) that by (auto simp: list_inv_def)
  have "j < length (views ?k) \<and> fst (views ?k ! j) \<noteq> None" if "li_show ?k = Some j" for j
    using shown [of j] that by (cases "j = i") (simp_all add: vk)
  then have "\<forall>j. li_show ?k = Some j \<longrightarrow> j < length (views ?k) \<and> fst (views ?k ! j) \<noteq> None" by blast
  moreover have "i < length (views ?k)" "fst (views ?k ! i) \<noteq> None" using assms(1) by (simp_all add: vk)
  ultimately obtain st3' where "update_show_friend i ?k = Inr st3'" "li_show st3' = Some i" "li_map st3' = li_map ?k" "length (views st3') = length (views ?k)"
      "views st3' ! i = (Some True, snd (views ?k ! i))"
      "\<forall>j < length (views ?k). j \<noteq> i \<longrightarrow> views st3' ! j = (if li_show ?k = Some j then (Some False, False) else views ?k ! j)"
    using update_show_view [of i ?k] by blast
  then have v3: "li_show st3 = Some i" "li_map st3 = li_map st" "length (views st3) = length (views st)" "views st3 ! i = (Some True, True)"
      "\<forall>j < length (views st). j \<noteq> i \<longrightarrow> views st3 ! j = (if li_show st = Some j then (Some False, False) else views st ! j)"
    using s(1) vk assms(1) by simp_all
  have "same_list st3 st4" by (rule quiet_bottom [OF s(2)])
  then show ?thesis using v3 s(3)
    by (simp add: same_list_def same_view_def list_show_wid_extend_def show_one_pages) (simp add: views_def)
qed

lemma list_inv_clicked:
  assumes "i < length (li_friends st)" "list_inv st" "friend_clicked ui (slot_of ui msgs) i (st, ()) = Inr (st', ())"
  shows "list_inv st'"
proof -
  have i: "i < length (views st)" using assms(1) by (simp add: views_length)
  note v = friend_clicked_view [OF i assms(2,3)]
  have "(fst (views st' ! j) = Some True \<longleftrightarrow> li_show st' = Some j) \<and> (snd (views st' ! j) \<longleftrightarrow> li_show st' = Some j)"
    if "j < length (views st')" for j
    using v i assms(2) that by (cases "j = i") (auto simp: list_inv_def)
  then show ?thesis using v i assms(2) unfolding list_inv_def by auto
qed

lemma list_inv_step: "list_step ui st st' \<Longrightarrow> list_inv st \<Longrightarrow> list_inv st'"
proof (induction rule: list_step.induct)
  case (clicked i st msgs st')
  then show ?case by (blast intro: list_inv_clicked)
next
  case (added st w status)
  then show ?case by (rule list_inv_add)
next
  case (received msgs ct st st')
  then show ?case
    by (auto simp: add_recv_msg_def Let_def split: option.splits if_splits intro: list_inv_same dest: slot_quiet)
next
  case (friend_info info st st')
  then show ?case
    by (auto simp: add_person_friends_def rbind_eq_Inr Let_def split: option.splits
        intro!: list_inv_page field_quiet(2) [unfolded same_list_def, THEN conjunct1])
next
  case (setting st)
  then show ?case unfolding list_show_setting_def
    by (intro list_inv_page [where st = st] field_quiet(1) [unfolded same_list_def, THEN conjunct1])
next
  case (dropped now ls i st st')
  then show ?case unfolding chat_drop_def by (blast intro: list_inv_same quiet_chat_signals)
qed (blast intro: list_inv_same view_intros quiet_small)+

lemma list_inv_init: "friend_list_init ui junk = Inr st \<Longrightarrow> list_inv st"
  by (auto simp: friend_list_init_def rbind_eq_Inr list_inv_def views_def)

section \<open>Properties\<close>

lemma run_inv: "(list_step ui)\<^sup>*\<^sup>* st st' \<Longrightarrow> list_inv st \<Longrightarrow> list_inv st'"
  by (induction rule: rtranclp_induct) (auto intro: list_inv_step)

text \<open>What the invariant says of the friends.\<close>

lemma list_inv_shows:
  assumes i: "list_inv st"
  shows "(\<exists>p. \<forall>q. li_shown st q \<longleftrightarrow> q = p) \<and> (\<forall>i. li_show st = Some i \<longrightarrow> i < length (li_friends st))
    \<and> (\<forall>ac i. li_map st ac = Some i \<longrightarrow> i < length (li_friends st))
    \<and> (\<forall>j < length (li_friends st).
        ((\<exists>ch. cf_chat (li_friends st ! j) = Some ch \<and> ch_shown ch) \<longleftrightarrow> li_show st = Some j)
        \<and> (bt_keep (fb_butt (cf_butt (li_friends st ! j))) \<longleftrightarrow> li_show st = Some j))"
proof -
  have v: "views st ! j = (map_option ch_shown (cf_chat (li_friends st ! j)), bt_keep (fb_butt (cf_butt (li_friends st ! j))))"
    if "j < length (li_friends st)" for j using that by (simp add: views_def friend_view_def)
  have "(\<exists>ch. cf_chat (li_friends st ! j) = Some ch \<and> ch_shown ch) \<longleftrightarrow> li_show st = Some j"
    "bt_keep (fb_butt (cf_butt (li_friends st ! j))) \<longleftrightarrow> li_show st = Some j" if "j < length (li_friends st)" for j
  proof -
    have "(fst (views st ! j) = Some True \<longleftrightarrow> li_show st = Some j) \<and> (snd (views st ! j) \<longleftrightarrow> li_show st = Some j)"
      using i that unfolding list_inv_def views_length by blast
    then show "(\<exists>ch. cf_chat (li_friends st ! j) = Some ch \<and> ch_shown ch) \<longleftrightarrow> li_show st = Some j"
      "bt_keep (fb_butt (cf_butt (li_friends st ! j))) \<longleftrightarrow> li_show st = Some j" by (simp_all add: v [OF that])
  qed
  moreover have "\<exists>p. \<forall>q. li_shown st q \<longleftrightarrow> q = p" using i by (auto simp: list_inv_def)
  ultimately show ?thesis using i by (simp add: list_inv_def views_length)
qed

text \<open>
  C17: in every state a run of the list reaches, exactly one of its three pages is shown; the one friend it
  remembers as shown, if any, exists; its chat window is the only one that is visible and its button the
  only one that is kept pressed.
\<close>

theorem one_chat_shown:
  assumes "friend_list_init ui junk = Inr st0" "(list_step ui)\<^sup>*\<^sup>* st0 st"
  shows "(\<exists>p. \<forall>q. li_shown st q \<longleftrightarrow> q = p) \<and> (\<forall>i. li_show st = Some i \<longrightarrow> i < length (li_friends st))
    \<and> (\<forall>ac i. li_map st ac = Some i \<longrightarrow> i < length (li_friends st))
    \<and> (\<forall>j < length (li_friends st).
        ((\<exists>ch. cf_chat (li_friends st ! j) = Some ch \<and> ch_shown ch) \<longleftrightarrow> li_show st = Some j)
        \<and> (bt_keep (fb_butt (cf_butt (li_friends st ! j))) \<longleftrightarrow> li_show st = Some j))"
  by (rule list_inv_shows [OF run_inv [OF assms(2) list_inv_init [OF assms(1)]]])

lemma friend_list_init_returns: "\<exists>st. friend_list_init ui junk = Inr st"
proof -
  obtain q where "init_edit ui person_init = Inr q" using init_edit_made by blast
  moreover obtain q' where "init_friends ui person_init = Inr q'" using init_friends_made by blast
  moreover obtain q'' where "init_add_ask ui person_init = Inr q''" using init_add_ask_made by blast
  ultimately show ?thesis
    by (simp add: friend_list_init_def friend_info_init_def friend_add_init_def move_x_def move_y_def move_group_cases Let_def split_beta)
qed

definition demo_status :: ct_friends_init where
  "demo_status = \<lparr>fi_online = True, fi_friends = 7, fi_nickname = ''bob'', fi_icon = ''icon_7'', fi_remarks = []\<rparr>"

theorem one_chat_shown_witness:
  "\<exists>st0. friend_list_init demo_ui 0 = Inr st0
    \<and> (\<forall>i. li_show (add_friend demo_ui demo_disk demo_status st0) = Some i \<longrightarrow> i < length (li_friends (add_friend demo_ui demo_disk demo_status st0)))"
proof -
  obtain st0 where st0: "friend_list_init demo_ui 0 = Inr st0" using friend_list_init_returns by blast
  have "(list_step demo_ui)\<^sup>*\<^sup>* st0 (add_friend demo_ui demo_disk demo_status st0)" by (intro r_into_rtranclp list_step.added)
  from one_chat_shown [OF st0 this] st0 show ?thesis by blast
qed

text \<open>The friends after one is added.\<close>

lemma add_friend_friends:
  "\<exists>ct. li_friends (add_friend ui w status st) = li_friends st @ [ct] \<and> cf_chat ct = None
    \<and> cf_status ct = status\<lparr>fi_icon := path_icon @ fi_icon status\<rparr>"
proof -
  have "li_friends (ch_connect_col (length fr) c (x\<lparr>li_friends := fr @ [ct]\<rparr>)) =
      fr @ [ct\<lparr>cf_butt := (cf_butt ct)\<lparr>fb_frame := set_col (if c then darkGreen else darkRed) (fb_frame (cf_butt ct))\<rparr>\<rparr>]" for fr ct c x
    by (simp add: ch_connect_col_def upd_butt_def upd_friend_def)
  moreover have "(st\<lparr>li_signals := s, li_area := a, li_friends := f\<rparr>) = (st\<lparr>li_signals := s, li_area := a\<rparr>)\<lparr>li_friends := f\<rparr>"
    "st\<lparr>li_area := a, li_friends := f\<rparr> = (st\<lparr>li_area := a\<rparr>)\<lparr>li_friends := f\<rparr>" for s a f by simp_all
  ultimately show ?thesis by (cases "is_exists w (path_icon @ fi_icon status)") (simp_all add: add_friend_def Let_def emit_def)
qed

lemma second_friend:
  assumes "li_map st (fi_friends a) = None" "fi_friends b = fi_friends a"
  shows "\<exists>x y. li_friends (add_friend ui w' b (add_friend ui w a st)) = li_friends st @ [x, y] \<and> cf_chat x = None \<and> cf_chat y = None
    \<and> fi_friends (cf_status y) = fi_friends a
    \<and> li_map (add_friend ui w' b (add_friend ui w a st)) (fi_friends a) = Some (length (li_friends st))"
  using add_friend_friends [of ui w a st] add_friend_friends [of ui w' b "add_friend ui w a st"]
    add_friend_view [of ui w a st] add_friend_view [of ui w' b "add_friend ui w a st"] assms
  by (auto simp: views_length)

text \<open>
  A second login in one run of the program adds all friends again. The new buttons stand for objects
  that are not in the map; a click on one makes its chat window, reads the history and then shows it in the
  window of the first object, which has none: the program ends in a call through a null pointer.
\<close>

theorem second_login_crash:
  assumes "li_map st (fi_friends a) = None" "fi_friends b = fi_friends a" "msgs (fi_friends a) False \<noteq> []"
  shows "friend_clicked ui (slot_of ui msgs) (Suc (length (li_friends st))) (add_friend ui w' b (add_friend ui w a st), ())
    = Inl (Crash Null_pointer)"
proof -
  let ?st = "add_friend ui w' b (add_friend ui w a st)" and ?n = "length (li_friends st)"
  obtain x y where f: "li_friends ?st = li_friends st @ [x, y]" "cf_chat x = None" "cf_chat y = None"
      "fi_friends (cf_status y) = fi_friends a" "li_map ?st (fi_friends a) = Some ?n"
    using second_friend [OF assms(1,2)] by blast
  obtain m ms where ms: "msgs (fi_friends a) False = m # ms" using assms(3) by (cases "msgs (fi_friends a) False") auto
  have "li_friends ?st ! Suc ?n = y" "li_friends ?st ! ?n = x" using f(1) by (simp_all add: nth_append)
  moreover have "show_all_history ui ?n (m # ms) (upd_friend (Suc ?n) g ?st) = Inl (Crash Null_pointer)" for g
    using f(1,2) by (simp add: show_msg_history_def upd_chat_def upd_friend_nth nth_append)
  ultimately show ?thesis
    using f ms by (simp add: friend_clicked_def make_chat_def slot_of_def set_history_msg_def get_friend_def Let_def del: show_all_history.simps)
qed

definition demo_msgs :: "int64 \<Rightarrow> bool \<Rightarrow> ct_msg_type list" where
  "demo_msgs ac non_read = [\<lparr>mt_time = 1, mt_types = ''Text'', mt_object = ''AL'', mt_content = ''hi''\<rparr>]"

theorem second_login_crash_witness:
  "\<exists>st. friend_list_init demo_ui 0 = Inr st \<and>
    friend_clicked demo_ui (slot_of demo_ui demo_msgs) 1 (add_friend demo_ui demo_disk demo_status (add_friend demo_ui demo_disk demo_status st), ())
      = Inl (Crash Null_pointer)"
proof -
  obtain st where st: "friend_list_init demo_ui 0 = Inr st" using friend_list_init_returns by blast
  then have "li_map st = (\<lambda>ac. None)" "li_friends st = []" by (auto simp: friend_list_init_def rbind_eq_Inr)
  then show ?thesis using st second_login_crash [of st demo_status demo_status demo_msgs demo_ui demo_disk demo_disk]
    by (simp add: demo_msgs_def)
qed

text \<open>Messages are shown in the window of the friend, in their order.\<close>

lemma show_all_run:
  assumes "i < length (li_friends st)" "cf_chat (li_friends st ! i) = Some ch" "ch_input ch = inp"
    and "list_all2 (\<lambda>m w. input_make_msg ui m inp = Inr w) vec ws"
  shows "\<exists>ch'. show_all_history ui i vec st = Inr (upd_friend i (\<lambda>ct. ct\<lparr>cf_chat := Some ch'\<rparr>) st)
    \<and> map fst (items (ch_area ch')) = map fst (items (ch_area ch)) @ ws \<and> ch_shown ch' = ch_shown ch \<and> ch_input ch' = ch_input ch"
  using assms(4,1,2,3)
proof (induction vec ws arbitrary: st ch rule: list_all2_induct)
  case Nil
  have "upd_friend i (\<lambda>ct. ct\<lparr>cf_chat := Some ch\<rparr>) st = st"
  proof -
    have "(li_friends st ! i)\<lparr>cf_chat := Some ch\<rparr> = li_friends st ! i" using Nil(2) by (cases "li_friends st ! i") simp
    then show ?thesis by (simp add: upd_friend_def)
  qed
  then show ?case by (intro exI [of _ ch]) simp
next
  case (Cons m vec w ws)
  let ?ch = "add_message ui w ch" and ?st = "upd_friend i (\<lambda>ct. ct\<lparr>cf_chat := Some (add_message ui w ch)\<rparr>) st"
  have c: "ch_input ?ch = ch_input ch" "ch_shown ?ch = ch_shown ch" "map fst (items (ch_area ?ch)) = map fst (items (ch_area ch)) @ [w]"
    by (simp_all add: add_message_def)
  have "show_msg_history ui i m st = Inr ?st" using Cons by (simp add: show_msg_history_def upd_chat_def)
  moreover obtain ch' where "show_all_history ui i vec ?st = Inr (upd_friend i (\<lambda>ct. ct\<lparr>cf_chat := Some ch'\<rparr>) ?st)"
      "map fst (items (ch_area ch')) = map fst (items (ch_area ?ch)) @ ws" "ch_shown ch' = ch_shown ?ch" "ch_input ch' = ch_input ?ch"
    using Cons(3) [of ?st ?ch] Cons(4,5,6) c(1) by (auto simp: upd_friend_nth)
  moreover have "upd_friend i f (upd_friend i g st) = upd_friend i (\<lambda>ct. f (g ct)) st" for f g
    using Cons(4) by (simp add: upd_friend_def)
  ultimately show ?case using c by auto
qed

definition contents :: "wid_friend_list \<Rightarrow> wid_message list option list" where
  "contents st = map (\<lambda>ct. map_option (\<lambda>ch. map fst (items (ch_area ch))) (cf_chat ct)) (li_friends st)"

lemma contents_upd_friend:
  assumes "\<And>ct. map_option (\<lambda>ch. map fst (items (ch_area ch))) (cf_chat (f ct)) = map_option (\<lambda>ch. map fst (items (ch_area ch))) (cf_chat ct)"
  shows "contents (upd_friend i f st) = contents st"
proof (cases "i < length (li_friends st)")
  case True
  then have "contents (upd_friend i f st) = (contents st)[i := contents st ! i]"
    by (simp add: contents_def upd_friend_def map_update assms)
  then show ?thesis by simp
qed (simp add: contents_def upd_friend_def list_update_beyond)

lemma contents_upd_butt: "contents (upd_butt i f st) = contents st"
  unfolding upd_butt_def by (rule contents_upd_friend) simp

lemma contents_upd_chat:
  assumes "\<And>ch ch'. f ch = Inr ch' \<Longrightarrow> map fst (items (ch_area ch')) = map fst (items (ch_area ch))" "upd_chat i f st = Inr st'"
  shows "contents st' = contents st"
proof -
  obtain ch ch' where c: "cf_chat (li_friends st ! i) = Some ch" "f ch = Inr ch'" "st' = upd_friend i (\<lambda>ct. ct\<lparr>cf_chat := Some ch'\<rparr>) st"
    using assms(2) by (auto simp: upd_chat_def rbind_eq_Inr split: option.splits)
  show ?thesis
  proof (cases "i < length (li_friends st)")
    case True
    then have "contents st' = (contents st)[i := contents st ! i]"
      by (simp add: c contents_def upd_friend_def map_update assms(1) [OF c(2)])
    then show ?thesis by simp
  qed (simp add: c contents_def upd_friend_def list_update_beyond)
qed

lemma contents_show: "update_show_friend i st = Inr st' \<Longrightarrow> contents st' = contents st"
proof -
  assume r: "update_show_friend i st = Inr st'"
  have s: "contents (s\<lparr>li_show := x\<rparr>) = contents s" for s x by (simp add: contents_def)
  have u: "contents t = contents s" if "upd_chat j (\<lambda>ch. Inr (ch\<lparr>ch_shown := b\<rparr>)) s = Inr t" for j b s t
    by (rule contents_upd_chat [OF _ that]) auto
  show ?thesis using r
    by (auto simp: update_show_friend_def Let_def rbind_eq_Inr s contents_upd_butt split: option.splits if_splits dest!: u)
qed

lemma contents_bottom: "list_show_bottom_bar ui st = Inr st' \<Longrightarrow> contents st' = contents st"
  by (auto simp: list_show_bottom_bar_def show_bottom_bar_def split: option.splits elim!: contents_upd_chat [rotated])

lemma contents_chat: "i < length (li_friends st) \<Longrightarrow> contents st ! i = Some ms \<longleftrightarrow>
    (\<exists>ch. cf_chat (li_friends st ! i) = Some ch \<and> map fst (items (ch_area ch)) = ms)"
  by (simp add: contents_def)

lemma contents_page [simp]: "contents (list_show_wid_extend p st) = contents st"
  by (simp add: contents_def list_show_wid_extend_def)

lemma bottom_returns:
  assumes "li_show st = Some i" "i < length (views st)" "fst (views st ! i) \<noteq> None"
  shows "\<exists>st'. list_show_bottom_bar ui st = Inr st'"
  using assms views_chat [of i st] by (auto simp: list_show_bottom_bar_def upd_chat_def)

text \<open>What a click does once the chat window is there.\<close>

lemma click_run:
  assumes "i < length (views st)" "list_inv st" "make_chat (slot_of ui msgs) i (st, ()) = Inr (st1, ())"
  shows "\<exists>st'. friend_clicked ui (slot_of ui msgs) i (st, ()) = Inr (st', ()) \<and> contents st' = contents st1"
proof -
  have v1: "views st1 = (views st)[i := (Some (fst (views st ! i) = Some True), snd (views st ! i))]" "li_show st1 = li_show st"
    using make_chat_view [OF assms(1,3)] by auto
  let ?k = "ch_keep_col i (fi_online (cf_status (li_friends st1 ! i))) st1"
  have ck: "contents ?k = contents st1" by (simp add: ch_keep_col_def contents_upd_butt)
  have vk: "views ?k = (views st)[i := (Some (fst (views st ! i) = Some True), True)]" "li_show ?k = li_show st"
    using upd_butt_keep [of i st1 _ True] assms(1) v1 unfolding ch_keep_col_def by simp_all
  have shown: "j < length (views st) \<and> fst (views st ! j) = Some True" if "li_show st = Some j" for j
    using assms(2) that by (auto simp: list_inv_def)
  have "j < length (views ?k) \<and> fst (views ?k ! j) \<noteq> None" if "li_show ?k = Some j" for j
    using shown [of j] that vk by (cases "j = i") (simp_all add: vk)
  then have "\<forall>j. li_show ?k = Some j \<longrightarrow> j < length (views ?k) \<and> fst (views ?k ! j) \<noteq> None" by blast
  moreover have i: "i < length (views ?k)" "fst (views ?k ! i) \<noteq> None" using assms(1) by (simp_all add: vk)
  ultimately obtain st3 where st3: "update_show_friend i ?k = Inr st3" "li_show st3 = Some i" "length (views st3) = length (views ?k)"
      "views st3 ! i = (Some True, snd (views ?k ! i))"
    using update_show_view [of i ?k] by blast
  then obtain st4 where st4: "list_show_bottom_bar ui st3 = Inr st4" using bottom_returns [of st3 i ui] i by auto
  have "friend_clicked ui (slot_of ui msgs) i (st, ()) = Inr (list_show_wid_extend (Some M_chat) st4, ())"
    by (simp add: friend_clicked_def assms(3) st3(1) st4)
  then show ?thesis using contents_show [OF st3(1)] contents_bottom [OF st4] ck by simp
qed

text \<open>
  C31: the first click on a friend makes the chat window, reads the whole history and shows it there, every
  message once and in order, makes it the one visible chat and turns to the chat page.
\<close>

theorem first_click:
  assumes "list_inv st" "i < length (li_friends st)" "cf_chat (li_friends st ! i) = None"
    and "li_map st (fi_friends (cf_status (li_friends st ! i))) = Some i"
    and "inp = set_icon (fi_icon (cf_status (li_friends st ! i))) (li_icon st) (ch_input wid_chat_init)"
    and "list_all2 (\<lambda>m w. input_make_msg ui m inp = Inr w) (msgs (fi_friends (cf_status (li_friends st ! i))) False) ws"
  shows "\<exists>st' ch. friend_clicked ui (slot_of ui msgs) i (st, ()) = Inr (st', ()) \<and> cf_chat (li_friends st' ! i) = Some ch
    \<and> map fst (items (ch_area ch)) = ws \<and> ch_shown ch \<and> li_show st' = Some i \<and> li_shown st' = (\<lambda>q. q = M_chat)"
proof -
  let ?ch = "wid_chat_init\<lparr>ch_input := inp\<rparr>"
  let ?st = "upd_friend i (\<lambda>ct. ct\<lparr>cf_chat := Some ?ch\<rparr>) st"
  have "i < length (li_friends ?st)" "cf_chat (li_friends ?st ! i) = Some ?ch" "ch_input ?ch = inp"
    using assms(2) by (simp_all add: upd_friend_nth)
  then obtain ch where c: "show_all_history ui i (msgs (fi_friends (cf_status (li_friends st ! i))) False) ?st
        = Inr (upd_friend i (\<lambda>ct. ct\<lparr>cf_chat := Some ch\<rparr>) ?st)"
      "map fst (items (ch_area ch)) = map fst (items (ch_area ?ch)) @ ws"
    using show_all_run [of i ?st ?ch inp ui] assms(6) by auto
  let ?st1 = "upd_friend i (\<lambda>ct. ct\<lparr>cf_chat := Some ch\<rparr>) ?st"
  have "make_chat (slot_of ui msgs) i (st, ()) = Inr (?st1, ())"
    using assms(3,4) c(1) by (simp add: make_chat_def Let_def slot_of_def set_history_msg_def get_friend_def assms(5) [symmetric])
  moreover have il: "i < length (views st)" using assms(2) by (simp add: views_length)
  ultimately obtain st' where st': "friend_clicked ui (slot_of ui msgs) i (st, ()) = Inr (st', ())" "contents st' = contents ?st1"
    using click_run [OF _ assms(1)] by blast
  note v = friend_clicked_view [OF il assms(1) st'(1)]
  have "items (ch_area wid_chat_init) = []"
    by (simp add: wid_chat_init_def output_init_size_def area_init_size_def)
  then have "contents ?st1 ! i = Some ws" using c(2) assms(2) by (simp add: contents_chat upd_friend_nth)
  moreover have len: "i < length (li_friends st')" using v il by (simp add: views_length)
  ultimately obtain ch' where "cf_chat (li_friends st' ! i) = Some ch'" "map fst (items (ch_area ch')) = ws"
    using st'(2) contents_chat [OF len, of ws] by auto
  moreover from this(1) have "ch_shown ch'" using v len by (simp add: views_def friend_view_def)
  ultimately show ?thesis using st'(1) v by blast
qed

lemma demo_message: "\<exists>w. input_make_msg ui \<lparr>mt_time = t, mt_types = ''Text'', mt_object = ''AL'', mt_content = c\<rparr> inp = Inr w"
  using make_msg_sides(1) [OF refl refl, of ui "text_update_msg ui c 375 5" "icon_left inp"]
  by (simp add: input_make_msg_def type_names message_constants Let_def)

theorem first_click_witness:
  "\<exists>st st' ch. friend_list_init demo_ui 0 = Inr st
    \<and> friend_clicked demo_ui (slot_of demo_ui demo_msgs) 0 (add_friend demo_ui demo_disk demo_status st, ()) = Inr (st', ())
    \<and> cf_chat (li_friends st' ! 0) = Some ch \<and> length (items (ch_area ch)) = 1"
proof -
  obtain st where st: "friend_list_init demo_ui 0 = Inr st" using friend_list_init_returns by blast
  let ?st = "add_friend demo_ui demo_disk demo_status st"
  have n: "li_map st = (\<lambda>ac. None)" "li_friends st = []" using st by (auto simp: friend_list_init_def rbind_eq_Inr)
  obtain ct where ct: "li_friends ?st = [ct]" "cf_chat ct = None" "fi_friends (cf_status ct) = 7"
    using add_friend_friends [of demo_ui demo_disk demo_status st] n by (auto simp: demo_status_def)
  have "li_map ?st 7 = Some 0" using add_friend_view [of demo_ui demo_disk demo_status st] n by (simp add: demo_status_def views_def)
  moreover obtain w where "input_make_msg demo_ui \<lparr>mt_time = 1, mt_types = ''Text'', mt_object = ''AL'', mt_content = ''hi''\<rparr>
      (set_icon (fi_icon (cf_status ct)) (li_icon ?st) (ch_input wid_chat_init)) = Inr w"
    using demo_message by blast
  moreover have "list_inv ?st" by (rule list_inv_add [OF list_inv_init [OF st]])
  ultimately obtain st' ch where "friend_clicked demo_ui (slot_of demo_ui demo_msgs) 0 (?st, ()) = Inr (st', ())"
      "cf_chat (li_friends st' ! 0) = Some ch" "map fst (items (ch_area ch)) = [w]"
    using first_click [of ?st 0 _ demo_ui demo_msgs "[w]"] ct by (auto simp: demo_msgs_def)
  then show ?thesis using st by (metis One_nat_def length_Cons length_map list.size(3))
qed

text \<open>
  The page of a friend's profile keeps a remark. When a friend with a remark and then one without were
  looked at, the page shows the first one's remark for the second.
\<close>

theorem stale_remarks:
  assumes "add_person_friends ui a st = Inr st1" "add_person_friends ui b st1 = Inr st2"
    and "li_map st (ai_account a) = Some i" "fi_remarks (cf_status (li_friends st ! i)) = r" "r \<noteq> []"
    and "li_map st (ai_account b) = Some j" "fi_remarks (cf_status (li_friends st ! j)) = []"
    and "pe_remarks (pi_edit (li_fd_info st)) \<noteq> None"
  shows "get_edit_remarks (li_fd_info st2) = r \<and> ps_account (pi_save (li_fd_info st2)) = qt_number ui (ai_account b)"
proof -
  have u: "pi_save q' = pi_save q \<and> pe_remarks (pi_edit q') = set_text_if (ps_remarks (pi_save q)) (pe_remarks (pi_edit q))"
    if "update_info ui q = Inr q'" for q q'
    using that by (auto simp: update_info_def Let_def rbind_eq_Inr)
  have k: "pi_edit (set_info_remarks a b c q) = pi_edit q" for a b c q by (simp add: set_info_remarks_def Let_def)
  obtain p1 where p1: "update_info ui (set_info_remarks r (fi_icon (cf_status (li_friends st ! i))) [] (set_info ui a (li_fd_info st))) = Inr p1"
      "st1 = list_show_wid_extend (Some M_person) (st\<lparr>li_fd_info := p1\<rparr>)"
    using assms(1,3,4) by (auto simp: add_person_friends_def rbind_eq_Inr Let_def)
  have q1: "ps_remarks (pi_save p1) = r" "pe_remarks (pi_edit p1) \<noteq> None"
    using u [OF p1(1)] assms(5,8) by (simp_all add: set_info_remarks_def set_info_def set_text_if_def Let_def)
  obtain p2 where p2: "update_info ui (set_info_remarks [] (fi_icon (cf_status (li_friends st ! j))) [] (set_info ui b p1)) = Inr p2" "li_fd_info st2 = p2"
    using assms(2,6,7) p1(2) by (auto simp: add_person_friends_def rbind_eq_Inr Let_def list_show_wid_extend_def)
  have "ps_remarks (pi_save p2) = r" "ps_account (pi_save p2) = qt_number ui (ai_account b)"
      "pe_remarks (pi_edit p2) = set_text_if r (pe_remarks (pi_edit p1))"
    using u [OF p2(1)] q1(1) by (simp_all add: set_info_remarks_def set_info_def Let_def)
  then show ?thesis using q1(2) p2(2) by (auto simp: get_edit_remarks_def set_text_if_def)
qed

definition demo_friend :: "int64 \<Rightarrow> string \<Rightarrow> ct_friend" where
  "demo_friend ac remarks = \<lparr>cf_status = demo_status\<lparr>fi_friends := ac, fi_remarks := remarks\<rparr>,
     cf_butt = friend_butt_init demo_ui demo_status, cf_chat = None\<rparr>"

definition with_friends :: "wid_friend_list \<Rightarrow> wid_friend_list" where
  "with_friends st = st\<lparr>li_friends := [demo_friend 1 ''r'', demo_friend 2 []], li_map := [1 \<mapsto> 0, 2 \<mapsto> 1],
     li_fd_info := demo_form\<lparr>pi_edit := (pi_edit demo_form)\<lparr>pe_remarks := demo_field []\<rparr>\<rparr>\<rparr>"

lemma add_person_friends_returns:
  assumes "form_made (li_fd_info st)"
  shows "\<exists>st'. add_person_friends ui info st = Inr st' \<and> form_made (li_fd_info st')"
proof (cases "li_map st (ai_account info)")
  case (Some i)
  let ?q = "set_info_remarks (fi_remarks (cf_status (li_friends st ! i))) (fi_icon (cf_status (li_friends st ! i))) [] (set_info ui info (li_fd_info st))"
  have "form_made ?q" using assms by (simp add: form_made_def set_info_remarks_def Let_def)
  then obtain q' where "update_info ui ?q = Inr q'" "form_made q'" using update_info_fields by blast
  then show ?thesis using Some by (simp add: add_person_friends_def list_show_wid_extend_def Let_def)
qed (use assms in \<open>simp add: add_person_friends_def\<close>)

theorem stale_remarks_witness:
  "\<exists>st st1 st2. friend_list_init demo_ui 0 = Inr st
    \<and> add_person_friends demo_ui (demo_info\<lparr>ai_account := 1\<rparr>) (with_friends st) = Inr st1
    \<and> add_person_friends demo_ui (demo_info\<lparr>ai_account := 2\<rparr>) st1 = Inr st2 \<and> get_edit_remarks (li_fd_info st2) = ''r''"
proof -
  obtain st where st: "friend_list_init demo_ui 0 = Inr st" using friend_list_init_returns by blast
  let ?st = "with_friends st"
  have "form_made (li_fd_info ?st)" by (simp add: with_friends_def demo_form_def demo_field_def form_made_def)
  then obtain st1 where s1: "add_person_friends demo_ui (demo_info\<lparr>ai_account := 1\<rparr>) ?st = Inr st1" "form_made (li_fd_info st1)"
    using add_person_friends_returns by blast
  then obtain st2 where s2: "add_person_friends demo_ui (demo_info\<lparr>ai_account := 2\<rparr>) st1 = Inr st2"
    using add_person_friends_returns by blast
  have "get_edit_remarks (li_fd_info st2) = ''r''"
    using stale_remarks [OF s1(1) s2, of 0 "''r''" 1] by (simp add: with_friends_def demo_friend_def demo_field_def)
  with st s1(1) s2 show ?thesis by blast
qed

end
