(* ===== verification/Chat_App.thy ===== *)
theory Chat_App
  imports Friend_List Client_Runs
begin

text \<open>
  \<open>wid_test_20.cpp\<close>: the program that is started. It connects the signals of the client of the task server
  with the list of friends and the other way round. The client runs on the thread of the network, and its
  signals are queued for the thread of the windows, where each is handled on its own; the signals of the
  list are handled at once, and as their slots do not touch the list they are handled here when its
  operation has ended. The exception is the request for the history, which is handled inside it. Starting a
  transfer of an icon is kept in a list; its callback is an operation of its own.
\<close>

section \<open>The program\<close>

record 'd chat_app =
  ap_list :: wid_friend_list
  ap_client :: "'d qweb_client"
  ap_downloads :: "int64 list"
  ap_find_downloads :: "int64 list"
  ap_uploads :: "(int64 \<times> string) list"
  ap_visible :: bool

definition login_account :: int64 where "login_account = 607037441"
definition login_passwd :: string where "login_passwd = ''123456''"

definition app_init :: "ui_env \<Rightarrow> int64 \<Rightarrow> reconn_setting \<Rightarrow> 'd \<Rightarrow> 'd chat_app res" where
  "app_init ui junk rec d =
     rbind (friend_list_init ui junk) (\<lambda>wid.
     Inr \<lparr>ap_list = set_login_info login_account login_passwd wid, ap_client = qweb_client_init rec d, ap_downloads = [],
          ap_find_downloads = [], ap_uploads = [], ap_visible = False\<rparr>)"

text \<open>The slot of \<open>sn_history_read_ac\<close>, with the history of the client as the one to read.\<close>

definition read_slot :: "ui_env \<Rightarrow> 'd client_env \<Rightarrow> ('d qweb_client) history_slot" where
  "read_slot ui env account is_non_read x =
     (let (wid, wc) = x in
      rbind ((if is_non_read then read_history_non_read else read_history)
               (en_engine env) account [] (init_db (dbh wc)) (databases wc)) (\<lambda>(vec, h, d).
      rbind (set_history_msg ui account vec wid) (\<lambda>wid'. Inr (wid', wc\<lparr>dbh := h, databases := d\<rparr>))))"

text \<open>The slots for the other signals of the list.\<close>

definition list_slot :: "'d client_env \<Rightarrow> list_signal \<Rightarrow> 'd chat_app \<Rightarrow> 'd chat_app res" where
  "list_slot env sig app =
     (let ask = (\<lambda>f. rbind (f (ap_client app)) (\<lambda>(ok, wc). Inr (app\<lparr>ap_client := wc\<rparr>))) in
      case sig of
        Ls_send_msg ct \<Rightarrow> ask (ask_swap_msg env ct)
      | Ls_download_icon account \<Rightarrow> Inr (app\<lparr>ap_downloads := ap_downloads app @ [account]\<rparr>)
      | Ls_upload_icon account icon \<Rightarrow> Inr (app\<lparr>ap_uploads := ap_uploads app @ [(account, icon)]\<rparr>)
      | Ls_account_info types account \<Rightarrow> ask (ask_info_all env types account)
      | Ls_update_info ct \<Rightarrow> ask (ask_update_info env ct)
      | Ls_update_remarks account friends remarks \<Rightarrow> ask (ask_update_remarks env account friends remarks))"

fun list_slots :: "'d client_env \<Rightarrow> list_signal list \<Rightarrow> 'd chat_app \<Rightarrow> 'd chat_app res" where
  "list_slots env [] app = Inr app"
| "list_slots env (sig # sigs) app = rbind (list_slot env sig app) (list_slots env sigs)"

definition run_signals :: "'d client_env \<Rightarrow> 'd chat_app \<Rightarrow> 'd chat_app res" where
  "run_signals env app =
     list_slots env (li_signals (ap_list app)) (app\<lparr>ap_list := (ap_list app)\<lparr>li_signals := []\<rparr>\<rparr>)"

definition on_list :: "'d client_env \<Rightarrow> (wid_friend_list \<Rightarrow> wid_friend_list res) \<Rightarrow> 'd chat_app \<Rightarrow> 'd chat_app res" where
  "on_list env f app = rbind (f (ap_list app)) (\<lambda>wid. run_signals env (app\<lparr>ap_list := wid\<rparr>))"

definition on_both :: "'d client_env \<Rightarrow> ('d qweb_client) list_op \<Rightarrow> 'd chat_app \<Rightarrow> 'd chat_app res" where
  "on_both env f app =
     rbind (f (ap_list app, ap_client app)) (\<lambda>(wid, wc). run_signals env (app\<lparr>ap_list := wid, ap_client := wc\<rparr>))"

text \<open>The slots for the signals of the client, with the click on the dialog the failure of an update opens.\<close>

definition slot_open :: "'d client_env \<Rightarrow> 'd chat_app \<Rightarrow> 'd chat_app res" where
  "slot_open env app =
     rbind (ask_login env (li_account (ap_list app)) (li_passwd (ap_list app)) (ap_client app)) (\<lambda>(ok, wc).
     Inr (app\<lparr>ap_client := wc\<rparr>))"

definition slot_ac_login :: "ui_env \<Rightarrow> world \<Rightarrow> int64 \<Rightarrow> string \<Rightarrow> string \<Rightarrow> ct_friends_init list \<Rightarrow> wid_friend_list \<Rightarrow> wid_friend_list" where
  "slot_ac_login ui w account nickname icon vec_friends wid =
     fold (add_friend ui w) vec_friends (init_login ui w account nickname icon wid)"

definition slot_ac_info_all :: "ui_env \<Rightarrow> 'd client_env \<Rightarrow> world \<Rightarrow> int64 \<Rightarrow> ct_ac_info \<Rightarrow> 'd chat_app \<Rightarrow> 'd chat_app res" where
  "slot_ac_info_all ui env w types info app =
     (if types = en_info_value E_account then on_list env (add_person_account ui info) app
      else if types = en_info_value E_friends then on_list env (add_person_friends ui info) app
      else if types = en_info_value E_ask_ac then
        rbind (find_back ui w info (wi_add (li_info (ap_list app)))) (\<lambda>(ask, ad).
        let app = app\<lparr>ap_list := (ap_list app)\<lparr>li_info := (li_info (ap_list app))\<lparr>wi_add := ad\<rparr>\<rparr>\<rparr>
        in Inr (case ask of None \<Rightarrow> app | Some account \<Rightarrow> app\<lparr>ap_find_downloads := ap_find_downloads app @ [account]\<rparr>))
      else Inr app)"

definition tx_update_failed :: string where
  "tx_update_failed =
    [CHR 0xE4, CHR 0xBF, CHR 0xAE, CHR 0xE6, CHR 0x94, CHR 0xB9, CHR 0xE4, CHR 0xBF, CHR 0xA1, CHR 0xE6, CHR 0x81, CHR 0xAF,
     CHR 0xE5, CHR 0xA4, CHR 0xB1, CHR 0xE8, CHR 0xB4, CHR 0xA5]"

definition tx_update_hint :: string where
  "tx_update_hint =
    [CHR 0xE6, CHR 0x9C, CHR 0x8D, CHR 0xE5, CHR 0x8A, CHR 0xA1, CHR 0xE5, CHR 0x99, CHR 0xA8, CHR 0xE6, CHR 0x9B, CHR 0xB4,
     CHR 0xE6, CHR 0x96, CHR 0xB0, CHR 0xE4, CHR 0xBF, CHR 0xA1, CHR 0xE6, CHR 0x81, CHR 0xAF, CHR 0xE5, CHR 0xA4, CHR 0xB1,
     CHR 0xE8, CHR 0xB4, CHR 0xA5, CHR 0xEF, CHR 0xBC, CHR 0x8C, CHR 0xE8, CHR 0xAF, CHR 0xB7, CHR 0xE6, CHR 0xA3, CHR 0x80,
     CHR 0xE6, CHR 0x9F, CHR 0xA5, CHR 0xE4, CHR 0xBF, CHR 0xA1, CHR 0xE6, CHR 0x81, CHR 0xAF, CHR 0xE5, CHR 0x90, CHR 0x88,
     CHR 0xE7, CHR 0x90, CHR 0x86, CHR 0xE6, CHR 0x80, CHR 0xA7]"

definition slot_update_info :: "ui_env \<Rightarrow> dialog_click \<Rightarrow> string \<Rightarrow> bool \<Rightarrow> wid_friend_list \<Rightarrow> wid_friend_list res" where
  "slot_update_info ui click icon ok wid =
     rbind (if \<not> ok then rbind (make_box ui tx_update_failed tx_update_hint Box_error 300 100 click dialog_init) (\<lambda>_. Inr ()) else Inr ()) (\<lambda>_.
     Inr (if icon = [] then wid\<lparr>li_info := show_extend (li_info wid)\<rparr> else update_info_icon ui wid))"

definition client_slot :: "ui_env \<Rightarrow> 'd client_env \<Rightarrow> world \<Rightarrow> dialog_click \<Rightarrow> client_signal \<Rightarrow> 'd chat_app \<Rightarrow> 'd chat_app res" where
  "client_slot ui env w click sig app = (case sig of
       Cs_open \<Rightarrow> slot_open env app
     | Cs_close \<Rightarrow> Inr app
     | Cs_ac_login account nickname icon friends \<Rightarrow>
         on_list env (\<lambda>wid. Inr (slot_ac_login ui w account nickname icon friends wid)) (app\<lparr>ap_visible := True\<rparr>)
     | Cs_recv_msg msg \<Rightarrow> on_both env (add_recv_msg (read_slot ui env) msg) app
     | Cs_ac_info_all types info \<Rightarrow> slot_ac_info_all ui env w types info app
     | Cs_update_info icon ok \<Rightarrow> on_list env (slot_update_info ui click icon ok) app
     | Cs_update_remarks friends remarks \<Rightarrow> on_list env (add_friend_remarks ui friends remarks) app
     | _ \<Rightarrow> Inr app)"

text \<open>The callbacks of the icon transfers.\<close>

definition download_done :: "ui_env \<Rightarrow> bool \<Rightarrow> int64 \<Rightarrow> string \<Rightarrow> 'd chat_app \<Rightarrow> 'd chat_app" where
  "download_done ui ok account save_path app =
     (if ok then app\<lparr>ap_list := update_ac_icon ui account save_path (ap_list app)\<rparr> else app)"

definition upload_done :: "'d client_env \<Rightarrow> bool \<Rightarrow> int64 \<Rightarrow> string \<Rightarrow> world \<Rightarrow> 'd chat_app \<Rightarrow> ('d chat_app \<times> world) res" where
  "upload_done env ok account save_path w app =
     (if ok then
        (let icon = ''icon_'' @ to_string64 account; path_ac = Friend_List.path_icon @ icon in
         rbind (copy_file w save_path path_ac) (\<lambda>(copied, w).
         let ct = \<lparr>ai_account = account, ai_phone = -1, ai_age = -1, ai_sex = -1, ai_nickname = [], ai_location = [], ai_icon = icon\<rparr>
         in rbind (list_slot env (Ls_update_info ct) app) (\<lambda>app. Inr (app, w))))
      else Inr (app, w))"

definition find_done :: "ui_env \<Rightarrow> bool \<Rightarrow> int64 \<Rightarrow> string \<Rightarrow> 'd chat_app \<Rightarrow> 'd chat_app res" where
  "find_done ui ok account save_path app =
     rbind (find_icon_cb ui ok account save_path (wi_add (li_info (ap_list app)))) (\<lambda>ad.
     Inr (app\<lparr>ap_list := (ap_list app)\<lparr>li_info := (li_info (ap_list app))\<lparr>wi_add := ad\<rparr>\<rparr>\<rparr>))"

text \<open>A click on the button of the search, through \<open>sn_connect\<close>.\<close>

definition app_find :: "ui_env \<Rightarrow> 'd client_env \<Rightarrow> 'd chat_app \<Rightarrow> 'd chat_app res" where
  "app_find ui env app =
     (let (types, account) = find_clicked ui (wi_add (li_info (ap_list app)))
      in list_slot env (Ls_account_info types account) app)"

text \<open>
  A text from the server, and the signals of the client it queues, handled one after the other. The handler
  runs on the thread of the connection and the slots later on that of the window; the two parts are one
  step here, so nothing else happens between a message and its slots.
\<close>

fun client_slots :: "ui_env \<Rightarrow> 'd client_env \<Rightarrow> world \<Rightarrow> dialog_click \<Rightarrow> client_signal list \<Rightarrow> 'd chat_app \<Rightarrow> 'd chat_app res" where
  "client_slots ui env w click [] app = Inr app"
| "client_slots ui env w click (sig # sigs) app = rbind (client_slot ui env w click sig app) (client_slots ui env w click sigs)"

definition app_message :: "ui_env \<Rightarrow> 'd client_env \<Rightarrow> world \<Rightarrow> dialog_click \<Rightarrow> string \<Rightarrow> 'd chat_app \<Rightarrow> 'd chat_app res" where
  "app_message ui env w click sjson app =
     rbind (client_sl_message env sjson (ap_client app)) (\<lambda>wc.
     client_slots ui env w click (drop (length (signals (ap_client app))) (signals wc)) (app\<lparr>ap_client := wc\<rparr>))"

definition app_clicked :: "ui_env \<Rightarrow> 'd client_env \<Rightarrow> nat \<Rightarrow> 'd chat_app \<Rightarrow> 'd chat_app res" where
  "app_clicked ui env i app = on_both env (friend_clicked ui (read_slot ui env) i) app"

definition app_send :: "ui_env \<Rightarrow> 'd client_env \<Rightarrow> int64 \<Rightarrow> nat \<Rightarrow> 'd chat_app \<Rightarrow> 'd chat_app res" where
  "app_send ui env now i app = on_list env (chat_send ui now i) app"

section \<open>A message that arrives\<close>

lemma run_signals_none: "li_signals (ap_list app) = [] \<Longrightarrow> run_signals env app = Inr app"
  by (simp add: run_signals_def)

lemma read_slot_run:
  assumes "history_open wc" "i < length (li_friends wid)" "li_map wid ac = Some i" "cf_chat (li_friends wid ! i) = Some ch"
    and sql: "sql = (if non_read then ''SELECT * FROM history_'' @ to_string64 ac @ '' WHERE non_read = 1;''
        else ''SELECT * FROM history_'' @ to_string64 ac @ '';'')"
    and "r = eng_exec (en_engine env) (hist_file (dbh wc)) sql (databases wc)" "ex_ok r" "ex_rows r = map history_cols ts"
    and "list_all2 (\<lambda>t m. input_make_msg ui (to_ct_msg t) (ch_input ch) = Inr m) ts ws"
  shows "\<exists>ch' h. read_slot ui env ac non_read (wid, wc)
      = Inr (upd_friend i (\<lambda>ct. ct\<lparr>cf_chat := Some ch'\<rparr>) wid,
             wc\<lparr>dbh := h, databases := run_all (en_engine env) (hist_file (dbh wc)) (map (mark_read ac) ts) (ex_db r)\<rparr>)
    \<and> map fst (items (ch_area ch')) = map fst (items (ch_area ch)) @ ws \<and> ch_shown ch' = ch_shown ch \<and> history_ready h
    \<and> db h = Some (hist_file (dbh wc))"
proof -
  have h: "history_ready (dbh wc)" "db (dbh wc) = Some (hist_file (dbh wc))" using assms(1) by (simp_all add: history_open_def)
  let ?file = "hist_file (dbh wc)" and ?eng = "en_engine env"
  obtain h' where h': "(if non_read then read_history_non_read else read_history) ?eng ac [] (init_db (dbh wc)) (databases wc)
      = Inr (map to_ct_msg ts, h', run_all ?eng ?file (map (mark_read ac) ts) (ex_db r))" "history_ready h'" "db h' = Some ?file"
  proof (cases non_read)
    case True
    then show ?thesis
      using reader_run [OF h, of ?eng sql "databases wc" r ts "[]" "[]" "''SELECT * FROM history_'' @ to_string64 ac @ '' WHERE non_read = 1;''" ac "[]"]
        assms(5-8) that by (auto simp: init_db_def read_history_non_read_def select_non_read_run)
  next
    case False
    then show ?thesis
      using reader_run [OF h, of ?eng sql "databases wc" r ts "[]" "[]" "[]" ac "[]"] assms(5-8) that
      by (auto simp: init_db_def read_history_def)
  qed
  have "list_all2 (\<lambda>m w. input_make_msg ui m (ch_input ch) = Inr w) (map to_ct_msg ts) ws"
    using assms(9) by (simp add: list_all2_map1)
  from show_all_run [OF assms(2,4) refl this] obtain ch' where
    "show_all_history ui i (map to_ct_msg ts) wid = Inr (upd_friend i (\<lambda>ct. ct\<lparr>cf_chat := Some ch'\<rparr>) wid)"
    "map fst (items (ch_area ch')) = map fst (items (ch_area ch)) @ ws" "ch_shown ch' = ch_shown ch" by auto
  then show ?thesis using h' assms(3)
    by (intro exI [of _ ch'] exI [of _ h']) (simp add: read_slot_def set_history_msg_def get_friend_def)
qed

text \<open>What the client does with a message, as the state its slots find.\<close>

definition stored :: "'d client_env \<Rightarrow> ct_swap_msg \<Rightarrow> string \<Rightarrow> 'd qweb_client \<Rightarrow> 'd qweb_client" where
  "stored env m ack wc = snd (client_send_msg env ack ((client_emit (Cs_recv_msg m)
     (run_history env (insert_history_text (sm_source m) (sm_time_to m, sm_time_to m, 1, sm_types m, object_AL, sm_content m)) wc))
       \<lparr>ticks := Suc (ticks wc)\<rparr>))"

lemma stored_fields [simp]:
  "history_open (stored env m ack wc) = history_open wc" "signals (stored env m ack wc) = signals wc @ [Cs_recv_msg m]"
  "sent (stored env m ack wc) = sent wc @ [ack]" "hist_file (dbh (stored env m ack wc)) = hist_file (dbh wc)"
  "databases (stored env m ack wc) = ex_db (eng_exec (en_engine env) (hist_file (dbh wc))
     (insert_history_text (sm_source m) (sm_time_to m, sm_time_to m, 1, sm_types m, object_AL, sm_content m)) (databases wc))"
  by (simp_all add: stored_def client_send_msg_def client_emit_def run_history_def history_open_def history_ready_def Let_def)

lemma app_message_run:
  assumes "protocol_codec (en_codec env)" "history_open (ap_client app)" "brace_free (sm_types m)"
    and "set_swap_msg (en_codec env) (sm_target m) (sm_source m) (sm_time_to m) (sm_types m) (sm_content m) = Inr s"
  shows "\<exists>ack. set_swap_msg_back (en_codec env) (sm_source m) (sm_target m) (sm_time_to m) (en_clock env (ticks (ap_client app))) = Inr ack
    \<and> app_message ui env w click s app = client_slot ui env w click (Cs_recv_msg m) (app\<lparr>ap_client := stored env m ack (ap_client app)\<rparr>)"
proof -
  obtain ack where ack: "set_swap_msg_back (en_codec env) (sm_source m) (sm_target m) (sm_time_to m)
      (en_clock env (ticks (ap_client app))) = Inr ack"
    using client_replies_defined(1) [OF assms(1)] by blast
  have "client_sl_message env s (ap_client app) = Inr (stored env m ack (ap_client app))"
    using recv_swap_msg_run [OF assms(1-3) assms(4) ack, of m] by (simp add: stored_def)
  with ack show ?thesis
    by (intro exI [of _ ack]) (cases "client_slot ui env w click (Cs_recv_msg m) (app\<lparr>ap_client := stored env m ack (ap_client app)\<rparr>)"; simp add: app_message_def)
qed

lemma set_msg_string:
  assumes "protocol_codec c" "list_all utf8_ok [sm_types m, sm_content m]"
  shows "\<exists>s. set_swap_msg c (sm_target m) (sm_source m) (sm_time_to m) (sm_types m) (sm_content m) = Inr s"
  using set_msg_utf8 [OF assms(1), of "Swap_msg (sm_target m) (sm_source m) (sm_time_to m) (sm_types m) (sm_content m)"] assms(2) by auto

text \<open>A message for the chat in front: the list and the client afterwards.\<close>

lemma app_shown_run:
  fixes m :: ct_swap_msg
  assumes "protocol_codec (en_codec env)" "history_open (ap_client app)" "brace_free (sm_types m)"
    and "set_swap_msg (en_codec env) (sm_target m) (sm_source m) (sm_time_to m) (sm_types m) (sm_content m) = Inr s"
    and "li_signals (ap_list app) = []" "li_map (ap_list app) (sm_source m) = Some i" "i < length (li_friends (ap_list app))"
    and "cf_chat (li_friends (ap_list app) ! i) = Some ch" "li_show (ap_list app) = Some i"
    and "f = hist_file (dbh (ap_client app))"
    and "d = ex_db (eng_exec (en_engine env) f (insert_history_text (sm_source m)
        (sm_time_to m, sm_time_to m, 1, sm_types m, ''AL'', sm_content m)) (databases (ap_client app)))"
    and "r = eng_exec (en_engine env) f (''SELECT * FROM history_'' @ to_string64 (sm_source m) @ '' WHERE non_read = 1;'') d"
    and "ex_ok r" "ex_rows r = map history_cols ts"
    and "list_all2 (\<lambda>t w. input_make_msg ui (to_ct_msg t) (ch_input ch) = Inr w) ts ws"
  shows "\<exists>app' ack. app_message ui env w click s app = Inr app'
    \<and> contents (ap_list app') = (contents (ap_list app))[i := Some (map fst (items (ch_area ch)) @ ws)]
    \<and> databases (ap_client app') = run_all (en_engine env) f (map (mark_read (sm_source m)) ts) (ex_db r)
    \<and> set_swap_msg_back (en_codec env) (sm_source m) (sm_target m) (sm_time_to m) (en_clock env (ticks (ap_client app))) = Inr ack
    \<and> sent (ap_client app') = sent (ap_client app) @ [ack]"
proof -
  obtain ack where ack: "set_swap_msg_back (en_codec env) (sm_source m) (sm_target m) (sm_time_to m)
        (en_clock env (ticks (ap_client app))) = Inr ack"
      "app_message ui env w click s app = client_slot ui env w click (Cs_recv_msg m) (app\<lparr>ap_client := stored env m ack (ap_client app)\<rparr>)"
    using app_message_run [OF assms(1-4)] by blast
  let ?wc = "stored env m ack (ap_client app)"
  have wc: "history_open ?wc" using assms(2) by simp
  have dr: "r = eng_exec (en_engine env) (hist_file (dbh ?wc)) (if True then ''SELECT * FROM history_'' @ to_string64 (sm_source m) @ '' WHERE non_read = 1;''
      else ''SELECT * FROM history_'' @ to_string64 (sm_source m) @ '';'') (databases ?wc)"
    using assms(10-12) by (simp add: type_names)
  obtain ch' h where h: "read_slot ui env (sm_source m) True (ap_list app, ?wc)
      = Inr (upd_friend i (\<lambda>ct. ct\<lparr>cf_chat := Some ch'\<rparr>) (ap_list app),
             ?wc\<lparr>dbh := h, databases := run_all (en_engine env) (hist_file (dbh ?wc)) (map (mark_read (sm_source m)) ts) (ex_db r)\<rparr>)"
      "map fst (items (ch_area ch')) = map fst (items (ch_area ch)) @ ws"
    using read_slot_run [OF wc assms(7,6,8) refl dr assms(13-15)] by blast
  have "contents (upd_friend i (\<lambda>ct. ct\<lparr>cf_chat := Some ch'\<rparr>) (ap_list app))
      = (contents (ap_list app))[i := Some (map fst (items (ch_area ch)) @ ws)]"
    by (simp add: contents_def upd_friend_def map_update h(2))
  then show ?thesis
    using ack h(1) assms(5-10)
    by (simp add: client_slot_def on_both_def add_recv_msg_def get_friend_def run_signals_none)
qed

text \<open>
  C11: a message for the chat in front. It is stored as unread, then every unread message of its sender is
  read back, appended to the chat in the order of the table and marked as read; the other chats stay as
  they are, and one text goes back, the acknowledgement with the time of this client.
\<close>

theorem message_shown:
  fixes m :: ct_swap_msg
  assumes "protocol_codec (en_codec env)" "history_open (ap_client app)" "brace_free (sm_types m)"
    and "set_swap_msg (en_codec env) (sm_target m) (sm_source m) (sm_time_to m) (sm_types m) (sm_content m) = Inr s"
    and "li_signals (ap_list app) = []" "li_map (ap_list app) (sm_source m) = Some i" "i < length (li_friends (ap_list app))"
    and "cf_chat (li_friends (ap_list app) ! i) = Some ch" "li_show (ap_list app) = Some i"
    and "f = hist_file (dbh (ap_client app))"
    and "d = ex_db (eng_exec (en_engine env) f (insert_history_text (sm_source m)
        (sm_time_to m, sm_time_to m, 1, sm_types m, ''AL'', sm_content m)) (databases (ap_client app)))"
    and "r = eng_exec (en_engine env) f (''SELECT * FROM history_'' @ to_string64 (sm_source m) @ '' WHERE non_read = 1;'') d"
    and "ex_ok r" "ex_rows r = map history_cols ts"
    and "list_all2 (\<lambda>t w. input_make_msg ui (to_ct_msg t) (ch_input ch) = Inr w) ts ws"
  shows "\<exists>app' ack. app_message ui env w click s app = Inr app'
    \<and> contents (ap_list app') = (contents (ap_list app))[i := Some (map fst (items (ch_area ch)) @ ws)]
    \<and> databases (ap_client app') = run_all (en_engine env) f (map (mark_read (sm_source m)) ts) (ex_db r)
    \<and> set_swap_msg_back (en_codec env) (sm_source m) (sm_target m) (sm_time_to m) (en_clock env (ticks (ap_client app))) = Inr ack
    \<and> sent (ap_client app') = sent (ap_client app) @ [ack]"
  by (rule app_shown_run [OF assms])

text \<open>
  A message for any other friend, or from nobody on the list: it is stored and acknowledged in the same
  way, and the list stays as it is, so that the message waits in the table until the friend is clicked on.
\<close>

theorem message_waits:
  fixes m :: ct_swap_msg
  assumes "protocol_codec (en_codec env)" "history_open (ap_client app)" "brace_free (sm_types m)"
    and "set_swap_msg (en_codec env) (sm_target m) (sm_source m) (sm_time_to m) (sm_types m) (sm_content m) = Inr s"
    and "li_signals (ap_list app) = []"
    and "\<forall>i. li_map (ap_list app) (sm_source m) = Some i \<longrightarrow> cf_chat (li_friends (ap_list app) ! i) = None \<or> li_show (ap_list app) \<noteq> Some i"
  shows "\<exists>app' ack. app_message ui env w click s app = Inr app' \<and> ap_list app' = ap_list app
    \<and> databases (ap_client app') = ex_db (eng_exec (en_engine env) (hist_file (dbh (ap_client app)))
        (insert_history_text (sm_source m) (sm_time_to m, sm_time_to m, 1, sm_types m, ''AL'', sm_content m)) (databases (ap_client app)))
    \<and> set_swap_msg_back (en_codec env) (sm_source m) (sm_target m) (sm_time_to m) (en_clock env (ticks (ap_client app))) = Inr ack
    \<and> sent (ap_client app') = sent (ap_client app) @ [ack]"
proof -
  obtain ack where ack: "set_swap_msg_back (en_codec env) (sm_source m) (sm_target m) (sm_time_to m)
        (en_clock env (ticks (ap_client app))) = Inr ack"
      "app_message ui env w click s app = client_slot ui env w click (Cs_recv_msg m) (app\<lparr>ap_client := stored env m ack (ap_client app)\<rparr>)"
    using app_message_run [OF assms(1-4)] by blast
  have "add_recv_msg (read_slot ui env) m (ap_list app, stored env m ack (ap_client app)) = Inr (ap_list app, stored env m ack (ap_client app))"
    using assms(6) by (auto simp: add_recv_msg_def get_friend_def Let_def split: option.splits)
  then have "app_message ui env w click s app = Inr (app\<lparr>ap_client := stored env m ack (ap_client app)\<rparr>)"
    using ack(2) assms(5) by (simp add: client_slot_def on_both_def run_signals_none)
  then show ?thesis using ack(1) by (simp add: type_names)
qed

section \<open>A message that is sent\<close>

lemma text_message_right:
  assumes "ct = \<lparr>mt_time = t, mt_types = ''Text'', mt_object = ''AR'', mt_content = tx\<rparr>"
  shows "\<exists>w. input_make_msg ui ct inp = Inr w \<and> (\<forall>ed. input_make_msg ui ct (inp\<lparr>edit_text := ed\<rparr>) = Inr w)"
  using make_msg_sides(2) [OF refl refl, of ui "text_update_msg ui tx 375 5" "icon_right inp"]
  by (simp add: assms input_make_msg_def type_names message_constants Let_def)

lemma chat_send_run:
  assumes "i < length (li_friends st)" "cf_chat (li_friends st ! i) = Some ch" "li_show st = Some i"
    and "tx = le_text (edit_text (ch_input ch))" "tx \<noteq> []"
  shows "\<exists>w ch'. chat_send ui now i st = Inr (Friend_List.emit (Ls_send_msg \<lparr>sm_target = fi_friends (cf_status (li_friends st ! i)),
        sm_source = li_account st, sm_time_to = now, sm_types = ''Text'', sm_content = tx\<rparr>)
      (upd_friend i (\<lambda>ct. ct\<lparr>cf_chat := Some ch'\<rparr>) st))
    \<and> input_make_msg ui \<lparr>mt_time = now, mt_types = ''Text'', mt_object = ''AR'', mt_content = tx\<rparr> (ch_input ch) = Inr w
    \<and> map fst (items (ch_area ch')) = map fst (items (ch_area ch)) @ [w] \<and> le_text (edit_text (ch_input ch')) = []"
proof -
  let ?m = "\<lparr>mt_time = now, mt_types = ''Text'', mt_object = ''AR'', mt_content = tx\<rparr>"
  obtain w where w: "input_make_msg ui ?m (ch_input ch) = Inr w" "\<And>ed. input_make_msg ui ?m ((ch_input ch)\<lparr>edit_text := ed\<rparr>) = Inr w"
    using text_message_right [OF refl, of ui now tx "ch_input ch"] by auto
  have twice: "upd_friend i f (upd_friend i g st) = upd_friend i (\<lambda>ct. f (g ct)) st" for f g
    using assms(1) by (simp add: upd_friend_def)
  let ?inp = "(ch_input ch)\<lparr>edit_text := (edit_text (ch_input ch))\<lparr>le_text := []\<rparr>\<rparr>"
  let ?ch = "add_message ui w (ch\<lparr>ch_input := ?inp\<rparr>)"
  let ?ch' = "?ch\<lparr>ch_area := show_bottom_bar (qt_bar ui) (ch_area ?ch)\<rparr>"
  have "input_send now (ch_input ch) = (Some ?m, ?inp)"
    using assms(4,5) by (simp add: input_send_def get_send_text_def send_text_def type_names)
  then have "chat_send ui now i st = Inr (Friend_List.emit (Ls_send_msg \<lparr>sm_target = fi_friends (cf_status (li_friends st ! i)),
        sm_source = li_account st, sm_time_to = now, sm_types = ''Text'', sm_content = tx\<rparr>)
      (upd_friend i (\<lambda>ct. ct\<lparr>cf_chat := Some ?ch'\<rparr>) st))"
    using assms(1-3)
    by (simp add: chat_send_def chat_signal_def upd_chat_def upd_friend_nth chat_sent_def w(2) twice list_show_bottom_bar_def
        Friend_List.emit_def Let_def) (simp add: upd_friend_def)
  moreover have "map fst (items (ch_area ?ch')) = map fst (items (ch_area ch)) @ [w]" "le_text (edit_text (ch_input ?ch')) = []"
    by (simp_all add: add_message_def show_bottom_bar_def)
  ultimately show ?thesis using w(1) by blast
qed

text \<open>A click on the send button: what becomes of the list and of the client.\<close>

lemma app_send_run:
  assumes "protocol_codec (en_codec env)" "history_open (ap_client app)" "li_signals (ap_list app) = []"
    and "i < length (li_friends (ap_list app))" "cf_chat (li_friends (ap_list app) ! i) = Some ch" "li_show (ap_list app) = Some i"
    and "tx = le_text (edit_text (ch_input ch))" "tx \<noteq> []" "utf8_ok tx"
    and "b = fi_friends (cf_status (li_friends (ap_list app) ! i))"
    and "ex_ok (eng_exec (en_engine env) (hist_file (dbh (ap_client app))) (insert_history_text b (now, 0, 0, ''Text'', ''AR'', tx))
        (databases (ap_client app)))"
  obtains w s ch' where "set_swap_msg (en_codec env) b (li_account (ap_list app)) now ''Text'' tx = Inr s"
    "input_make_msg ui \<lparr>mt_time = now, mt_types = ''Text'', mt_object = ''AR'', mt_content = tx\<rparr> (ch_input ch) = Inr w"
    "map fst (items (ch_area ch')) = map fst (items (ch_area ch)) @ [w]" "le_text (edit_text (ch_input ch')) = []"
    "app_send ui env now i app = Inr (app\<lparr>ap_list := upd_friend i (\<lambda>ct. ct\<lparr>cf_chat := Some ch'\<rparr>) (ap_list app),
       ap_client := snd (client_send_msg env s
         (run_history env (insert_history_text b (now, 0, 0, ''Text'', object_AR, tx)) (ap_client app)))\<rparr>)"
proof -
  let ?m = "\<lparr>sm_target = b, sm_source = li_account (ap_list app), sm_time_to = now, sm_types = ''Text'', sm_content = tx\<rparr>"
  obtain w ch' where c: "chat_send ui now i (ap_list app) = Inr (Friend_List.emit (Ls_send_msg ?m)
        (upd_friend i (\<lambda>ct. ct\<lparr>cf_chat := Some ch'\<rparr>) (ap_list app)))"
      "input_make_msg ui \<lparr>mt_time = now, mt_types = ''Text'', mt_object = ''AR'', mt_content = tx\<rparr> (ch_input ch) = Inr w"
      "map fst (items (ch_area ch')) = map fst (items (ch_area ch)) @ [w]" "le_text (edit_text (ch_input ch')) = []"
    using chat_send_run [OF assms(4-8), of ui now] assms(10) by blast
  obtain s where s: "set_swap_msg (en_codec env) b (li_account (ap_list app)) now ''Text'' tx = Inr s"
    using set_msg_string [OF assms(1), of ?m] assms(9) by auto
  have "ask_swap_msg env ?m (ap_client app)
      = Inr (client_send_msg env s (run_history env (insert_history_text b (now, 0, 0, ''Text'', object_AR, tx)) (ap_client app)))"
    by (rule ask_swap_msg_run [OF assms(2) _ refl _ s]) (use assms(11) in \<open>simp_all add: type_names\<close>)
  then have "app_send ui env now i app = Inr (app\<lparr>ap_list := upd_friend i (\<lambda>ct. ct\<lparr>cf_chat := Some ch'\<rparr>) (ap_list app),
       ap_client := snd (client_send_msg env s
         (run_history env (insert_history_text b (now, 0, 0, ''Text'', object_AR, tx)) (ap_client app)))\<rparr>)"
    using c(1) assms(3)
    by (simp add: app_send_def on_list_def run_signals_def Friend_List.emit_def list_slot_def case_prod_beta upd_friend_def)
  with that s c(2-4) show thesis by blast
qed

text \<open>
  Sending. What was typed is shown at the end of the chat, as an own message, and the field is emptied;
  the message is stored in the table of the friend, unacknowledged, and one text is sent, which carries it.
\<close>

theorem message_sent:
  assumes "protocol_codec (en_codec env)" "history_open (ap_client app)" "li_signals (ap_list app) = []"
    and "i < length (li_friends (ap_list app))" "cf_chat (li_friends (ap_list app) ! i) = Some ch" "li_show (ap_list app) = Some i"
    and "tx = le_text (edit_text (ch_input ch))" "tx \<noteq> []" "utf8_ok tx"
    and "b = fi_friends (cf_status (li_friends (ap_list app) ! i))"
    and "r = eng_exec (en_engine env) (hist_file (dbh (ap_client app))) (insert_history_text b (now, 0, 0, ''Text'', ''AR'', tx))
        (databases (ap_client app))" "ex_ok r"
  shows "\<exists>app' w s ch'. app_send ui env now i app = Inr app'
    \<and> input_make_msg ui \<lparr>mt_time = now, mt_types = ''Text'', mt_object = ''AR'', mt_content = tx\<rparr> (ch_input ch) = Inr w
    \<and> contents (ap_list app') = (contents (ap_list app))[i := Some (map fst (items (ch_area ch)) @ [w])]
    \<and> cf_chat (li_friends (ap_list app') ! i) = Some ch' \<and> le_text (edit_text (ch_input ch')) = []
    \<and> databases (ap_client app') = ex_db r
    \<and> set_swap_msg (en_codec env) b (li_account (ap_list app)) now ''Text'' tx = Inr s
    \<and> sent (ap_client app') = sent (ap_client app) @ [s]"
proof -
  have "ex_ok (eng_exec (en_engine env) (hist_file (dbh (ap_client app))) (insert_history_text b (now, 0, 0, ''Text'', ''AR'', tx))
      (databases (ap_client app)))" using assms(11,12) by simp
  from app_send_run [OF assms(1-10) this, of ui] obtain w s ch' where
    "set_swap_msg (en_codec env) b (li_account (ap_list app)) now ''Text'' tx = Inr s"
    "input_make_msg ui \<lparr>mt_time = now, mt_types = ''Text'', mt_object = ''AR'', mt_content = tx\<rparr> (ch_input ch) = Inr w"
    "map fst (items (ch_area ch')) = map fst (items (ch_area ch)) @ [w]" "le_text (edit_text (ch_input ch')) = []"
    "app_send ui env now i app = Inr (app\<lparr>ap_list := upd_friend i (\<lambda>ct. ct\<lparr>cf_chat := Some ch'\<rparr>) (ap_list app),
       ap_client := snd (client_send_msg env s
         (run_history env (insert_history_text b (now, 0, 0, ''Text'', object_AR, tx)) (ap_client app)))\<rparr>)"
    by blast
  then show ?thesis
    using assms(4,11)
    by (simp add: client_send_msg_def contents_def upd_friend_def map_update type_names run_history_def Let_def)
qed

section \<open>An instance\<close>

definition row_engine :: "string list engine" where
  "row_engine = \<lparr>eng_open = (\<lambda>f d. (True, d)), eng_close = (\<lambda>f d. (True, d)),
     eng_exec = (\<lambda>f sql d. \<lparr>ex_ok = True,
       ex_rows = (if take 6 sql = ''SELECT'' then map history_cols [(5, 5, 1, ''Text'', ''AL'', ''hi'')] else []),
       ex_error = None, ex_db = d @ [sql]\<rparr>),
     eng_int = (\<lambda>f sql d. None), eng_errmsg = (\<lambda>f d. None)\<rparr>"

definition demo_chat :: wid_chat where
  "demo_chat = wid_chat_init\<lparr>ch_input := (ch_input wid_chat_init)\<lparr>edit_text := (edit_text (ch_input wid_chat_init))\<lparr>le_text := ''yes''\<rparr>\<rparr>\<rparr>"

definition demo_app :: "nat option \<Rightarrow> wid_friend_list \<Rightarrow> (string list) chat_app" where
  "demo_app shown st = \<lparr>ap_list = st\<lparr>li_account := 2, li_friends := [(demo_friend 7 [])\<lparr>cf_chat := Some demo_chat\<rparr>],
       li_map := [7 \<mapsto> 0], li_show := shown, li_signals := []\<rparr>,
     ap_client = demo_online, ap_downloads = [], ap_find_downloads = [], ap_uploads = [], ap_visible = True\<rparr>"

definition row_env :: "(string list) client_env" where
  "row_env = demo_env\<lparr>en_engine := row_engine\<rparr>"

lemma row_env_simps [simp]: "en_codec row_env = text_codec" "en_engine row_env = row_engine" "en_clock row_env n = 9"
  by (simp_all add: row_env_def demo_env_def)

lemma row_engine_simps [simp]: "ex_ok (eng_exec row_engine f sql d)" "ex_db (eng_exec row_engine f sql d) = d @ [sql]"
  by (simp_all add: row_engine_def)

abbreviation "demo_msg \<equiv> \<lparr>sm_target = 2, sm_source = 7, sm_time_to = 5, sm_types = ''Text'', sm_content = ''hi''\<rparr>"

theorem message_shown_witness:
  "\<exists>st s app' w. friend_list_init demo_ui 0 = Inr st \<and> app_message demo_ui row_env demo_disk Click_ok s (demo_app (Some 0) st) = Inr app'
    \<and> contents (ap_list app') = [Some [w]]
    \<and> databases (ap_client app') = [''INSERT INTO history_7 VALUES (5,5,1,'Text','AL','hi');'',
        ''SELECT * FROM history_7 WHERE non_read = 1;'', '' UPDATE history_7 SET non_read = 0 WHERE send_time = 5; '']"
proof -
  obtain st where st: "friend_list_init demo_ui 0 = Inr st" using friend_list_init_returns by blast
  obtain s where s: "set_swap_msg text_codec 2 7 5 ''Text'' ''hi'' = Inr s"
    using set_msg_string [OF pc.protocol_codec_axioms, of demo_msg] by auto
  obtain w where w: "input_make_msg demo_ui \<lparr>mt_time = 5, mt_types = ''Text'', mt_object = ''AL'', mt_content = ''hi''\<rparr> (ch_input demo_chat) = Inr w"
    using demo_message by blast
  obtain app' where a: "app_message demo_ui row_env demo_disk Click_ok s (demo_app (Some 0) st) = Inr app'"
      "contents (ap_list app') = [Some [w]]"
      "databases (ap_client app') = run_all row_engine ''h.db'' (map (mark_read 7) [(5, 5, 1, ''Text'', ''AL'', ''hi'')])
        [''INSERT INTO history_7 VALUES (5,5,1,'Text','AL','hi');'', ''SELECT * FROM history_7 WHERE non_read = 1;'']"
    using message_shown [of row_env "demo_app (Some 0) st" demo_msg s 0 demo_chat "''h.db''"
        "[''INSERT INTO history_7 VALUES (5,5,1,'Text','AL','hi');'']" _ "[(5, 5, 1, ''Text'', ''AL'', ''hi'')]" demo_ui "[w]" demo_disk Click_ok, OF _ _ _ _ _ _ _ _ _ _ _ refl]
      s w pc.protocol_codec_axioms
    by (auto simp: demo_app_def demo_chat_def wid_chat_init_def output_init_size_def area_init_size_def contents_def to_ct_msg_def
        row_engine_def insert_history_text_def digits_eval quoted_def Let_def)
  then show ?thesis using st by (intro exI [of _ st] exI [of _ s] exI [of _ app'] exI [of _ w])
      (simp add: row_engine_def mark_read_def set_history_text_def digits_eval)
qed

theorem message_waits_witness:
  "\<exists>st s app'. friend_list_init demo_ui 0 = Inr st \<and> app_message demo_ui row_env demo_disk Click_ok s (demo_app None st) = Inr app'
    \<and> contents (ap_list app') = [Some []]
    \<and> databases (ap_client app') = [''INSERT INTO history_7 VALUES (5,5,1,'Text','AL','hi');'']"
proof -
  obtain st where st: "friend_list_init demo_ui 0 = Inr st" using friend_list_init_returns by blast
  obtain s where s: "set_swap_msg text_codec 2 7 5 ''Text'' ''hi'' = Inr s"
    using set_msg_string [OF pc.protocol_codec_axioms, of demo_msg] by auto
  obtain app' where "app_message demo_ui row_env demo_disk Click_ok s (demo_app None st) = Inr app'"
      "ap_list app' = ap_list (demo_app None st)"
      "databases (ap_client app') = [''INSERT INTO history_7 VALUES (5,5,1,'Text','AL','hi');'']"
    using message_waits [of row_env "demo_app None st" demo_msg s demo_ui demo_disk Click_ok] s pc.protocol_codec_axioms
    by (auto simp: demo_app_def insert_history_text_def digits_eval quoted_def Let_def)
  moreover have "contents (ap_list (demo_app None st)) = [Some []]"
    by (simp add: demo_app_def contents_def demo_chat_def wid_chat_init_def output_init_size_def area_init_size_def)
  ultimately show ?thesis using st by metis
qed

theorem message_sent_witness:
  "\<exists>st app' w s. friend_list_init demo_ui 0 = Inr st \<and> app_send demo_ui row_env 5 0 (demo_app (Some 0) st) = Inr app'
    \<and> contents (ap_list app') = [Some [w]] \<and> databases (ap_client app') = [''INSERT INTO history_7 VALUES (5,0,0,'Text','AR','yes');'']
    \<and> set_swap_msg text_codec 7 2 5 ''Text'' ''yes'' = Inr s \<and> sent (ap_client app') = [s]"
proof -
  obtain st where st: "friend_list_init demo_ui 0 = Inr st" using friend_list_init_returns by blast
  let ?app = "demo_app (Some 0) st" and ?sql = "insert_history_text 7 (5, 0, 0, ''Text'', ''AR'', ''yes'')"
  have p: "li_signals (ap_list ?app) = []" "0 < length (li_friends (ap_list ?app))" "cf_chat (li_friends (ap_list ?app) ! 0) = Some demo_chat"
      "li_show (ap_list ?app) = Some 0" "fi_friends (cf_status (li_friends (ap_list ?app) ! 0)) = 7" "ap_client ?app = demo_online"
      "contents (ap_list ?app) = [Some []]" "li_account (ap_list ?app) = 2"
    by (simp_all add: demo_app_def demo_friend_def demo_status_def contents_def demo_chat_def wid_chat_init_def output_init_size_def area_init_size_def)
  have tx: "''yes'' = le_text (edit_text (ch_input demo_chat))" "items (ch_area demo_chat) = []"
    by (simp_all add: demo_chat_def wid_chat_init_def output_init_size_def area_init_size_def)
  have sql: "?sql = ''INSERT INTO history_7 VALUES (5,0,0,'Text','AR','yes');''"
    by (simp add: insert_history_text_def digits_eval quoted_def Let_def)
  have "protocol_codec (en_codec row_env)" "history_open (ap_client ?app)" using pc.protocol_codec_axioms p by simp_all
  from message_sent [OF this p(1-4) tx(1) _ _ p(5) [symmetric] refl, of 5 demo_ui]
  obtain app' w s where "app_send demo_ui row_env 5 0 ?app = Inr app'"
      "contents (ap_list app') = [Some [w]]" "databases (ap_client app') = [?sql]"
      "set_swap_msg text_codec 7 2 5 ''Text'' ''yes'' = Inr s" "sent (ap_client app') = [s]"
    using p(6-8) tx(2) by auto
  then show ?thesis using st by (metis sql)
qed

end
