(* ===== verification/Chat_Delivery.thy ===== *)
theory Chat_Delivery
  imports Chat_App History_Store
begin

text \<open>
  From the window of one user to the window of another: what is typed in a chat is shown in the chat in
  front at the other end, kept in both histories, and acknowledged. The server is not in the repository;
  it carries the two texts.
\<close>

section \<open>Rows by time\<close>

lemma map_insort_same_key:
  "(\<And>y. k (g y) = k y) \<Longrightarrow> List.map g (insort_key k x xs) = insort_key k (g x) (List.map g xs)"
  by (induction xs) simp_all

lemma filter_insort_only: "filter P xs = [] \<Longrightarrow> P x \<Longrightarrow> filter P (insort_key k x xs) = [x]"
  by (induction xs) (auto split: if_splits)

lemma set_feed_back_fresh:
  assumes "t \<notin> fst ` set xs"
  shows "List.map (set_feed_back t v) (insort_key row_time (t, f, n, rest) xs) = insort_key row_time (t, v, n, rest) xs"
proof -
  have "List.map (set_feed_back t v) xs = xs"
    using assms by (intro map_idI) (auto simp: set_feed_back_def image_iff split: prod.splits)
  moreover have "set_feed_back t v (t, f, n, rest) = (t, v, n, rest)" by (simp add: set_feed_back_def)
  ultimately show ?thesis by (simp add: map_insort_same_key)
qed

lemma mark_rows_fresh:
  assumes "t \<notin> fst ` set xs"
  shows "List.map (mark_rows {t}) (insort_key row_time (t, f, n, rest) xs) = insort_key row_time (t, f, 0, rest) xs"
proof -
  have "List.map (mark_rows {t}) xs = xs"
    using assms by (intro map_idI) (auto simp: mark_rows_def image_iff)
  moreover have "mark_rows {t} (t, f, n, rest) = (t, f, 0, rest)" by (simp add: mark_rows_def set_non_read_def)
  moreover have "row_time (mark_rows {t} y) = row_time y" for y by (simp add: mark_rows_def)
  ultimately show ?thesis by (simp add: map_insort_same_key)
qed

section \<open>The acknowledgement in the program\<close>

lemma app_ack_run:
  assumes "protocol_codec (en_codec env)" "history_open (ap_client app)"
    and "set_swap_msg_back (en_codec env) a b t ok = Inr ack"
  shows "app_message ui env w click ack app
    = Inr (app\<lparr>ap_client := run_history env (set_history_text ''feed_back'' b t ok) (ap_client app)\<rparr>)"
  using recv_ack_run [OF assms] by (simp add: app_message_def)

section \<open>Delivery\<close>

text \<open>The table of the sender: the message is stored unacknowledged and then marked.\<close>

lemma sent_row:
  assumes "history_sql (en_engine env) tabs" "plain_text tx" "t \<notin> fst ` set xs"
    and "tabs (hist_file (dbh wc)) (databases wc) ac = Some xs"
    and "wc1 = snd (client_send_msg env s (run_history env (insert_history_text ac (t, 0, 0, ''Text'', object_AR, tx)) wc))"
  shows "ex_ok (eng_exec (en_engine env) (hist_file (dbh wc)) (insert_history_text ac (t, 0, 0, ''Text'', ''AR'', tx)) (databases wc))"
    and "tabs (hist_file (dbh wc)) (databases (run_history env (set_history_text ''feed_back'' ac t ok) wc1)) ac
      = Some (insort_key row_time (t, ok, 0, ''Text'', ''AR'', tx) xs)"
proof -
  let ?q = "Hs_insert ac (t, 0, 0, ''Text'', ''AR'', tx)" and ?f = "hist_file (dbh wc)"
  have q: "plain_stmt ?q" using assms(2) by (simp add: plain_text_def)
  have run: "run_stmt ?q (tabs ?f (databases wc)) = (True, [], (tabs ?f (databases wc))(ac \<mapsto> insort_key row_time (t, 0, 0, ''Text'', ''AR'', tx) xs))"
    using assms(3,4) by (simp add: flag_def row_unread_def)
  show "ex_ok (eng_exec (en_engine env) ?f (insert_history_text ac (t, 0, 0, ''Text'', ''AR'', tx)) (databases wc))"
    using history_sql.exec_ok [OF assms(1) q, of ?f "databases wc"] run by simp
  have wc1: "hist_file (dbh wc1) = ?f" "databases wc1 = databases (run_history env (stmt_text ?q) wc)"
    by (simp_all add: assms(5) client_send_msg_def type_names)
  then have "tabs ?f (databases wc1) ac = Some (insort_key row_time (t, 0, 0, ''Text'', ''AR'', tx) xs)"
    using run_history_tabs [OF assms(1) q, of wc] run by simp
  then show "tabs ?f (databases (run_history env (set_history_text ''feed_back'' ac t ok) wc1)) ac
      = Some (insort_key row_time (t, ok, 0, ''Text'', ''AR'', tx) xs)"
    using run_history_tabs [OF assms(1), of "Hs_feed_back ac t ok" wc1] wc1(1) set_feed_back_fresh [OF assms(3)] by simp
qed

text \<open>The table of the receiver: the message is stored as unread, read back alone, and marked as read.\<close>

lemma received_row:
  assumes "history_sql eng tabs" "plain_text tx" "t \<notin> fst ` set xs" "tabs f d ac = Some xs"
    and "filter (\<lambda>row. row_unread row = 1) xs = []"
    and "d1 = ex_db (eng_exec eng f (insert_history_text ac (t, t, 1, ''Text'', ''AL'', tx)) d)"
    and "r = eng_exec eng f (''SELECT * FROM history_'' @ to_string64 ac @ '' WHERE non_read = 1;'') d1"
  shows "ex_ok r" "ex_rows r = List.map history_cols [(t, t, 1, ''Text'', ''AL'', tx)]"
    "tabs f (run_all eng f (List.map (mark_read ac) [(t, t, 1, ''Text'', ''AL'', tx)]) (ex_db r)) ac
      = Some (insort_key row_time (t, t, 0, ''Text'', ''AL'', tx) xs)"
proof -
  let ?row = "(t, t, 1, ''Text'', ''AL'', tx)" and ?q = "Hs_unread ac"
  let ?ins = "Hs_insert ac ?row" and ?ys = "insort_key row_time ?row xs"
  have q: "plain_stmt ?ins" using assms(2) by (simp add: plain_text_def)
  have d1: "tabs f d1 = (tabs f d)(ac \<mapsto> ?ys)"
    using history_sql.exec_tabs [OF assms(1) q, of f d] assms(3,4,6) by (simp add: flag_def row_unread_def)
  have un: "filter (\<lambda>row. row_unread row = 1) ?ys = [?row]"
    by (rule filter_insort_only [OF assms(5)]) (simp add: row_unread_def)
  note eng = history_sql.exec_ok [OF assms(1), of ?q f d1] history_sql.exec_rows [OF assms(1), of ?q f d1]
    history_sql.exec_tabs [OF assms(1), of ?q f d1]
  show "ex_ok r" "ex_rows r = List.map history_cols [?row]"
    using eng(1,2) d1 un assms(7) by auto
  have "tabs f (ex_db r) ac = Some ?ys" using eng(3) d1 assms(7) by simp
  from history_sql.marks_all [OF assms(1) this, of "[?row]"]
  show "tabs f (run_all eng f (List.map (mark_read ac) [?row]) (ex_db r)) ac = Some (insort_key row_time (t, t, 0, ''Text'', ''AL'', tx) xs)"
    using mark_rows_fresh [OF assms(3)] by simp
qed

text \<open>
  C1: what is typed is shown at the other end. With both histories open, each with a table for the other
  account in which the time is free, and the chat with the sender in front at the receiver with nothing
  unread: the click sends one text; given to the other program it appends the message, on the left, to that chat and
  no other, and is answered with one text; given back, that one leaves the list of the sender as it was.
  Then both tables hold the message at its place by time, with the sender's row acknowledged at the clock of the receiver
  and the receiver's row read, and the own message stands on the right at the end of the sender's chat.
\<close>

theorem typed_is_shown:
  fixes a :: "'d chat_app" and b :: "'e chat_app"
  assumes "protocol_codec (en_codec ea)" "en_codec eb = en_codec ea"
    and "history_sql (en_engine ea) ta" "history_sql (en_engine eb) tb"
    and "history_open (ap_client a)" "li_signals (ap_list a) = []" "i < length (li_friends (ap_list a))"
    and "cf_chat (li_friends (ap_list a) ! i) = Some cha" "li_show (ap_list a) = Some i"
    and "tx = le_text (edit_text (ch_input cha))" "tx \<noteq> []" "utf8_ok tx" "plain_text tx"
    and "ac_b = fi_friends (cf_status (li_friends (ap_list a) ! i))" "ac_a = li_account (ap_list a)"
    and "fa = hist_file (dbh (ap_client a))" "ta fa (databases (ap_client a)) ac_b = Some xs" "now \<notin> fst ` set xs"
    and "history_open (ap_client b)" "li_signals (ap_list b) = []" "li_map (ap_list b) ac_a = Some j" "j < length (li_friends (ap_list b))"
    and "cf_chat (li_friends (ap_list b) ! j) = Some chb" "li_show (ap_list b) = Some j"
    and "fb = hist_file (dbh (ap_client b))" "tb fb (databases (ap_client b)) ac_a = Some ys" "now \<notin> fst ` set ys"
    and "filter (\<lambda>row. row_unread row = 1) ys = []"
  shows "\<exists>a1 s b1 ack a2 wa wb.
      app_send uia ea now i a = Inr a1 \<and> sent (ap_client a1) = sent (ap_client a) @ [s]
    \<and> app_message uib eb wb_disk click_b s b = Inr b1 \<and> sent (ap_client b1) = sent (ap_client b) @ [ack]
    \<and> app_message uia ea wa_disk click_a ack a1 = Inr a2 \<and> sent (ap_client a2) = sent (ap_client a1)
    \<and> input_make_msg uia \<lparr>mt_time = now, mt_types = ''Text'', mt_object = ''AR'', mt_content = tx\<rparr> (ch_input cha) = Inr wa
    \<and> input_make_msg uib \<lparr>mt_time = now, mt_types = ''Text'', mt_object = ''AL'', mt_content = tx\<rparr> (ch_input chb) = Inr wb
    \<and> contents (ap_list a2) = (contents (ap_list a))[i := Some (List.map fst (items (ch_area cha)) @ [wa])]
    \<and> contents (ap_list b1) = (contents (ap_list b))[j := Some (List.map fst (items (ch_area chb)) @ [wb])]
    \<and> ta fa (databases (ap_client a2)) ac_b
        = Some (insort_key row_time (now, en_clock eb (ticks (ap_client b)), 0, ''Text'', ''AR'', tx) xs)
    \<and> tb fb (databases (ap_client b1)) ac_a = Some (insort_key row_time (now, now, 0, ''Text'', ''AL'', tx) ys)"
proof -
  let ?m = "\<lparr>sm_target = ac_b, sm_source = ac_a, sm_time_to = now, sm_types = ''Text'', sm_content = tx\<rparr>"
  let ?ok = "en_clock eb (ticks (ap_client b))"
  note row_a = sent_row [OF assms(3,13,18) assms(17) [unfolded assms(16)] refl]
  obtain wa s cha' where s: "set_swap_msg (en_codec ea) ac_b ac_a now ''Text'' tx = Inr s"
      and wa: "input_make_msg uia \<lparr>mt_time = now, mt_types = ''Text'', mt_object = ''AR'', mt_content = tx\<rparr> (ch_input cha) = Inr wa"
        "List.map fst (items (ch_area cha')) = List.map fst (items (ch_area cha)) @ [wa]"
      and send: "app_send uia ea now i a = Inr (a\<lparr>ap_list := upd_friend i (\<lambda>ct. ct\<lparr>cf_chat := Some cha'\<rparr>) (ap_list a),
         ap_client := snd (client_send_msg ea s (run_history ea (insert_history_text ac_b (now, 0, 0, ''Text'', object_AR, tx)) (ap_client a)))\<rparr>)"
    by (rule app_send_run [OF assms(1,5-12,14) row_a(1), of uia]) (use assms(15) in blast)
  let ?wc1 = "snd (client_send_msg ea s (run_history ea (insert_history_text ac_b (now, 0, 0, ''Text'', object_AR, tx)) (ap_client a)))"
  let ?a1 = "a\<lparr>ap_list := upd_friend i (\<lambda>ct. ct\<lparr>cf_chat := Some cha'\<rparr>) (ap_list a), ap_client := ?wc1\<rparr>"
  obtain wb where wb: "input_make_msg uib \<lparr>mt_time = now, mt_types = ''Text'', mt_object = ''AL'', mt_content = tx\<rparr> (ch_input chb) = Inr wb"
    using demo_message by blast
  let ?row = "(now, now, 1, ''Text'', ''AL'', tx)"
  note row_b = received_row [OF assms(4,13,27,26,28) refl refl]
  have "list_all2 (\<lambda>t w. input_make_msg uib (to_ct_msg t) (ch_input chb) = Inr w) [?row] [wb]"
    using wb by (simp add: to_ct_msg_def)
  note shown = app_shown_run [where env = eb and app = b and m = ?m, OF _ assms(19) _ _ assms(20) _ assms(22,23,24,25) refl refl _ _ this]
  obtain b1 ack where b1: "app_message uib eb wb_disk click_b s b = Inr b1"
      "contents (ap_list b1) = (contents (ap_list b))[j := Some (List.map fst (items (ch_area chb)) @ [wb])]"
      "tb fb (databases (ap_client b1)) ac_a = Some (insort_key row_time (now, now, 0, ''Text'', ''AL'', tx) ys)"
      "set_swap_msg_back (en_codec ea) ac_a ac_b now ?ok = Inr ack" "sent (ap_client b1) = sent (ap_client b) @ [ack]"
    using shown [where w = wb_disk and click = click_b] row_b assms(1,2,21) s by (auto simp: brace_free_def)
  have open1: "history_open (ap_client ?a1)" using assms(5) by (simp add: client_send_msg_def)
  note ack = app_ack_run [OF assms(1) open1 b1(4), of uia wa_disk click_a]
  have "contents (ap_list ?a1) = (contents (ap_list a))[i := Some (List.map fst (items (ch_area cha)) @ [wa])]"
    by (simp add: contents_def upd_friend_def map_update wa(2))
  moreover have "sent (ap_client ?a1) = sent (ap_client a) @ [s]" by (simp add: client_send_msg_def)
  ultimately show ?thesis
    using send b1 ack wa(1) wb row_a(2) [where s = s and ok = ?ok] assms(16)
    by (intro exI [of _ ?a1] exI [of _ s] exI [of _ b1] exI [of _ ack] exI [of _ "?a1\<lparr>ap_client := run_history ea (set_history_text ''feed_back'' ac_b now ?ok) ?wc1\<rparr>"] exI [of _ wa] exI [of _ wb]) simp
qed

definition delivery_app :: "int64 \<Rightarrow> int64 \<Rightarrow> wid_friend_list \<Rightarrow> disk_tables chat_app" where
  "delivery_app me other st = \<lparr>ap_list = st\<lparr>li_account := me, li_friends := [(demo_friend other [])\<lparr>cf_chat := Some demo_chat\<rparr>],
       li_map := [other \<mapsto> 0], li_show := Some 0, li_signals := []\<rparr>,
     ap_client = (store_client [])\<lparr>databases := (\<lambda>f. [other \<mapsto> []])\<rparr>, ap_downloads = [], ap_find_downloads = [], ap_uploads = [],
     ap_visible = True\<rparr>"

lemma delivery_app_simps [simp]:
  "history_open (ap_client (delivery_app me other st))" "0 \<le> sint other \<Longrightarrow> disk_tabs f (databases (ap_client (delivery_app me other st))) other = Some []"
  "hist_file (dbh (ap_client (delivery_app me other st))) = ''h.db''" "sent (ap_client (delivery_app me other st)) = []"
  "ticks (ap_client (delivery_app me other st)) = 0"
  "li_signals (ap_list (delivery_app me other st)) = []" "length (li_friends (ap_list (delivery_app me other st))) = 1"
  "cf_chat (li_friends (ap_list (delivery_app me other st)) ! 0) = Some demo_chat" "li_show (ap_list (delivery_app me other st)) = Some 0"
  "fi_friends (cf_status (li_friends (ap_list (delivery_app me other st)) ! 0)) = other"
  "li_account (ap_list (delivery_app me other st)) = me" "li_map (ap_list (delivery_app me other st)) other = Some 0"
  "le_text (edit_text (ch_input demo_chat)) = ''yes''"
  using store_client_simps(1,3,5,9) [of "[]"]
  by (simp_all add: disk_tabs_def nameable_def delivery_app_def demo_friend_def demo_status_def history_open_def demo_chat_def)

theorem typed_is_shown_witness:
  "\<exists>st a1 s b1 ack a2. friend_list_init demo_ui 0 = Inr st
    \<and> app_send demo_ui store_env 5 0 (delivery_app 2 7 st) = Inr a1 \<and> sent (ap_client a1) = [s]
    \<and> app_message demo_ui store_env demo_disk Click_ok s (delivery_app 7 2 st) = Inr b1 \<and> sent (ap_client b1) = [ack]
    \<and> app_message demo_ui store_env demo_disk Click_ok ack a1 = Inr a2
    \<and> disk_tabs ''h.db'' (databases (ap_client a2)) 7 = Some [(5, 9, 0, ''Text'', ''AR'', ''yes'')]
    \<and> disk_tabs ''h.db'' (databases (ap_client b1)) 2 = Some [(5, 5, 0, ''Text'', ''AL'', ''yes'')]"
proof -
  obtain st where st: "friend_list_init demo_ui 0 = Inr st" using friend_list_init_returns by blast
  let ?a = "delivery_app 2 7 st" and ?b = "delivery_app 7 2 st"
  have c: "protocol_codec (en_codec store_env)" and e: "history_sql (en_engine store_env) disk_tabs"
    using pc.protocol_codec_axioms hs.history_sql_axioms by simp_all
  have tx: "utf8_ok ''yes''" "plain_text ''yes''" by (simp_all add: plain_text_def)
  note d = typed_is_shown [OF c refl e e, where a = ?a and b = ?b and i = 0 and j = 0 and cha = demo_chat and chb = demo_chat
      and tx = "''yes''" and ac_a = 2 and ac_b = 7 and fa = "''h.db''" and fb = "''h.db''" and xs = "[]" and ys = "[]" and now = 5
      and uia = demo_ui and uib = demo_ui and wa_disk = demo_disk and wb_disk = demo_disk and click_a = Click_ok and click_b = Click_ok]
  have tx': "''yes'' = le_text (edit_text (ch_input demo_chat))" "''yes'' \<noteq> []" by simp_all
  have ids: "7 = fi_friends (cf_status (li_friends (ap_list ?a) ! 0))" "2 = li_account (ap_list ?a)"
    "''h.db'' = hist_file (dbh (ap_client ?a))" "''h.db'' = hist_file (dbh (ap_client ?b))" by simp_all
  have len: "0 < length (li_friends (ap_list ?a))" "0 < length (li_friends (ap_list ?b))" by simp_all
  have none: "(5 :: int64) \<notin> fst ` set ([] :: history_row list)" "filter (\<lambda>row. row_unread row = 1) ([] :: history_row list) = []"
    by simp_all
  have pos: "0 \<le> sint (7 :: int64)" "0 \<le> sint (2 :: int64)" by simp_all
  note f = d [OF delivery_app_simps(1,6) len(1) delivery_app_simps(8,9) tx' tx ids(1,2,3) delivery_app_simps(2) [OF pos(1)] none(1)
      delivery_app_simps(1,6,12) len(2) delivery_app_simps(8,9) ids(4) delivery_app_simps(2) [OF pos(2)] none]
  then obtain a1 s b1 ack a2 where
    "app_send demo_ui store_env 5 0 ?a = Inr a1" "sent (ap_client a1) = sent (ap_client ?a) @ [s]"
    "app_message demo_ui store_env demo_disk Click_ok s ?b = Inr b1" "sent (ap_client b1) = sent (ap_client ?b) @ [ack]"
    "app_message demo_ui store_env demo_disk Click_ok ack a1 = Inr a2"
    "disk_tabs ''h.db'' (databases (ap_client a2)) 7 = Some (insort_key row_time (5, en_clock store_env (ticks (ap_client ?b)), 0, ''Text'', ''AR'', ''yes'') [])"
    "disk_tabs ''h.db'' (databases (ap_client b1)) 2 = Some (insort_key row_time (5, 5, 0, ''Text'', ''AL'', ''yes'') [])"
    by blast
  with st show ?thesis
    by (intro exI [of _ st] exI [of _ a1] exI [of _ s] exI [of _ b1] exI [of _ ack] exI [of _ a2]) simp
qed

end
