(* ===== verification/App_Runs.thy ===== *)
theory App_Runs
  imports Chat_App
begin

text \<open>
  The runs of the whole program: a step is an event of the connection, a text of the server, a click, or the
  end of a transfer of an icon, each with all the slots it sets off. What is proved of the list of friends and of the
  client alone holds of the two wired together.
\<close>

section \<open>Slots that read the history\<close>

text \<open>
  The interface between the list and the slot of its request for the history: the slot changes the list only by
  showing messages, and the rest of the program as \<open>R\<close> allows.
\<close>

locale history_reader =
  fixes ui :: ui_env and read :: "'s history_slot" and R :: "'s \<Rightarrow> 's \<Rightarrow> bool"
  assumes reads: "read ac b (st, s) = Inr (st', s') \<Longrightarrow> R s s' \<and> (\<exists>vec. set_history_msg ui ac vec st = Inr st')"
    and stays: "R s s"
begin

lemma read_is_slot:
  assumes "read ac b (st, s) = Inr (st', s')"
  shows "R s s' \<and> (\<exists>msgs. slot_of ui msgs ac b (st, ()) = Inr (st', ()))"
proof -
  obtain vec where "R s s'" "set_history_msg ui ac vec st = Inr st'" using reads [OF assms] by blast
  then show ?thesis by (intro conjI exI [of _ "\<lambda>_ _. vec"]) (simp_all add: slot_of_def)
qed

lemma clicked_is_step:
  assumes "friend_clicked ui read i (st, s) = Inr (st', s')"
  shows "R s s' \<and> (\<exists>msgs. friend_clicked ui (slot_of ui msgs) i (st, ()) = Inr (st', ()))"
proof -
  obtain st1 s1 where m: "make_chat read i (st, s) = Inr (st1, s1)" using assms by (auto simp: friend_clicked_def rbind_eq_Inr)
  have "R s s1 \<and> (\<exists>msgs. make_chat (slot_of ui msgs) i (st, ()) = Inr (st1, ()))"
    using m stays by (auto simp: make_chat_def Let_def split: option.splits dest: read_is_slot)
  then obtain msgs where "R s s1" "make_chat (slot_of ui msgs) i (st, ()) = Inr (st1, ())" by blast
  moreover have "s' = s1" using assms m by (auto simp: friend_clicked_def rbind_eq_Inr)
  moreover have "friend_clicked ui (slot_of ui msgs) i (st, ()) = Inr (st', ())"
    using assms m calculation(2) by (auto simp: friend_clicked_def rbind_eq_Inr)
  ultimately show ?thesis by blast
qed

lemma recv_is_step:
  assumes "add_recv_msg read ct (st, s) = Inr (st', s')"
  shows "R s s' \<and> (\<exists>msgs. add_recv_msg (slot_of ui msgs) ct (st, ()) = Inr (st', ()))"
proof (cases "\<exists>i. get_friend (sm_source ct) st = Some i \<and> cf_chat (li_friends st ! i) \<noteq> None \<and> li_show st = Some i")
  case True
  then obtain i where i: "get_friend (sm_source ct) st = Some i" "cf_chat (li_friends st ! i) \<noteq> None" "li_show st = Some i" by blast
  with assms have "read (sm_source ct) True (st, s) = Inr (st', s')" by (simp add: add_recv_msg_def)
  from read_is_slot [OF this] i show ?thesis by (simp add: add_recv_msg_def)
next
  case False
  then have "st' = st" "s' = s" "add_recv_msg (slot_of ui msgs) ct (st, ()) = Inr (st, ())" for msgs
    using assms by (auto simp: add_recv_msg_def Let_def split: option.splits if_splits)
  with stays show ?thesis by simp
qed

end

section \<open>What reading keeps of the client\<close>

lemma exec_db_moves: "exec_db eng q h d = (ok, rws, h', d') \<Longrightarrow> history_moves h h'"
  using exec_db_history [of eng q h d ok rws h' d'] by (simp add: history_moves_def good_history_def)

lemma select_line_moves:
  assumes "select_line_db eng table vl fid v sql h d = Inr (ok, out, h', d')"
  shows "history_moves h h'"
proof -
  obtain q where q: "(case exec_db eng q h d of (ok, rws, h', d') \<Rightarrow>
       rbind (res_map (\<lambda>r. row_map r Map.empty) rws) (\<lambda>ms. Inr (ok, vl @ ms, h', d'))) = Inr (ok, out, h', d')"
    using assms by (auto simp: select_line_db_def rbind_eq_Inr)
  obtain ok1 rws h1 d1 where e: "exec_db eng q h d = (ok1, rws, h1, d1)" by (metis prod.exhaust)
  with q have "h' = h1" by (auto simp: rbind_eq_Inr)
  with exec_db_moves [OF e] show ?thesis by simp
qed

lemma select_moves:
  assumes "select_history eng ac vec sql h d = Inr (ok, out, h', d')"
  shows "history_moves h h'"
proof -
  obtain q table x where x: "select_line_db eng table [] [] (A_str []) q h d = Inr x"
      "(case x of (ok, vs, h', d') \<Rightarrow> if ok then (case convert_rows (history_tuple (hist_data h')) vs vec of (ok', out) \<Rightarrow> Inr (ok', out, h', d'))
        else Inr (False, vec, h', d')) = (Inr (ok, out, h', d') :: _ res)"
    using assms unfolding select_history_def rbind_eq_Inr by blast
  obtain ok1 vs h1 d1 where e: "x = (ok1, vs, h1, d1)" by (metis prod.exhaust)
  note s = x(1) [unfolded e] x(2) [unfolded e prod.case]
  from s(2) have "h' = h1" by (auto split: if_splits prod.splits)
  with select_line_moves [OF s(1)] show ?thesis by simp
qed

lemma show_rows_moves: "show_rows eng ac rws vec h d = Inr (out, h', d') \<Longrightarrow> history_moves h h'"
proof (induction rws arbitrary: vec h d)
  case (Cons a rws)
  then obtain ok h1 d1 where u: "update_non_read eng ac (mt_time (to_ct_msg a)) 0 h d = Inr (ok, h1, d1)"
      "show_rows eng ac rws (vec @ [to_ct_msg a]) h1 d1 = Inr (out, h', d')"
    by (auto simp: Let_def rbind_eq_Inr)
  from u(1) have "history_moves h h1"
    by (auto simp: update_non_read_def update_db_def rbind_eq_Inr split: prod.splits dest: exec_plain_moves)
  with Cons.IH [OF u(2)] show ?case by (blast intro: history_moves_trans)
qed simp

lemma read_history_moves:
  "read_history eng ac vec (Some h) d = Inr (out, h', d') \<Longrightarrow> history_moves h h'"
  "read_history_non_read eng ac vec (Some h) d = Inr (out, h', d') \<Longrightarrow> history_moves h h'"
  by (auto simp: read_history_def read_history_non_read_def select_non_read_def rbind_eq_Inr split: if_splits
      dest!: select_moves show_rows_moves intro: history_moves_trans)

interpretation slots: history_reader ui "read_slot ui env" client_moves for ui env
proof
  fix ac b st s st' s'
  assume "read_slot ui env ac b (st, s) = Inr (st', s')"
  then obtain vec h d where r: "(if b then read_history_non_read else read_history) (en_engine env) ac [] (init_db (dbh s)) (databases s) = Inr (vec, h, d)"
      "set_history_msg ui ac vec st = Inr st'" "s' = s\<lparr>dbh := h, databases := d\<rparr>"
    by (auto simp: read_slot_def rbind_eq_Inr)
  then have "history_moves (dbh s) h" by (auto simp: init_db_def split: if_splits dest: read_history_moves)
  then show "client_moves s s' \<and> (\<exists>vec. set_history_msg ui ac vec st = Inr st')"
    using r(2,3) by (auto simp: client_moves_def record_moves_def)
qed simp

section \<open>Steps of the program\<close>

text \<open>
  An event of the connection comes on the thread of the network and leaves a signal in the queue of the windows; a text of the
  server is \<open>app_message\<close>. The other steps are the clicks of the user and the callbacks of the transfers of icons.
\<close>

inductive app_step :: "ui_env \<Rightarrow> 'd client_env \<Rightarrow> 'd chat_app \<Rightarrow> 'd chat_app \<Rightarrow> bool" for ui env where
  opened: "client_slot ui env w click Cs_open (app\<lparr>ap_client := client_sl_open (ap_client app)\<rparr>) = Inr app' \<Longrightarrow> app_step ui env app app'"
| closed: "client_slot ui env w click Cs_close (app\<lparr>ap_client := client_sl_close (ap_client app)\<rparr>) = Inr app' \<Longrightarrow> app_step ui env app app'"
| message: "app_message ui env w click s app = Inr app' \<Longrightarrow> app_step ui env app app'"
| clicked: "i < length (li_friends (ap_list app)) \<Longrightarrow> app_clicked ui env i app = Inr app' \<Longrightarrow> app_step ui env app app'"
| sent: "app_send ui env now i app = Inr app' \<Longrightarrow> app_step ui env app app'"
| dropped: "on_list env (chat_drop ui now ls i) app = Inr app' \<Longrightarrow> app_step ui env app app'"
| search: "app_find ui env app = Inr app' \<Longrightarrow> app_step ui env app app'"
| icon_clicked: "on_list env (\<lambda>wid. Inr (icon_clicked i wid)) app = Inr app' \<Longrightarrow> app_step ui env app app'"
| setting: "on_list env (\<lambda>wid. Inr (list_show_setting wid)) app = Inr app' \<Longrightarrow> app_step ui env app app'"
| extend: "on_list env (\<lambda>wid. Inr (list_click_extend tips wid)) app = Inr app' \<Longrightarrow> app_step ui env app app'"
| change_icon: "on_list env (\<lambda>wid. Inr (list_change_icon ui fi wid)) app = Inr app' \<Longrightarrow> app_step ui env app app'"
| own_save: "on_list env (own_save ui click junk save) app = Inr app' \<Longrightarrow> app_step ui env app app'"
| friend_save: "on_list env (friend_save ui click junk save) app = Inr app' \<Longrightarrow> app_step ui env app app'"
| downloaded: "app_step ui env app (download_done ui ok account path app)"
| uploaded: "upload_done env ok account path w app = Inr (app', w') \<Longrightarrow> app_step ui env app app'"
| found: "find_done ui ok account path app = Inr app' \<Longrightarrow> app_step ui env app app'"

section \<open>What a step keeps\<close>

text \<open>The invariant of the list is kept, and the client moves as its own steps let it.\<close>

definition app_moves :: "'d chat_app \<Rightarrow> 'd chat_app \<Rightarrow> bool" where
  "app_moves app app' \<longleftrightarrow> (list_inv (ap_list app) \<longrightarrow> list_inv (ap_list app')) \<and> client_moves (ap_client app) (ap_client app')"

lemma app_moves_refl [simp]: "app_moves app app"
  by (simp add: app_moves_def)

lemma app_moves_trans: "app_moves app app1 \<Longrightarrow> app_moves app1 app2 \<Longrightarrow> app_moves app app2"
  by (auto simp: app_moves_def intro: client_moves_trans)

lemma app_moves_fields [simp]:
  "app_moves app (app\<lparr>ap_visible := v\<rparr>)" "app_moves app (app\<lparr>ap_downloads := ds\<rparr>)"
  "app_moves app (app\<lparr>ap_find_downloads := ds\<rparr>)" "app_moves app (app\<lparr>ap_uploads := us\<rparr>)"
  by (simp_all add: app_moves_def)

lemma app_moves_list: "(list_inv (ap_list app) \<Longrightarrow> list_inv wid) \<Longrightarrow> app_moves app (app\<lparr>ap_list := wid\<rparr>)"
  by (simp add: app_moves_def)

lemma app_moves_client: "client_moves (ap_client app) wc \<Longrightarrow> app_moves app (app\<lparr>ap_client := wc\<rparr>)"
  by (simp add: app_moves_def)

lemma ask_moves:
  "ask_swap_msg env m st = Inr (ok, st') \<Longrightarrow> client_moves st st'"
  "ask_info_all env types account st = Inr (ok, st') \<Longrightarrow> client_moves st st'"
  "ask_update_info env info st = Inr (ok, st') \<Longrightarrow> client_moves st st'"
  "ask_update_remarks env account friends remarks st = Inr (ok, st') \<Longrightarrow> client_moves st st'"
  "ask_login env account passwd st = Inr (ok, st') \<Longrightarrow> client_moves st st'"
  by (blast intro: client_call_moves client_call.intros)+

lemma list_slot_moves: "list_slot env sig app = Inr app' \<Longrightarrow> app_moves app app'"
  by (cases sig) (auto simp: list_slot_def rbind_eq_Inr intro!: app_moves_client dest: ask_moves)

lemma list_slots_moves: "list_slots env sigs app = Inr app' \<Longrightarrow> app_moves app app'"
  by (induction sigs arbitrary: app) (auto simp: rbind_eq_Inr dest: list_slot_moves intro: app_moves_trans)

lemma list_inv_signals: "list_inv (wid\<lparr>li_signals := sigs\<rparr>) = list_inv wid"
  by (simp add: list_inv_def views_def)

lemma run_signals_moves: "run_signals env app = Inr app' \<Longrightarrow> app_moves app app'"
proof -
  assume "run_signals env app = Inr app'"
  then have "app_moves (app\<lparr>ap_list := (ap_list app)\<lparr>li_signals := []\<rparr>\<rparr>) app'"
    by (auto simp: run_signals_def dest: list_slots_moves)
  moreover have "app_moves app (app\<lparr>ap_list := (ap_list app)\<lparr>li_signals := []\<rparr>\<rparr>)"
    by (rule app_moves_list) (simp add: list_inv_signals)
  ultimately show ?thesis by (blast intro: app_moves_trans)
qed

lemma on_list_moves:
  assumes "on_list env f app = Inr app'" "\<And>wid. f (ap_list app) = Inr wid \<Longrightarrow> list_inv (ap_list app) \<Longrightarrow> list_inv wid"
  shows "app_moves app app'"
proof -
  obtain wid where "f (ap_list app) = Inr wid" "run_signals env (app\<lparr>ap_list := wid\<rparr>) = Inr app'"
    using assms(1) by (auto simp: on_list_def rbind_eq_Inr)
  with assms(2) show ?thesis by (blast intro: app_moves_trans app_moves_list run_signals_moves)
qed

lemma on_both_moves:
  assumes "on_both env f app = Inr app'"
    and "\<And>wid wc. f (ap_list app, ap_client app) = Inr (wid, wc)
      \<Longrightarrow> (list_inv (ap_list app) \<longrightarrow> list_inv wid) \<and> client_moves (ap_client app) wc"
  shows "app_moves app app'"
proof -
  obtain wid wc where f: "f (ap_list app, ap_client app) = Inr (wid, wc)" "run_signals env (app\<lparr>ap_list := wid, ap_client := wc\<rparr>) = Inr app'"
    using assms(1) by (auto simp: on_both_def rbind_eq_Inr)
  from assms(2) [OF f(1)] have "app_moves app (app\<lparr>ap_list := wid, ap_client := wc\<rparr>)" by (simp add: app_moves_def)
  with run_signals_moves [OF f(2)] show ?thesis by (rule app_moves_trans [rotated])
qed

lemma recv_slot_moves: "on_both env (add_recv_msg (read_slot ui env) msg) app = Inr app' \<Longrightarrow> app_moves app app'"
proof (erule on_both_moves)
  fix wid wc
  assume "add_recv_msg (read_slot ui env) msg (ap_list app, ap_client app) = Inr (wid, wc)"
  from slots.recv_is_step [OF this]
  show "(list_inv (ap_list app) \<longrightarrow> list_inv wid) \<and> client_moves (ap_client app) wc"
    by (blast intro: list_inv_step list_step.received)
qed

lemma app_clicked_moves:
  assumes "i < length (li_friends (ap_list app))" "app_clicked ui env i app = Inr app'"
  shows "app_moves app app'"
  using assms(2) unfolding app_clicked_def
proof (rule on_both_moves)
  fix wid wc
  assume "friend_clicked ui (read_slot ui env) i (ap_list app, ap_client app) = Inr (wid, wc)"
  from slots.clicked_is_step [OF this]
  show "(list_inv (ap_list app) \<longrightarrow> list_inv wid) \<and> client_moves (ap_client app) wc"
    by (blast intro: list_inv_clicked assms(1))
qed

lemma list_inv_login: "list_inv wid \<Longrightarrow> list_inv (slot_ac_login ui w account nickname icon friends wid)"
proof -
  have "list_inv wid \<Longrightarrow> list_inv (fold (add_friend ui w) friends wid)" for wid
    by (induction friends arbitrary: wid) (auto intro: list_inv_step list_step.added)
  moreover assume "list_inv wid"
  ultimately show ?thesis by (simp add: slot_ac_login_def list_inv_step [OF list_step.login])
qed

lemma list_inv_info: "list_inv wid \<Longrightarrow> list_inv (wid\<lparr>li_info := info\<rparr>)"
  by (rule list_inv_same [OF field_quiet(1)])

lemma client_slot_moves: "client_slot ui env w click sig app = Inr app' \<Longrightarrow> app_moves app app'"
proof (cases sig)
  case (Cs_ac_login account nickname icon friends)
  assume "client_slot ui env w click sig app = Inr app'"
  then have "on_list env (\<lambda>wid. Inr (slot_ac_login ui w account nickname icon friends wid)) (app\<lparr>ap_visible := True\<rparr>) = Inr app'"
    by (simp add: client_slot_def Cs_ac_login)
  then have "app_moves (app\<lparr>ap_visible := True\<rparr>) app'" by (rule on_list_moves) (auto intro: list_inv_login)
  then show ?thesis by (rule app_moves_trans [OF app_moves_fields(1)])
next
  case (Cs_ac_info_all types info)
  assume a: "client_slot ui env w click sig app = Inr app'"
  have "app_moves app app'" if "on_list env (add_person_account ui info) app = Inr app'"
    using that by (rule on_list_moves) (blast intro: list_inv_step list_step.own_info)
  moreover have "app_moves app app'" if "on_list env (add_person_friends ui info) app = Inr app'"
    using that by (rule on_list_moves) (blast intro: list_inv_step list_step.friend_info)
  moreover have "app_moves app app'" if "rbind (find_back ui w info (wi_add (li_info (ap_list app)))) (\<lambda>(ask, ad).
        let app = app\<lparr>ap_list := (ap_list app)\<lparr>li_info := (li_info (ap_list app))\<lparr>wi_add := ad\<rparr>\<rparr>\<rparr>
        in Inr (case ask of None \<Rightarrow> app | Some account \<Rightarrow> app\<lparr>ap_find_downloads := ap_find_downloads app @ [account]\<rparr>)) = Inr app'"
    using that by (auto simp: rbind_eq_Inr Let_def app_moves_def list_inv_info split: option.splits)
  ultimately show ?thesis using a by (auto simp: client_slot_def Cs_ac_info_all slot_ac_info_all_def split: if_splits)
next
  case (Cs_update_info icon ok)
  assume "client_slot ui env w click sig app = Inr app'"
  then have "on_list env (slot_update_info ui click icon ok) app = Inr app'" by (simp add: client_slot_def Cs_update_info)
  then show ?thesis
    by (rule on_list_moves)
      (auto simp: slot_update_info_def rbind_eq_Inr list_inv_info split: if_splits intro: list_inv_step list_step.info_icon)
next
  case (Cs_update_remarks friends remarks)
  assume "client_slot ui env w click sig app = Inr app'"
  then have "on_list env (add_friend_remarks ui friends remarks) app = Inr app'" by (simp add: client_slot_def Cs_update_remarks)
  then show ?thesis by (rule on_list_moves) (blast intro: list_inv_step list_step.remarks)
next
  case Cs_open
  assume "client_slot ui env w click sig app = Inr app'"
  then show ?thesis
    by (auto simp: client_slot_def Cs_open slot_open_def rbind_eq_Inr intro: app_moves_client dest: ask_moves(5))
next
  case (Cs_recv_msg msg)
  assume "client_slot ui env w click sig app = Inr app'"
  then show ?thesis by (auto simp: client_slot_def Cs_recv_msg intro: recv_slot_moves)
qed (simp_all add: client_slot_def)

lemma client_slots_moves: "client_slots ui env w click sigs app = Inr app' \<Longrightarrow> app_moves app app'"
  by (induction sigs arbitrary: app) (auto simp: rbind_eq_Inr dest: client_slot_moves intro: app_moves_trans)

lemma app_message_moves:
  assumes "json_codec (en_codec env)" "app_message ui env w click s app = Inr app'"
  shows "app_moves app app'"
proof -
  obtain wc where wc: "client_sl_message env s (ap_client app) = Inr wc"
      "client_slots ui env w click (drop (length (signals (ap_client app))) (signals wc)) (app\<lparr>ap_client := wc\<rparr>) = Inr app'"
    using assms(2) by (auto simp: app_message_def rbind_eq_Inr)
  have "client_moves (ap_client app) wc" by (rule client_step_moves [OF assms(1) client_step.message [OF wc(1)]])
  with client_slots_moves [OF wc(2)] show ?thesis by (blast intro: app_moves_trans app_moves_client)
qed

lemma app_step_moves:
  assumes "json_codec (en_codec env)" "app_step ui env app app'"
  shows "app_moves app app'"
  using assms(2)
proof cases
  case (opened w click)
  have "client_moves (ap_client app) (client_sl_open (ap_client app))" by (rule client_call_moves [OF client_call.opened])
  with client_slot_moves [OF opened] show ?thesis by (blast intro: app_moves_trans app_moves_client)
next
  case (closed w click)
  have "client_moves (ap_client app) (client_sl_close (ap_client app))" by (rule client_call_moves [OF client_call.closed])
  with client_slot_moves [OF closed] show ?thesis by (blast intro: app_moves_trans app_moves_client)
next
  case (message w click s)
  then show ?thesis by (rule app_message_moves [OF assms(1)])
next
  case (clicked i)
  then show ?thesis by (rule app_clicked_moves)
next
  case (sent now i)
  then show ?thesis unfolding app_send_def by (rule on_list_moves) (blast intro: list_inv_step list_step.sent)
next
  case (dropped now ls i)
  then show ?thesis by (rule on_list_moves) (blast intro: list_inv_step list_step.dropped)
next
  case search
  then show ?thesis by (auto simp: app_find_def split: prod.splits dest: list_slot_moves)
next
  case (icon_clicked i)
  then show ?thesis by (rule on_list_moves) (auto intro: list_inv_step list_step.icon_clicked)
next
  case setting
  then show ?thesis by (rule on_list_moves) (auto intro: list_inv_step list_step.setting)
next
  case (extend tips)
  then show ?thesis by (rule on_list_moves) (auto intro: list_inv_step list_step.extend)
next
  case (change_icon fi)
  then show ?thesis by (rule on_list_moves) (auto intro: list_inv_step list_step.change_icon)
next
  case (own_save click junk save)
  then show ?thesis by (rule on_list_moves) (blast intro: list_inv_step list_step.own_save)
next
  case (friend_save click junk save)
  then show ?thesis by (rule on_list_moves) (blast intro: list_inv_step list_step.friend_save)
next
  case (downloaded ok account path)
  then show ?thesis
    by (auto simp: download_done_def intro!: app_moves_list intro: list_inv_step list_step.icon)
next
  case (uploaded ok account path w w')
  then show ?thesis
    by (auto simp: upload_done_def rbind_eq_Inr Let_def split: if_splits dest: list_slot_moves)
next
  case (found ok account path)
  then show ?thesis by (auto simp: find_done_def rbind_eq_Inr intro!: app_moves_list list_inv_info)
qed

lemma app_run_moves:
  assumes "json_codec (en_codec env)" "(app_step ui env)\<^sup>*\<^sup>* app app'"
  shows "app_moves app app'"
  using assms(2) by (induction rule: rtranclp_induct) (auto intro: app_moves_trans app_step_moves [OF assms(1)])

text \<open>
  C5: the invariants of the program. In every state the started program reaches, whatever the server sends and whatever
  the user does, one page of the list is shown, at most one chat window is visible, it is the window of the friend the list
  remembers, and only that friend's button is kept pressed; and the history, once open, is the file of one account and, as long as the
  program runs, no other file is opened.
\<close>

theorem program_invariant:
  assumes "json_codec (en_codec env)" "app_init ui junk rec d = Inr app0" "(app_step ui env)\<^sup>*\<^sup>* app0 app"
  shows "(\<exists>p. \<forall>q. li_shown (ap_list app) q \<longleftrightarrow> q = p)
    \<and> (\<forall>j < length (li_friends (ap_list app)).
        ((\<exists>ch. cf_chat (li_friends (ap_list app) ! j) = Some ch \<and> ch_shown ch) \<longleftrightarrow> li_show (ap_list app) = Some j)
        \<and> (bt_keep (fb_butt (cf_butt (li_friends (ap_list app) ! j))) \<longleftrightarrow> li_show (ap_list app) = Some j))
    \<and> (\<forall>f app'. db (dbh (ap_client app)) = Some f \<and> (app_step ui env)\<^sup>*\<^sup>* app app' \<longrightarrow>
        (\<exists>a. f = ''../data/history_'' @ to_string64 a @ ''.db'')
        \<and> (db (dbh (ap_client app')) = None \<or> db (dbh (ap_client app')) = Some f))"
proof -
  obtain wid where w: "friend_list_init ui junk = Inr wid" "ap_list app0 = set_login_info login_account login_passwd wid"
      "ap_client app0 = qweb_client_init rec d"
    using assms(2) by (auto simp: app_init_def rbind_eq_Inr)
  note m = app_run_moves [OF assms(1,3)]
  have "list_inv (ap_list app0)" unfolding w(2) by (rule list_inv_step [OF list_step.login_info list_inv_init [OF w(1)]])
  with m have l: "list_inv (ap_list app)" by (simp add: app_moves_def)
  have g: "good_history (dbh (ap_client app))"
    using m init_good(1) [of rec d] w(3) by (auto simp: app_moves_def client_moves_def history_moves_def)
  have "(\<exists>a. f = ''../data/history_'' @ to_string64 a @ ''.db'')
      \<and> (db (dbh (ap_client app')) = None \<or> db (dbh (ap_client app')) = Some f)"
    if f: "db (dbh (ap_client app)) = Some f" and r: "(app_step ui env)\<^sup>*\<^sup>* app app'" for f app'
  proof -
    obtain a where a: "hist_file (dbh (ap_client app)) = history_name a" "f = history_name a"
      using g f by (auto simp: good_history_def)
    then have "good_history (dbh (ap_client app')) \<and> hist_file (dbh (ap_client app')) = history_name a"
      using app_run_moves [OF assms(1) r] g history_name_not_template [of a]
      by (auto simp: app_moves_def client_moves_def history_moves_def)
    then show ?thesis using a history_name_not_template [of a] by (auto simp: good_history_def) (simp add: history_name_def)+
  qed
  with list_inv_shows [OF l] show ?thesis by blast
qed

lemma login_slot_returns:
  assumes "li_signals (ap_list app) = []"
  shows "\<exists>app'. client_slot ui env w click (Cs_ac_login account nickname icon []) app = Inr app' \<and> ap_client app' = ap_client app"
  using assms
  by (cases "is_exists w (Friend_List.path_icon @ icon)")
    (simp_all add: client_slot_def on_list_def slot_ac_login_def init_login_def run_signals_def list_slot_def Friend_List.emit_def Let_def)

theorem program_invariant_witness:
  "\<exists>app0 s app1. app_init demo_ui 0 \<lparr>min_delay = 0, max_delay = 0, delay_policy = 0\<rparr> [] = Inr app0
    \<and> app_message demo_ui demo_env demo_disk Click_ok s app0 = Inr app1
    \<and> db (dbh (ap_client app1)) = Some ''../data/history_3.db'' \<and> (\<exists>p. \<forall>q. li_shown (ap_list app1) q \<longleftrightarrow> q = p)
    \<and> (\<forall>app'. (app_step demo_ui demo_env)\<^sup>*\<^sup>* app1 app' \<longrightarrow>
        db (dbh (ap_client app')) = None \<or> db (dbh (ap_client app')) = Some ''../data/history_3.db'')"
proof -
  obtain wid where wid: "friend_list_init demo_ui 0 = Inr wid" using friend_list_init_returns by blast
  then have sig: "li_signals wid = []" by (auto simp: friend_list_init_def rbind_eq_Inr)
  let ?app0 = "\<lparr>ap_list = set_login_info login_account login_passwd wid, ap_client = demo_offline, ap_downloads = [],
    ap_find_downloads = [], ap_uploads = [], ap_visible = False\<rparr>"
  have a0: "app_init demo_ui 0 \<lparr>min_delay = 0, max_delay = 0, delay_policy = 0\<rparr> [] = Inr ?app0"
    using wid by (simp add: app_init_def demo_offline_def)
  obtain info where info: "get_json_vec text_codec info = Inr []" "utf8_ok info"
  proof -
    have "list_all utf8_ok []" by simp
    then obtain info where i: "set_json_vec text_codec [] = Inr info" "get_json_vec text_codec info = Inr []"
      using json_vec_read [OF tc.json_codec_axioms] by metis
    have "rbind (set_json_vec text_codec []) (\<lambda>i. Inr (utf8_ok i)) = Inr True" by code_simp
    with i that show thesis by simp
  qed
  obtain s where s: "set_ac_login_back text_codec 3 ''me'' ''i'' info = Inr s"
    using set_msg_utf8 [OF pc.protocol_codec_axioms, of "Ac_login_back 3 ''me'' ''i'' info"] info(2) by auto
  obtain st where st: "client_sl_message demo_env s demo_offline = Inr st" "db (dbh st) = Some ''../data/history_3.db''"
      "signals st = [Cs_ac_login 3 ''me'' ''i'' []]"
    using login_run [of demo_env demo_offline 3 "[]" "[]" "''me''" "''i''" info s "[]" "[]"] s info pc.protocol_codec_axioms
    by (auto simp: digits_eval)
  have "li_signals (ap_list (?app0\<lparr>ap_client := st\<rparr>)) = []" using sig by (simp add: set_login_info_def)
  from login_slot_returns [OF this, of demo_ui demo_env demo_disk Click_ok 3 "''me''" "''i''"]
  obtain app1 where app1: "client_slot demo_ui demo_env demo_disk Click_ok (Cs_ac_login 3 ''me'' ''i'' []) (?app0\<lparr>ap_client := st\<rparr>) = Inr app1"
      "ap_client app1 = st" by auto
  have m: "app_message demo_ui demo_env demo_disk Click_ok s ?app0 = Inr app1"
    using st(1,3) app1(1) by (simp add: app_message_def)
  have "(app_step demo_ui demo_env)\<^sup>*\<^sup>* ?app0 app1" by (rule r_into_rtranclp) (rule app_step.message [OF m])
  note inv = program_invariant [OF _ a0 this]
  have "db (dbh (ap_client app1)) = Some ''../data/history_3.db''" using app1(2) st(2) by simp
  moreover have "\<exists>p. \<forall>q. li_shown (ap_list app1) q \<longleftrightarrow> q = p" using inv tc.json_codec_axioms by simp
  moreover have "\<forall>app'. (app_step demo_ui demo_env)\<^sup>*\<^sup>* app1 app' \<longrightarrow>
      db (dbh (ap_client app')) = None \<or> db (dbh (ap_client app')) = Some ''../data/history_3.db''"
    using inv tc.json_codec_axioms app1(2) st(2) by simp
  ultimately show ?thesis using a0 m by blast
qed

end
