(* ===== verification/Chat_Faults.thy ===== *)
theory Chat_Faults
  imports Chat_Delivery App_Runs
begin

text \<open>
  What a message of a type the window does not know does to the program that receives it, and when a click
  on a friend returns.
\<close>

section \<open>Types with a widget\<close>

definition known_type :: "string \<Rightarrow> bool" where
  "known_type ty \<longleftrightarrow> ty = types_Text \<or> ty = types_Hint \<or> ty = types_Img"

lemma make_msg_unknown: "\<not> known_type (mt_types ct) \<Longrightarrow> input_make_msg ui ct inp = Inl (Crash Null_pointer)"
  by (simp add: input_make_msg_def known_type_def Let_def)

lemma make_msg_known: "known_type (mt_types ct) \<Longrightarrow> \<exists>m. input_make_msg ui ct inp = Inr m"
proof -
  assume "known_type (mt_types ct)"
  then obtain up where "(if mt_types ct = types_Text then Some text_update_msg
       else if mt_types ct = types_Hint then Some hint_update_msg
       else if mt_types ct = types_Img then Some img_update_msg else None) = Some up"
    by (auto simp: known_type_def type_names)
  then have "\<exists>flg img. input_make_msg ui ct inp = message_make_msg ui (up ui (mt_content ct) 375 5) flg img
      \<and> (flg = AlignCenter \<longrightarrow> img = [])"
    by (auto simp: input_make_msg_def message_constants Let_def)
  then obtain flg img where "input_make_msg ui ct inp = message_make_msg ui (up ui (mt_content ct) 375 5) flg img"
      "flg = AlignCenter \<longrightarrow> img = []" by blast
  moreover have "\<exists>m. message_make_msg ui w flg img = Inr m" if "flg = AlignCenter \<longrightarrow> img = []" for w
    using that make_msg_sides [OF refl refl, of ui w img] by (cases flg) (auto simp: message_make_msg_def Let_def)
  ultimately show ?thesis by metis
qed

lemma show_all_unknown:
  assumes "i < length (li_friends st)" "cf_chat (li_friends st ! i) = Some ch" "\<exists>m \<in> set vec. \<not> known_type (mt_types m)"
  shows "show_all_history ui i vec st = Inl (Crash Null_pointer)"
  using assms
proof (induction vec arbitrary: st ch)
  case (Cons m vec)
  show ?case
  proof (cases "known_type (mt_types m)")
    case False
    then show ?thesis using Cons.prems(2) by (simp add: show_msg_history_def upd_chat_def make_msg_unknown)
  next
    case True
    then obtain x where x: "input_make_msg ui m (ch_input ch) = Inr x" using make_msg_known by blast
    let ?st = "upd_friend i (\<lambda>ct. ct\<lparr>cf_chat := Some (add_message ui x ch)\<rparr>) st"
    have "show_msg_history ui i m st = Inr ?st" using x Cons.prems(2) by (simp add: show_msg_history_def upd_chat_def)
    moreover have "show_all_history ui i vec ?st = Inl (Crash Null_pointer)"
      by (rule Cons.IH) (use Cons.prems True in \<open>auto simp: upd_friend_nth\<close>)
    ultimately show ?thesis by simp
  qed
qed simp

lemma to_ct_msg_types [simp]: "mt_types (to_ct_msg (t, f, n, ty, ob, co)) = ty"
  by (simp add: to_ct_msg_def)

text \<open>Reading a table whole, as a first click does.\<close>

lemma read_table:
  assumes "history_sql eng tabs" "history_ready h" "db h = Some f" "tabs f d ac = Some xs"
  obtains out h' d' where "read_history eng ac [] (Some h) d = Inr (List.map to_ct_msg out, h', d')" "set out = set xs"
proof -
  let ?q = "Hs_all ac"
  let ?r = "eng_exec eng f (stmt_text ?q) d"
  obtain out where out: "mset out = mset xs" "ex_rows ?r = List.map history_cols out"
    using assms(4) history_sql.exec_rows [OF assms(1), of ?q f d] by auto
  have r: "ex_ok ?r" "ex_rows ?r = List.map history_cols out @ []"
    using assms(4) history_sql.exec_ok [OF assms(1), of ?q f d] out(2) by simp_all
  have "\<exists>st'. rbind (select_history eng ac [] [] h d) (\<lambda>(ok, vec_line, st', d').
      if ok then show_rows eng ac vec_line [] st' d' else Inr ([], st', d'))
    = Inr (if [] = ([] :: row list) then ([] @ List.map to_ct_msg out, st', run_all eng f (List.map (mark_read ac) out) (ex_db ?r))
           else ([], st', ex_db ?r)) \<and> history_ready st' \<and> db st' = Some f"
    by (rule reader_run [OF assms(2,3) refl r]) simp_all
  with that mset_eq_setD [OF out(1)] show thesis by (auto simp: read_history_def)
qed

section \<open>A message of another type\<close>

lemma first_click_unknown:
  assumes "history_sql (en_engine env) tabs" "history_open (ap_client app)"
    and "tabs (hist_file (dbh (ap_client app))) (databases (ap_client app)) ac = Some xs" "\<exists>row \<in> set xs. \<not> known_type (mt_types (to_ct_msg row))"
    and "k < length (li_friends (ap_list app))" "li_map (ap_list app) ac = Some k" "cf_chat (li_friends (ap_list app) ! k) = None"
    and "fi_friends (cf_status (li_friends (ap_list app) ! k)) = ac"
  shows "app_clicked ui env k app = Inl (Crash Null_pointer)"
proof -
  have h: "history_ready (dbh (ap_client app))" "db (dbh (ap_client app)) = Some (hist_file (dbh (ap_client app)))"
    using assms(2) by (simp_all add: history_open_def)
  obtain out h' d' where r: "read_history (en_engine env) ac [] (Some (dbh (ap_client app))) (databases (ap_client app))
      = Inr (List.map to_ct_msg out, h', d')" "set out = set xs"
    using read_table [OF assms(1) h assms(3)] by blast
  let ?chat = "wid_chat_init\<lparr>ch_input := set_icon (fi_icon (cf_status (li_friends (ap_list app) ! k))) (li_icon (ap_list app)) (ch_input wid_chat_init)\<rparr>"
  let ?wid = "upd_friend k (\<lambda>ct. ct\<lparr>cf_chat := Some ?chat\<rparr>) (ap_list app)"
  have "show_all_history ui k (List.map to_ct_msg out) ?wid = Inl (Crash Null_pointer)"
    by (rule show_all_unknown [of _ _ ?chat]) (use assms(4,5) r(2) in \<open>simp_all add: upd_friend_nth\<close>)
  then have "read_slot ui env ac False (?wid, ap_client app) = Inl (Crash Null_pointer)"
    using r(1) assms(6) by (simp add: read_slot_def init_db_def set_history_msg_def get_friend_def)
  then have "make_chat (read_slot ui env) k (ap_list app, ap_client app) = Inl (Crash Null_pointer)"
    using assms(7,8) by (simp add: make_chat_def Let_def)
  then show ?thesis by (simp add: app_clicked_def on_both_def friend_clicked_def)
qed

text \<open>
  C37: a message of an unknown type ends the program of its receiver, again and again. The type is what the
  sender wrote. If the chat with the sender is in front, the program stores the message and then calls through a
  null pointer; and whenever the program is started again with the history that was left behind, the first
  click on that friend does the same.
\<close>

theorem unknown_type_poisons:
  assumes "protocol_codec (en_codec env)" "history_sql (en_engine env) tabs" "history_open (ap_client app)"
    and "set_swap_msg (en_codec env) b a t ty co = Inr s" "brace_free ty" "plain_text ty" "plain_text co"
    and "ty \<notin> {''Text'', ''Hint'', ''Img''}"
    and "li_map (ap_list app) a = Some i" "i < length (li_friends (ap_list app))"
    and "cf_chat (li_friends (ap_list app) ! i) = Some ch" "li_show (ap_list app) = Some i"
    and "f = hist_file (dbh (ap_client app))" "tabs f (databases (ap_client app)) a = Some xs" "t \<notin> fst ` set xs"
  shows "app_message ui env w click s app = Inl (Crash Null_pointer)
    \<and> (\<exists>st1. client_sl_message env s (ap_client app) = Inr st1
      \<and> (\<forall>app2 k. history_open (ap_client app2)
          \<and> tabs (hist_file (dbh (ap_client app2))) (databases (ap_client app2)) a = tabs f (databases st1) a
          \<and> k < length (li_friends (ap_list app2)) \<and> li_map (ap_list app2) a = Some k
          \<and> cf_chat (li_friends (ap_list app2) ! k) = None \<and> fi_friends (cf_status (li_friends (ap_list app2) ! k)) = a
        \<longrightarrow> app_clicked ui env k app2 = Inl (Crash Null_pointer)))"
proof -
  let ?row = "(t, t, 1, ty, object_AL, co)"
  let ?m = "\<lparr>sm_target = b, sm_source = a, sm_time_to = t, sm_types = ty, sm_content = co\<rparr>"
  let ?ys = "insort_key row_time ?row xs"
  have bad: "\<not> known_type ty" using assms(8) by (simp add: known_type_def type_names)
  obtain st1 where st1: "client_sl_message env s (ap_client app) = Inr st1" "history_open st1" "hist_file (dbh st1) = f"
      "tabs f (databases st1) = snd (snd (run_stmt (Hs_insert a ?row) (tabs f (databases (ap_client app)))))"
      "signals st1 = signals (ap_client app) @ [Cs_recv_msg ?m]"
    using swap_msg_stored [OF assms(1-7)] assms(13) by blast
  have tab: "tabs f (databases st1) a = Some ?ys"
    using st1(4) assms(14,15) by (simp add: flag_def row_unread_def)
  have row: "?row \<in> set ?ys" by (simp add: set_insort_key)
  have h1: "history_ready (dbh st1)" "db (dbh st1) = Some f" using st1(2,3) by (simp_all add: history_open_def)
  obtain out h d where r: "read_history_non_read (en_engine env) a [] (Some (dbh st1)) (databases st1)
      = Inr (List.map to_ct_msg out, h, d)" "mset out = mset (filter (\<lambda>row. row_unread row = 1) ?ys)"
    using history_sql.read_unread [OF assms(2) h1 tab, of "[]"] by auto
  have "\<exists>m \<in> set (List.map to_ct_msg out). \<not> known_type (mt_types m)"
    unfolding set_map mset_eq_setD [OF r(2)] using row bad by (force simp: row_unread_def simp del: set_insort_key)
  from show_all_unknown [OF assms(10,11) this, of ui]
  have "read_slot ui env a True (ap_list app, st1) = Inl (Crash Null_pointer)"
    using r(1) assms(9) by (simp add: read_slot_def init_db_def set_history_msg_def get_friend_def)
  then have "app_message ui env w click s app = Inl (Crash Null_pointer)"
    using st1(1,5) assms(9,11,12)
    by (simp add: app_message_def client_slot_def on_both_def add_recv_msg_def get_friend_def Let_def)
  moreover have "\<exists>row \<in> set ?ys. \<not> known_type (mt_types (to_ct_msg row))"
    by (rule bexI [OF _ row]) (simp add: bad)
  then have "app_clicked ui env k app2 = Inl (Crash Null_pointer)"
    if "history_open (ap_client app2)" "tabs (hist_file (dbh (ap_client app2))) (databases (ap_client app2)) a = tabs f (databases st1) a"
      "k < length (li_friends (ap_list app2))" "li_map (ap_list app2) a = Some k"
      "cf_chat (li_friends (ap_list app2) ! k) = None" "fi_friends (cf_status (li_friends (ap_list app2) ! k)) = a" for app2 k
    using first_click_unknown [OF assms(2) that(1) _ _ that(3-6), of ?ys ui] that(2) tab by simp
  ultimately show ?thesis using st1(1) by blast
qed

theorem unknown_type_poisons_witness:
  "\<exists>st s. friend_list_init demo_ui 0 = Inr st \<and> set_swap_msg text_codec 2 7 5 ''File'' ''x'' = Inr s
    \<and> app_message demo_ui store_env demo_disk Click_ok s (delivery_app 2 7 st) = Inl (Crash Null_pointer)"
proof -
  obtain st where st: "friend_list_init demo_ui 0 = Inr st" using friend_list_init_returns by blast
  obtain s where s: "set_swap_msg text_codec 2 7 5 ''File'' ''x'' = Inr s"
    using set_msg_utf8 [OF pc.protocol_codec_axioms, of "Swap_msg 2 7 5 ''File'' ''x''"] by auto
  have c: "protocol_codec (en_codec store_env)" "history_sql (en_engine store_env) disk_tabs"
    using pc.protocol_codec_axioms hs.history_sql_axioms by simp_all
  have t: "brace_free ''File''" "plain_text ''File''" "plain_text ''x''" "''File'' \<notin> {''Text'', ''Hint'', ''Img''}"
    by (simp_all add: brace_free_def plain_text_def)
  have l: "0 < length (li_friends (ap_list (delivery_app 2 7 st)))" "(5 :: int64) \<notin> fst ` set ([] :: history_row list)" by simp_all
  have s': "set_swap_msg (en_codec store_env) 2 7 5 ''File'' ''x'' = Inr s" using s by simp
  have pos: "0 \<le> sint (7 :: int64)" by simp
  note D = delivery_app_simps(1,2,3,12,8,9) [where me = 2 and other = 7 and st = st]
  have "app_message demo_ui store_env demo_disk Click_ok s (delivery_app 2 7 st) = Inl (Crash Null_pointer)"
    using unknown_type_poisons [where app = "delivery_app 2 7 st" and tabs = disk_tabs, OF c D(1) s' t D(4) l(1) D(5,6) D(3) [symmetric] D(2) [OF pos] l(2)]
    by (rule conjunct1)
  with st s show ?thesis by blast
qed

end
