(* ===== verification/Swap_Files.thy ===== *)
theory Swap_Files
  imports Transfer_Laws
begin

text \<open>
  \<open>swap_files.h\<close>: the class \<open>swap_files\<close>, the older table of transfers, which has no progress report but
  a queue of the files to send. Its static functions are those of \<open>files_info\<close>. The callbacks are
  arguments, as for \<open>files_io\<close>; the send callback of a file is found by its identifier.
\<close>

section \<open>Files\<close>

definition sf_is_file :: "world \<Rightarrow> string \<Rightarrow> bool" where
  "sf_is_file w path = fs_is_regular w path"

definition sf_is_exists :: "world \<Rightarrow> string \<Rightarrow> bool" where
  "sf_is_exists w path = fs_exists w path"

definition sf_remove_file :: "world \<Rightarrow> string \<Rightarrow> (bool \<times> world) res" where
  "sf_remove_file w path = fs_remove w path"

definition sf_get_file_size :: "world \<Rightarrow> string \<Rightarrow> int64 res" where
  "sf_get_file_size w path = fs_file_size w path"

definition sf_get_filename_none :: "string \<Rightarrow> string" where
  "sf_get_filename_none path = path_stem path"

definition sf_get_filename :: "string \<Rightarrow> string" where
  "sf_get_filename path = path_filename path"

definition get_extension :: "string \<Rightarrow> string" where
  "get_extension path = path_extension path"

definition sf_is_can_read :: "world \<Rightarrow> string \<Rightarrow> bool" where
  "sf_is_can_read w path = fs_owner_read w path"

partial_function (option) sf_make_none_repeat_file :: "world \<Rightarrow> string \<Rightarrow> string \<Rightarrow> string option" where
  "sf_make_none_repeat_file w in_path in_filename =
     (let abs_file = in_path @ ''/'' @ in_filename in
      if sf_is_exists w abs_file then
        (let file_none = sf_get_filename_none in_filename @ ''_'';
             filename = file_none @ get_extension in_filename
         in sf_make_none_repeat_file w in_path filename)
      else Some in_filename)"

section \<open>The object\<close>

record swap_recv =
  sr_count :: int64
  sr_length_max :: int64
  sr_filename :: string
  sr_fs :: wstream

record swap_send =
  ss_count :: int64
  ss_length_max :: int64
  ss_filename :: string
  ss_fs :: rstream

record swap_files =
  sw_recv :: "int64 \<rightharpoonup> swap_recv"
  sw_send :: "int64 \<rightharpoonup> swap_send"
  que_send :: "int64 list"
  sw_disk :: world

definition swap_files_init :: "world \<Rightarrow> swap_files" where
  "swap_files_init w = \<lparr>sw_recv = Map.empty, sw_send = Map.empty, que_send = [], sw_disk = w\<rparr>"

text \<open>The queue, its front first. The back of an empty queue is not there to be read.\<close>

definition add_send_queue :: "int64 \<Rightarrow> swap_files \<Rightarrow> swap_files" where
  "add_send_queue i st = st\<lparr>que_send := que_send st @ [i]\<rparr>"

definition remove_send_queue :: "swap_files \<Rightarrow> (int64 \<times> swap_files) res" where
  "remove_send_queue st =
     (if que_send st = [] then Inl (Crash Null_pointer)
      else Inr (last (que_send st), st\<lparr>que_send := tl (que_send st)\<rparr>))"

definition get_send_size_queue :: "swap_files \<Rightarrow> nat" where
  "get_send_size_queue st = length (que_send st)"

subsection \<open>Sending\<close>

definition sf_open_file_send :: "int64 \<Rightarrow> string \<Rightarrow> bool \<Rightarrow> swap_files \<Rightarrow> (bool \<times> swap_files) res" where
  "sf_open_file_send i filename ready st =
     (if sw_send st i \<noteq> None then Inr (False, st)
      else (case rs_open (sw_disk st) filename of
          None \<Rightarrow> Inr (False, st)
        | Some sp_fs \<Rightarrow>
            (let st1 = (if ready then add_send_queue i st else st)
             in rbind (sf_get_file_size (sw_disk st1) filename) (\<lambda>len.
                Inr (True, st1\<lparr>sw_send := (sw_send st1)(i \<mapsto>
                  \<lparr>ss_count = 0, ss_length_max = len, ss_filename = filename, ss_fs = sp_fs\<rparr>)\<rparr>)))))"

type_synonym 'x swap_cb = "int64 \<Rightarrow> string \<Rightarrow> 'x \<Rightarrow> bool \<times> 'x"

function sf_send_loop :: "'x swap_cb \<Rightarrow> int64 \<Rightarrow> swap_send \<Rightarrow> swap_files \<Rightarrow> 'x \<Rightarrow> bool \<times> swap_files \<times> 'x" where
  "sf_send_loop cb i sp st x =
     (if rs_eof (ss_fs sp) then (True, st, x)
      else (let (buf, sp_fs) = rs_read 1024 (ss_fs sp);
                sp1 = sp\<lparr>ss_fs := sp_fs, ss_count := ss_count sp + word_of_nat (length buf)\<rparr>;
                st1 = st\<lparr>sw_send := (sw_send st)(i \<mapsto> sp1)\<rparr>;
                (is_send, x1) = cb i buf x
            in if is_send = False then (False, st1, x1) else sf_send_loop cb i sp1 st1 x1))"
  by pat_completeness auto

termination
  by (relation "measure (\<lambda>(cb, i, sp, st, x). if rs_eof (ss_fs sp) then 0 else Suc (length (rs_rest (ss_fs sp))))")
    (auto simp: rs_read_def)

declare sf_send_loop.simps [simp del]

definition sf_add_data_send :: "'x swap_cb \<Rightarrow> int64 \<Rightarrow> swap_files \<Rightarrow> 'x \<Rightarrow> bool \<times> swap_files \<times> 'x" where
  "sf_add_data_send cb i st x = (case sw_send st i of
       Some sp \<Rightarrow> sf_send_loop cb i sp st x
     | None \<Rightarrow> (True, st, x))"

definition sf_close_file_send :: "int64 \<Rightarrow> swap_files \<Rightarrow> swap_files" where
  "sf_close_file_send i st = (case sw_send st i of
       Some sp \<Rightarrow> st\<lparr>sw_send := (sw_send st)(i := None)\<rparr>
     | None \<Rightarrow> st)"

subsection \<open>Receiving\<close>

definition sf_open_file_recv :: "int64 \<Rightarrow> int64 \<Rightarrow> string \<Rightarrow> swap_files \<Rightarrow> bool \<times> swap_files" where
  "sf_open_file_recv i length_max filename st =
     (if sw_recv st i \<noteq> None then (False, st)
      else (case ws_open (sw_disk st) filename of
          None \<Rightarrow> (False, st)
        | Some (sp_fs, w) \<Rightarrow>
            (True, st\<lparr>sw_disk := w, sw_recv := (sw_recv st)(i \<mapsto>
              \<lparr>sr_count = 0, sr_length_max = length_max, sr_filename = filename, sr_fs = sp_fs\<rparr>)\<rparr>)))"

definition sf_add_data_recv :: "int64 \<Rightarrow> string \<Rightarrow> swap_files \<Rightarrow> bool \<times> swap_files" where
  "sf_add_data_recv i data st = (case sw_recv st i of
       Some sp \<Rightarrow>
         (let (sp_fs, w) = ws_write data (sr_fs sp) (sw_disk st);
              ok = ws_good sp_fs;
              sp1 = sp\<lparr>sr_fs := sp_fs, sr_count := (if ok then sr_count sp + word_of_nat (length data) else sr_count sp)\<rparr>
          in (ok, st\<lparr>sw_disk := w, sw_recv := (sw_recv st)(i \<mapsto> sp1)\<rparr>))
     | None \<Rightarrow> (False, st))"

definition sf_close_file_recv :: "int64 \<Rightarrow> swap_files \<Rightarrow> swap_files" where
  "sf_close_file_recv i st = (case sw_recv st i of
       Some sp \<Rightarrow> st\<lparr>sw_recv := (sw_recv st)(i := None)\<rparr>
     | None \<Rightarrow> st)"

definition sf_find_fs_recv :: "int64 \<Rightarrow> swap_files \<Rightarrow> swap_recv option" where
  "sf_find_fs_recv i st = sw_recv st i"

definition sf_find_fs_send :: "int64 \<Rightarrow> swap_files \<Rightarrow> swap_send option" where
  "sf_find_fs_send i st = sw_send st i"

subsection \<open>The queue of files to send\<close>

text \<open>The rounds that are left of the loop of \<open>start_send_queue\<close>, whose number is fixed at its start.\<close>

primrec send_rounds :: "(bool \<Rightarrow> int64 \<Rightarrow> 'x \<Rightarrow> bool \<times> 'x) \<Rightarrow> 'x swap_cb \<Rightarrow> nat \<Rightarrow> swap_files \<Rightarrow> 'x
    \<Rightarrow> (swap_files \<times> 'x) res" where
  "send_rounds fn_finish_cb cb 0 st x = Inr (st, x)"
| "send_rounds fn_finish_cb cb (Suc n) st x =
     rbind (remove_send_queue st) (\<lambda>(i, st).
       let (ok, st, x) = sf_add_data_send cb i st x;
           (is_send, x) = fn_finish_cb ok i x;
           st = (if is_send \<and> ok = False then add_send_queue i st else sf_close_file_send i st)
       in send_rounds fn_finish_cb cb n st x)"

definition start_send_queue :: "(bool \<Rightarrow> int64 \<Rightarrow> 'x \<Rightarrow> bool \<times> 'x) \<Rightarrow> 'x swap_cb \<Rightarrow> swap_files \<Rightarrow> 'x
    \<Rightarrow> (nat \<times> swap_files \<times> 'x) res" where
  "start_send_queue fn_finish_cb cb st x =
     rbind (send_rounds fn_finish_cb cb (length (que_send st)) st x) (\<lambda>(st, x).
     Inr (length (que_send st), st, x))"

subsection \<open>Closing everything\<close>

definition close_map_recv :: "swap_files \<Rightarrow> swap_files" where
  "close_map_recv st = st\<lparr>sw_recv := Map.empty\<rparr>"

definition close_map_send :: "swap_files \<Rightarrow> swap_files" where
  "close_map_send st = st\<lparr>sw_send := Map.empty, que_send := []\<rparr>"

definition sf_reset :: "swap_files \<Rightarrow> swap_files" where
  "sf_reset st = close_map_send (close_map_recv st)"

section \<open>The queue sends one file\<close>

lemma sf_send_loop_step:
  assumes "\<not> rs_eof (ss_fs sp)" "rs_read 1024 (ss_fs sp) = (buf, s')" "cb i buf x = (b, x1)"
    and "sp1 = sp\<lparr>ss_fs := s', ss_count := ss_count sp + word_of_nat (length buf)\<rparr>"
  shows "sf_send_loop cb i sp st x
    = (if b then sf_send_loop cb i sp1 (st\<lparr>sw_send := (sw_send st)(i \<mapsto> sp1)\<rparr>) x1
       else (False, st\<lparr>sw_send := (sw_send st)(i \<mapsto> sp1)\<rparr>, x1))"
  using assms by (subst sf_send_loop.simps) (simp add: Let_def)

lemma sf_send_loop_eof: "rs_eof (ss_fs sp) \<Longrightarrow> sf_send_loop cb i sp st x = (True, st, x)"
  by (simp add: sf_send_loop.simps)

definition same_others :: "int64 \<Rightarrow> swap_files \<Rightarrow> swap_files \<Rightarrow> bool" where
  "same_others i st st' \<longleftrightarrow> sw_recv st' = sw_recv st \<and> sw_disk st' = sw_disk st \<and> (\<forall>j. j \<noteq> i \<longrightarrow> sw_send st' j = sw_send st j)"

lemma same_others_simps [simp]:
  "same_others i st st" "same_others i st (st'\<lparr>que_send := q\<rparr>) = same_others i st st'"
  "same_others i st (st\<lparr>sw_send := (sw_send st)(i := v)\<rparr>)"
  by (auto simp: same_others_def)

lemma same_others_trans: "same_others i st st1 \<Longrightarrow> same_others i st1 st2 \<Longrightarrow> same_others i st st2"
  by (auto simp: same_others_def)

lemma sf_send_loop_frame:
  "sf_send_loop cb i sp st x = (ok, st', x') \<Longrightarrow> que_send st' = que_send st \<and> same_others i st st'"
proof (induction "length (rs_rest (ss_fs sp))" arbitrary: sp st x rule: less_induct)
  case less
  show ?case
  proof (cases "rs_eof (ss_fs sp)")
    case True
    with less(2) show ?thesis by (simp add: sf_send_loop_eof)
  next
    case False
    obtain buf s' where r: "rs_read 1024 (ss_fs sp) = (buf, s')" by (rule prod.exhaust)
    obtain b x1 where c: "cb i buf x = (b, x1)" by (rule prod.exhaust)
    let ?sp1 = "sp\<lparr>ss_fs := s', ss_count := ss_count sp + word_of_nat (length buf)\<rparr>"
    let ?st1 = "st\<lparr>sw_send := (sw_send st)(i \<mapsto> ?sp1)\<rparr>"
    note step = sf_send_loop_step [OF False r, of cb i x b x1 ?sp1 st, OF c refl]
    show ?thesis
    proof (cases b)
      case False
      with step less(2) show ?thesis by auto
    next
      case True
      with step less(2) have run: "sf_send_loop cb i ?sp1 ?st1 x1 = (ok, st', x')" by simp
      show ?thesis
      proof (cases "rs_eof s'")
        case True
        with run have "st' = ?st1" by (simp add: sf_send_loop_eof)
        then show ?thesis by simp
      next
        case False
        with r have "length (rs_rest s') < length (rs_rest (ss_fs sp))" by (auto simp: rs_read_def)
        with less(1) [of ?sp1 ?st1 x1] run have "que_send st' = que_send st \<and> same_others i ?st1 st'" by simp
        moreover have "same_others i st ?st1" by simp
        ultimately show ?thesis using same_others_trans by blast
      qed
    qed
  qed
qed

text \<open>Only the callback of the file itself is called.\<close>

lemma sf_send_loop_own:
  "cb i = cb' i \<Longrightarrow> sf_send_loop cb i sp st x = sf_send_loop cb' i sp st x"
proof (induction "length (rs_rest (ss_fs sp))" arbitrary: sp st x rule: less_induct)
  case less
  show ?case
  proof (cases "rs_eof (ss_fs sp)")
    case False
    obtain buf s' where r: "rs_read 1024 (ss_fs sp) = (buf, s')" by (rule prod.exhaust)
    obtain b x1 where c: "cb i buf x = (b, x1)" by (rule prod.exhaust)
    let ?sp1 = "sp\<lparr>ss_fs := s', ss_count := ss_count sp + word_of_nat (length buf)\<rparr>"
    let ?st1 = "st\<lparr>sw_send := (sw_send st)(i \<mapsto> ?sp1)\<rparr>"
    from c less(2) have c': "cb' i buf x = (b, x1)" by simp
    note steps = sf_send_loop_step [OF False r, of cb i x b x1 ?sp1 st, OF c refl]
      sf_send_loop_step [OF False r, of cb' i x b x1 ?sp1 st, OF c' refl]
    have "sf_send_loop cb i ?sp1 ?st1 x1 = sf_send_loop cb' i ?sp1 ?st1 x1"
    proof (cases "rs_eof s'")
      case False
      with r have "length (rs_rest (ss_fs ?sp1)) < length (rs_rest (ss_fs sp))" by (auto simp: rs_read_def)
      from less(1) [OF this less(2)] show ?thesis .
    qed (simp add: sf_send_loop_eof)
    with steps show ?thesis by simp
  qed (simp add: sf_send_loop_eof)
qed

lemma sf_add_data_send_own: "cb i = cb' i \<Longrightarrow> sf_add_data_send cb i st x = sf_add_data_send cb' i st x"
  by (simp add: sf_add_data_send_def sf_send_loop_own [of cb i cb'] split: option.splits)

lemma sf_add_data_send_frame:
  "sf_add_data_send cb i st x = (ok, st', x') \<Longrightarrow> que_send st' = que_send st \<and> same_others i st st'"
  by (auto simp: sf_add_data_send_def dest: sf_send_loop_frame split: option.splits)

text \<open>One round: the last file is served, whatever file is at the front.\<close>

definition serve :: "(bool \<Rightarrow> int64 \<Rightarrow> 'x \<Rightarrow> bool \<times> 'x) \<Rightarrow> 'x swap_cb \<Rightarrow> int64 \<Rightarrow> swap_files \<Rightarrow> 'x \<Rightarrow> swap_files \<times> 'x" where
  "serve fin cb i st x = (let (ok, st, x) = sf_add_data_send cb i st x; (is_send, x) = fin ok i x
     in (if is_send \<and> ok = False then add_send_queue i st else sf_close_file_send i st, x))"

lemma send_rounds_serve:
  "que_send st \<noteq> [] \<Longrightarrow> send_rounds fin cb (Suc n) st x
    = (case serve fin cb (last (que_send st)) (st\<lparr>que_send := tl (que_send st)\<rparr>) x of (st, x) \<Rightarrow> send_rounds fin cb n st x)"
  by (simp add: remove_send_queue_def serve_def Let_def split: prod.splits)

lemma serve_frame:
  assumes "serve fin cb i st x = (st', x')"
  shows "(que_send st' = que_send st \<or> que_send st' = que_send st @ [i]) \<and> same_others i st st'"
proof -
  obtain ok st1 x1 where s: "sf_add_data_send cb i st x = (ok, st1, x1)" by (cases "sf_add_data_send cb i st x")
  note f = sf_add_data_send_frame [OF s]
  have "same_others i st1 (sf_close_file_send i st1)"
    by (simp add: sf_close_file_send_def split: option.splits)
  then have "same_others i st (sf_close_file_send i st1)" using f same_others_trans by blast
  then show ?thesis
    using assms s f by (auto simp: serve_def add_send_queue_def sf_close_file_send_def split: prod.splits option.splits if_splits)
qed

lemma serve_own:
  assumes "cb i = cb' i" "\<And>ok. fin ok i = fin' ok i"
  shows "serve fin cb i st x = serve fin' cb' i st x"
  by (simp add: serve_def sf_add_data_send_own [of cb i cb', OF assms(1)] assms(2))

lemma send_rounds_last:
  "que_send st = ys @ replicate (Suc m) z \<Longrightarrow> cb z = cb' z \<Longrightarrow> (\<And>ok. fin ok z = fin' ok z)
    \<Longrightarrow> \<exists>st' x' m'. send_rounds fin cb (Suc (length ys)) st x = Inr (st', x')
      \<and> send_rounds fin' cb' (Suc (length ys)) st x = Inr (st', x')
      \<and> que_send st' = replicate m' z \<and> same_others z st st'"
proof (induction ys arbitrary: st x m)
  case Nil
  let ?st = "st\<lparr>que_send := replicate m z\<rparr>"
  obtain st1 x1 where s: "serve fin cb z ?st x = (st1, x1)" by (rule prod.exhaust)
  have "last (que_send st) = z" "tl (que_send st) = replicate m z" using Nil(1) by simp_all
  then have "send_rounds fin cb (Suc 0) st x = Inr (st1, x1)" "send_rounds fin' cb' (Suc 0) st x = Inr (st1, x1)"
    using Nil s serve_own [of cb z cb' fin fin', OF Nil(2,3)] by (simp_all add: send_rounds_serve del: send_rounds.simps(2))
  moreover have "que_send st1 = replicate m z \<or> que_send st1 = replicate (Suc m) z"
    using serve_frame [OF s] by (simp add: replicate_append_same)
  then obtain m' where "que_send st1 = replicate m' z" by blast
  moreover have "same_others z st st1" using serve_frame [OF s] by (simp add: same_others_def)
  ultimately show ?case by (auto simp del: send_rounds.simps(2))
next
  case (Cons y ys)
  let ?st = "st\<lparr>que_send := ys @ replicate (Suc m) z\<rparr>"
  obtain st1 x1 where s: "serve fin cb z ?st x = (st1, x1)" by (rule prod.exhaust)
  have q: "que_send st \<noteq> []" "last (que_send st) = z" "tl (que_send st) = ys @ replicate (Suc m) z" using Cons(2) by simp_all
  have "que_send st1 = ys @ replicate (Suc m) z \<or> que_send st1 = ys @ replicate (Suc (Suc m)) z"
    using serve_frame [OF s] by (simp add: replicate_append_same)
  then obtain k where k: "que_send st1 = ys @ replicate (Suc k) z" by blast
  obtain st2 x2 m' where r: "send_rounds fin cb (Suc (length ys)) st1 x1 = Inr (st2, x2)"
      "send_rounds fin' cb' (Suc (length ys)) st1 x1 = Inr (st2, x2)" "que_send st2 = replicate m' z" "same_others z st1 st2"
    using Cons(1) [OF k Cons(3,4)] by blast
  have "same_others z ?st st1" using serve_frame [OF s] by blast
  then have "same_others z st st2" using r(4) by (auto simp: same_others_def)
  moreover have "send_rounds fin cb (Suc (length (y # ys))) st x = Inr (st2, x2)"
    "send_rounds fin' cb' (Suc (length (y # ys))) st x = Inr (st2, x2)"
    using r s q serve_own [of cb z cb' fin fin', OF Cons(3,4)]
    by (simp_all only: length_Cons send_rounds_serve [OF q(1)] prod.case)
  ultimately show ?case using r(3) by blast
qed

text \<open>
  \<open>start_send_queue\<close> takes the identifier at the back of its queue but removes the one at the front.
  So one call always returns, but serves only the file that was queued last: what the callbacks would do
  for any other file does not matter, every other file stays as it was, open and with all its data unsent,
  and is no longer in the queue.
\<close>

theorem start_send_queue_last:
  assumes "que_send st = xs @ [z]" "cb z = cb' z" "\<forall>ok. fin ok z = fin' ok z"
  shows "\<exists>st' x'. start_send_queue fin cb st x = Inr (length (que_send st'), st', x')
    \<and> start_send_queue fin' cb' st x = Inr (length (que_send st'), st', x')
    \<and> set (que_send st') \<subseteq> {z} \<and> (\<forall>j. j \<noteq> z \<longrightarrow> sw_send st' j = sw_send st j)"
proof -
  have q: "que_send st = xs @ replicate (Suc 0) z" using assms(1) by simp
  obtain st' x' m' where "send_rounds fin cb (Suc (length xs)) st x = Inr (st', x')"
      "send_rounds fin' cb' (Suc (length xs)) st x = Inr (st', x')" "que_send st' = replicate m' z" "same_others z st st'"
    using send_rounds_last [where ys = xs and m = 0 and z = z and cb = cb and cb' = cb' and fin = fin and fin' = fin' and st = st and x = x, OF q assms(2)]
      assms(3) by blast
  moreover from this have "set (que_send st') \<subseteq> {z}" by auto
  ultimately show ?thesis using assms(1)
    by (simp add: start_send_queue_def same_others_def del: send_rounds.simps(2))
qed

definition demo_swap :: swap_files where
  "demo_swap = (swap_files_init demo_disk)\<lparr>que_send := [1, 2],
     sw_send := [1 \<mapsto> \<lparr>ss_count = 0, ss_length_max = 2, ss_filename = ''a'', ss_fs = \<lparr>rs_rest = ''aa'', rs_eof = False\<rparr>\<rparr>,
                 2 \<mapsto> \<lparr>ss_count = 0, ss_length_max = 1, ss_filename = ''b'', ss_fs = \<lparr>rs_rest = ''b'', rs_eof = False\<rparr>\<rparr>]\<rparr>"

theorem start_send_queue_last_witness:
  "\<exists>st. start_send_queue (\<lambda>ok i x. (True, x)) (\<lambda>i d x. (True, x @ [d])) demo_swap [] = Inr (0, st, [''b''])
    \<and> map_option ss_fs (sw_send st 1) = Some \<lparr>rs_rest = ''aa'', rs_eof = False\<rparr>"
proof -
  let ?fin = "\<lambda>ok (i :: int64) x. (True, x)" and ?cb = "\<lambda>(i :: int64) d x. (True, x @ [d :: string])"
  obtain st x where q: "start_send_queue ?fin ?cb demo_swap [] = Inr (length (que_send st), st, x)"
      "\<forall>j. j \<noteq> 2 \<longrightarrow> sw_send st j = sw_send demo_swap j"
    using start_send_queue_last [of demo_swap "[1]" 2 ?cb ?cb ?fin ?fin "[]"] by (auto simp: demo_swap_def)
  have "rbind (start_send_queue ?fin ?cb demo_swap []) (\<lambda>(n, st, x). Inr (n, x)) = Inr (0, [''b''])"
    by (simp add: start_send_queue_def numeral_2_eq_2 demo_swap_def remove_send_queue_def sf_add_data_send_def
        sf_send_loop.simps rs_read_def sf_close_file_send_def)
  with q have "start_send_queue ?fin ?cb demo_swap [] = Inr (0, st, [''b''])" by auto
  moreover have "sw_send st 1 = sw_send demo_swap 1" using q(2) by simp
  ultimately show ?thesis by (auto simp: demo_swap_def)
qed

section \<open>The newer class does the same\<close>

text \<open>A \<open>files_io\<close> without what it keeps for the progress report.\<close>

definition drop_send :: "fs_send \<Rightarrow> swap_send" where
  "drop_send sp = \<lparr>ss_count = count_send sp, ss_length_max = send_length_max sp, ss_filename = send_filename sp, ss_fs = send_fs sp\<rparr>"

definition drop_recv :: "fs_recv \<Rightarrow> swap_recv" where
  "drop_recv sp = \<lparr>sr_count = count_recv sp, sr_length_max = recv_length_max sp, sr_filename = recv_filename sp, sr_fs = recv_fs sp\<rparr>"

definition swap_of :: "'a files_io_scheme \<Rightarrow> swap_files" where
  "swap_of st = \<lparr>sw_recv = (\<lambda>i. map_option drop_recv (map_recv st i)), sw_send = (\<lambda>i. map_option drop_send (map_send st i)),
     que_send = [], sw_disk = disk st\<rparr>"

text \<open>A send callback that acts on one part of the program, and a progress callback that acts on another.\<close>

definition send_part :: "'x swap_cb \<Rightarrow> ('a files_io_scheme, 'x \<times> 'p) send_cb" where
  "send_part cb = (\<lambda>i d st (x, p). let (b, x') = cb i d x in (b, (x', p)))"

definition prog_part :: "'p prog_cb \<Rightarrow> ('x \<times> 'p) prog_cb" where
  "prog_part pcb = (\<lambda>i pr n m (x, p). (x, pcb i pr n m p))"

lemma swap_of_update:
  "swap_of (st\<lparr>map_send := (map_send st)(i \<mapsto> sp)\<rparr>) = (swap_of st)\<lparr>sw_send := (sw_send (swap_of st))(i \<mapsto> drop_send sp)\<rparr>"
  by (auto simp: swap_of_def fun_eq_iff)

lemma note_send_drop:
  "note_send (prog_part pcb) i sp p xp = (sp', xp') \<Longrightarrow> drop_send sp' = drop_send sp \<and> fst xp' = fst xp"
  by (cases xp) (auto simp: note_send_def prog_part_def drop_send_def split: if_splits)

lemma send_loop_drop:
  "send_length_max sp \<noteq> 0
    \<Longrightarrow> \<exists>ok st' xp'. send_loop (send_part cb) (prog_part pcb) i sp st xp = Inr (ok, st', xp')
      \<and> sf_send_loop cb i (drop_send sp) (swap_of st) (fst xp) = (ok, swap_of st', fst xp')"
proof (induction "if rs_eof (send_fs sp) then 0 else Suc (length (rs_rest (send_fs sp)))" arbitrary: sp st xp rule: less_induct)
  case less
  show ?case
  proof (cases "rs_eof (send_fs sp)")
    case True
    then show ?thesis by (simp add: send_loop.simps sf_send_loop_eof drop_send_def) blast
  next
    case False
    obtain buf s' where r: "rs_read 1024 (send_fs sp) = (buf, s')" by (rule prod.exhaust)
    obtain x p where xp: "xp = (x, p)" by (rule prod.exhaust)
    obtain b x1 where c: "cb i buf x = (b, x1)" by (rule prod.exhaust)
    let ?sp1 = "sp\<lparr>send_fs := s', count_send := count_send sp + word_of_nat (length buf)\<rparr>"
    let ?st1 = "st\<lparr>map_send := (map_send st)(i \<mapsto> ?sp1)\<rparr>"
    have cb: "send_part cb i buf ?st1 xp = (b, (x1, p))" by (simp add: send_part_def xp c)
    obtain pr where pr: "calc_prog (count_send ?sp1) (send_length_max ?sp1) = Inr pr"
      using calc_prog_defined [of "send_length_max ?sp1"] less(2) by auto
    obtain sp2 xp2 where n: "note_send (prog_part pcb) i ?sp1 pr (x1, p) = (sp2, xp2)" by (rule prod.exhaust)
    have sp2: "drop_send sp2 = drop_send ?sp1" "fst xp2 = x1" using note_send_drop [OF n] by simp_all
    let ?st2 = "st\<lparr>map_send := (map_send st)(i \<mapsto> sp2)\<rparr>"
    have step: "send_step (send_part cb) (prog_part pcb) i sp st xp = Inr (b, sp2, ?st2, xp2)"
      using r cb pr n by (simp add: send_step_def)
    have d1: "drop_send ?sp1 = (drop_send sp)\<lparr>ss_fs := s', ss_count := ss_count (drop_send sp) + word_of_nat (length buf)\<rparr>"
      by (simp add: drop_send_def)
    have ne: "\<not> rs_eof (ss_fs (drop_send sp))" "rs_read 1024 (ss_fs (drop_send sp)) = (buf, s')"
      using False r by (simp_all add: drop_send_def)
    note sf = sf_send_loop_step [OF ne, of cb i x b x1 "drop_send ?sp1" "swap_of st", OF c d1]
    have st2: "swap_of ?st2 = (swap_of st)\<lparr>sw_send := (sw_send (swap_of st))(i \<mapsto> drop_send ?sp1)\<rparr>"
      using sp2(1) by (simp add: swap_of_update)
    show ?thesis
    proof (cases b)
      case b: False
      then show ?thesis using step sf st2 sp2(2) xp False
        by (simp add: send_loop.simps [of _ _ _ sp]) blast
    next
      case b: True
      have fs2: "send_fs sp2 = s'" "send_length_max sp2 = send_length_max sp" using sp2(1) by (simp_all add: drop_send_def)
      have "(if rs_eof (send_fs sp2) then 0 else Suc (length (rs_rest (send_fs sp2))))
          < (if rs_eof (send_fs sp) then 0 else Suc (length (rs_rest (send_fs sp))))"
        using False r unfolding fs2(1) by (auto simp: rs_read_def)
      from less(1) [OF this, of ?st2 xp2] less(2) fs2 obtain ok st' xp' where
        "send_loop (send_part cb) (prog_part pcb) i sp2 ?st2 xp2 = Inr (ok, st', xp')"
        "sf_send_loop cb i (drop_send sp2) (swap_of ?st2) (fst xp2) = (ok, swap_of st', fst xp')" by auto
      then show ?thesis using step sf st2 sp2 xp False b
        by (simp add: send_loop.simps [of _ _ _ sp])
    qed
  qed
qed

lemma add_data_send_drop:
  assumes "\<And>sp. map_send st i = Some sp \<Longrightarrow> send_length_max sp \<noteq> 0"
  shows "rbind (add_data_send (send_part cb) (prog_part pcb) i st xp) (\<lambda>(ok, st', xp'). Inr (ok, swap_of st', fst xp'))
    = Inr (sf_add_data_send cb i (swap_of st) (fst xp))"
proof (cases "map_send st i")
  case None
  then show ?thesis by (simp add: add_data_send_def sf_add_data_send_def swap_of_def)
next
  case (Some sp)
  then have "sw_send (swap_of st) i = Some (drop_send sp)" by (simp add: swap_of_def)
  with Some send_loop_drop [OF assms [OF Some], of cb pcb i st xp] show ?thesis
    by (auto simp: add_data_send_def sf_add_data_send_def)
qed

lemma add_data_recv_drop:
  assumes "\<And>sp. map_recv st i = Some sp \<Longrightarrow> recv_length_max sp \<noteq> 0"
  shows "rbind (add_data_recv pcb i d st x) (\<lambda>(ok, st', x'). Inr (ok, swap_of st')) = Inr (sf_add_data_recv i d (swap_of st))"
proof (cases "map_recv st i")
  case None
  then show ?thesis by (simp add: add_data_recv_def sf_add_data_recv_def swap_of_def)
next
  case (Some sp)
  obtain sp_fs w where wr: "ws_write d (recv_fs sp) (disk st) = (sp_fs, w)" by (rule prod.exhaust)
  let ?sp1 = "sp\<lparr>recv_fs := sp_fs, count_recv := (if ws_good sp_fs then count_recv sp + word_of_nat (length d) else count_recv sp)\<rparr>"
  obtain pr where pr: "calc_prog (count_recv ?sp1) (recv_length_max ?sp1) = Inr pr"
    using calc_prog_defined [of "recv_length_max ?sp1"] assms [OF Some] by auto
  obtain sp2 x2 where n: "note_recv pcb i ?sp1 pr x = (sp2, x2)" by (rule prod.exhaust)
  then have d: "drop_recv sp2 = drop_recv ?sp1" by (auto simp: note_recv_def drop_recv_def split: if_splits)
  have "add_data_recv pcb i d st x = Inr (ws_good sp_fs, st\<lparr>disk := w, map_recv := (map_recv st)(i \<mapsto> sp2)\<rparr>, x2)"
    using Some wr pr n by (simp add: add_data_recv_def Let_def)
  moreover have "sf_add_data_recv i d (swap_of st)
      = (ws_good sp_fs, (swap_of st)\<lparr>sw_disk := w, sw_recv := (sw_recv (swap_of st))(i \<mapsto> drop_recv ?sp1)\<rparr>)"
    using Some wr by (simp add: sf_add_data_recv_def swap_of_def drop_recv_def)
  moreover have "swap_of (st\<lparr>disk := w, map_recv := (map_recv st)(i \<mapsto> sp2)\<rparr>)
      = (swap_of st)\<lparr>sw_disk := w, sw_recv := (sw_recv (swap_of st))(i \<mapsto> drop_recv ?sp1)\<rparr>"
    by (auto simp: swap_of_def fun_eq_iff d)
  ultimately show ?thesis by simp
qed

lemma open_close_drop:
  "rbind (open_file_send i f p st) (\<lambda>(ok, st'). Inr (ok, swap_of st')) = sf_open_file_send i f False (swap_of st)"
  "(case open_file_recv i n f p st of (ok, st') \<Rightarrow> (ok, swap_of st')) = sf_open_file_recv i n f (swap_of st)"
  "swap_of (close_file_send i st) = sf_close_file_send i (swap_of st)"
  "swap_of (close_file_recv i st) = sf_close_file_recv i (swap_of st)"
proof -
  show "rbind (open_file_send i f p st) (\<lambda>(ok, st'). Inr (ok, swap_of st')) = sf_open_file_send i f False (swap_of st)"
  proof (cases "rs_open (disk st) f")
    case (Some fs)
    then show ?thesis
      by (cases "fs_file_size (disk st) f")
        (auto simp: open_file_send_def sf_open_file_send_def get_file_size_def sf_get_file_size_def swap_of_def drop_send_def fun_eq_iff)
  qed (auto simp: open_file_send_def sf_open_file_send_def swap_of_def)
  show "(case open_file_recv i n f p st of (ok, st') \<Rightarrow> (ok, swap_of st')) = sf_open_file_recv i n f (swap_of st)"
    by (auto simp: open_file_recv_def sf_open_file_recv_def swap_of_def drop_recv_def fun_eq_iff split: option.splits prod.splits)
  show "swap_of (close_file_send i st) = sf_close_file_send i (swap_of st)"
    "swap_of (close_file_recv i st) = sf_close_file_recv i (swap_of st)"
    by (auto simp: close_file_send_def sf_close_file_send_def close_file_recv_def sf_close_file_recv_def swap_of_def fun_eq_iff
        split: option.splits)
qed

text \<open>
  C30: the table of transfers in use does what the older one does. Leaving out the progress, every
  operation of \<open>files_io\<close> has the result and the effect of the operation of \<open>swap_files\<close> of the same name:
  the same bytes reach the send callback and the disk, as long as the lengths it divides by are not zero.
\<close>

theorem files_io_refines_swap_files:
  assumes "\<forall>sp. map_send st i = Some sp \<longrightarrow> send_length_max sp \<noteq> 0"
    and "\<forall>sp. map_recv st i = Some sp \<longrightarrow> recv_length_max sp \<noteq> 0"
  shows "rbind (open_file_send i f p st) (\<lambda>(ok, st'). Inr (ok, swap_of st')) = sf_open_file_send i f False (swap_of st)
    \<and> rbind (add_data_send (send_part cb) (prog_part pcb) i st xp) (\<lambda>(ok, st', xp'). Inr (ok, swap_of st', fst xp'))
      = Inr (sf_add_data_send cb i (swap_of st) (fst xp))
    \<and> swap_of (close_file_send i st) = sf_close_file_send i (swap_of st)
    \<and> (case open_file_recv i n f p st of (ok, st') \<Rightarrow> (ok, swap_of st')) = sf_open_file_recv i n f (swap_of st)
    \<and> rbind (add_data_recv (prog_part pcb) i d st xp) (\<lambda>(ok, st', xp'). Inr (ok, swap_of st')) = Inr (sf_add_data_recv i d (swap_of st))
    \<and> swap_of (close_file_recv i st) = sf_close_file_recv i (swap_of st)"
  using assms by (intro conjI open_close_drop add_data_send_drop add_data_recv_drop) auto

theorem files_io_refines_swap_files_witness:
  "rbind (open_file_send 7 ''a.txt'' True demo_files) (\<lambda>(ok, st).
     rbind (add_data_send (send_part (\<lambda>i d x. (True, x @ [d]))) (prog_part (\<lambda>i p n m y. y @ [p])) 7 st ([], []))
       (\<lambda>(ok, st', xp'). Inr (ok, fst xp'))) = Inr (True, [''hello''])"
proof -
  obtain st where o: "open_file_send 7 ''a.txt'' True demo_files = Inr (True, st)"
      "map_option drop_send (map_send st 7) = Some \<lparr>ss_count = 0, ss_length_max = 5, ss_filename = ''a.txt'',
        ss_fs = \<lparr>rs_rest = ''hello'', rs_eof = False\<rparr>\<rparr>" "map_recv st = Map.empty"
    by (simp add: open_file_send_def rs_open_def get_file_size_def fs_file_size_def drop_send_def)
  then have l: "\<forall>sp. map_send st 7 = Some sp \<longrightarrow> send_length_max sp \<noteq> 0" by (auto simp: drop_send_def)
  let ?cb = "\<lambda>(i :: int64) (d :: string) x. (True, x @ [d])" and ?p = "\<lambda>(i :: int64) (p :: int64) (n :: int64) (m :: int64) y. y @ [p]"
  have "sw_send (swap_of st) 7 = Some \<lparr>ss_count = 0, ss_length_max = 5, ss_filename = ''a.txt'',
      ss_fs = \<lparr>rs_rest = ''hello'', rs_eof = False\<rparr>\<rparr>"
    using o(2) by (simp add: swap_of_def)
  then have "sf_add_data_send ?cb 7 (swap_of st) [] = (True, snd (sf_add_data_send ?cb 7 (swap_of st) []))"
    "snd (snd (sf_add_data_send ?cb 7 (swap_of st) [])) = [''hello'']"
    by (simp_all add: sf_add_data_send_def sf_send_loop.simps rs_read_def)
  then obtain st2 where s: "sf_add_data_send ?cb 7 (swap_of st) [] = (True, st2, [''hello''])" by (metis prod.collapse)
  have "rbind (add_data_send (send_part ?cb) (prog_part ?p) 7 st ([], [])) (\<lambda>(ok, st', xp'). Inr (ok, swap_of st', fst xp'))
      = Inr (True, st2, [''hello''])"
    using files_io_refines_swap_files [of st 7 "[]" False ?cb ?p "([], [])" 0 "[]"] l o(3) s by simp
  then show ?thesis using o(1)
    by (cases "add_data_send (send_part ?cb) (prog_part ?p) 7 st ([], [])") auto
qed

end
