(* ===== verification/Vlog.thy ===== *)
theory Vlog
  imports Fs_World
begin

text \<open>
  \<open>Tvlog.h\<close>: the singleton template, the log on the terminal, the log in a file with its rotation and the
  container printer. What is put on a stream is given as the text it prints. The file log is modelled
  without the buffer of the stream: a text is in the file once it has been put.
\<close>

section \<open>Levels\<close>

datatype level4 = E_error | E_warning | E_debug | E_info

fun level_num :: "level4 \<Rightarrow> nat" where
  "level_num E_error = 0"
| "level_num E_warning = 1"
| "level_num E_debug = 2"
| "level_num E_info = 3"

instantiation level4 :: linorder
begin

definition less_eq_level4 :: "level4 \<Rightarrow> level4 \<Rightarrow> bool" where
  "less_eq_level4 a b \<longleftrightarrow> level_num a \<le> level_num b"

definition less_level4 :: "level4 \<Rightarrow> level4 \<Rightarrow> bool" where
  "less_level4 a b \<longleftrightarrow> level_num a < level_num b"

instance
proof
  fix x y z :: level4
  show "x < y \<longleftrightarrow> x \<le> y \<and> \<not> y \<le> x" by (auto simp: less_eq_level4_def less_level4_def)
  show "x \<le> x" by (simp add: less_eq_level4_def)
  show "x \<le> y \<Longrightarrow> y \<le> z \<Longrightarrow> x \<le> z" by (simp add: less_eq_level4_def)
  show "x \<le> y \<Longrightarrow> y \<le> x \<Longrightarrow> x = y" by (cases x; cases y) (simp_all add: less_eq_level4_def)
  show "x \<le> y \<or> y \<le> x" by (auto simp: less_eq_level4_def)
qed

end

section \<open>The log on the terminal\<close>

record tvlog =
  vl_ok :: bool
  vl_level :: level4
  vl_cout :: string

text \<open>The level is not initialised: it has whatever value was in its memory.\<close>

definition tvlog_init :: "level4 \<Rightarrow> tvlog" where
  "tvlog_init junk = \<lparr>vl_ok = False, vl_level = junk, vl_cout = []\<rparr>"

definition vl_set_level :: "level4 \<Rightarrow> tvlog \<Rightarrow> tvlog" where
  "vl_set_level el st = st\<lparr>vl_level := el\<rparr>"

definition vl_put_level :: "level4 \<Rightarrow> tvlog \<Rightarrow> tvlog" where
  "vl_put_level el st = (if el \<le> vl_level st then st\<lparr>vl_ok := True\<rparr> else st\<lparr>vl_ok := False\<rparr>)"

definition vl_put :: "string \<Rightarrow> tvlog \<Rightarrow> tvlog" where
  "vl_put txt st = (if vl_ok st then st\<lparr>vl_cout := vl_cout st @ txt\<rparr> else st)"

definition end_line :: string where "end_line = [CHR 0x0A]"

definition vl_endl :: "tvlog \<Rightarrow> tvlog" where
  "vl_endl st = (if vl_ok st then st\<lparr>vl_cout := vl_cout st @ end_line\<rparr> else st)"

text \<open>What \<open>vlogi\<close>, \<open>vlogd\<close>, \<open>vlogw\<close> and \<open>vloge\<close> expand to: one statement, many calls.\<close>

definition vmake_log_col :: "string \<Rightarrow> level4 \<Rightarrow> string \<Rightarrow> string \<Rightarrow> string list \<Rightarrow> tvlog \<Rightarrow> tvlog" where
  "vmake_log_col txt type source line args st =
     vl_endl (vl_put ([CHR 0x1B] @ ''[0m'') (fold vl_put args
       (vl_put ''>] <<<< '' (vl_put line (vl_put '':<'' (vl_put source (vl_put (txt @ ''['') (vl_put_level type st))))))))"

definition vlogi :: "string \<Rightarrow> string \<Rightarrow> string list \<Rightarrow> tvlog \<Rightarrow> tvlog" where
  "vlogi = vmake_log_col ''[Inf]'' E_info"

definition vlogd :: "string \<Rightarrow> string \<Rightarrow> string list \<Rightarrow> tvlog \<Rightarrow> tvlog" where
  "vlogd = vmake_log_col ([CHR 0x1B] @ ''[32m[Deb]'') E_debug"

definition vlogw :: "string \<Rightarrow> string \<Rightarrow> string list \<Rightarrow> tvlog \<Rightarrow> tvlog" where
  "vlogw = vmake_log_col ([CHR 0x1B] @ ''[33m[War]'') E_warning"

definition vloge :: "string \<Rightarrow> string \<Rightarrow> string list \<Rightarrow> tvlog \<Rightarrow> tvlog" where
  "vloge = vmake_log_col ([CHR 0x1B] @ ''[31m[Err]'') E_error"

definition vlogif :: "bool \<Rightarrow> string \<Rightarrow> string \<Rightarrow> string list \<Rightarrow> tvlog \<Rightarrow> tvlog" where
  "vlogif ok source line args st = (if ok then vlogd source line args st else vloge source line args st)"

definition vlogfaile :: "bool \<Rightarrow> string \<Rightarrow> string \<Rightarrow> string list \<Rightarrow> tvlog \<Rightarrow> tvlog" where
  "vlogfaile ok source line args st = (if \<not> ok then vloge source line args st else st)"

section \<open>The log in a file\<close>

record tflog =
  fl_ok :: bool
  limit_max :: int32
  limit_now :: int32
  fl_level :: level4
  fl_fs :: "string option"
  fl_good :: bool
  fl_file :: string
  len_max :: "64 word"
  fl_app :: bool
  fl_disk :: world

definition tflog_init :: "level4 \<Rightarrow> bool \<Rightarrow> world \<Rightarrow> tflog" where
  "tflog_init junk mode w =
     \<lparr>fl_ok = False, limit_max = 0, limit_now = 1, fl_level = junk, fl_fs = None, fl_good = True, fl_file = [],
      len_max = push_bit 26 1, fl_app = mode, fl_disk = w\<rparr>"

text \<open>\<open>fstream::open\<close> with \<open>app\<close> keeps what is in the file, with \<open>out\<close> it empties it.\<close>

definition fl_open_fs :: "tflog \<Rightarrow> tflog" where
  "fl_open_fs st =
     (let w = fl_disk st; f = fl_file st in
      if fs_creatable w f then
        (case node_at w f of
           None \<Rightarrow> st\<lparr>fl_fs := Some f, fl_good := True, fl_disk := put_node f (Regular [] True) w\<rparr>
         | Some (Regular c r) \<Rightarrow>
             st\<lparr>fl_fs := Some f, fl_good := True, fl_disk := put_node f (Regular (if fl_app st then c else []) r) w\<rparr>
         | Some (Directory r) \<Rightarrow> st\<lparr>fl_good := False\<rparr>)
      else st\<lparr>fl_good := False\<rparr>)"

definition fl_init :: "string \<Rightarrow> bool \<Rightarrow> tflog \<Rightarrow> bool \<times> tflog" where
  "fl_init f app st =
     (let st1 = st\<lparr>fl_file := f, fl_app := app\<rparr>;
          st2 = (if fl_fs st1 = None then fl_open_fs st1 else st1)
      in (fl_fs st2 \<noteq> None, st2))"

definition fl_set_limit :: "int32 \<Rightarrow> tflog \<Rightarrow> tflog" where
  "fl_set_limit mx st = st\<lparr>limit_max := mx\<rparr>"

definition fl_set_level :: "level4 \<Rightarrow> tflog \<Rightarrow> tflog" where
  "fl_set_level el st = st\<lparr>fl_level := el\<rparr>"

definition fl_set_length :: "64 word \<Rightarrow> tflog \<Rightarrow> tflog" where
  "fl_set_length len st = st\<lparr>len_max := len\<rparr>"

definition close_log :: "tflog \<Rightarrow> tflog" where
  "close_log st = st\<lparr>fl_fs := None\<rparr>"

text \<open>A write to the open file; its failure is kept in the stream.\<close>

definition fl_write :: "string \<Rightarrow> tflog \<Rightarrow> tflog" where
  "fl_write d st =
     (case fl_fs st of
        None \<Rightarrow> st
      | Some f \<Rightarrow>
          if \<not> fl_good st then st
          else (case node_at (fl_disk st) f of
              Some (Regular c r) \<Rightarrow>
                if fs_room (fl_disk st) f (length c + length d)
                then st\<lparr>fl_disk := put_node f (Regular (c @ d) r) (fl_disk st)\<rparr>
                else st\<lparr>fl_good := False\<rparr>
            | _ \<Rightarrow> st))"

text \<open>\<open>tellg\<close>: the end of the file, and \<open>-1\<close> on a stream that failed.\<close>

definition fl_tellg :: "tflog \<Rightarrow> 64 word" where
  "fl_tellg st =
     (case fl_fs st of
        Some f \<Rightarrow>
          (if fl_good st then
             (case node_at (fl_disk st) f of Some (Regular c r) \<Rightarrow> word_of_nat (length c) | _ \<Rightarrow> 0)
           else - 1)
      | None \<Rightarrow> - 1)"

text \<open>\<open>rename\<close> of the C library, whose result the program does not look at.\<close>

definition fs_rename :: "string \<Rightarrow> string \<Rightarrow> world \<Rightarrow> world" where
  "fs_rename p q w =
     (case node_at w p of
        Some (Regular c r) \<Rightarrow>
          if p = q \<or> \<not> fs_creatable w q then w
          else (case node_at w q of
              Some (Directory r') \<Rightarrow> w
            | _ \<Rightarrow> put_node q (Regular c r) (del_node p w))
      | _ \<Rightarrow> w)"

definition exist_file :: "world \<Rightarrow> string \<Rightarrow> bool" where
  "exist_file w f \<longleftrightarrow> rs_open w f \<noteq> None"

definition log_name :: "int \<Rightarrow> string \<Rightarrow> string" where
  "log_name i f = int_to_string i @ ''_'' @ f"

partial_function (option) free_name :: "world \<Rightarrow> string \<Rightarrow> int \<Rightarrow> int option" where
  "free_name w f i = (if \<not> exist_file w (log_name i f) then Some i else free_name w f (i + 1))"

definition write_unlimited :: "tflog \<Rightarrow> tflog option" where
  "write_unlimited st =
     (let st1 = close_log st in
      map_option (\<lambda>i. fl_open_fs (st1\<lparr>fl_disk := fs_rename (fl_file st1) (log_name i (fl_file st1)) (fl_disk st1)\<rparr>))
        (free_name (fl_disk st1) (fl_file st1) 1))"

definition write_limit :: "tflog \<Rightarrow> tflog" where
  "write_limit st =
     (let st1 = close_log st;
          new_file = log_name (sint (limit_now st1)) (fl_file st1);
          st2 = st1\<lparr>fl_disk := fs_rename (fl_file st1) new_file (fl_disk st1), limit_now := limit_now st1 + 1\<rparr>;
          st3 = (if sint (limit_now st2) > sint (limit_max st2) then st2\<lparr>limit_now := 1\<rparr> else st2)
      in fl_open_fs st3)"

definition update_file :: "tflog \<Rightarrow> tflog option" where
  "update_file st =
     (if len_max st < fl_tellg st then
        (if limit_max st = 0 then write_unlimited st else Some (write_limit st))
      else Some st)"

definition fl_put_level :: "level4 \<Rightarrow> tflog \<Rightarrow> tflog" where
  "fl_put_level el st = (if el \<le> fl_level st then st\<lparr>fl_ok := True\<rparr> else st\<lparr>fl_ok := False\<rparr>)"

definition fl_put :: "string \<Rightarrow> tflog \<Rightarrow> tflog" where
  "fl_put txt st = (if fl_ok st \<and> fl_fs st \<noteq> None then fl_write txt st else st)"

definition fl_endl :: "tflog \<Rightarrow> tflog option" where
  "fl_endl st = (if fl_ok st \<and> fl_fs st \<noteq> None then update_file (fl_write end_line st) else Some st)"

text \<open>What \<open>flogi\<close> and the others expand to; the date is an argument.\<close>

definition fmake_log :: "string \<Rightarrow> level4 \<Rightarrow> string \<Rightarrow> string \<Rightarrow> string \<Rightarrow> string list \<Rightarrow> tflog \<Rightarrow> tflog option" where
  "fmake_log txt type date source line args st =
     fl_endl (fl_put ''>]'' (fl_put line (fl_put '':<'' (fl_put source (fl_put '' ['' (fold fl_put args
       (fl_put (txt @ '' <<<< '') (fl_put ''] '' (fl_put date (fl_put ''['' (fl_put_level type st)))))))))))"

section \<open>Printing a container\<close>

text \<open>The elements are given as their texts, a range of iterators as the texts of its elements.\<close>

fun con_items :: "int \<Rightarrow> string \<Rightarrow> int \<Rightarrow> string list \<Rightarrow> string" where
  "con_items len flg count [] = []"
| "con_items len flg count (a # con) =
     (if count \<ge> len then end_line @ ''| '' @ a @ flg @ con_items len flg 1 con
      else a @ flg @ con_items len flg (count + 1) con)"

definition con_head :: "string list \<Rightarrow> string" where
  "con_head con = ''| size: '' @ int_to_string (int (length con)) @ end_line @ ''| ''"

definition print_con :: "string list \<Rightarrow> string" where
  "print_con con = con_head con @ concat (map (\<lambda>a. a @ '' '') con) @ end_line"

definition print_con_len :: "int \<Rightarrow> string list \<Rightarrow> string" where
  "print_con_len len con = con_head con @ con_items len '' '' 0 con @ end_line"

definition print_con_flg :: "int \<Rightarrow> string \<Rightarrow> string list \<Rightarrow> string" where
  "print_con_flg len flg con = con_head con @ con_items len flg 0 con @ end_line"

definition print_con_range :: "int \<Rightarrow> string list \<Rightarrow> string" where
  "print_con_range len con = con_head con @ con_items len '' '' 0 con @ end_line"

definition print_con_range_flg :: "int \<Rightarrow> string \<Rightarrow> string list \<Rightarrow> string" where
  "print_con_range_flg len flg con = con_head con @ con_items len flg 0 con @ end_line"

section \<open>The singleton\<close>

text \<open>
  \<open>Tsingle_d::get\<close> run by any number of threads, one access to the shared pointer or the mutex at a time. The
  pointer is a plain one: the first test and the last read are made without the mutex, and making the object
  and storing its address are two steps. A thread between calls is idle. Objects are numbered in the order
  in which they are made. C++ gives the interleavings a meaning only as long as no data race is reached,
  so races are part of what is stated below.
\<close>

datatype get_pc = G_idle | G_first | G_lock | G_inner | G_new | G_store nat | G_unlock | G_return | G_done "nat option"

record single =
  sg_obj :: "nat option"
  sg_owner :: "nat option"
  sg_made :: nat
  sg_pc :: "nat \<Rightarrow> get_pc"

definition single_init :: single where
  "single_init = \<lparr>sg_obj = None, sg_owner = None, sg_made = 0, sg_pc = (\<lambda>t. G_idle)\<rparr>"

fun get_step :: "nat \<Rightarrow> single \<Rightarrow> single option" where
  "get_step t st =
     (case sg_pc st t of
        G_idle \<Rightarrow> Some (st\<lparr>sg_pc := (sg_pc st)(t := G_first)\<rparr>)
      | G_first \<Rightarrow> Some (st\<lparr>sg_pc := (sg_pc st)(t := if sg_obj st = None then G_lock else G_return)\<rparr>)
      | G_lock \<Rightarrow> (if sg_owner st = None then Some (st\<lparr>sg_owner := Some t, sg_pc := (sg_pc st)(t := G_inner)\<rparr>) else None)
      | G_inner \<Rightarrow> Some (st\<lparr>sg_pc := (sg_pc st)(t := if sg_obj st = None then G_new else G_unlock)\<rparr>)
      | G_new \<Rightarrow> Some (st\<lparr>sg_made := Suc (sg_made st), sg_pc := (sg_pc st)(t := G_store (sg_made st))\<rparr>)
      | G_store x \<Rightarrow> Some (st\<lparr>sg_obj := Some x, sg_pc := (sg_pc st)(t := G_unlock)\<rparr>)
      | G_unlock \<Rightarrow> Some (st\<lparr>sg_owner := None, sg_pc := (sg_pc st)(t := G_return)\<rparr>)
      | G_return \<Rightarrow> Some (st\<lparr>sg_pc := (sg_pc st)(t := G_done (sg_obj st))\<rparr>)
      | G_done x \<Rightarrow> Some (st\<lparr>sg_pc := (sg_pc st)(t := G_idle)\<rparr>))"

inductive single_step :: "single \<Rightarrow> single \<Rightarrow> bool" where
  run: "get_step t st = Some st' \<Longrightarrow> single_step st st'"

text \<open>What a thread does to the pointer next, and a data race: two threads of which one writes and the other reads or writes.\<close>

fun next_reads :: "get_pc \<Rightarrow> bool" where
  "next_reads G_first = True"
| "next_reads G_inner = True"
| "next_reads G_return = True"
| "next_reads pc = False"

fun next_writes :: "get_pc \<Rightarrow> bool" where
  "next_writes (G_store x) = True"
| "next_writes pc = False"

definition races :: "single \<Rightarrow> bool" where
  "races st \<longleftrightarrow> (\<exists>t u. t \<noteq> u \<and> next_writes (sg_pc st t) \<and> (next_reads (sg_pc st u) \<or> next_writes (sg_pc st u)))"

definition all_idle :: "single \<Rightarrow> bool" where
  "all_idle st \<longleftrightarrow> sg_owner st = None \<and> (\<forall>t. sg_pc st t = G_idle)"

fun run_threads :: "nat list \<Rightarrow> single \<Rightarrow> single" where
  "run_threads [] st = st"
| "run_threads (t # ts) st = (case get_step t st of Some st' \<Rightarrow> run_threads ts st' | None \<Rightarrow> run_threads ts st)"

lemma run_threads_steps: "single_step\<^sup>*\<^sup>* st (run_threads ts st)"
proof (induction ts arbitrary: st)
  case (Cons t ts)
  show ?case
  proof (cases "get_step t st")
    case (Some st')
    then show ?thesis using Cons [of st'] converse_rtranclp_into_rtranclp [of single_step, OF single_step.run [OF Some]]
      by (simp del: get_step.simps)
  qed (use Cons in \<open>simp del: get_step.simps\<close>)
qed simp

lemma get_step_other: "get_step t st = Some st' \<Longrightarrow> u \<noteq> t \<Longrightarrow> sg_pc st' u = sg_pc st u"
  by (cases "sg_pc st t") (auto split: if_splits)

text \<open>The object exists: no thread comes to the mutex, and none writes.\<close>

fun past_making :: "nat \<Rightarrow> get_pc \<Rightarrow> bool" where
  "past_making x G_idle = True"
| "past_making x G_first = True"
| "past_making x G_return = True"
| "past_making x (G_done y) = (y = Some x)"
| "past_making x pc = False"

definition made_inv :: "nat \<Rightarrow> nat \<Rightarrow> single \<Rightarrow> bool" where
  "made_inv x n st \<longleftrightarrow> sg_obj st = Some x \<and> sg_made st = n \<and> (\<forall>t. past_making x (sg_pc st t))"

lemma made_inv_step:
  assumes "made_inv x n st" "single_step st st'"
  shows "made_inv x n st'"
proof -
  obtain t where s: "get_step t st = Some st'" using assms(2) by (auto simp only: single_step.simps)
  have i: "sg_obj st = Some x" "sg_made st = n" "past_making x (sg_pc st t)" using assms(1) by (simp_all add: made_inv_def)
  have "sg_obj st' = Some x \<and> sg_made st' = n \<and> past_making x (sg_pc st' t)"
    using i s by (cases "sg_pc st t") auto
  moreover have "past_making x (sg_pc st' u)" if "u \<noteq> t" for u
    using get_step_other [OF s that] assms(1) by (simp add: made_inv_def)
  ultimately show ?thesis unfolding made_inv_def by metis
qed

lemma made_inv_run: "single_step\<^sup>*\<^sup>* st st' \<Longrightarrow> made_inv x n st \<Longrightarrow> made_inv x n st'"
  by (induction rule: rtranclp_induct) (auto intro: made_inv_step)

lemma made_no_race: "made_inv x n st \<Longrightarrow> \<not> races st"
proof -
  assume "made_inv x n st"
  then have "past_making x (sg_pc st t)" for t by (simp add: made_inv_def)
  moreover have "past_making x pc \<Longrightarrow> \<not> next_writes pc" for pc by (cases pc) auto
  ultimately show ?thesis by (auto simp: races_def)
qed

text \<open>One thread calls alone: it makes one object in its first call and returns it from every one.\<close>

fun solo_at :: "nat \<Rightarrow> nat \<Rightarrow> single \<Rightarrow> get_pc \<Rightarrow> bool" where
  "solo_at t n st G_idle = (sg_owner st = None \<and> (sg_obj st = None \<and> sg_made st = n \<or> sg_obj st = Some n \<and> sg_made st = Suc n))"
| "solo_at t n st G_first = (sg_owner st = None \<and> (sg_obj st = None \<and> sg_made st = n \<or> sg_obj st = Some n \<and> sg_made st = Suc n))"
| "solo_at t n st G_lock = (sg_owner st = None \<and> sg_obj st = None \<and> sg_made st = n)"
| "solo_at t n st G_inner = (sg_owner st = Some t \<and> sg_obj st = None \<and> sg_made st = n)"
| "solo_at t n st G_new = (sg_owner st = Some t \<and> sg_obj st = None \<and> sg_made st = n)"
| "solo_at t n st (G_store x) = (sg_owner st = Some t \<and> x = n \<and> sg_obj st = None \<and> sg_made st = Suc n)"
| "solo_at t n st G_unlock = (sg_owner st = Some t \<and> sg_obj st = Some n \<and> sg_made st = Suc n)"
| "solo_at t n st G_return = (sg_owner st = None \<and> sg_obj st = Some n \<and> sg_made st = Suc n)"
| "solo_at t n st (G_done y) = (sg_owner st = None \<and> y = Some n \<and> sg_obj st = Some n \<and> sg_made st = Suc n)"

definition solo_inv :: "nat \<Rightarrow> nat \<Rightarrow> single \<Rightarrow> bool" where
  "solo_inv t n st \<longleftrightarrow> solo_at t n st (sg_pc st t) \<and> (\<forall>u. u \<noteq> t \<longrightarrow> sg_pc st u = G_idle)"

lemma solo_inv_step: "solo_inv t n st \<Longrightarrow> \<exists>st'. get_step t st = Some st' \<and> solo_inv t n st'"
  by (cases "sg_pc st t") (auto simp: solo_inv_def)

lemma solo_inv_run: "solo_inv t n st \<Longrightarrow> solo_inv t n (run_threads (replicate k t) st)"
proof (induction k arbitrary: st)
  case (Suc k)
  then show ?case using solo_inv_step [OF Suc(2)] by (auto simp del: get_step.simps)
qed simp

lemma solo_no_race: "solo_inv t n st \<Longrightarrow> \<not> races st"
  by (auto simp: solo_inv_def races_def) (metis next_reads.simps(4) next_writes.simps(2))+

text \<open>Two first calls race: one is about to store the pointer, the other to read it for its first test.\<close>

lemma first_calls_race:
  assumes "all_idle st" "sg_obj st = None"
  shows "races (run_threads [1, 0, 0, 0, 0, 0] st)"
proof -
  let ?st = "run_threads [1, 0, 0, 0, 0, 0] st"
  have "sg_pc ?st 0 = G_store (sg_made st)" "sg_pc ?st 1 = G_first"
    using assms by (simp_all add: all_idle_def)
  then show ?thesis unfolding races_def by (metis next_reads.simps(1) next_writes.simps(1) zero_neq_one)
qed

text \<open>
  C32: \<open>get\<close> is safe exactly when the object was made before the threads call it. From a state in which no call
  is under way, some interleaving of calls reaches a data race on the pointer if and only if there is no
  object yet (the first test and the last read are made without the mutex that guards the store). If
  there is one, then however the calls of any number of threads interleave no other is made and every call
  that has returned has returned that one. And one thread that calls alone, as the program does before it
  starts any other, makes one object without a race and gets it from every call.
\<close>

theorem singleton_safe_once_made:
  assumes "all_idle st"
  shows "((\<exists>st'. single_step\<^sup>*\<^sup>* st st' \<and> races st') \<longleftrightarrow> sg_obj st = None)
    \<and> (\<forall>x st'. sg_obj st = Some x \<and> single_step\<^sup>*\<^sup>* st st'
        \<longrightarrow> sg_obj st' = Some x \<and> sg_made st' = sg_made st \<and> (\<forall>t y. sg_pc st' t = G_done y \<longrightarrow> y = Some x))
    \<and> (\<forall>t k. sg_obj st = None \<longrightarrow> (let st' = run_threads (replicate k t) st in
          \<not> races st' \<and> (\<forall>y. sg_pc st' t = G_done y \<longrightarrow> y = Some (sg_made st) \<and> sg_made st' = Suc (sg_made st))))"
proof -
  have made: "made_inv x (sg_made st) st'" if "sg_obj st = Some x" "single_step\<^sup>*\<^sup>* st st'" for x st'
    by (rule made_inv_run [OF that(2)]) (use assms that(1) in \<open>simp add: made_inv_def all_idle_def\<close>)
  have race: "sg_obj st = None" if "single_step\<^sup>*\<^sup>* st st'" "races st'" for st'
    using made [OF _ that(1)] made_no_race that(2) by (cases "sg_obj st") auto
  have solo: "solo_inv t (sg_made st) (run_threads (replicate k t) st)" if "sg_obj st = None" for t k
    by (rule solo_inv_run) (use assms that in \<open>simp add: solo_inv_def all_idle_def\<close>)
  have got: "y = Some x" if "made_inv x n st'" "sg_pc st' t = G_done y" for x n st' t y
  proof -
    have "past_making x (sg_pc st' t)" using that(1) by (simp add: made_inv_def)
    with that(2) show ?thesis by simp
  qed
  have "(\<exists>st'. single_step\<^sup>*\<^sup>* st st' \<and> races st') \<longleftrightarrow> sg_obj st = None"
    using race first_calls_race [OF assms] run_threads_steps by blast
  moreover have "sg_obj st' = Some x \<and> sg_made st' = sg_made st \<and> (\<forall>t y. sg_pc st' t = G_done y \<longrightarrow> y = Some x)"
    if "sg_obj st = Some x" "single_step\<^sup>*\<^sup>* st st'" for x st'
    using made [OF that] got [OF made [OF that]] by (simp add: made_inv_def)
  moreover have "let st' = run_threads (replicate k t) st in
      \<not> races st' \<and> (\<forall>y. sg_pc st' t = G_done y \<longrightarrow> y = Some (sg_made st) \<and> sg_made st' = Suc (sg_made st))"
    if "sg_obj st = None" for t k
    using solo [OF that, of t k] solo_no_race [OF solo [OF that, of t k]] by (auto simp: Let_def solo_inv_def)
  ultimately show ?thesis by blast
qed

theorem singleton_safe_once_made_witness:
  "(\<exists>st. single_step\<^sup>*\<^sup>* single_init st \<and> races st)
    \<and> sg_pc (run_threads (replicate 8 3) single_init) 3 = G_done (Some 0) \<and> sg_made (run_threads (replicate 8 3) single_init) = 1
    \<and> sg_made (run_threads [1, 2, 1, 2, 2, 1] (single_init\<lparr>sg_obj := Some 0, sg_made := 1\<rparr>)) = 1"
proof -
  let ?made = "single_init\<lparr>sg_obj := Some 0, sg_made := 1\<rparr>"
  have i: "all_idle single_init" "all_idle ?made" "sg_obj single_init = None" "sg_obj ?made = Some 0"
    by (simp_all add: all_idle_def single_init_def)
  note none = singleton_safe_once_made [OF i(1)] and some = singleton_safe_once_made [OF i(2), THEN conjunct2, THEN conjunct1]
  have fin: "sg_pc (run_threads (replicate 8 3) single_init) 3 = G_done (Some 0)" by code_simp
  have "\<exists>st. single_step\<^sup>*\<^sup>* single_init st \<and> races st" using none i(3) by blast
  moreover have "sg_made (run_threads (replicate 8 3) single_init) = Suc (sg_made single_init)"
    using none [THEN conjunct2, THEN conjunct2, rule_format, OF i(3), of 8 3] fin unfolding Let_def by blast
  moreover have "sg_made (run_threads [1, 2, 1, 2, 2, 1] ?made) = sg_made ?made"
    using some [rule_format, of 0 "run_threads [1, 2, 1, 2, 2, 1] ?made"] i(4) run_threads_steps by blast
  moreover have "sg_made single_init = 0" "sg_made ?made = 1" by (simp_all add: single_init_def)
  ultimately show ?thesis using fin by simp
qed

subsection \<open>Removing the object\<close>

text \<open>
  \<open>clean\<close>, one step at a time (what it does under the mutex, the delete and the reset, is one), and its calls
  among those of \<open>get\<close>. It is a member that is not static of a
  class whose constructor is private, so only the class \<open>T\<close> itself could call it; the program does not.
\<close>

datatype clean_pc = Cl_lock | Cl_delete | Cl_unlock | Cl_done

fun clean_step :: "nat \<Rightarrow> (nat \<Rightarrow> clean_pc) \<times> single \<Rightarrow> ((nat \<Rightarrow> clean_pc) \<times> single) option" where
  "clean_step t (pc, st) =
     (case pc t of
        Cl_lock \<Rightarrow> (if sg_owner st = None then Some (pc(t := Cl_delete), st\<lparr>sg_owner := Some t\<rparr>) else None)
      | Cl_delete \<Rightarrow> Some (pc(t := Cl_unlock), st\<lparr>sg_obj := None\<rparr>)
      | Cl_unlock \<Rightarrow> Some (pc(t := Cl_done), st\<lparr>sg_owner := None\<rparr>)
      | Cl_done \<Rightarrow> Some (pc(t := Cl_lock), st))"

inductive object_step :: "(nat \<Rightarrow> clean_pc) \<times> single \<Rightarrow> (nat \<Rightarrow> clean_pc) \<times> single \<Rightarrow> bool" where
  get: "get_step t st = Some st' \<Longrightarrow> object_step (pc, st) (pc, st')"
| clean: "clean_step t (pc, st) = Some (pc', st') \<Longrightarrow> object_step (pc, st) (pc', st')"

fun run_calls :: "(bool \<times> nat) list \<Rightarrow> (nat \<Rightarrow> clean_pc) \<times> single \<Rightarrow> (nat \<Rightarrow> clean_pc) \<times> single" where
  "run_calls [] st = st"
| "run_calls ((b, t) # ts) (pc, st) =
     (if b then (case get_step t st of Some st' \<Rightarrow> run_calls ts (pc, st') | None \<Rightarrow> run_calls ts (pc, st))
      else (case clean_step t (pc, st) of Some st' \<Rightarrow> run_calls ts st' | None \<Rightarrow> run_calls ts (pc, st)))"

lemma run_calls_steps: "object_step\<^sup>*\<^sup>* st (run_calls ts st)"
proof (induction ts st rule: run_calls.induct)
  case (2 b t ts pc st)
  show ?case
  proof (cases b)
    case True
    with 2 show ?thesis
      by (auto simp del: get_step.simps split: option.splits intro: converse_rtranclp_into_rtranclp [of object_step, OF object_step.get])
  next
    case False
    with 2 show ?thesis
      by (auto simp del: clean_step.simps split: option.splits
          intro: converse_rtranclp_into_rtranclp [of object_step, OF object_step.clean])
  qed
qed simp

text \<open>
  \<open>get\<close> reads the pointer again after its test: a \<open>clean\<close> in between makes it return a null pointer.
\<close>

lemma clean_makes_get_null:
  "\<exists>pc st. object_step\<^sup>*\<^sup>* (\<lambda>t. Cl_lock, single_init) (pc, st) \<and> sg_pc st 1 = G_done None"
proof -
  let ?run = "run_calls [(True, 1), (True, 1), (True, 1), (True, 1), (True, 1), (True, 1), (True, 1), (False, 2), (False, 2), (False, 2), (True, 1)]
    (\<lambda>t. Cl_lock, single_init)"
  have "sg_pc (snd ?run) 1 = G_done None" by code_simp
  with run_calls_steps [of "(\<lambda>t. Cl_lock, single_init)"] show ?thesis by (metis prod.collapse)
qed

section \<open>What the terminal shows\<close>

fun vlog_line :: "level4 \<Rightarrow> string \<times> string \<times> string list \<Rightarrow> tvlog \<Rightarrow> tvlog" where
  "vlog_line E_info (source, line, args) = vlogi source line args"
| "vlog_line E_debug (source, line, args) = vlogd source line args"
| "vlog_line E_warning (source, line, args) = vlogw source line args"
| "vlog_line E_error (source, line, args) = vloge source line args"

fun level_tag :: "level4 \<Rightarrow> string" where
  "level_tag E_info = ''[Inf]''"
| "level_tag E_debug = [CHR 0x1B] @ ''[32m[Deb]''"
| "level_tag E_warning = [CHR 0x1B] @ ''[33m[War]''"
| "level_tag E_error = [CHR 0x1B] @ ''[31m[Err]''"

definition line_text :: "level4 \<Rightarrow> string \<times> string \<times> string list \<Rightarrow> string" where
  "line_text el x = level_tag el @ ''['' @ fst x @ '':<'' @ fst (snd x) @ ''>] <<<< '' @ concat (snd (snd x))
     @ [CHR 0x1B] @ ''[0m'' @ end_line"

definition shown :: "string \<Rightarrow> tvlog \<Rightarrow> tvlog" where
  "shown txt st = st\<lparr>vl_ok := True, vl_cout := vl_cout st @ txt\<rparr>"

lemma shown_shown: "shown b (shown a st) = shown (a @ b) st"
  by (simp add: shown_def)

lemma vl_put_shown: "vl_put b (shown a st) = shown (a @ b) st" "vl_endl (shown a st) = shown (a @ end_line) st"
  by (simp_all add: vl_put_def vl_endl_def shown_def)

lemma fold_vl_put_shown: "fold vl_put args (shown a st) = shown (a @ concat args) st"
  by (induction args arbitrary: a) (simp_all add: vl_put_shown)

lemma vl_put_off: "\<not> vl_ok st \<Longrightarrow> vl_put b st = st" "\<not> vl_ok st \<Longrightarrow> vl_endl st = st"
  by (simp_all add: vl_put_def vl_endl_def)

lemma fold_vl_put_off: "\<not> vl_ok st \<Longrightarrow> fold vl_put args st = st"
  by (induction args) (simp_all add: vl_put_off)

lemma vl_put_level_cases: "vl_put_level el st = (if el \<le> vl_level st then shown [] st else st\<lparr>vl_ok := False\<rparr>)"
  by (simp add: vl_put_level_def shown_def)

definition line_of :: "string \<Rightarrow> string \<Rightarrow> string \<Rightarrow> string list \<Rightarrow> string" where
  "line_of txt source line args = txt @ ''['' @ source @ '':<'' @ line @ ''>] <<<< '' @ concat args @ [CHR 0x1B] @ ''[0m'' @ end_line"

lemma vmake_log_col_run: "vmake_log_col txt el source line args st =
    (if el \<le> vl_level st then shown (line_of txt source line args) st else st\<lparr>vl_ok := False\<rparr>)"
  by (simp add: vmake_log_col_def vl_put_level_cases vl_put_shown fold_vl_put_shown vl_put_off fold_vl_put_off line_of_def)

lemma vlog_line_run: "vlog_line el x st = (if el \<le> vl_level st then shown (line_text el x) st else st\<lparr>vl_ok := False\<rparr>)"
  by (cases x; cases el)
    (simp_all only: vlog_line.simps vlogi_def vlogd_def vlogw_def vloge_def vmake_log_col_run line_text_def line_of_def level_tag.simps fst_conv snd_conv)

lemma shown_simps: "vl_cout (shown a st) = vl_cout st @ a" "vl_level (shown a st) = vl_level st"
  by (simp_all add: shown_def)

text \<open>
  The terminal shows exactly the log lines whose level is at most the level set, each whole and with
  the tag of its level, in the order they were logged.
\<close>

theorem vlog_shows:
  "vl_cout (fold (\<lambda>(el, x). vlog_line el x) ls st)
    = vl_cout st @ concat (map (\<lambda>(el, x). line_text el x) (filter (\<lambda>(el, x). el \<le> vl_level st) ls))
   \<and> vl_level (fold (\<lambda>(el, x). vlog_line el x) ls st) = vl_level st"
  by (induction ls arbitrary: st) (auto simp: vlog_line_run shown_simps)

theorem vlog_shows_witness:
  "vl_cout (fold (\<lambda>(el, x). vlog_line el x) [(E_warning, ''a.cpp'', ''7'', [''w'']), (E_info, ''a.cpp'', ''9'', [''i''])]
      (tvlog_init E_warning)) = line_text E_warning (''a.cpp'', ''7'', [''w''])"
  using vlog_shows [of "[(E_warning, ''a.cpp'', ''7'', [''w'']), (E_info, ''a.cpp'', ''9'', [''i''])]" "tvlog_init E_warning"]
  by (simp add: tvlog_init_def less_eq_level4_def)

section \<open>Rotation\<close>

lemma log_name_inject [simp]: "log_name i f = log_name j f \<longleftrightarrow> i = j"
  by (simp add: log_name_def)

lemma log_name_neq [simp]: "log_name i f \<noteq> f" "f \<noteq> log_name i f"
proof -
  have "length (log_name i f) > length f" by (simp add: log_name_def)
  then show "log_name i f \<noteq> f" "f \<noteq> log_name i f" by auto
qed

definition content :: "world \<Rightarrow> string \<Rightarrow> string" where
  "content w p = (case node_at w p of Some (Regular c r) \<Rightarrow> c | _ \<Rightarrow> [])"

definition log_total :: "nat \<Rightarrow> string \<Rightarrow> world \<Rightarrow> string" where
  "log_total k f w = concat (map (\<lambda>i. content w (log_name (int i) f)) [1..<Suc k]) @ content w f"

definition log_state :: "nat \<Rightarrow> string \<Rightarrow> level4 \<Rightarrow> tflog \<Rightarrow> bool" where
  "log_state k f el st \<longleftrightarrow>
     fl_fs st = Some f \<and> fl_file st = f \<and> fl_good st \<and> limit_max st = 0 \<and> fl_level st = el
     \<and> (\<forall>p. fs_creatable (fl_disk st) p) \<and> (\<forall>p n. fs_room (fl_disk st) p n)
     \<and> (\<exists>c. node_at (fl_disk st) f = Some (Regular c True))
     \<and> (\<forall>i. 1 \<le> i \<and> i \<le> k \<longrightarrow> (\<exists>c. node_at (fl_disk st) (log_name (int i) f) = Some (Regular c True)))
     \<and> (\<forall>i > k. node_at (fl_disk st) (log_name (int i) f) = None)"

lemma free_name_finds:
  assumes "\<forall>j. i \<le> j \<and> j < n \<longrightarrow> exist_file w (log_name (int j) f)" "\<not> exist_file w (log_name (int n) f)" "i \<le> n"
  shows "free_name w f (int i) = Some (int n)"
  using assms(3,1)
proof (induction i rule: inc_induct)
  case base
  then show ?case using assms(2) by (simp add: free_name.simps [of w f "int n"])
next
  case (step m)
  then have "exist_file w (log_name (int m) f)" "free_name w f (int (Suc m)) = Some (int n)" by auto
  then show ?case by (simp add: free_name.simps [of w f "int m"] add.commute)
qed

lemma write_in_log:
  assumes "log_state k f el st"
  shows "log_state k f el (fl_write d st) \<and> log_total k f (fl_disk (fl_write d st)) = log_total k f (fl_disk st) @ d
    \<and> fl_ok (fl_write d st) = fl_ok st"
proof -
  obtain c where c: "node_at (fl_disk st) f = Some (Regular c True)" using assms by (auto simp: log_state_def)
  then have w: "fl_write d st = st\<lparr>fl_disk := put_node f (Regular (c @ d) True) (fl_disk st)\<rparr>"
    using assms by (simp add: fl_write_def log_state_def)
  have "content (fl_disk (fl_write d st)) (log_name i f) = content (fl_disk st) (log_name i f)" for i by (simp add: w content_def)
  moreover have "content (fl_disk (fl_write d st)) f = content (fl_disk st) f @ d" by (simp add: w content_def c)
  moreover have "log_state k f el (fl_write d st)" using assms by (simp add: log_state_def w)
  ultimately show ?thesis by (simp add: log_total_def w)
qed

lemma rotate_log:
  assumes "log_state k f el st"
  shows "\<exists>st'. write_unlimited st = Some st' \<and> log_state (Suc k) f el st'
    \<and> log_total (Suc k) f (fl_disk st') = log_total k f (fl_disk st) \<and> fl_ok st' = fl_ok st"
proof -
  obtain c where c: "node_at (fl_disk st) f = Some (Regular c True)" using assms by (auto simp: log_state_def)
  have none: "node_at (fl_disk st) (log_name (int (Suc k)) f) = None" 
  proof -
    have "\<forall>i > k. node_at (fl_disk st) (log_name (int i) f) = None" using assms unfolding log_state_def by (elim conjE)
    from this [rule_format, of "Suc k"] show ?thesis using lessI by blast
  qed
  have ex: "exist_file (fl_disk st) (log_name (int j) f)" if j: "1 \<le> j" "j \<le> k" for j
  proof -
    obtain c' where "node_at (fl_disk st) (log_name (int j) f) = Some (Regular c' True)"
      using assms j unfolding log_state_def by blast
    then show ?thesis by (simp add: exist_file_def rs_open_def)
  qed
  have "\<not> exist_file (fl_disk st) (log_name (int (Suc k)) f)" using none by (simp add: exist_file_def rs_open_def)
  then have "free_name (fl_disk st) f (int 1) = Some (int (Suc k))" using ex by (intro free_name_finds) auto
  then have n: "free_name (fl_disk st) f 1 = Some (int (Suc k))" by simp
  let ?w = "put_node f (Regular [] True) (put_node (log_name (int (Suc k)) f) (Regular c True) (del_node f (fl_disk st)))"
  have "fs_creatable (del_node f w) = fs_creatable w" for w by (simp add: del_node_def)
  then have u: "write_unlimited st = Some (st\<lparr>fl_fs := Some f, fl_good := True, fl_disk := ?w\<rparr>)"
    using assms c n none by (simp add: write_unlimited_def close_log_def fs_rename_def fl_open_fs_def log_state_def Let_def)
  have old: "node_at ?w (log_name (int i) f) = node_at (fl_disk st) (log_name (int i) f)" if "i \<noteq> Suc k" for i using that by simp
  have "log_state (Suc k) f el (st\<lparr>fl_fs := Some f, fl_good := True, fl_disk := ?w\<rparr>)"
    using assms old by (auto simp: log_state_def del_node_def le_Suc_eq)
  moreover have "map (\<lambda>i. content ?w (log_name (int i) f)) [1..<Suc k] = map (\<lambda>i. content (fl_disk st) (log_name (int i) f)) [1..<Suc k]"
    using old by (intro map_cong) (auto simp: content_def)
  then have "log_total (Suc k) f ?w = log_total k f (fl_disk st)"
  proof -
    assume same: "map (\<lambda>i. content ?w (log_name (int i) f)) [1..<Suc k] = map (\<lambda>i. content (fl_disk st) (log_name (int i) f)) [1..<Suc k]"
    have "[1..<Suc (Suc k)] = [1..<Suc k] @ [Suc k]" by simp
    moreover have "content ?w (log_name (int (Suc k)) f) = c" "content ?w f = []" "content (fl_disk st) f = c"
      using c by (simp_all add: content_def)
    ultimately show ?thesis using same by (simp only: log_total_def map_append concat_append list.map concat.simps append_Nil2)
  qed
  ultimately show ?thesis using u by simp
qed

lemma put_in_log:
  assumes "log_state k f el st" "fl_ok st"
  shows "log_state k f el (fl_put d st) \<and> log_total k f (fl_disk (fl_put d st)) = log_total k f (fl_disk st) @ d \<and> fl_ok (fl_put d st)"
  using write_in_log [OF assms(1), of d] assms by (auto simp: fl_put_def log_state_def)

lemma puts_in_log:
  "log_state k f el st \<Longrightarrow> fl_ok st \<Longrightarrow> log_state k f el (fold fl_put ds st)
    \<and> log_total k f (fl_disk (fold fl_put ds st)) = log_total k f (fl_disk st) @ concat ds \<and> fl_ok (fold fl_put ds st)"
proof (induction ds arbitrary: st)
  case (Cons d ds)
  from Cons(1) [of "fl_put d st"] put_in_log [OF Cons(2,3), of d] show ?case by simp
qed simp

lemma endl_in_log:
  assumes "log_state k f el st" "fl_ok st"
  shows "\<exists>st' k'. fl_endl st = Some st' \<and> k \<le> k' \<and> log_state k' f el st'
    \<and> log_total k' f (fl_disk st') = log_total k f (fl_disk st) @ end_line"
proof -
  let ?st = "fl_write end_line st"
  have w: "log_state k f el ?st" "log_total k f (fl_disk ?st) = log_total k f (fl_disk st) @ end_line" "fl_ok ?st"
    using write_in_log [OF assms(1), of end_line] assms(2) by auto
  have "fl_endl st = update_file ?st" using assms by (simp add: fl_endl_def log_state_def)
  then show ?thesis using w rotate_log [OF w(1)] by (auto simp: update_file_def log_state_def intro: le_SucI)
qed

definition flog_text :: "string \<Rightarrow> string \<Rightarrow> string \<Rightarrow> string \<Rightarrow> string list \<Rightarrow> string" where
  "flog_text txt date source line args = ''['' @ date @ ''] '' @ txt @ '' <<<< '' @ concat args @ '' ['' @ source @ '':<'' @ line @ ''>]'' @ end_line"

definition flog_pieces :: "string \<Rightarrow> string \<Rightarrow> string \<Rightarrow> string \<Rightarrow> string list \<Rightarrow> string list" where
  "flog_pieces txt date source line args
    = [''['', date, ''] '', txt @ '' <<<< ''] @ args @ ['' ['', source, '':<'', line, ''>]'']"

lemma fmake_log_puts:
  "fmake_log txt el date source line args st = fl_endl (fold fl_put (flog_pieces txt date source line args) (fl_put_level el st))"
  by (simp add: fmake_log_def flog_pieces_def)

lemma flog_pieces_text: "concat (flog_pieces txt date source line args) @ end_line = flog_text txt date source line args"
  by (simp add: flog_pieces_def flog_text_def)

lemma fold_fl_put_off: "\<not> fl_ok st \<Longrightarrow> fold fl_put ds st = st"
  by (induction ds) (simp_all add: fl_put_def)

lemma log_state_ok [simp]: "log_state k f lv (st\<lparr>fl_ok := b\<rparr>) \<longleftrightarrow> log_state k f lv st"
  by (simp add: log_state_def)

lemma fmake_log_run:
  assumes "log_state k f lv st"
  shows "\<exists>st' k'. fmake_log txt el date source line args st = Some st' \<and> k \<le> k' \<and> log_state k' f lv st'
    \<and> log_total k' f (fl_disk st') = log_total k f (fl_disk st) @ (if el \<le> lv then flog_text txt date source line args else [])"
proof (cases "el \<le> lv")
  case True
  obtain ds where ds: "ds = flog_pieces txt date source line args" by blast
  have p: "log_state k f lv (fold fl_put ds (st\<lparr>fl_ok := True\<rparr>))" "fl_ok (fold fl_put ds (st\<lparr>fl_ok := True\<rparr>))"
    "log_total k f (fl_disk (fold fl_put ds (st\<lparr>fl_ok := True\<rparr>))) = log_total k f (fl_disk st) @ concat ds"
    using puts_in_log [of k f lv "st\<lparr>fl_ok := True\<rparr>" ds] assms by simp_all
  have "fl_put_level el st = st\<lparr>fl_ok := True\<rparr>" using True assms by (simp add: fl_put_level_def log_state_def)
  then have "fmake_log txt el date source line args st = fl_endl (fold fl_put ds (st\<lparr>fl_ok := True\<rparr>))"
    by (simp only: fmake_log_puts ds)
  moreover have "concat ds @ end_line = flog_text txt date source line args" by (simp only: ds flog_pieces_text)
  moreover obtain st' k' where "fl_endl (fold fl_put ds (st\<lparr>fl_ok := True\<rparr>)) = Some st'" "k \<le> k'" "log_state k' f lv st'"
      "log_total k' f (fl_disk st') = log_total k f (fl_disk (fold fl_put ds (st\<lparr>fl_ok := True\<rparr>))) @ end_line"
    using endl_in_log [OF p(1,2)] by blast
  ultimately show ?thesis using True p(3) by (intro exI [of _ st'] exI [of _ k']) simp
next
  case False
  then have "fl_put_level el st = st\<lparr>fl_ok := False\<rparr>" using assms by (simp add: fl_put_level_def log_state_def)
  then have "fmake_log txt el date source line args st = Some (st\<lparr>fl_ok := False\<rparr>)"
    by (simp only: fmake_log_puts) (simp add: fold_fl_put_off fl_endl_def)
  then show ?thesis using False assms by (intro exI [of _ "st\<lparr>fl_ok := False\<rparr>"] exI [of _ k]) simp
qed

fun flog_run :: "(level4 \<times> string \<times> string \<times> string \<times> string \<times> string list) list \<Rightarrow> tflog \<Rightarrow> tflog option" where
  "flog_run [] st = Some st"
| "flog_run ((el, txt, date, source, line, args) # ls) st
    = Option.bind (fmake_log txt el date source line args st) (flog_run ls)"

definition flog_texts :: "level4 \<Rightarrow> (level4 \<times> string \<times> string \<times> string \<times> string \<times> string list) list \<Rightarrow> string" where
  "flog_texts lv ls = concat (map (\<lambda>(el, txt, date, source, line, args). flog_text txt date source line args)
     (filter (\<lambda>(el, x). el \<le> lv) ls))"

text \<open>
  C33: without a limit the rotation loses nothing. Whatever is logged, each line returns, and the numbered
  files in their order followed by the current one hold what they held before and then exactly the lines
  of a sufficient level.
\<close>

theorem log_keeps_all:
  assumes "log_state k f lv st"
  shows "\<exists>st' k'. flog_run ls st = Some st' \<and> k \<le> k' \<and> log_state k' f lv st'
    \<and> log_total k' f (fl_disk st') = log_total k f (fl_disk st) @ flog_texts lv ls"
  using assms
proof (induction ls arbitrary: st k)
  case (Cons x ls)
  obtain el tx date source line args where x: "x = (el, tx, date, source, line, args)" by (cases x)
  obtain st1 k1 where s1: "fmake_log tx el date source line args st = Some st1" "k \<le> k1" "log_state k1 f lv st1"
      "log_total k1 f (fl_disk st1) = log_total k f (fl_disk st) @ (if el \<le> lv then flog_text tx date source line args else [])"
    using fmake_log_run [OF Cons(2)] by blast
  obtain st2 k2 where s2: "flog_run ls st1 = Some st2" "k1 \<le> k2" "log_state k2 f lv st2"
      "log_total k2 f (fl_disk st2) = log_total k1 f (fl_disk st1) @ flog_texts lv ls"
    using Cons(1) [OF s1(3)] by blast
  show ?case using s1 s2 by (intro exI [of _ st2] exI [of _ k2]) (simp add: x flog_texts_def)
qed (auto simp: flog_texts_def)

definition demo_log :: tflog where
  "demo_log = snd (fl_init ''a.log'' True (fl_set_length 10 (fl_set_level E_info (tflog_init E_error True
     \<lparr>fs_nodes = [(''a.log'', Regular ''old'' True)], fs_creatable = (\<lambda>p. True), fs_room = (\<lambda>p n. True)\<rparr>))))"

lemma demo_log_state: "log_state 0 ''a.log'' E_info demo_log"
proof -
  have "node_at \<lparr>fs_nodes = [(''a.log'', Regular ''old'' True)], fs_creatable = (\<lambda>p. True), fs_room = (\<lambda>p n. True)\<rparr> p
      = (if p = ''a.log'' then Some (Regular ''old'' True) else None)" for p by (simp add: node_at_def)
  moreover have "log_name i ''a.log'' \<noteq> ''a.log''" for i by simp
  ultimately show ?thesis
    by (simp add: log_state_def demo_log_def fl_init_def fl_open_fs_def tflog_init_def fl_set_length_def fl_set_level_def Let_def)
qed

theorem log_keeps_all_witness:
  "\<exists>st' k'. flog_run [(E_info, ''[Inf]'', ''t'', ''s'', ''1'', [''x'']), (E_error, ''[Err]'', ''t'', ''s'', ''2'', [''y''])] demo_log = Some st'
    \<and> log_total k' ''a.log'' (fl_disk st') = log_total 0 ''a.log'' (fl_disk demo_log)
        @ flog_text ''[Inf]'' ''t'' ''s'' ''1'' [''x''] @ flog_text ''[Err]'' ''t'' ''s'' ''2'' [''y'']"
  using log_keeps_all [OF demo_log_state,
      of "[(E_info, ''[Inf]'', ''t'', ''s'', ''1'', [''x'']), (E_error, ''[Err]'', ''t'', ''s'', ''2'', [''y''])]"]
  by (auto simp: flog_texts_def less_eq_level4_def simp del: flog_run.simps)

text \<open>With a limit, only the numbered files up to the limit are ever touched.\<close>

definition outside_log :: "int \<Rightarrow> string \<Rightarrow> world \<Rightarrow> world \<Rightarrow> bool" where
  "outside_log m f w w' \<longleftrightarrow> (\<forall>p. p \<noteq> f \<and> (\<forall>i. 1 \<le> i \<and> i \<le> m \<longrightarrow> p \<noteq> log_name i f) \<longrightarrow> node_at w' p = node_at w p)"

definition limit_state :: "int \<Rightarrow> string \<Rightarrow> tflog \<Rightarrow> bool" where
  "limit_state m f st \<longleftrightarrow> fl_file st = f \<and> (fl_fs st = None \<or> fl_fs st = Some f) \<and> sint (limit_max st) = m
     \<and> 1 \<le> sint (limit_now st) \<and> sint (limit_now st) \<le> m"

lemma outside_log_trans: "outside_log m f u v \<Longrightarrow> outside_log m f v w \<Longrightarrow> outside_log m f u w"
  by (simp add: outside_log_def)

lemma outside_log_refl [simp]: "outside_log m f w w"
  by (simp add: outside_log_def)

lemma outside_log_put: "outside_log m f w (put_node f n w)"
  by (simp add: outside_log_def)

lemma outside_log_rename: "1 \<le> i \<Longrightarrow> i \<le> m \<Longrightarrow> outside_log m f w (fs_rename f (log_name i f) w)"
  by (auto simp: outside_log_def fs_rename_def split: option.splits node.splits)

lemma fl_write_limit:
  "limit_state m f st \<Longrightarrow> limit_state m f (fl_write d st) \<and> outside_log m f (fl_disk st) (fl_disk (fl_write d st))"
  by (auto simp: limit_state_def fl_write_def outside_log_put split: option.splits node.splits)

lemma fl_open_fs_limit: "fl_file st = f \<Longrightarrow> fl_fs st = None \<Longrightarrow>
    fl_file (fl_open_fs st) = f \<and> (fl_fs (fl_open_fs st) = None \<or> fl_fs (fl_open_fs st) = Some f)
    \<and> limit_max (fl_open_fs st) = limit_max st \<and> limit_now (fl_open_fs st) = limit_now st
    \<and> outside_log m f (fl_disk st) (fl_disk (fl_open_fs st))"
  by (auto simp: fl_open_fs_def outside_log_put Let_def split: option.splits node.splits)

lemma write_limit_limit:
  assumes "limit_state m f st" "m < 2 ^ 31 - 1"
  shows "limit_state m f (write_limit st) \<and> outside_log m f (fl_disk st) (fl_disk (write_limit st))"
proof -
  let ?n = "sint (limit_now st)"
  let ?st = "close_log st\<lparr>fl_disk := fs_rename f (log_name ?n f) (fl_disk st),
      limit_now := (if sint (limit_now st + 1) > sint (limit_max st) then 1 else limit_now st + 1)\<rparr>"
  have n: "1 \<le> ?n" "?n \<le> m" "sint (limit_max st) = m" "fl_file st = f" using assms(1) by (simp_all add: limit_state_def)
  have "sint (limit_now st + 1) = ?n + 1"
  proof -
    have "limit_now st + 1 = word_of_int (?n + 1)" by (simp add: wi_hom_add [symmetric])
    moreover have "sint (word_of_int (?n + 1) :: int32) = ?n + 1" using n assms(2) by (intro sint_word_of_int32) auto
    ultimately show ?thesis by metis
  qed
  moreover have "write_limit st = fl_open_fs ?st" using n by (simp add: write_limit_def close_log_def Let_def)
  ultimately show ?thesis
    using n fl_open_fs_limit [of ?st f m] outside_log_rename [of ?n m f "fl_disk st"] outside_log_trans
    by (auto simp: limit_state_def close_log_def)
qed

lemma fl_endl_limit:
  assumes "limit_state m f st" "m < 2 ^ 31 - 1" "fl_endl st = Some st'"
  shows "limit_state m f st' \<and> outside_log m f (fl_disk st) (fl_disk st')"
proof (cases "fl_ok st \<and> fl_fs st \<noteq> None")
  case True
  let ?st = "fl_write end_line st"
  have w: "limit_state m f ?st" "outside_log m f (fl_disk st) (fl_disk ?st)" using fl_write_limit [OF assms(1)] by auto
  then have "limit_max ?st \<noteq> 0" by (auto simp: limit_state_def)
  then have "st' = ?st \<or> st' = write_limit ?st" using assms(3) True by (auto simp: fl_endl_def update_file_def split: if_splits)
  then show ?thesis using w write_limit_limit [OF w(1) assms(2)] outside_log_trans [OF w(2)] by auto
qed (use assms in \<open>auto simp: fl_endl_def\<close>)

lemma fl_puts_limit:
  "limit_state m f st \<Longrightarrow> limit_state m f (fold fl_put ds st) \<and> outside_log m f (fl_disk st) (fl_disk (fold fl_put ds st))"
proof (induction ds arbitrary: st)
  case (Cons d ds)
  have "limit_state m f (fl_put d st) \<and> outside_log m f (fl_disk st) (fl_disk (fl_put d st))"
    using fl_write_limit [OF Cons(2)] Cons(2) by (simp add: fl_put_def)
  with Cons(1) [of "fl_put d st"] outside_log_trans show ?case by auto
qed simp

text \<open>
  With a limit of \<open>m\<close> files, logging writes and overwrites only the current file and those numbered
  from 1 to \<open>m\<close>, whatever the renaming of a full file comes to.
\<close>

theorem log_limit_bound:
  assumes "limit_state m f st" "m < 2 ^ 31 - 1" "flog_run ls st = Some st'"
  shows "limit_state m f st' \<and> outside_log m f (fl_disk st) (fl_disk st')"
  using assms(1,3)
proof (induction ls arbitrary: st)
  case (Cons x ls)
  obtain el tx date source line args where x: "x = (el, tx, date, source, line, args)" by (cases x)
  let ?st = "fl_put_level el st" and ?ds = "flog_pieces tx date source line args"
  obtain st1 where s: "fl_endl (fold fl_put ?ds ?st) = Some st1" "flog_run ls st1 = Some st'"
    using Cons(3) by (auto simp: x fmake_log_puts bind_eq_Some_conv)
  have "limit_state m f ?st" "fl_disk ?st = fl_disk st" using Cons(2) by (simp_all add: fl_put_level_def limit_state_def)
  with fl_puts_limit [of m f ?st ?ds]
  have "limit_state m f (fold fl_put ?ds ?st)" "outside_log m f (fl_disk st) (fl_disk (fold fl_put ?ds ?st))" by simp_all
  with fl_endl_limit [OF this(1) assms(2) s(1)] Cons(1) [OF _ s(2)] outside_log_trans show ?case by blast
qed simp

lemma demo_log_limit: "limit_state 2 ''a.log'' (fl_set_limit 2 demo_log)"
  using demo_log_state
  by (simp add: limit_state_def log_state_def fl_set_limit_def)
    (simp add: demo_log_def fl_init_def fl_open_fs_def tflog_init_def fl_set_length_def fl_set_level_def node_at_def Let_def)

theorem log_limit_bound_witness:
  "\<forall>st. flog_run [(E_info, ''[Inf]'', ''t'', ''s'', ''1'', [''x''])] (fl_set_limit 2 demo_log) = Some st \<longrightarrow>
    node_at (fl_disk st) ''3_a.log'' = None"
proof (intro allI impI)
  fix st
  assume run: "flog_run [(E_info, ''[Inf]'', ''t'', ''s'', ''1'', [''x''])] (fl_set_limit 2 demo_log) = Some st"
  have o: "outside_log 2 ''a.log'' (fl_disk (fl_set_limit 2 demo_log)) (fl_disk st)"
    using log_limit_bound [OF demo_log_limit _ run] by simp
  have n: "''3_a.log'' = log_name 3 ''a.log''" by (simp add: log_name_def int_to_string_def nat_digits.simps digit_char_eval)
  have "node_at (fl_disk (fl_set_limit 2 demo_log)) (log_name 3 ''a.log'') = None"
    using demo_log_state by (simp add: fl_set_limit_def log_state_def) (metis of_nat_numeral zero_less_numeral)
  moreover have "node_at (fl_disk st) (log_name 3 ''a.log'') = node_at (fl_disk (fl_set_limit 2 demo_log)) (log_name 3 ''a.log'')"
    using o unfolding outside_log_def by simp
  ultimately show "node_at (fl_disk st) ''3_a.log'' = None" by (simp only: n)
qed

text \<open>
  The number is put before the whole file name, so a file in another directory cannot be renamed. A
  log that has grown too long is then only opened again: with \<open>app\<close> it goes on growing, without it
  everything that was logged is gone.
\<close>

theorem log_in_directory:
  assumes "fl_fs st = Some f" "fl_file st = f" "fl_good st" "node_at (fl_disk st) f = Some (Regular c r)"
    and "len_max st < word_of_nat (length c)" "fs_creatable (fl_disk st) f"
    and "\<And>i. \<not> fs_creatable (fl_disk st) (log_name i f)" "\<And>i. \<not> exist_file (fl_disk st) (log_name i f)"
  shows "\<exists>st'. update_file st = Some st' \<and> fl_fs st' = Some f
    \<and> (\<forall>p. node_at (fl_disk st') p = (if p = f then Some (Regular (if fl_app st then c else []) r) else node_at (fl_disk st) p))"
proof -
  have "free_name (fl_disk st) f 1 = Some 1" using assms(8) by (simp add: free_name.simps [of _ f 1])
  moreover have "fs_rename f (log_name i f) (fl_disk st) = fl_disk st" for i
    using assms(4,7) by (simp add: fs_rename_def)
  ultimately show ?thesis using assms
    by (simp add: update_file_def fl_tellg_def write_unlimited_def write_limit_def close_log_def fl_open_fs_def Let_def)
qed

definition demo_dir_log :: tflog where
  "demo_dir_log = (tflog_init E_info False
     \<lparr>fs_nodes = [(''d/a'', Regular ''old'' True)], fs_creatable = (\<lambda>p. p = ''d/a''), fs_room = (\<lambda>p n. True)\<rparr>)
     \<lparr>fl_fs := Some ''d/a'', fl_file := ''d/a'', len_max := 2\<rparr>"

theorem log_in_directory_witness:
  "\<exists>st'. update_file demo_dir_log = Some st' \<and> node_at (fl_disk st') ''d/a'' = Some (Regular [] True)"
proof -
  have n: "node_at (fl_disk demo_dir_log) p = (if p = ''d/a'' then Some (Regular ''old'' True) else None)" for p
    by (simp add: demo_dir_log_def tflog_init_def node_at_def)
  have c: "fs_creatable (fl_disk demo_dir_log) p = (p = ''d/a'')" for p by (simp add: demo_dir_log_def tflog_init_def)
  have "\<exists>st'. update_file demo_dir_log = Some st' \<and> fl_fs st' = Some ''d/a''
    \<and> (\<forall>p. node_at (fl_disk st') p = (if p = ''d/a'' then Some (Regular (if fl_app demo_dir_log then ''old'' else []) True)
        else node_at (fl_disk demo_dir_log) p))"
  proof (rule log_in_directory)
    show "\<not> fs_creatable (fl_disk demo_dir_log) (log_name i ''d/a'')" for i using log_name_neq by (simp only: c not_False_eq_True)
    show "\<not> exist_file (fl_disk demo_dir_log) (log_name i ''d/a'')" for i using log_name_neq by (simp only: exist_file_def rs_open_def n) simp
  qed (simp_all add: n c, simp_all add: demo_dir_log_def tflog_init_def word_less_nat_alt)
  then show ?thesis by (auto simp: demo_dir_log_def tflog_init_def)
qed

text \<open>A printed container shows its elements in order; only line marks are put between them.\<close>

lemma con_items_all:
  assumes "count + int (length con) \<le> len"
  shows "con_items len flg count con = concat (map (\<lambda>a. a @ flg) con)"
  using assms by (induction con arbitrary: count) auto

lemma print_con_len_wide: "int (length con) \<le> len \<Longrightarrow> print_con_len len con = print_con con"
  by (simp add: print_con_len_def print_con_def con_items_all)

lemma con_items_rows:
  assumes "0 \<le> count" "count \<le> len" "1 \<le> len"
  shows "con_items len flg count con =
     (if int (length con) \<le> len - count then concat (map (\<lambda>a. a @ flg) con)
      else concat (map (\<lambda>a. a @ flg) (take (nat (len - count)) con)) @ end_line @ ''| ''
        @ con_items len flg 0 (drop (nat (len - count)) con))"
  using assms
proof (induction con arbitrary: count)
  case (Cons a con)
  show ?case
  proof (cases "count = len")
    case True
    then show ?thesis using Cons(3,4) by (cases con) simp_all
  next
    case False
    then have "nat (len - count) = Suc (nat (len - (count + 1)))" "count + 1 \<le> len" using Cons(3) by simp_all
    then show ?thesis using Cons(1) [of "count + 1"] Cons(2,4) False by simp
  qed
qed simp

end
