(* ===== verification/Account_Server.thy ===== *)
theory Account_Server
  imports Sqlite_Op
begin

text \<open>
  \<open>tests/web_server/\<close>: the table of accounts of the test server, and the earlier \<open>format.h\<close> it is built
  with. That formatter differs from \<open>format.h\<close> of the program in one place: after a hole was filled the
  scan goes on at the index where the hole ended, whatever the length of the argument. Where the two
  agree, and where the earlier one does not return. \<open>old_sformat\<close> has indices without a bound, for texts that stay
  below \<open>2 ^ 31\<close> bytes; \<open>old_turns\<close> is the same loop with the indices at their width, and says when one overflows.
\<close>

section \<open>The earlier \<open>sformat\<close>\<close>

text \<open>
  The body of a turn: \<open>val\<close> and \<open>_str\<close> after it. A failing \<open>to_num\<close> leaves both alone and a failing
  \<open>_vec.at\<close> the text; neither leaves the loop.
\<close>

definition old_fill :: "string list \<Rightarrow> string \<Rightarrow> int32 \<Rightarrow> int \<Rightarrow> int \<Rightarrow> int32 \<times> string" where
  "old_fill vec str val b e =
     (case to_num str (nat b) (nat e) of
        Some v \<Rightarrow> (v, (case vec_at vec v of
                    Some s \<Rightarrow> replace_string str s (nat b) (nat e)
                  | None \<Rightarrow> str))
      | None \<Rightarrow> (val, str))"

partial_function (option) old_sformat_loop :: "string list \<Rightarrow> string \<Rightarrow> int32 \<Rightarrow> nat \<Rightarrow> string option" where
  "old_sformat_loop vec str val from =
     (case find_flg str from of
        (found, b, e) \<Rightarrow>
          if found then
            (case old_fill vec str val b e of (val', str') \<Rightarrow> old_sformat_loop vec str' val' (nat e))
          else Some str)"

text \<open>
  The same loop turn by turn, with its indices of 32 bits: \<open>i\<close> of \<open>find_flg\<close> goes to the closing brace that is
  found, or to the end of the text, and passes \<open>2 ^ 31 - 1\<close> if that is further away, which is undefined.
  Memory for the text is assumed.
\<close>

datatype turns = Running string int32 nat | Returned string | Overflowed

definition scan_overflows :: "string \<Rightarrow> bool \<Rightarrow> int \<Rightarrow> bool" where
  "scan_overflows str found e \<longleftrightarrow> 2 ^ 31 \<le> (if found then e else int (length str))"

fun old_turns :: "nat \<Rightarrow> string list \<Rightarrow> string \<Rightarrow> int32 \<Rightarrow> nat \<Rightarrow> turns" where
  "old_turns 0 vec str val from = Running str val from"
| "old_turns (Suc n) vec str val from =
     (case find_flg str from of
        (found, b, e) \<Rightarrow>
          if scan_overflows str found e then Overflowed
          else if found then (case old_fill vec str val b e of (val', str') \<Rightarrow> old_turns n vec str' val' (nat e))
          else Returned str)"

text \<open>A call that does not return is \<open>Diverges\<close>.\<close>

definition returns :: "'a option \<Rightarrow> 'a res" where
  "returns m = (case m of Some x \<Rightarrow> Inr x | None \<Rightarrow> Inl Diverges)"

definition old_sformat :: "string \<Rightarrow> sarg list \<Rightarrow> string res" where
  "old_sformat fmt args = returns (old_sformat_loop (map arg_to_string args) fmt (- 1) 0)"

section \<open>The class \<open>sqlist_abs\<close>\<close>

definition sqlist_open_db :: "'d engine \<Rightarrow> string \<Rightarrow> 'a sqlite_base_scheme \<Rightarrow> 'd \<Rightarrow> bool \<times> 'a sqlite_base_scheme \<times> 'd" where
  "sqlist_open_db eng file st d = (case eng_open eng file d of
       (True, d') \<Rightarrow> (True, st\<lparr>db := Some file\<rparr>, d')
     | (False, d') \<Rightarrow> (False, st\<lparr>db := None\<rparr>, d'))"

definition sqlist_close_db :: "'d engine \<Rightarrow> 'a sqlite_base_scheme \<Rightarrow> 'd \<Rightarrow> bool \<times> 'd" where
  "sqlist_close_db eng st d = (case db st of None \<Rightarrow> (True, d) | Some file \<Rightarrow> eng_close eng file d)"

definition sqlist_delete_db :: "'d engine \<Rightarrow> string \<Rightarrow> ('d, 'a sqlite_base_scheme) db_op" where
  "sqlist_delete_db eng table = exec_plain eng (old_sformat ''DELETE FROM {0};'' [A_str table])"

definition sqlist_drop_db :: "'d engine \<Rightarrow> string \<Rightarrow> ('d, 'a sqlite_base_scheme) db_op" where
  "sqlist_drop_db eng table = exec_plain eng (old_sformat ''DROP TABLE IF EXISTS {0};'' [A_str table])"

definition sqlist_select_db :: "'d engine \<Rightarrow> string \<Rightarrow> string list \<Rightarrow> 'a sqlite_base_scheme \<Rightarrow> 'd
    \<Rightarrow> (bool \<times> string list \<times> 'a sqlite_base_scheme \<times> 'd) res" where
  "sqlist_select_db eng table data st d =
     rbind (old_sformat ''SELECT * FROM {0};'' [A_str table]) (\<lambda>sql.
     case exec_db eng sql st d of (ok, rows, st', d') \<Rightarrow>
       rbind (res_map row_text rows) (\<lambda>ts. Inr (ok, data @ ts, st', d')))"

definition sqlist_error_exec :: "'a sqlite_base_scheme \<Rightarrow> string" where
  "sqlist_error_exec st = (case db_error st of None \<Rightarrow> [] | Some e \<Rightarrow> e)"

definition sqlist_error :: "'d engine \<Rightarrow> 'a sqlite_base_scheme \<Rightarrow> 'd \<Rightarrow> string" where
  "sqlist_error eng st d = (case eng_errmsg eng (db st) d of None \<Rightarrow> [] | Some e \<Rightarrow> e)"

section \<open>The class \<open>sqlist_account\<close>\<close>

record data_account =
  da_account :: string
  da_passwd :: string

record sqlist_account = sqlite_base +
  acc_file :: string
  acc_table :: string
  acc_data :: data_account

definition sqlist_account_init :: sqlist_account where
  "sqlist_account_init = \<lparr>db = None, db_error = None, acc_file = ''ac_passwd.db'', acc_table = ''ac_passwd'',
     acc_data = \<lparr>da_account = ''account'', da_passwd = ''passwd''\<rparr>\<rparr>"

text \<open>\<open>std::to_string(unsigned)\<close>: an account has 32 bits and no sign.\<close>

definition A_uint :: "int32 \<Rightarrow> sarg" where
  "A_uint n = A_str (int_to_string (uint n))"

definition open_account :: "'d engine \<Rightarrow> 'a sqlist_account_scheme \<Rightarrow> 'd \<Rightarrow> bool \<times> 'a sqlist_account_scheme \<times> 'd" where
  "open_account eng st d = sqlist_open_db eng (acc_file st) st d"

definition account_create_text :: string where
  "account_create_text = CHR 0x0A # ''        CREATE TABLE {0} ('' @ CHR 0x0A #
     ''            {1} INTEGER PRIMARY KEY CHECK (account >= 100000000 AND account <= 999999999),'' @ CHR 0x0A #
     ''            {2} TEXT CHECK (LENGTH(passwd) >= 6 AND LENGTH(passwd) <= 18)'' @ CHR 0x0A #
     ''        );'' @ CHR 0x0A # ''        ''"

definition create_account :: "'d engine \<Rightarrow> ('d, 'a sqlist_account_scheme) db_op" where
  "create_account eng st = exec_plain eng (old_sformat account_create_text
     [A_str (acc_table st), A_str (da_account (acc_data st)), A_str (da_passwd (acc_data st))]) st"

definition insert_account :: "'d engine \<Rightarrow> int32 \<Rightarrow> string \<Rightarrow> ('d, 'a sqlist_account_scheme) db_op" where
  "insert_account eng account passwd st = exec_plain eng
     (old_sformat (''INSERT INTO {0} VALUES ({1},'' @ quoted ''{2}'' @ '');'')
       [A_str (acc_table st), A_uint account, A_str passwd]) st"

definition update_account :: "'d engine \<Rightarrow> int32 \<Rightarrow> string \<Rightarrow> ('d, 'a sqlist_account_scheme) db_op" where
  "update_account eng account passwd st = exec_plain eng
     (old_sformat ('' UPDATE {0} SET {1} = '' @ quoted ''{2}'' @ '' WHERE {3} = {4}; '')
       [A_str (acc_table st), A_str (da_passwd (acc_data st)), A_str passwd, A_str (da_account (acc_data st)),
        A_uint account]) st"

definition delete_account :: "'d engine \<Rightarrow> int32 \<Rightarrow> ('d, 'a sqlist_account_scheme) db_op" where
  "delete_account eng account st = exec_plain eng
     (old_sformat '' DELETE FROM {0} WHERE {1} = {2}; ''
       [A_str (acc_table st), A_str (da_account (acc_data st)), A_uint account]) st"

section \<open>The scan\<close>

lemma find_flg_prefix:
  assumes "brace_free q" "from \<le> length q" "brace_free x"
  shows "find_flg (q @ CHR ''{'' # x @ CHR ''}'' # r) from = (True, int (length q), int (length q + length x + 1))"
  using find_flg_hole [OF assms(1,2,3), of "[]" r] by simp

lemma find_flg_none: "brace_free q \<Longrightarrow> find_flg q from = (False, - 1, - 1)"
  using find_flg_brace_free [of q "[]" "from"] by simp

lemma old_loop_done: "brace_free q \<Longrightarrow> old_sformat_loop vec q v from = Some q"
  by (subst old_sformat_loop.simps) (simp add: find_flg_none)

lemma old_fill_hole:
  assumes "k < length vec" "k < 2 ^ 31"
  shows "old_fill vec (q @ hole k @ r) v (int (length q)) (int (length q + length (nat_digits k) + 1))
    = (of_nat k, q @ vec ! k @ r)"
  using to_num_between [of q "nat_digits k" r] replace_between [of q "nat_digits k" r "vec ! k"] assms
  by (simp add: old_fill_def hole_def stoi_nat_digits vec_at_nat nat_add_distrib)

lemma old_loop_hole:
  assumes "brace_free q" "from \<le> length q" "k < length vec" "k < 2 ^ 31"
  shows "old_sformat_loop vec (q @ hole k @ r) v from
    = old_sformat_loop vec (q @ vec ! k @ r) (of_nat k) (length q + (length (nat_digits k) + 1))"
proof -
  have f: "find_flg (q @ hole k @ r) from = (True, int (length q), int (length q + length (nat_digits k) + 1))"
    using find_flg_prefix [OF assms(1,2), of "nat_digits k" r] by (simp add: hole_def)
  show ?thesis
    by (subst old_sformat_loop.simps)
      (use f old_fill_hole [OF assms(3,4), of q r v] in \<open>simp add: nat_add_distrib del: of_nat_add\<close>)
qed

lemma old_loop_template:
  "template_ok (length vec) n t \<Longrightarrow> brace_free p \<Longrightarrow> list_all brace_free vec \<Longrightarrow> from \<le> length p + n
    \<Longrightarrow> old_sformat_loop vec (p @ template_text t) v from = Some (p @ template_expand (\<lambda>k. vec ! k) t)"
proof (induction "length vec" n t arbitrary: p v "from" rule: template_ok.induct)
  case (1 skip fin)
  then show ?case by (simp add: old_loop_done)
next
  case (2 skip l k t fin)
  from 2(2) have l: "brace_free l" "skip \<le> length l" "k < length vec" "k < 2 ^ 31"
    and t: "template_ok (length vec) (length (nat_digits k) + 1) (t, fin)"
    by auto
  have k: "brace_free (vec ! k)" using 2(4) l(3) by (simp add: list_all_length)
  show ?case
    using old_loop_hole [of "p @ l" "from" k vec "template_text (t, fin)" v] 2(3,5) l
      2(1) [OF t, of "p @ l @ vec ! k" "length (p @ l) + (length (nat_digits k) + 1)" "of_nat k"] 2(4) k
    by simp
qed

text \<open>Where the loop with indices of 32 bits returns, the loop without a bound gives the same.\<close>

lemma old_turns_loop: "old_turns n vec str v from = Returned x \<Longrightarrow> old_sformat_loop vec str v from = Some x"
proof (induction n arbitrary: str v "from")
  case (Suc n)
  then show ?case by (subst old_sformat_loop.simps) (auto split: prod.splits if_splits)
qed simp

lemma old_turns_stay: "old_turns n vec str v from = Returned x \<Longrightarrow> old_turns (n + m) vec str v from = Returned x"
  by (induction n arbitrary: str v "from") (auto split: prod.splits if_splits)

text \<open>
  A hole whose argument holds the same hole again, far enough from its start: every turn finds one more copy
  of it, until the index of the scan overflows.
\<close>

lemma old_turns_hole:
  assumes "brace_free q" "from \<le> length q" "k < length vec" "k < 2 ^ 31"
  shows "old_turns (Suc n) vec (q @ hole k @ r) v from
    = (if 2 ^ 31 \<le> length q + (length (nat_digits k) + 1) then Overflowed
       else old_turns n vec (q @ vec ! k @ r) (of_nat k) (length q + (length (nat_digits k) + 1)))"
proof -
  have f: "find_flg (q @ hole k @ r) from = (True, int (length q), int (length q + length (nat_digits k) + 1))"
    using find_flg_prefix [OF assms(1,2), of "nat_digits k" r] by (simp add: hole_def)
  show ?thesis
    using f old_fill_hole [OF assms(3,4), of q r v]
    by (simp add: scan_overflows_def nat_add_distrib del: of_nat_add)
qed

lemma old_turns_run_away:
  assumes a: "vec ! j = a @ hole j @ r'" "brace_free a" "length (nat_digits j) < length a"
    and j: "j < length vec" "j < 2 ^ 31"
  shows "brace_free q \<Longrightarrow> from \<le> length q \<Longrightarrow>
    (if k = 0 \<or> length q + length (nat_digits j) + 1 + (k - 1) * length a < 2 ^ 31
     then \<exists>t v' e. old_turns k vec (q @ hole j @ r) v from = Running t v' e
       \<and> length t = length (q @ hole j @ r) + k * (length a + length r')
     else old_turns k vec (q @ hole j @ r) v from = Overflowed)"
proof (induction k arbitrary: q r v "from")
  case (Suc k)
  let ?e = "length q + (length (nat_digits j) + 1)"
  have step: "old_turns (Suc k) vec (q @ hole j @ r) v from
      = (if 2 ^ 31 \<le> ?e then Overflowed else old_turns k vec ((q @ a) @ hole j @ (r' @ r)) (of_nat j) ?e)"
    using old_turns_hole [OF Suc(2,3) j] a(1) by simp
  show ?case
  proof (cases "2 ^ 31 \<le> ?e")
    case True
    have "\<not> length q + length (nat_digits j) + 1 + (Suc k - 1) * length a < 2 ^ 31" using True by linarith
    moreover have "Suc k \<noteq> 0" by simp
    ultimately show ?thesis using step True by (simp only: if_True if_False simp_thms)
  next
    case False
    have le: "?e \<le> length (q @ a)" using a(3) by simp
    have bf: "brace_free (q @ a)" using Suc(2) a(2) by simp
    note ih = Suc.IH [OF bf le, of "r' @ r" "of_nat j"]
    have fits: "k = 0 \<or> length (q @ a) + length (nat_digits j) + 1 + (k - 1) * length a < 2 ^ 31
        \<longleftrightarrow> length q + length (nat_digits j) + 1 + k * length a < 2 ^ 31"
    proof (cases k)
      case (Suc i)
      then show ?thesis by (simp add: add.assoc add.left_commute)
    qed (use False in simp)
    have len: "length ((q @ a) @ hole j @ r' @ r) + k * (length a + length r')
        = length (q @ hole j @ r) + Suc k * (length a + length r')" by (simp add: algebra_simps)
    show ?thesis
      using ih False unfolding step fits len diff_Suc_1 by (simp only: if_False simp_thms Suc_not_Zero)
  qed
qed simp

lemma old_fill_template:
  assumes "template_ok (length args) 0 t" "\<forall>a \<in> set args. brace_free (arg_to_string a)"
  shows "old_sformat (template_text t) args = Inr (template_expand (\<lambda>k. arg_to_string (args ! k)) t)"
proof -
  have "old_sformat_loop (map arg_to_string args) ([] @ template_text t) (- 1) 0
      = Some ([] @ template_expand (\<lambda>k. map arg_to_string args ! k) t)"
    by (rule old_loop_template) (use assms in \<open>auto simp: list_all_iff\<close>)
  moreover have "template_expand (\<lambda>k. map arg_to_string args ! k) t = template_expand (\<lambda>k. arg_to_string (args ! k)) t"
    using assms(1) by (rule template_expand_cong) simp
  ultimately show ?thesis by (simp add: old_sformat_def returns_def)
qed

lemma hole_eval:
  "hole 0 = ''{0}''" "hole 1 = ''{1}''" "hole (Suc 0) = ''{1}''" "hole 2 = ''{2}''" "hole 3 = ''{3}''" "hole 4 = ''{4}''"
  by (simp_all add: hole_def digits_eval)

lemma old_fill:
  assumes "template_text t = str" "template_ok (length args) 0 t" "\<forall>a \<in> set args. brace_free (arg_to_string a)"
  shows "old_sformat str args = Inr (template_expand (\<lambda>k. arg_to_string (args ! k)) t)"
  using old_fill_template [OF assms(2,3)] assms(1) by simp

lemma small_digits: "nat_digits 0 = ''0''" "nat_digits 1 = ''1''" "nat_digits (Suc 0) = ''1''" "nat_digits 2 = ''2''"
  "nat_digits 3 = ''3''" "nat_digits 4 = ''4''"
  by (simp_all add: digits_eval)

section \<open>Properties\<close>

text \<open>
  C29: on a template whose arguments hold no brace the formatter of the test server and that of the
  program are the same function: both return, and both return the template with its holes filled.
\<close>

theorem old_sformat_agrees:
  assumes "template_ok (length args) 0 t" "\<forall>a \<in> set args. brace_free (arg_to_string a)"
  shows "old_sformat (template_text t) args = sformat (template_text t) args
    \<and> sformat (template_text t) args = Inr (template_expand (\<lambda>k. arg_to_string (args ! k)) t)"
  using old_fill_template [OF assms] sformat_fill [OF assms(1) refl] by simp

theorem old_sformat_agrees_witness:
  "old_sformat ''UPDATE {0} SET {1} = {0};'' [A_str ''tab'', A_int64 (- 7)] = Inr ''UPDATE tab SET -7 = tab;''"
proof -
  let ?t = "([(''UPDATE '', 0), ('' SET '', 1), ('' = '', 0)], '';'')"
  have "template_text ?t = ''UPDATE {0} SET {1} = {0};''" by (simp add: hole_eval)
  moreover have "template_ok (length [A_str ''tab'', A_int64 (- 7)]) 0 ?t" by (simp add: digits_eval)
  ultimately show ?thesis
    using old_sformat_agrees [of "[A_str ''tab'', A_int64 (- 7)]" ?t] by (simp add: hole_eval digits_eval)
qed

text \<open>The statement that stores an account.\<close>

definition account_ready :: "'a sqlist_account_scheme \<Rightarrow> bool" where
  "account_ready st \<longleftrightarrow> acc_table st = ''ac_passwd'' \<and> acc_data st = \<lparr>da_account = ''account'', da_passwd = ''passwd''\<rparr>"

lemma brace_free_int [simp]: "brace_free (int_to_string i)"
  by (simp add: int_to_string_def)

lemma account_templates:
  "template_text ([(''INSERT INTO '', 0), ('' VALUES ('', 1), ('','' @ [CHR 0x27], 2)], CHR 0x27 # '');'')
     = ''INSERT INTO {0} VALUES ({1},'' @ quoted ''{2}'' @ '');''"
  "template_text ([('' UPDATE '', 0), ('' SET '', 1), ('' = '' @ [CHR 0x27], 2), (CHR 0x27 # '' WHERE '', 3), ('' = '', 4)], ''; '')
     = '' UPDATE {0} SET {1} = '' @ quoted ''{2}'' @ '' WHERE {3} = {4}; ''"
  "template_text ([('' DELETE FROM '', 0), ('' WHERE '', 1), ('' = '', 2)], ''; '') = '' DELETE FROM {0} WHERE {1} = {2}; ''"
  by (simp_all add: hole_eval quoted_def)

lemma account_insert_new:
  "sformat (''INSERT INTO {0} VALUES ({1},'' @ quoted ''{2}'' @ '');'') [A_str ''ac_passwd'', A_uint n, A_str passwd]
     = Inr (''INSERT INTO ac_passwd VALUES ('' @ int_to_string (uint n) @ '','' @ quoted passwd @ '');'')"
  by (rule trans [OF sformat_fill [OF _ account_templates(1)]]) (simp_all add: A_uint_def quoted_def small_digits)

lemma account_texts:
  assumes "brace_free passwd"
  shows "old_sformat (''INSERT INTO {0} VALUES ({1},'' @ quoted ''{2}'' @ '');'') [A_str ''ac_passwd'', A_uint n, A_str passwd]
      = Inr (''INSERT INTO ac_passwd VALUES ('' @ int_to_string (uint n) @ '','' @ quoted passwd @ '');'')"
    "old_sformat ('' UPDATE {0} SET {1} = '' @ quoted ''{2}'' @ '' WHERE {3} = {4}; '')
        [A_str ''ac_passwd'', A_str ''passwd'', A_str passwd, A_str ''account'', A_uint n]
      = Inr ('' UPDATE ac_passwd SET passwd = '' @ quoted passwd @ '' WHERE account = '' @ int_to_string (uint n) @ ''; '')"
    "old_sformat '' DELETE FROM {0} WHERE {1} = {2}; '' [A_str ''ac_passwd'', A_str ''account'', A_uint n]
      = Inr ('' DELETE FROM ac_passwd WHERE account = '' @ int_to_string (uint n) @ ''; '')"
proof -
  show "old_sformat (''INSERT INTO {0} VALUES ({1},'' @ quoted ''{2}'' @ '');'') [A_str ''ac_passwd'', A_uint n, A_str passwd]
      = Inr (''INSERT INTO ac_passwd VALUES ('' @ int_to_string (uint n) @ '','' @ quoted passwd @ '');'')"
    by (rule trans [OF old_fill [OF account_templates(1)]]) (simp_all add: assms A_uint_def quoted_def small_digits)
  show "old_sformat ('' UPDATE {0} SET {1} = '' @ quoted ''{2}'' @ '' WHERE {3} = {4}; '')
        [A_str ''ac_passwd'', A_str ''passwd'', A_str passwd, A_str ''account'', A_uint n]
      = Inr ('' UPDATE ac_passwd SET passwd = '' @ quoted passwd @ '' WHERE account = '' @ int_to_string (uint n) @ ''; '')"
    by (rule trans [OF old_fill [OF account_templates(2)]]) (simp_all add: assms A_uint_def quoted_def small_digits)
  show "old_sformat '' DELETE FROM {0} WHERE {1} = {2}; '' [A_str ''ac_passwd'', A_str ''account'', A_uint n]
      = Inr ('' DELETE FROM ac_passwd WHERE account = '' @ int_to_string (uint n) @ ''; '')"
    by (rule trans [OF old_fill [OF account_templates(3)]]) (simp_all add: assms A_uint_def quoted_def small_digits)
qed

text \<open>
  The statements of the table of accounts. A password without braces is copied into the text
  unescaped, between single quotes.
\<close>

theorem account_statements:
  assumes "account_ready st" "brace_free passwd"
  shows "insert_account eng n passwd st d = exec_plain eng (Inr
      (''INSERT INTO ac_passwd VALUES ('' @ int_to_string (uint n) @ '','' @ quoted passwd @ '');'')) st d
    \<and> update_account eng n passwd st d = exec_plain eng (Inr
      ('' UPDATE ac_passwd SET passwd = '' @ quoted passwd @ '' WHERE account = '' @ int_to_string (uint n) @ ''; '')) st d
    \<and> delete_account eng n st d = exec_plain eng (Inr
      ('' DELETE FROM ac_passwd WHERE account = '' @ int_to_string (uint n) @ ''; '')) st d"
  by (simp only: insert_account_def update_account_def delete_account_def assms(1) [unfolded account_ready_def]
      account_texts [OF assms(2)] data_account.simps simp_thms)

theorem account_statements_witness:
  "update_account demo_engine 7 ''x' OR 1=1'' (sqlist_account_init\<lparr>db := Some ''f''\<rparr>) []
    = Inr (True, sqlist_account_init\<lparr>db := Some ''f''\<rparr>, ['' UPDATE ac_passwd SET passwd = 'x' OR 1=1' WHERE account = 7; ''])"
proof -
  have "account_ready (sqlist_account_init\<lparr>db := Some ''f''\<rparr>)" by (simp add: account_ready_def sqlist_account_init_def)
  from account_statements [OF this, of "''x' OR 1=1''" demo_engine 7 "[]"] show ?thesis
    by (simp add: exec_plain_def exec_db_def demo_engine_def sqlist_account_init_def Let_def quoted_def int_to_string_def digits_eval)
qed



end
