(* ===== verification/Account_Store.thy ===== *)
theory Account_Store
  imports Account_Server Vlog Json Sql_Text
begin

text \<open>
  The main program of the test server, \<open>tests/web_server/main.cpp\<close>: the run of the table of accounts that
  \<open>main\<close> calls, with its log, and the handlers of the echo server of \<open>test_1\<close>. What SQLite does with the statements of
  \<open>sqlist_account\<close> is the locale \<open>account_sql\<close>; under its laws the table is a list of accounts, and the output of
  the program is known to the byte.
\<close>

section \<open>The main program\<close>

text \<open>
  The path of the source in the log lines is a parameter. A step of \<open>test_2\<close> that calls one operation and logs
  \<open>$(ok)\<close>, the step that shows the table, and the whole.
\<close>

type_synonym 'd server = "sqlist_account \<times> 'd \<times> tvlog"

definition report_ok :: "string \<Rightarrow> string \<Rightarrow> bool \<Rightarrow> tvlog \<Rightarrow> tvlog" where
  "report_ok src line ok log = (let value = [''[ok: '', if ok then ''1'' else ''0'', ''] '']
     in if ok = True then vlogd src line value log else vloge src line value log)"

definition report_failed :: "string \<Rightarrow> string \<Rightarrow> bool \<Rightarrow> tvlog \<Rightarrow> tvlog" where
  "report_failed src line ok log = (if ok = False then vloge src line [''failed''] log else log)"

definition server_op :: "string \<Rightarrow> string \<Rightarrow> ('d, sqlist_account) db_op \<Rightarrow> 'd server \<Rightarrow> 'd server res" where
  "server_op src line f = (\<lambda>(sql, d, log). rbind (f sql d) (\<lambda>(ok, sql', d'). Inr (sql', d', report_ok src line ok log)))"

definition server_show :: "'d engine \<Rightarrow> string \<Rightarrow> string \<Rightarrow> string \<Rightarrow> 'd server \<Rightarrow> 'd server res" where
  "server_show eng src line line_row = (\<lambda>(sql, d, log).
     rbind (sqlist_select_db eng (acc_table sql) [] sql d) (\<lambda>(ok, data, sql', d').
     Inr (sql', d', fold (\<lambda>a. vlogi src line_row [a]) data (report_ok src line ok log))))"

definition server_test_2 :: "'d engine \<Rightarrow> string \<Rightarrow> 'd \<Rightarrow> tvlog \<Rightarrow> ('d \<times> tvlog) res" where
  "server_test_2 eng src d log =
     (case open_account eng sqlist_account_init d of (ok, sql, d) \<Rightarrow>
      rbind (create_account eng sql d) (\<lambda>(ok2, sql, d).
      rbind (server_op src ''47'' (insert_account eng 123456789 ''123456'')
               (sql, d, report_failed src ''43'' ok2 (report_failed src ''42'' ok log))) (\<lambda>s.
      rbind (server_op src ''51'' (insert_account eng 333456789 ''1234567'') s) (\<lambda>s.
      rbind (server_op src ''55'' (insert_account eng 444456789 ''1234568'') s) (\<lambda>s.
      rbind (server_op src ''59'' (insert_account eng 444456789 ''123456'') s) (\<lambda>s.
      rbind (server_op src ''63'' (insert_account eng 544456789 ''12345'') s) (\<lambda>s.
      rbind (server_show eng src ''69'' ''72'' s) (\<lambda>s.
      rbind (server_op src ''78'' (update_account eng 123456789 ''aabbcc'') s) (\<lambda>s.
      rbind (server_op src ''82'' (delete_account eng 333456789) s) (\<lambda>s.
      rbind (server_show eng src ''88'' ''91'' s) (\<lambda>s.
      rbind (server_op src ''96'' (\<lambda>sql. sqlist_drop_db eng (acc_table sql) sql) s) (\<lambda>(sql, d, log).
      case sqlist_close_db eng sql d of (ok, d) \<Rightarrow> Inr (d, report_ok src ''100'' ok log)))))))))))))"

text \<open>\<open>main\<close>: the log begins with a level that is not set.\<close>

definition server_main :: "'d engine \<Rightarrow> string \<Rightarrow> level4 \<Rightarrow> 'd \<Rightarrow> ('d \<times> tvlog) res" where
  "server_main eng src junk d =
     rbind (server_test_2 eng src d (vl_set_level E_info (tvlog_init junk))) (\<lambda>(d, log).
     Inr (d, vlogd src ''113'' [''== end ==''] log))"

text \<open>The handlers of \<open>test_1\<close>: what they do to the channel and to the server, in order.\<close>

datatype server_act = Act_send string | Act_stop | Act_close

definition fn_open :: "string \<Rightarrow> string \<Rightarrow> tvlog \<Rightarrow> tvlog" where
  "fn_open src path = vlogi src ''18'' [''fn_open'', path]"

definition fn_message :: "string \<Rightarrow> string \<Rightarrow> tvlog \<Rightarrow> server_act list \<times> tvlog" where
  "fn_message src msg log =
     (Act_send msg # (if msg = ''exit'' then [Act_stop] else if msg = ''close'' then [Act_close] else []),
      vlogi src ''21'' [''fn_message: '', msg] log)"

definition fn_close :: "string \<Rightarrow> tvlog \<Rightarrow> tvlog" where
  "fn_close src = vlogi src ''28'' [''fn_close'']"

text \<open>\<open>test_1\<close>: the server is run by the library, which calls the handlers on the events \<open>evs\<close> until it is stopped.\<close>

datatype server_event = Ev_open string | Ev_message string | Ev_close

fun server_handle :: "string \<Rightarrow> server_event \<Rightarrow> server_act list \<times> tvlog \<Rightarrow> server_act list \<times> tvlog" where
  "server_handle src (Ev_open path) (acts, log) = (acts, fn_open src path log)"
| "server_handle src (Ev_message msg) (acts, log) = (case fn_message src msg log of (a, log) \<Rightarrow> (acts @ a, log))"
| "server_handle src Ev_close (acts, log) = (acts, fn_close src log)"

definition server_test_1 :: "string \<Rightarrow> server_event list \<Rightarrow> tvlog \<Rightarrow> server_act list \<times> tvlog" where
  "server_test_1 src evs log =
     (case fold (server_handle src) evs ([], vlogi src ''12'' [''== server ==''] log) of
        (acts, log) \<Rightarrow> (acts, vlogi src ''34'' [''== end ==''] log))"

text \<open>What it sends are the messages it received, in order, and it stops or closes only when it is told to.\<close>

fun sends :: "server_act \<Rightarrow> string list" where
  "sends (Act_send m) = [m]"
| "sends _ = []"

fun messages :: "server_event \<Rightarrow> string list" where
  "messages (Ev_message m) = [m]"
| "messages _ = []"

lemma server_echoes:
  "concat (map sends (fst (server_test_1 src evs log))) = concat (map messages evs)
    \<and> (Act_stop \<in> set (fst (server_test_1 src evs log)) \<longleftrightarrow> Ev_message ''exit'' \<in> set evs)"
proof -
  have "concat (map sends (fst (fold (server_handle src) evs (acts, log)))) = concat (map sends acts) @ concat (map messages evs)
      \<and> (Act_stop \<in> set (fst (fold (server_handle src) evs (acts, log))) \<longleftrightarrow> Act_stop \<in> set acts \<or> Ev_message ''exit'' \<in> set evs)" for acts log
  proof (induction evs arbitrary: acts log)
    case (Cons ev evs)
    show ?case by (cases ev) (auto simp: fn_message_def Cons.IH)
  qed simp
  then show ?thesis by (simp add: server_test_1_def split: prod.splits) (metis append_Nil concat.simps(1) fst_conv list.simps(8) list.set(1) empty_iff)
qed

section \<open>The statements and the table\<close>

datatype account_stmt = As_create | As_insert int64 string | As_update int64 string | As_delete int64
  | As_clear | As_all | As_drop

definition created_text :: string where
  "created_text = CHR 0x0A # ''        CREATE TABLE ac_passwd ('' @ CHR 0x0A #
     ''            account INTEGER PRIMARY KEY CHECK (account >= 100000000 AND account <= 999999999),'' @ CHR 0x0A #
     ''            passwd TEXT CHECK (LENGTH(passwd) >= 6 AND LENGTH(passwd) <= 18)'' @ CHR 0x0A #
     ''        );'' @ CHR 0x0A # ''        ''"

fun account_text :: "account_stmt \<Rightarrow> string" where
  "account_text As_create = created_text"
| "account_text (As_insert n p) = ''INSERT INTO ac_passwd VALUES ('' @ to_string64 n @ '','' @ quoted p @ '');''"
| "account_text (As_update n p) = '' UPDATE ac_passwd SET passwd = '' @ quoted p @ '' WHERE account = '' @ to_string64 n @ ''; ''"
| "account_text (As_delete n) = '' DELETE FROM ac_passwd WHERE account = '' @ to_string64 n @ ''; ''"
| "account_text As_clear = ''DELETE FROM ac_passwd;''"
| "account_text As_all = ''SELECT * FROM ac_passwd;''"
| "account_text As_drop = ''DROP TABLE IF EXISTS ac_passwd;''"

text \<open>\<open>LENGTH\<close> counts the characters of a text: in UTF-8 the bytes that do not continue one.\<close>

definition text_length :: "string \<Rightarrow> nat" where
  "text_length s = length (filter (\<lambda>c. \<not> byte_in c 128 191) s)"

definition account_fits :: "int64 \<Rightarrow> bool" where
  "account_fits n \<longleftrightarrow> 100000000 \<le> sint n \<and> sint n \<le> 999999999"

definition passwd_fits :: "string \<Rightarrow> bool" where
  "passwd_fits p \<longleftrightarrow> 6 \<le> text_length p \<and> text_length p \<le> 18"

text \<open>The table, in the order of the accounts, or none.\<close>

type_synonym accounts = "(int64 \<times> string) list option"

fun run_account :: "account_stmt \<Rightarrow> accounts \<Rightarrow> bool \<times> (int64 \<times> string) list \<times> accounts" where
  "run_account As_create None = (True, [], Some [])"
| "run_account As_drop s = (True, [], None)"
| "run_account (As_insert n p) (Some rows) =
     (if n \<in> fst ` set rows \<or> \<not> account_fits n \<or> \<not> passwd_fits p then (False, [], Some rows)
      else (True, [], Some (insort_key (\<lambda>r. sint (fst r)) (n, p) rows)))"
| "run_account (As_update n p) (Some rows) =
     (if n \<in> fst ` set rows \<and> \<not> passwd_fits p then (False, [], Some rows)
      else (True, [], Some (map (\<lambda>r. if fst r = n then (n, p) else r) rows)))"
| "run_account (As_delete n) (Some rows) = (True, [], Some (filter (\<lambda>r. fst r \<noteq> n) rows))"
| "run_account As_clear (Some rows) = (True, [], Some [])"
| "run_account As_all (Some rows) = (True, rows, Some rows)"
| "run_account q s = (False, [], s)"

text \<open>A statement whose password is a text that reads as it was meant.\<close>

fun plain_account :: "account_stmt \<Rightarrow> bool" where
  "plain_account (As_insert n p) = (plain_text p \<and> utf8_ok p)"
| "plain_account (As_update n p) = (plain_text p \<and> utf8_ok p)"
| "plain_account q = True"

definition account_cols :: "int64 \<times> string \<Rightarrow> (string \<times> string option) list" where
  "account_cols r = [(''account'', Some (to_string64 (fst r))), (''passwd'', Some (snd r))]"

definition row_line :: "int64 \<times> string \<Rightarrow> string" where
  "row_line r = '' |:'' @ to_string64 (fst r) @ '' |:'' @ snd r"

lemma account_rows_text: "res_map row_text (map account_cols rows) = Inr (map row_line rows)"
  by (induction rows) (simp_all add: account_cols_def row_line_def)

text \<open>A call that runs one statement on an open database.\<close>

definition account_runs :: "(string \<Rightarrow> 'd \<Rightarrow> accounts) \<Rightarrow> string \<Rightarrow> account_stmt \<Rightarrow> sqlist_account \<Rightarrow> 'd
    \<Rightarrow> (bool \<times> sqlist_account \<times> 'd) res \<Rightarrow> bool" where
  "account_runs tab f q st d m \<longleftrightarrow> (\<exists>st' d'. m = Inr (fst (run_account q (tab f d)), st', d')
     \<and> account_ready st' \<and> db st' = db st \<and> tab f d' = snd (snd (run_account q (tab f d))))"

section \<open>The texts of the operations\<close>

lemma to_string64_uint: "to_string64 (ucast (n :: int32)) = int_to_string (uint n)"
proof -
  have u: "uint (ucast n :: int64) = uint n" by (rule uint_up_ucast) (simp add: is_up_def source_size_def target_size_def word_size)
  moreover have "uint n < 2 ^ 63" "- (2 ^ 63) \<le> uint n"
    using uint_lt2p [of n] order_trans [OF _ uint_ge_0, of "- (2 ^ 63)" n] by simp_all
  then have "signed_take_bit 63 (uint n) = uint n" by (intro signed_take_bit_int_eq_self) simp_all
  ultimately have "sint (ucast n :: int64) = uint n" by (simp add: sint_uint)
  then show ?thesis by (simp add: to_string64_def)
qed

lemma account_templates2:
  "template_text ([(CHR 0x0A # ''        CREATE TABLE '', 0), ('' ('' @ CHR 0x0A # ''            '', 1),
       ('' INTEGER PRIMARY KEY CHECK (account >= 100000000 AND account <= 999999999),'' @ CHR 0x0A # ''            '', 2)],
       '' TEXT CHECK (LENGTH(passwd) >= 6 AND LENGTH(passwd) <= 18)'' @ CHR 0x0A # ''        );'' @ CHR 0x0A # ''        '')
     = account_create_text"
  "template_text ([(''DELETE FROM '', 0)], '';'') = ''DELETE FROM {0};''"
  "template_text ([(''SELECT * FROM '', 0)], '';'') = ''SELECT * FROM {0};''"
  "template_text ([(''DROP TABLE IF EXISTS '', 0)], '';'') = ''DROP TABLE IF EXISTS {0};''"
  by (simp_all add: hole_eval account_create_text_def)

lemma account_texts2:
  "old_sformat account_create_text [A_str ''ac_passwd'', A_str ''account'', A_str ''passwd''] = Inr created_text"
  "old_sformat ''DELETE FROM {0};'' [A_str ''ac_passwd''] = Inr ''DELETE FROM ac_passwd;''"
  "old_sformat ''SELECT * FROM {0};'' [A_str ''ac_passwd''] = Inr ''SELECT * FROM ac_passwd;''"
  "old_sformat ''DROP TABLE IF EXISTS {0};'' [A_str ''ac_passwd''] = Inr ''DROP TABLE IF EXISTS ac_passwd;''"
  by (rule trans [OF old_fill [OF account_templates2(1)]], simp_all add: small_digits created_text_def)
    (rule trans [OF old_fill [OF account_templates2(2)]] trans [OF old_fill [OF account_templates2(3)]]
      trans [OF old_fill [OF account_templates2(4)]]; simp add: small_digits)+

text \<open>The operations as the statements they run.\<close>

lemma account_ops:
  assumes "account_ready st"
  shows "create_account eng st d = exec_plain eng (Inr (account_text As_create)) st d"
    "brace_free p \<Longrightarrow> insert_account eng n p st d = exec_plain eng (Inr (account_text (As_insert (ucast n) p))) st d"
    "brace_free p \<Longrightarrow> update_account eng n p st d = exec_plain eng (Inr (account_text (As_update (ucast n) p))) st d"
    "delete_account eng n st d = exec_plain eng (Inr (account_text (As_delete (ucast n)))) st d"
    "sqlist_delete_db eng (acc_table st) st d = exec_plain eng (Inr (account_text As_clear)) st d"
    "sqlist_drop_db eng (acc_table st) st d = exec_plain eng (Inr (account_text As_drop)) st d"
  using assms account_statements [OF assms, of p eng n d] account_statements [OF assms, of "[]" eng n d]
  by (simp_all add: account_ready_def create_account_def sqlist_delete_db_def sqlist_drop_db_def account_texts2 to_string64_uint)

section \<open>The laws\<close>

text \<open>
  The rows of a \<open>SELECT\<close> without \<open>ORDER BY\<close> are taken in the order of the numbers: the table is scanned by its integer
  primary key, as SQLite does unless told otherwise, though it does not promise the order.
\<close>

locale account_sql =
  fixes eng :: "'d engine" and tab :: "string \<Rightarrow> 'd \<Rightarrow> accounts"
  assumes exec_ok: "plain_account q \<Longrightarrow> ex_ok (eng_exec eng f (account_text q) d) = fst (run_account q (tab f d))"
    and exec_rows: "plain_account q \<Longrightarrow> ex_rows (eng_exec eng f (account_text q) d) = map account_cols (fst (snd (run_account q (tab f d))))"
    and exec_tab: "plain_account q \<Longrightarrow> tab f (ex_db (eng_exec eng f (account_text q) d)) = snd (snd (run_account q (tab f d)))"
begin

lemma exec_runs:
  assumes "account_ready st" "db st = Some f" "plain_account q"
  shows "account_runs tab f q st d (exec_plain eng (Inr (account_text q)) st d)"
  using assms(1,2) exec_ok [OF assms(3)] exec_tab [OF assms(3)]
  by (simp add: account_runs_def exec_plain_def exec_db_def account_ready_def Let_def)

lemma ops_run:
  assumes "account_ready st" "db st = Some f"
  shows "account_runs tab f As_create st d (create_account eng st d)"
    "\<lbrakk>brace_free p; plain_text p; utf8_ok p\<rbrakk> \<Longrightarrow> account_runs tab f (As_insert (ucast n) p) st d (insert_account eng n p st d)"
    "\<lbrakk>brace_free p; plain_text p; utf8_ok p\<rbrakk> \<Longrightarrow> account_runs tab f (As_update (ucast n) p) st d (update_account eng n p st d)"
    "account_runs tab f (As_delete (ucast n)) st d (delete_account eng n st d)"
    "account_runs tab f As_clear st d (sqlist_delete_db eng (acc_table st) st d)"
    "account_runs tab f As_drop st d (sqlist_drop_db eng (acc_table st) st d)"
  by (simp_all only: account_ops [OF assms(1)]) (rule exec_runs [OF assms]; simp)+

lemma show_run:
  assumes "account_ready st" "db st = Some f" "tab f d = Some rows"
  shows "\<exists>st' d'. sqlist_select_db eng (acc_table st) data st d = Inr (True, data @ map row_line rows, st', d')
    \<and> account_ready st' \<and> db st' = Some f \<and> tab f d' = Some rows"
proof -
  have "ex_ok (eng_exec eng f ''SELECT * FROM ac_passwd;'' d)" "ex_rows (eng_exec eng f ''SELECT * FROM ac_passwd;'' d) = map account_cols rows"
    "tab f (ex_db (eng_exec eng f ''SELECT * FROM ac_passwd;'' d)) = Some rows"
    using exec_ok [of As_all f d] exec_rows [of As_all f d] exec_tab [of As_all f d] assms(3) by simp_all
  then show ?thesis using assms(1,2)
    by (simp add: sqlist_select_db_def account_ready_def account_texts2 exec_db_def account_rows_text Let_def)
qed

end

section \<open>A library with these laws\<close>

definition parse_account :: "string \<Rightarrow> account_stmt option" where
  "parse_account s =
     (case strip ''INSERT INTO ac_passwd VALUES ('' s of
        Some r \<Rightarrow> Option.bind (number_then '','' r) (\<lambda>(n, r).
          Option.bind (quoted_then '');'' r) (\<lambda>(p, r). if r = [] then Some (As_insert n p) else None))
      | None \<Rightarrow> (case strip '' UPDATE ac_passwd SET passwd = '' s of
          Some r \<Rightarrow> Option.bind (quoted_then '' WHERE account = '' r) (\<lambda>(p, r).
            map_option (\<lambda>(n, r). As_update n p) (number_then ''; '' r))
        | None \<Rightarrow> (case strip '' DELETE FROM ac_passwd WHERE account = '' s of
            Some r \<Rightarrow> map_option (\<lambda>(n, r). As_delete n) (number_then ''; '' r)
          | None \<Rightarrow> if s = created_text then Some As_create
              else if s = ''DELETE FROM ac_passwd;'' then Some As_clear
              else if s = ''SELECT * FROM ac_passwd;'' then Some As_all
              else if s = ''DROP TABLE IF EXISTS ac_passwd;'' then Some As_drop else None)))"

definition account_engine :: "(string \<Rightarrow> accounts) engine" where
  "account_engine = \<lparr>eng_open = (\<lambda>f d. (True, d)), eng_close = (\<lambda>f d. (True, d)),
     eng_exec = (\<lambda>f sql d. case parse_account sql of
         None \<Rightarrow> \<lparr>ex_ok = False, ex_rows = [], ex_error = Some ''error'', ex_db = d\<rparr>
       | Some q \<Rightarrow> (case run_account q (d f) of (ok, rows, s) \<Rightarrow>
           \<lparr>ex_ok = ok, ex_rows = map account_cols rows, ex_error = (if ok then None else Some ''error''), ex_db = d(f := s)\<rparr>)),
     eng_int = (\<lambda>f sql d. None), eng_errmsg = (\<lambda>f d. None)\<rparr>"

lemma account_lits:
  "number_then '','' (to_string64 n @ '','' @ s) = Some (n, s)"
  "number_then ''; '' (to_string64 n @ ''; '') = Some (n, [])"
  using number_then_text [of "'',''" s n] number_then_text [of "''; ''" "[]" n] by (simp_all add: no_number_chars)

lemma parse_account_text: "plain_account q \<Longrightarrow> parse_account (account_text q) = Some q"
proof (cases q)
  case (As_insert n p)
  assume "plain_account q"
  then have "quoted_then '');'' (quoted p @ '');'') = Some (p, [])"
    using quoted_then_text [of p "'');''" "[]"] As_insert by simp
  then show ?thesis
    by (simp only: As_insert parse_account_def account_text.simps strip_append option.case account_lits bind.bind_lunit prod.case simp_thms if_True)
next
  case (As_update n p)
  assume "plain_account q"
  then have "quoted_then '' WHERE account = '' (quoted p @ '' WHERE account = '' @ to_string64 n @ ''; '') = Some (p, to_string64 n @ ''; '')"
    using quoted_then_text [of p "'' WHERE account = ''" "to_string64 n @ ''; ''"] As_update by simp
  moreover have "strip ''INSERT INTO ac_passwd VALUES ('' ('' UPDATE ac_passwd SET passwd = '' @ s) = None" for s by simp
  ultimately show ?thesis
    by (simp only: As_update parse_account_def account_text.simps strip_append option.case account_lits bind.bind_lunit prod.case option.map)
next
  case (As_delete n)
  have "strip ''INSERT INTO ac_passwd VALUES ('' ('' DELETE FROM ac_passwd WHERE account = '' @ s) = None"
    "strip '' UPDATE ac_passwd SET passwd = '' ('' DELETE FROM ac_passwd WHERE account = '' @ s) = None" for s by simp_all
  then show ?thesis
    by (simp only: As_delete parse_account_def account_text.simps strip_append option.case account_lits prod.case option.map)
qed (simp_all add: parse_account_def created_text_def)

interpretation acs: account_sql account_engine "\<lambda>f d. d f"
proof
  fix q f and d :: "string \<Rightarrow> accounts"
  assume q: "plain_account q"
  obtain ok rows s where r: "run_account q (d f) = (ok, rows, s)" by (metis prod.exhaust)
  show "ex_ok (eng_exec account_engine f (account_text q) d) = fst (run_account q (d f))"
    "ex_rows (eng_exec account_engine f (account_text q) d) = map account_cols (fst (snd (run_account q (d f))))"
    "ex_db (eng_exec account_engine f (account_text q) d) f = snd (snd (run_account q (d f)))"
    by (simp_all add: account_engine_def parse_account_text [OF q] r)
qed

section \<open>Properties\<close>

text \<open>
  C21: the accounts are a store. On an open database every operation of \<open>sqlist_account\<close> answers and changes the table as
  the store does, for passwords that are texts in UTF-8 with no quote and no brace: a second account of the same number, a
  number that has not nine digits and a password that has not six to eighteen characters are refused, and
  reading the table gives the accounts in order.
\<close>

theorem accounts_are_store:
  assumes "account_sql eng tab" "account_ready st" "db st = Some f"
  shows "account_runs tab f As_create st d (create_account eng st d)
    \<and> account_runs tab f (As_delete (ucast n)) st d (delete_account eng n st d)
    \<and> account_runs tab f As_clear st d (sqlist_delete_db eng (acc_table st) st d)
    \<and> account_runs tab f As_drop st d (sqlist_drop_db eng (acc_table st) st d)
    \<and> (brace_free p \<and> plain_text p \<and> utf8_ok p \<longrightarrow>
          account_runs tab f (As_insert (ucast n) p) st d (insert_account eng n p st d)
        \<and> account_runs tab f (As_update (ucast n) p) st d (update_account eng n p st d))
    \<and> (\<forall>rows. tab f d = Some rows \<longrightarrow> (\<exists>st' d'. sqlist_select_db eng (acc_table st) data st d
          = Inr (True, data @ map row_line rows, st', d') \<and> tab f d' = Some rows))"
  using account_sql.ops_run [OF assms] account_sql.show_run [OF assms] by metis

definition demo_server :: sqlist_account where
  "demo_server = sqlist_account_init\<lparr>db := Some ''f''\<rparr>"

lemma demo_server_ready: "account_ready demo_server" "db demo_server = Some ''f''"
  by (simp_all add: demo_server_def sqlist_account_init_def account_ready_def)

theorem accounts_are_store_witness:
  "\<exists>st' d'. insert_account account_engine 123456789 ''12345'' demo_server (\<lambda>f. Some []) = Inr (False, st', d') \<and> d' ''f'' = Some []"
proof -
  have "brace_free ''12345'' \<and> plain_text ''12345'' \<and> utf8_ok ''12345''"
    by (simp add: brace_free_def plain_text_def byte_in_def)
  with accounts_are_store [OF acs.account_sql_axioms demo_server_ready]
  have "account_runs (\<lambda>f d. d f) ''f'' (As_insert (ucast (123456789 :: int32)) ''12345'') demo_server (\<lambda>f. Some [])
      (insert_account account_engine 123456789 ''12345'' demo_server (\<lambda>f. Some []))" by blast
  then show ?thesis by (auto simp: account_runs_def passwd_fits_def text_length_def byte_in_def)
qed

section \<open>The output of the main program\<close>

text \<open>The object, the table and the log between two steps.\<close>

definition server_at :: "(string \<Rightarrow> 'd \<Rightarrow> accounts) \<Rightarrow> accounts \<Rightarrow> string \<Rightarrow> 'd server \<Rightarrow> bool" where
  "server_at tab t out = (\<lambda>(sql, d, log). account_ready sql \<and> db sql = Some ''ac_passwd.db'' \<and> tab ''ac_passwd.db'' d = t
     \<and> vl_level log = E_info \<and> vl_cout log = out)"

definition ok_line :: "string \<Rightarrow> string \<Rightarrow> bool \<Rightarrow> string" where
  "ok_line src line ok = line_text (if ok then E_debug else E_error) (src, line, [''[ok: '', if ok then ''1'' else ''0'', ''] ''])"

definition row_lines :: "string \<Rightarrow> string \<Rightarrow> (int64 \<times> string) list \<Rightarrow> string" where
  "row_lines src line rows = concat (map (\<lambda>r. line_text E_info (src, line, [row_line r])) rows)"

lemma log_one:
  assumes "vl_level log = E_info"
  shows "vl_cout (vlogi src l a log) = vl_cout log @ line_text E_info (src, l, a)" "vl_level (vlogi src l a log) = E_info"
    "vl_cout (vlogd src l a log) = vl_cout log @ line_text E_debug (src, l, a)" "vl_level (vlogd src l a log) = E_info"
    "vl_cout (report_ok src l ok log) = vl_cout log @ ok_line src l ok" "vl_level (report_ok src l ok log) = E_info"
  using assms vlog_line_run [of E_info "(src, l, a)" log] vlog_line_run [of E_debug "(src, l, a)" log]
    vlog_line_run [of E_debug "(src, l, [''[ok: '', ''1'', ''] ''])" log] vlog_line_run [of E_error "(src, l, [''[ok: '', ''0'', ''] ''])" log]
  by (simp_all add: shown_simps less_eq_level4_def report_ok_def ok_line_def)

lemma log_rows:
  "vl_level log = E_info \<Longrightarrow> vl_cout (fold (\<lambda>a. vlogi src l [a]) (map row_line rows) log) = vl_cout log @ row_lines src l rows
    \<and> vl_level (fold (\<lambda>a. vlogi src l [a]) (map row_line rows) log) = E_info"
  by (induction rows arbitrary: log) (simp_all add: log_one row_lines_def)

lemma server_op_step:
  assumes "server_at tab t out s" "run_account q t = (ok, rows, t')"
    and "\<And>sql d. account_ready sql \<Longrightarrow> db sql = Some ''ac_passwd.db'' \<Longrightarrow> account_runs tab ''ac_passwd.db'' q sql d (g sql d)"
  shows "\<exists>s'. server_op src line g s = Inr s' \<and> server_at tab t' (out @ ok_line src line ok) s'"
proof -
  obtain sql d log where s: "s = (sql, d, log)" "account_ready sql" "db sql = Some ''ac_passwd.db''" "tab ''ac_passwd.db'' d = t"
      "vl_level log = E_info" "vl_cout log = out" using assms(1) by (auto simp: server_at_def)
  from assms(3) [OF s(2,3), of d] assms(2) s(3,4) obtain sql' d' where "g sql d = Inr (ok, sql', d')" "account_ready sql'"
      "db sql' = Some ''ac_passwd.db''" "tab ''ac_passwd.db'' d' = t'" by (auto simp: account_runs_def)
  then show ?thesis using s
    by (intro exI [of _ "(sql', d', report_ok src line ok log)"]) (simp add: server_op_def server_at_def log_one)
qed

lemma server_show_step:
  assumes "account_sql eng tab" "server_at tab (Some rows) out s"
  obtains s' where "server_show eng src l1 l2 s = Inr s'"
    "server_at tab (Some rows) (out @ ok_line src l1 True @ row_lines src l2 rows) s'"
proof -
  obtain sql d log where s: "s = (sql, d, log)" by (cases s)
  with assms(2) have l: "account_ready sql" "db sql = Some ''ac_passwd.db''" "tab ''ac_passwd.db'' d = Some rows"
      "vl_level log = E_info" "vl_cout log = out" by (simp_all add: server_at_def)
  obtain sql' d' where r: "sqlist_select_db eng (acc_table sql) [] sql d = Inr (True, map row_line rows, sql', d')"
      "account_ready sql'" "db sql' = Some ''ac_passwd.db''" "tab ''ac_passwd.db'' d' = Some rows"
    using account_sql.show_run [OF assms(1), OF l(1-3), of "[]"] by auto
  let ?log = "fold (\<lambda>a. vlogi src l2 [a]) (map row_line rows) (report_ok src l1 True log)"
  have "vl_cout ?log = out @ ok_line src l1 True @ row_lines src l2 rows \<and> vl_level ?log = E_info"
    using log_rows [OF log_one(6) [OF l(4)], of src l2 rows src l1 True] log_one(5) [OF l(4), of src l1 True] l(5) by simp
  then have "server_at tab (Some rows) (out @ ok_line src l1 True @ row_lines src l2 rows) (sql', d', ?log)"
    using r(2-4) by (simp only: server_at_def prod.case simp_thms)
  moreover have "server_show eng src l1 l2 s = Inr (sql', d', ?log)"
    by (simp only: server_show_def s prod.case r(1) rbind_Inr)
  ultimately show thesis by (rule that [rotated])
qed

lemma server_steps:
  assumes "account_sql eng tab" "server_at tab t out s"
  shows "\<lbrakk>brace_free p; plain_text p; utf8_ok p; run_account (As_insert (ucast n) p) t = (ok, rows, t')\<rbrakk>
      \<Longrightarrow> \<exists>s'. server_op src line (insert_account eng n p) s = Inr s' \<and> server_at tab t' (out @ ok_line src line ok) s'"
    "\<lbrakk>brace_free p; plain_text p; utf8_ok p; run_account (As_update (ucast n) p) t = (ok, rows, t')\<rbrakk>
      \<Longrightarrow> \<exists>s'. server_op src line (update_account eng n p) s = Inr s' \<and> server_at tab t' (out @ ok_line src line ok) s'"
    "run_account (As_delete (ucast n)) t = (ok, rows, t')
      \<Longrightarrow> \<exists>s'. server_op src line (delete_account eng n) s = Inr s' \<and> server_at tab t' (out @ ok_line src line ok) s'"
    "run_account As_drop t = (ok, rows, t')
      \<Longrightarrow> \<exists>s'. server_op src line (\<lambda>sql. sqlist_drop_db eng (acc_table sql) sql) s = Inr s' \<and> server_at tab t' (out @ ok_line src line ok) s'"
  by (rule server_op_step [OF assms(2)], assumption, rule account_sql.ops_run [OF assms(1)]; assumption)+

lemma server_passwds:
  "brace_free ''123456''" "brace_free ''1234567''" "brace_free ''1234568''" "brace_free ''12345''" "brace_free ''aabbcc''"
  "plain_text ''123456''" "plain_text ''1234567''" "plain_text ''1234568''" "plain_text ''12345''" "plain_text ''aabbcc''"
  "utf8_ok ''123456''" "utf8_ok ''1234567''" "utf8_ok ''1234568''" "utf8_ok ''12345''" "utf8_ok ''aabbcc''"
  "passwd_fits ''123456''" "passwd_fits ''1234567''" "passwd_fits ''1234568''" "\<not> passwd_fits ''12345''" "passwd_fits ''aabbcc''"
  by (simp_all add: brace_free_def plain_text_def byte_in_def passwd_fits_def text_length_def)

lemma server_numbers:
  "account_fits 123456789" "account_fits 333456789" "account_fits 444456789"
  "(ucast (123456789 :: int32) :: int64) = 123456789" "(ucast (333456789 :: int32) :: int64) = 333456789"
  "(ucast (444456789 :: int32) :: int64) = 444456789" "(ucast (544456789 :: int32) :: int64) = 544456789"
  by (simp_all add: account_fits_def)

text \<open>The first part, up to the table with its three accounts, and the rest.\<close>

definition three_accounts :: "(int64 \<times> string) list" where
  "three_accounts = [(123456789, ''123456''), (333456789, ''1234567''), (444456789, ''1234568'')]"

definition two_accounts :: "(int64 \<times> string) list" where
  "two_accounts = [(123456789, ''aabbcc''), (444456789, ''1234568'')]"

lemma run_server:
  "run_account (As_insert (ucast (123456789 :: int32)) ''123456'') (Some []) = (True, [], Some [(123456789, ''123456'')])"
  "run_account (As_insert (ucast (333456789 :: int32)) ''1234567'') (Some [(123456789, ''123456'')])
     = (True, [], Some [(123456789, ''123456''), (333456789, ''1234567'')])"
  "run_account (As_insert (ucast (444456789 :: int32)) ''1234568'') (Some [(123456789, ''123456''), (333456789, ''1234567'')])
     = (True, [], Some three_accounts)"
  "run_account (As_insert (ucast (444456789 :: int32)) ''123456'') (Some three_accounts) = (False, [], Some three_accounts)"
  "run_account (As_insert (ucast (544456789 :: int32)) ''12345'') (Some three_accounts) = (False, [], Some three_accounts)"
  "run_account (As_update (ucast (123456789 :: int32)) ''aabbcc'') (Some three_accounts)
     = (True, [], Some [(123456789, ''aabbcc''), (333456789, ''1234567''), (444456789, ''1234568'')])"
  "run_account (As_delete (ucast (333456789 :: int32))) (Some [(123456789, ''aabbcc''), (333456789, ''1234567''), (444456789, ''1234568'')])
     = (True, [], Some two_accounts)"
  "run_account As_drop (Some two_accounts) = (True, [], None)"
  by code_simp+

lemma server_fill:
  assumes "account_sql (eng :: 'd engine) tab" "server_at tab (Some []) out s"
  obtains s6 where "\<And>g :: _ \<Rightarrow> ('d \<times> tvlog) res. rbind (server_op src ''47'' (insert_account eng 123456789 ''123456'') s) (\<lambda>s.
      rbind (server_op src ''51'' (insert_account eng 333456789 ''1234567'') s) (\<lambda>s.
      rbind (server_op src ''55'' (insert_account eng 444456789 ''1234568'') s) (\<lambda>s.
      rbind (server_op src ''59'' (insert_account eng 444456789 ''123456'') s) (\<lambda>s.
      rbind (server_op src ''63'' (insert_account eng 544456789 ''12345'') s) (\<lambda>s.
      rbind (server_show eng src ''69'' ''72'' s) g))))) = g s6"
    "server_at tab (Some three_accounts) (out @ ok_line src ''47'' True @ ok_line src ''51'' True @ ok_line src ''55'' True
      @ ok_line src ''59'' False @ ok_line src ''63'' False @ ok_line src ''69'' True @ row_lines src ''72'' three_accounts) s6"
proof -
  note step = server_steps [OF assms(1)]
  let ?o1 = "out @ ok_line src ''47'' True"
  obtain s1 where 1: "server_op src ''47'' (insert_account eng 123456789 ''123456'') s = Inr s1" "server_at tab (Some [(123456789, ''123456'')]) ?o1 s1"
    using step(1) [OF assms(2) server_passwds(1,6,11) run_server(1)] by blast
  let ?o2 = "?o1 @ ok_line src ''51'' True"
  obtain s2 where 2: "server_op src ''51'' (insert_account eng 333456789 ''1234567'') s1 = Inr s2" "server_at tab (Some [(123456789, ''123456''), (333456789, ''1234567'')]) ?o2 s2"
    using step(1) [OF 1(2) server_passwds(2,7,12) run_server(2)] by blast
  let ?o3 = "?o2 @ ok_line src ''55'' True"
  obtain s3 where 3: "server_op src ''55'' (insert_account eng 444456789 ''1234568'') s2 = Inr s3" "server_at tab (Some three_accounts) ?o3 s3"
    using step(1) [OF 2(2) server_passwds(3,8,13) run_server(3)] by blast
  let ?o4 = "?o3 @ ok_line src ''59'' False"
  obtain s4 where 4: "server_op src ''59'' (insert_account eng 444456789 ''123456'') s3 = Inr s4" "server_at tab (Some three_accounts) ?o4 s4"
    using step(1) [OF 3(2) server_passwds(1,6,11) run_server(4)] by blast
  let ?o5 = "?o4 @ ok_line src ''63'' False"
  obtain s5 where 5: "server_op src ''63'' (insert_account eng 544456789 ''12345'') s4 = Inr s5" "server_at tab (Some three_accounts) ?o5 s5"
    using step(1) [OF 4(2) server_passwds(4,9,14) run_server(5)] by blast
  let ?o6 = "?o5 @ ok_line src ''69'' True @ row_lines src ''72'' three_accounts"
  obtain s6 where 6: "server_show eng src ''69'' ''72'' s5 = Inr s6" "server_at tab (Some three_accounts) ?o6 s6"
    by (rule server_show_step [OF assms(1) 5(2)])
  have "server_at tab (Some three_accounts) (out @ ok_line src ''47'' True @ ok_line src ''51'' True @ ok_line src ''55'' True
      @ ok_line src ''59'' False @ ok_line src ''63'' False @ ok_line src ''69'' True @ row_lines src ''72'' three_accounts) s6"
    using 6(2) by simp
  then show thesis by (rule that [rotated]) (simp only: 1(1) 2(1) 3(1) 4(1) 5(1) 6(1) rbind_Inr)
qed

lemma server_change:
  assumes "account_sql (eng :: 'd engine) tab" "server_at tab (Some three_accounts) out s"
  obtains s10 where "\<And>g :: _ \<Rightarrow> ('d \<times> tvlog) res. rbind (server_op src ''78'' (update_account eng 123456789 ''aabbcc'') s) (\<lambda>s.
      rbind (server_op src ''82'' (delete_account eng 333456789) s) (\<lambda>s.
      rbind (server_show eng src ''88'' ''91'' s) (\<lambda>s.
      rbind (server_op src ''96'' (\<lambda>sql. sqlist_drop_db eng (acc_table sql) sql) s) g))) = g s10"
    "server_at tab None (out @ ok_line src ''78'' True @ ok_line src ''82'' True @ ok_line src ''88'' True
      @ row_lines src ''91'' two_accounts @ ok_line src ''96'' True) s10"
proof -
  note step = server_steps [OF assms(1)]
  let ?o7 = "out @ ok_line src ''78'' True"
  obtain s7 where 7: "server_op src ''78'' (update_account eng 123456789 ''aabbcc'') s = Inr s7" "server_at tab (Some [(123456789, ''aabbcc''), (333456789, ''1234567''), (444456789, ''1234568'')]) ?o7 s7"
    using step(2) [OF assms(2) server_passwds(5,10,15) run_server(6)] by blast
  let ?o8 = "?o7 @ ok_line src ''82'' True"
  obtain s8 where 8: "server_op src ''82'' (delete_account eng 333456789) s7 = Inr s8" "server_at tab (Some two_accounts) ?o8 s8"
    using step(3) [OF 7(2) run_server(7)] by blast
  let ?o9 = "?o8 @ ok_line src ''88'' True @ row_lines src ''91'' two_accounts"
  obtain s9 where 9: "server_show eng src ''88'' ''91'' s8 = Inr s9" "server_at tab (Some two_accounts) ?o9 s9"
    by (rule server_show_step [OF assms(1) 8(2)])
  let ?o10 = "?o9 @ ok_line src ''96'' True"
  obtain s10 where 10: "server_op src ''96'' (\<lambda>sql. sqlist_drop_db eng (acc_table sql) sql) s9 = Inr s10" "server_at tab None ?o10 s10"
    using step(4) [OF 9(2) run_server(8)] by blast
  have "server_at tab None (out @ ok_line src ''78'' True @ ok_line src ''82'' True @ ok_line src ''88'' True
      @ row_lines src ''91'' two_accounts @ ok_line src ''96'' True) s10"
    using 10(2) by simp
  then show thesis by (rule that [rotated]) (simp only: 7(1) 8(1) 9(1) 10(1) rbind_Inr)
qed

definition server_output :: "string \<Rightarrow> string" where
  "server_output src = ok_line src ''47'' True @ ok_line src ''51'' True @ ok_line src ''55'' True @ ok_line src ''59'' False
     @ ok_line src ''63'' False @ ok_line src ''69'' True @ row_lines src ''72'' three_accounts
     @ ok_line src ''78'' True @ ok_line src ''82'' True @ ok_line src ''88'' True @ row_lines src ''91'' two_accounts
     @ ok_line src ''96'' True @ ok_line src ''100'' True @ line_text E_debug (src, ''113'', [''== end ==''])"

text \<open>
  C22: the output of the main program of the test server. On a file that can be opened and holds no table it prints exactly
  \<open>server_output\<close>: three accounts are stored, a second one with a number that is taken and one with a short password
  are refused, the table is shown, one password is changed and one account deleted, the table is shown again and
  dropped; the program does not throw, and leaves no table.
\<close>

theorem server_main_prints:
  assumes "account_sql eng tab" "eng_open eng ''ac_passwd.db'' d = (True, d1)" "tab ''ac_passwd.db'' d1 = None"
    and "\<And>d. fst (eng_close eng ''ac_passwd.db'' d)"
  shows "\<exists>d2 d3 log. server_main eng src junk d = Inr (d3, log) \<and> vl_cout log = server_output src
    \<and> eng_close eng ''ac_passwd.db'' d2 = (True, d3) \<and> tab ''ac_passwd.db'' d2 = None"
proof -
  note run = account_sql.ops_run [OF assms(1)]
  let ?sql = "sqlist_account_init\<lparr>db := Some ''ac_passwd.db''\<rparr>" and ?log = "vl_set_level E_info (tvlog_init junk)"
  have o: "open_account eng sqlist_account_init d = (True, ?sql, d1)"
    using assms(2) by (simp add: open_account_def sqlist_open_db_def sqlist_account_init_def)
  have ready: "account_ready ?sql" "db ?sql = Some ''ac_passwd.db''" by (simp_all add: account_ready_def sqlist_account_init_def)
  obtain sql d' where c: "create_account eng ?sql d1 = Inr (True, sql, d')" "account_ready sql" "db sql = Some ''ac_passwd.db''"
      "tab ''ac_passwd.db'' d' = Some []"
    using run(1) [OF ready, of d1] assms(3) by (auto simp: account_runs_def)
  have at: "server_at tab (Some []) [] (sql, d', ?log)"
    using c(2-4) by (simp add: server_at_def vl_set_level_def tvlog_init_def)
  show ?thesis
  proof (cases rule: server_fill [OF assms(1) at, where src = src, case_names fill])
    case (fill s6)
    show ?thesis
    proof (cases rule: server_change [OF assms(1) fill(2), where src = src, case_names change])
      case (change s10)
      obtain sql2 d2 log2 where s10: "s10 = (sql2, d2, log2)" by (cases s10)
      note at10 = change(2) [unfolded s10 server_at_def prod.case append_Nil]
      obtain d3 where d3: "eng_close eng ''ac_passwd.db'' d2 = (True, d3)" using assms(4) by (metis prod.collapse)
      let ?log2 = "vlogd src ''113'' [''== end ==''] (report_ok src ''100'' True log2)"
      have "server_main eng src junk d = Inr (d3, ?log2)"
        using at10 d3 by (simp add: server_main_def server_test_2_def o c(1) report_failed_def fill(1) change(1) s10 sqlist_close_db_def)
      moreover have "vl_cout ?log2 = server_output src" using at10 by (simp add: log_one server_output_def)
      ultimately show ?thesis using at10 d3 by blast
    qed
  qed
qed

theorem server_main_prints_witness:
  "\<exists>d log. server_main account_engine ''main.cpp'' E_error (\<lambda>f. None) = Inr (d, log) \<and> vl_cout log = server_output ''main.cpp''
    \<and> ok_line ''main.cpp'' ''59'' False = [CHR 0x1B] @ ''[31m[Err][main.cpp:<59>] <<<< [ok: 0] '' @ [CHR 0x1B] @ ''[0m'' @ end_line"
proof -
  have "eng_open account_engine ''ac_passwd.db'' (\<lambda>f. None) = (True, \<lambda>f. None)" "\<And>d. fst (eng_close account_engine ''ac_passwd.db'' d)"
    by (simp_all add: account_engine_def)
  from server_main_prints [OF acs.account_sql_axioms this(1) refl this(2), of "''main.cpp''" E_error]
  show ?thesis by (auto simp: ok_line_def line_text_def)
qed

end
