(* ===== verification/Qsqlist.thy ===== *)
theory Qsqlist
  imports Sqlite_Op
begin

text \<open>
  \<open>qsqlist.{h,cpp}\<close>: the earlier database class, which fills its SQL texts with \<open>QString::arg\<close>. That
  function of Qt is the parameter \<open>qarg\<close>; the locale \<open>qt_arg\<close> states what its documentation promises: the
  place markers of the lowest number are replaced. SQLite is the parameter \<open>eng\<close>, as in \<open>Sqlite_Op\<close>.
\<close>

section \<open>The class \<open>qsqlist_base\<close>\<close>

type_synonym arg_fn = "string \<Rightarrow> string \<Rightarrow> string"

text \<open>\<open>sql.arg(a).arg(b)...\<close>\<close>

definition q_args :: "arg_fn \<Rightarrow> string \<Rightarrow> string list \<Rightarrow> string" where
  "q_args qarg sql as = fold (\<lambda>a s. qarg s a) as sql"

definition q_uint :: "int32 \<Rightarrow> string" where
  "q_uint n = int_to_string (uint n)"

definition q_int :: "int32 \<Rightarrow> string" where
  "q_int n = int_to_string (sint n)"

type_synonym ('d, 'c) q_op = "'c \<Rightarrow> 'd \<Rightarrow> bool \<times> 'c \<times> 'd"

definition q_open_db :: "'d engine \<Rightarrow> string \<Rightarrow> ('d, 'a sqlite_base_scheme) q_op" where
  "q_open_db eng file st d = (case eng_open eng file d of
       (True, d') \<Rightarrow> (True, st\<lparr>db := Some file\<rparr>, d')
     | (False, d') \<Rightarrow> (False, st\<lparr>db := None\<rparr>, d'))"

definition q_close_db :: "'d engine \<Rightarrow> 'a sqlite_base_scheme \<Rightarrow> 'd \<Rightarrow> bool \<times> 'd" where
  "q_close_db eng st d = (case db st of None \<Rightarrow> (True, d) | Some file \<Rightarrow> eng_close eng file d)"

text \<open>\<open>sqlite3_exec\<close> with no callback; its result code is given as whether it is \<open>SQLITE_OK\<close>.\<close>

definition q_exec :: "'d engine \<Rightarrow> string \<Rightarrow> ('d, 'a sqlite_base_scheme) q_op" where
  "q_exec eng sql st d = (case exec_db eng sql st d of (ok, rows, st', d') \<Rightarrow> (ok, st', d'))"

definition q_drop_db :: "arg_fn \<Rightarrow> 'd engine \<Rightarrow> string \<Rightarrow> ('d, 'a sqlite_base_scheme) q_op" where
  "q_drop_db qarg eng table = q_exec eng (q_args qarg ''DROP TABLE IF EXISTS %1;'' [table])"

definition q_delete_db :: "arg_fn \<Rightarrow> 'd engine \<Rightarrow> string \<Rightarrow> ('d, 'a sqlite_base_scheme) q_op" where
  "q_delete_db qarg eng table = q_exec eng (q_args qarg ''DELETE FROM %1;'' [table])"

text \<open>\<open>QString(argv[i])\<close> of a \<open>NULL\<close> field is the empty text.\<close>

definition q_field :: "string option \<Rightarrow> string" where
  "q_field v = (case v of None \<Rightarrow> [] | Some s \<Rightarrow> s)"

definition q_row_text :: "(string \<times> string option) list \<Rightarrow> string" where
  "q_row_text r = concat (map (\<lambda>(n, v). '' |:'' @ q_field v) r)"

definition q_select_db :: "arg_fn \<Rightarrow> 'd engine \<Rightarrow> string \<Rightarrow> string list \<Rightarrow> 'a sqlite_base_scheme \<Rightarrow> 'd
    \<Rightarrow> bool \<times> string list \<times> 'a sqlite_base_scheme \<times> 'd" where
  "q_select_db qarg eng table data st d =
     (case exec_db eng (q_args qarg ''SELECT * FROM %1;'' [table]) st d of
        (ok, rows, st', d') \<Rightarrow> (ok, data @ map q_row_text rows, st', d'))"

definition test_create_text :: string where
  "test_create_text = CHR 0x0A # ''        CREATE TABLE IF NOT EXISTS %1 ('' @ CHR 0x0A #
     ''            id INTEGER PRIMARY KEY,'' @ CHR 0x0A #
     ''            value TEXT'' @ CHR 0x0A #
     ''        );'' @ CHR 0x0A # ''        ''"

definition create_test :: "arg_fn \<Rightarrow> 'd engine \<Rightarrow> string \<Rightarrow> ('d, 'a sqlite_base_scheme) q_op" where
  "create_test qarg eng table = q_exec eng (q_args qarg test_create_text [table])"

definition insert_test :: "arg_fn \<Rightarrow> 'd engine \<Rightarrow> string \<Rightarrow> int32 \<times> string \<Rightarrow> ('d, 'a sqlite_base_scheme) q_op" where
  "insert_test qarg eng table data = q_exec eng (q_args qarg
     (''INSERT INTO %1 VALUES (%2,'' @ quoted ''%3'' @ '');'') [table, q_int (fst data), snd data])"

text \<open>
  \<open>select_test\<close>: \<open>from_string<int>\<close> leaves its variable as it was on a text with nothing but white space, gives 0 where
  no number starts and the nearest bound where it is out of range. The variable of a row is not initialised.
\<close>

definition stream_int :: "int32 \<Rightarrow> string \<Rightarrow> int32" where
  "stream_int junk s =
     (if dropWhile is_space s = [] then junk
      else case strto_int s of
          None \<Rightarrow> 0
        | Some v \<Rightarrow> word_of_int (max (- (2 ^ 31)) (min (2 ^ 31 - 1) v)))"

fun test_row :: "int32 \<Rightarrow> (string \<times> string option) list \<Rightarrow> int32 \<times> string \<Rightarrow> (int32 \<times> string) res" where
  "test_row junk [] t = Inr t"
| "test_row junk ((n, v) # r) (ident, value) =
     (if n = ''id'' then (case v of None \<Rightarrow> Inl (Crash Null_pointer) | Some s \<Rightarrow> test_row junk r (stream_int junk s, value))
      else if n = ''value'' then (case v of None \<Rightarrow> Inl (Crash Null_pointer) | Some s \<Rightarrow> test_row junk r (ident, s))
      else test_row junk r (ident, value))"

definition select_test :: "arg_fn \<Rightarrow> 'd engine \<Rightarrow> int32 \<Rightarrow> string \<Rightarrow> (int32 \<times> string) list \<Rightarrow> 'a sqlite_base_scheme \<Rightarrow> 'd
    \<Rightarrow> (bool \<times> (int32 \<times> string) list \<times> 'a sqlite_base_scheme \<times> 'd) res" where
  "select_test qarg eng junk table data st d =
     (case exec_db eng (q_args qarg ''SELECT * FROM %1;'' [table]) st d of (ok, rows, st', d') \<Rightarrow>
        rbind (res_map (\<lambda>r. test_row junk r (junk, [])) rows) (\<lambda>ts. Inr (ok, data @ ts, st', d')))"

text \<open>The rows \<open>insert_test\<close> writes are read back.\<close>

lemma test_row_read: "test_row junk [(''id'', Some (int_to_string (sint n))), (''value'', Some s)] t = Inr (n, s)"
proof -
  have "strto_int (int_to_string (sint n)) = Some (sint n)" by (rule strto_int_int_to_string)
  moreover have "- (2 ^ 31) \<le> sint n" "sint n \<le> 2 ^ 31 - 1"
    using sint_range_size [of n] by (simp_all add: word_size)
  moreover have "dropWhile is_space (int_to_string (sint n)) \<noteq> []"
    using calculation(1) by (auto simp: strto_int_def simp del: dropWhile_eq_Nil_conv)
  ultimately have "stream_int junk (int_to_string (sint n)) = n"
    by (simp add: stream_int_def del: dropWhile_eq_Nil_conv)
  then show ?thesis by (cases t) simp
qed

definition q_error_exec :: "'a sqlite_base_scheme \<Rightarrow> string" where
  "q_error_exec st = q_field (db_error st)"

definition q_error :: "'d engine \<Rightarrow> 'a sqlite_base_scheme \<Rightarrow> 'd \<Rightarrow> string" where
  "q_error eng st d = q_field (eng_errmsg eng (db st) d)"

section \<open>The class \<open>qsqlist_history\<close>\<close>

record q_data_history =
  qd_send_time :: string
  qd_feed_back :: string
  qd_non_read :: string
  qd_types :: string
  qd_object :: string
  qd_content :: string
  qd_extend :: string

record qsqlist_history = sqlite_base +
  name_history :: string
  q_data :: q_data_history

definition qsqlist_history_init :: qsqlist_history where
  "qsqlist_history_init = \<lparr>db = None, db_error = None, name_history = ''../data/history_%1.db'',
     q_data = \<lparr>qd_send_time = ''send_time'', qd_feed_back = ''feed_back'', qd_non_read = ''non_read'',
       qd_types = ''types'', qd_object = ''object'', qd_content = ''content'', qd_extend = ''extend''\<rparr>\<rparr>"

definition q_open_history :: "arg_fn \<Rightarrow> 'd engine \<Rightarrow> int32 \<Rightarrow> ('d, 'a qsqlist_history_scheme) q_op" where
  "q_open_history qarg eng account st d =
     (let st = st\<lparr>name_history := q_args qarg (name_history st) [q_uint account]\<rparr>
      in q_open_db eng (name_history st) st d)"

definition q_create_text :: string where
  "q_create_text = CHR 0x0A # ''        CREATE TABLE IF NOT EXISTS history_%1 ('' @ CHR 0x0A #
     ''            %2 INTEGER PRIMARY KEY,'' @ CHR 0x0A #
     ''            %3 INTEGER CHECK (feed_back >= send_time),'' @ CHR 0x0A #
     ''            %4 INTEGER CHECK (non_read >= 0 AND non_read <= 1),'' @ CHR 0x0A #
     ''            %5 INTEGER CHECK (types >= 0),'' @ CHR 0x0A #
     ''            %6 INTEGER CHECK (object >= 0 AND object <= 3),'' @ CHR 0x0A #
     ''            %7 TEXT,'' @ CHR 0x0A #
     ''            %8 TEXT'' @ CHR 0x0A #
     ''        );'' @ CHR 0x0A # ''        ''"

definition q_create_history :: "arg_fn \<Rightarrow> 'd engine \<Rightarrow> int32 \<Rightarrow> ('d, 'a qsqlist_history_scheme) q_op" where
  "q_create_history qarg eng account st = (let da = q_data st in
     q_exec eng (q_args qarg q_create_text
       [q_uint account, qd_send_time da, qd_feed_back da, qd_non_read da, qd_types da, qd_object da, qd_content da,
        qd_extend da]) st)"

type_synonym q_row = "int32 \<times> int32 \<times> int32 \<times> int32 \<times> int32 \<times> string \<times> string"

definition q_insert_text :: string where
  "q_insert_text = ''INSERT INTO history_%1 VALUES (%2,%3,%4,%5,%6,'' @ quoted ''%7'' @ '','' @ quoted ''%8'' @ '');''"

definition q_insert_history :: "arg_fn \<Rightarrow> 'd engine \<Rightarrow> int32 \<Rightarrow> q_row \<Rightarrow> ('d, 'a qsqlist_history_scheme) q_op" where
  "q_insert_history qarg eng account data = (case data of (t, f, n, ty, ob, co, ex) \<Rightarrow>
     q_exec eng (q_args qarg q_insert_text
       [q_uint account, q_uint t, q_uint f, q_uint n, q_uint ty, q_uint ob, co, ex]))"

text \<open>
  \<open>update_history\<close> takes a \<open>QVariant\<close>: \<open>toUInt\<close> makes a negative \<open>int\<close> a large number, and a value that is
  no \<open>int\<close>, \<open>uint\<close> or text leaves the statement with its markers. \<open>sqlite3_prepare_v2\<close>, \<open>_step\<close> and
  \<open>_finalize\<close> are the parameter \<open>step\<close>: \<open>None\<close> if the text does not compile, else whether the step is
  \<open>SQLITE_DONE\<close> and the databases.
\<close>

datatype qvariant = Qv_int int32 | Qv_uint int32 | Qv_string string | Qv_other

definition q_update_text :: string where
  "q_update_text = ''UPDATE history_%1 SET %2 = %3 WHERE %4 = %5;''"

definition q_update_sql :: "arg_fn \<Rightarrow> int32 \<Rightarrow> int32 \<Rightarrow> string \<Rightarrow> qvariant \<Rightarrow> 'a qsqlist_history_scheme \<Rightarrow> string" where
  "q_update_sql qarg account ident name value st =
     (let fill = (\<lambda>v. q_args qarg q_update_text [q_uint account, name, v, qd_send_time (q_data st), q_uint ident])
      in case value of
           Qv_int n \<Rightarrow> fill (q_uint n)
         | Qv_uint n \<Rightarrow> fill (q_uint n)
         | Qv_string s \<Rightarrow> fill (q_args qarg (quoted ''%1'') [s])
         | Qv_other \<Rightarrow> q_update_text)"

definition q_update_history :: "arg_fn \<Rightarrow> (string \<Rightarrow> string \<Rightarrow> 'd \<Rightarrow> (bool \<times> 'd) option) \<Rightarrow> int32 \<Rightarrow> int32 \<Rightarrow> string
    \<Rightarrow> qvariant \<Rightarrow> 'a qsqlist_history_scheme \<Rightarrow> 'd \<Rightarrow> bool \<times> 'd" where
  "q_update_history qarg step account ident name value st d =
     (case db st of
        None \<Rightarrow> (False, d)
      | Some file \<Rightarrow> (case step file (q_update_sql qarg account ident name value st) d of
            None \<Rightarrow> (False, d)
          | Some (finished, d') \<Rightarrow> (finished, d')))"

definition check_non_read :: "arg_fn \<Rightarrow> 'd engine \<Rightarrow> int32 \<Rightarrow> 'a qsqlist_history_scheme \<Rightarrow> 'd \<Rightarrow> int32" where
  "check_non_read qarg eng account st d =
     query_int eng (q_args qarg ''SELECT SUM(non_read) FROM history_%1;'' [q_uint account]) st d"

section \<open>What \<open>QString::arg\<close> promises\<close>

text \<open>
  A text is read as literals without a percent sign and place markers of one digit, none of them before
  another digit.
\<close>

datatype piece = Lit string | Mark nat

fun piece_text :: "piece \<Rightarrow> string" where
  "piece_text (Lit s) = s"
| "piece_text (Mark k) = [CHR 0x25, digit_char k]"

definition text_of :: "piece list \<Rightarrow> string" where
  "text_of ps = concat (map piece_text ps)"

definition starts_digit :: "string \<Rightarrow> bool" where
  "starts_digit s = (case s of [] \<Rightarrow> False | c # r \<Rightarrow> is_digit c)"

fun pieces_ok :: "piece list \<Rightarrow> bool" where
  "pieces_ok [] = True"
| "pieces_ok (Lit s # ps) = (CHR 0x25 \<notin> set s \<and> pieces_ok ps)"
| "pieces_ok (Mark k # ps) = (1 \<le> k \<and> k \<le> 9 \<and> \<not> starts_digit (text_of ps) \<and> pieces_ok ps)"

fun marks :: "piece list \<Rightarrow> nat list" where
  "marks [] = []"
| "marks (Lit s # ps) = marks ps"
| "marks (Mark k # ps) = k # marks ps"

definition put :: "nat \<Rightarrow> string \<Rightarrow> piece \<Rightarrow> piece" where
  "put k a p = (if p = Mark k then Lit a else p)"

definition put_lowest :: "string \<Rightarrow> piece list \<Rightarrow> piece list" where
  "put_lowest a ps = (if marks ps = [] then ps else map (put (Min (set (marks ps))) a) ps)"

text \<open>Every marker is followed by a literal, so that filling one never changes how another is read.\<close>

fun spaced :: "piece list \<Rightarrow> bool" where
  "spaced [] = True"
| "spaced (Lit s # ps) = spaced ps"
| "spaced (Mark k # Lit (c # s) # ps) = spaced ps"
| "spaced (Mark k # ps) = (ps = [])"

definition percent_free :: "string \<Rightarrow> bool" where
  "percent_free s \<longleftrightarrow> CHR 0x25 \<notin> set s"

fun fill_piece :: "nat \<Rightarrow> string list \<Rightarrow> piece \<Rightarrow> piece" where
  "fill_piece k as (Lit s) = Lit s"
| "fill_piece k as (Mark j) = (if k \<le> j \<and> j < k + length as then Lit (as ! (j - k)) else Mark j)"

lemma text_of_simps [simp]: "text_of [] = []" "text_of (p # ps) = piece_text p @ text_of ps" "text_of (ps @ qs) = text_of ps @ text_of qs"
  by (simp_all add: text_of_def)

lemma spaced_put: "spaced ps \<Longrightarrow> spaced (map (put k a) ps)"
proof (induction ps rule: spaced.induct)
  case (3 j c s ps)
  then show ?case by (cases "j = k") (simp_all add: put_def)
qed (auto simp: put_def)

lemma pieces_ok_put: "spaced ps \<Longrightarrow> pieces_ok ps \<Longrightarrow> percent_free a \<Longrightarrow> pieces_ok (map (put k a) ps)"
proof (induction ps rule: spaced.induct)
  case (3 j c s ps)
  then show ?case by (cases "j = k") (simp_all add: put_def percent_free_def starts_digit_def)
qed (auto simp: put_def percent_free_def starts_digit_def)

lemma marks_put: "marks (map (put k a) ps) = filter (\<lambda>j. j \<noteq> k) (marks ps)"
  by (induction ps rule: marks.induct) (simp_all add: put_def)

lemma fill_put: "map (fill_piece (Suc k) as) (map (put k a) ps) = map (fill_piece k (a # as)) ps"
proof -
  have "fill_piece (Suc k) as (put k a p) = fill_piece k (a # as) p" for p
    by (cases p) (auto simp: put_def nth_Cons')
  then show ?thesis by simp
qed

lemma fill_nothing: "map (fill_piece k []) ps = ps"
proof -
  have "fill_piece k [] p = p" for p by (cases p) auto
  then show ?thesis by (simp add: map_idI)
qed

lemma put_lowest_Min: "set (marks ps) = {k..<m} \<Longrightarrow> k < m \<Longrightarrow> put_lowest a ps = map (put k a) ps"
proof -
  assume m: "set (marks ps) = {k..<m}" "k < m"
  have "Min {k..<m} = k" by (rule Min_eqI) (use m(2) in auto)
  moreover have "marks ps \<noteq> []" using m by auto
  ultimately show "put_lowest a ps = map (put k a) ps" by (simp add: put_lowest_def m(1))
qed

locale qt_arg =
  fixes qarg :: arg_fn
  assumes arg_pieces: "pieces_ok ps \<Longrightarrow> qarg (text_of ps) a = text_of (put_lowest a ps)"
begin

lemma args_fill_some:
  "pieces_ok ps \<Longrightarrow> spaced ps \<Longrightarrow> set (marks ps) = {k..<m} \<Longrightarrow> n = k + length as \<Longrightarrow> n \<le> m \<Longrightarrow> list_all percent_free as
    \<Longrightarrow> q_args qarg (text_of ps) (as @ bs) = q_args qarg (text_of (map (fill_piece k as) ps)) bs
      \<and> pieces_ok (map (fill_piece k as) ps) \<and> spaced (map (fill_piece k as) ps)
      \<and> set (marks (map (fill_piece k as) ps)) = {n..<m}"
proof (induction as arbitrary: k ps)
  case Nil
  then show ?case by (simp add: fill_nothing)
next
  case (Cons a as)
  have m: "set (marks (map (put k a) ps)) = {Suc k..<m}"
    using Cons(4) by (auto simp: marks_put)
  have "q_args qarg (text_of ps) (a # as @ bs) = q_args qarg (text_of (map (put k a) ps)) (as @ bs)"
    using arg_pieces [OF Cons(2), of a] put_lowest_Min [OF Cons(4), of a] Cons(5,6) by (simp add: q_args_def)
  with Cons(1) [OF pieces_ok_put [OF Cons(3,2)] spaced_put [OF Cons(3)] m] Cons(5-7) show ?case
    by (simp add: fill_put del: map_map)
qed

lemma args_fill:
  assumes "pieces_ok ps" "spaced ps" "set (marks ps) = {k..<m}" "m = k + Suc (length as)" "list_all percent_free as"
  shows "q_args qarg (text_of ps) (as @ [a]) = text_of (map (fill_piece k (as @ [a])) ps)"
proof -
  let ?ps = "map (fill_piece k as) ps"
  have s: "q_args qarg (text_of ps) (as @ [a]) = qarg (text_of ?ps) a" "pieces_ok ?ps" "set (marks ?ps) = {k + length as..<k + Suc (length as)}"
    using args_fill_some [OF assms(1,2,3) refl _ assms(5), of "[a]"] assms(4) by (simp_all add: q_args_def)
  have "put (k + length as) a (fill_piece k as p) = fill_piece k (as @ [a]) p" for p
    by (cases p) (auto simp: put_def nth_append)
  then show ?thesis using s arg_pieces [OF s(2), of a] put_lowest_Min [OF s(3)] by (simp add: comp_def)
qed

end

section \<open>The statements\<close>

definition q_insert_pieces :: "piece list" where
  "q_insert_pieces = [Lit ''INSERT INTO history_'', Mark 1, Lit '' VALUES ('', Mark 2, Lit '','', Mark 3, Lit '','', Mark 4, Lit '','',
     Mark 5, Lit '','', Mark 6, Lit ('','' @ [CHR 0x27]), Mark 7, Lit (CHR 0x27 # '','' @ [CHR 0x27]), Mark 8, Lit (CHR 0x27 # '');'')]"

definition q_update_pieces :: "piece list" where
  "q_update_pieces = [Lit ''UPDATE history_'', Mark 1, Lit '' SET '', Mark 2, Lit '' = '', Mark 3, Lit '' WHERE '', Mark 4,
     Lit '' = '', Mark 5, Lit '';'']"

lemma mark_digits: "digit_char 1 = CHR ''1''" "digit_char (Suc 0) = CHR ''1''" "digit_char 2 = CHR ''2''" "digit_char 3 = CHR ''3''"
  "digit_char 4 = CHR ''4''" "digit_char 5 = CHR ''5''" "digit_char 6 = CHR ''6''" "digit_char 7 = CHR ''7''" "digit_char 8 = CHR ''8''"
  by code_simp+

lemma pieces_texts: "q_insert_text = text_of q_insert_pieces" "q_update_text = text_of q_update_pieces"
  by (simp_all add: q_insert_text_def q_insert_pieces_def q_update_text_def q_update_pieces_def quoted_def mark_digits)

lemma is_digit_chars: "\<not> is_digit (CHR '' '')" "\<not> is_digit (CHR '','')" "\<not> is_digit (CHR 0x27)" "\<not> is_digit (CHR '';'')"
  "\<not> is_digit (CHR ''.'')" "\<not> is_digit (CHR '')'')"
  by code_simp+

lemma pieces_good:
  "pieces_ok q_insert_pieces" "spaced q_insert_pieces" "set (marks q_insert_pieces) = {1..<9}"
  "pieces_ok q_update_pieces" "spaced q_update_pieces" "set (marks q_update_pieces) = {1..<6}"
  by (auto simp: q_insert_pieces_def q_update_pieces_def starts_digit_def is_digit_chars)

lemma percent_no_digit: "\<not> is_digit (CHR 0x25)"
  by code_simp

lemma percent_free_uint [simp]: "percent_free (q_uint n)"
proof -
  have "CHR 0x25 \<notin> set (nat_digits k)" for k
    using nat_digits_digits [of k] percent_no_digit by blast
  then show ?thesis by (simp add: q_uint_def int_to_string_def percent_free_def)
qed

section \<open>A function with these laws\<close>

function read_pieces :: "string \<Rightarrow> piece list" where
  "read_pieces [] = []"
| "read_pieces [c] = [Lit [c]]"
| "read_pieces (c # d # r) =
     (if c = CHR 0x25 \<and> is_digit d \<and> d \<noteq> CHR ''0'' \<and> \<not> starts_digit r then Mark (digit_val d) # read_pieces r
      else Lit [c] # read_pieces (d # r))"
  by pat_completeness auto
termination by (relation "measure length") auto

definition qarg_ref :: arg_fn where
  "qarg_ref s a = text_of (put_lowest a (read_pieces s))"

fun split_piece :: "piece \<Rightarrow> piece list" where
  "split_piece (Lit s) = map (\<lambda>c. Lit [c]) s"
| "split_piece (Mark k) = [Mark k]"

lemma read_pieces_lit: "CHR 0x25 \<notin> set s \<Longrightarrow> read_pieces (s @ t) = map (\<lambda>c. Lit [c]) s @ read_pieces t"
proof (induction s)
  case (Cons c s)
  then show ?case by (cases "s @ t") auto
qed simp

lemma digit_chars_ok: "1 \<le> k \<Longrightarrow> k \<le> 9 \<Longrightarrow> is_digit (digit_char k) \<and> digit_char k \<noteq> CHR ''0'' \<and> digit_val (digit_char k) = k"
proof -
  assume k: "1 \<le> k" "k \<le> 9"
  then have "digit_val (digit_char k) = k" "is_digit (digit_char k)" by simp_all
  moreover have "digit_val (CHR ''0'') = 0" by code_simp
  ultimately show ?thesis using k by (metis not_one_le_zero)
qed

lemma read_pieces_text: "pieces_ok ps \<Longrightarrow> read_pieces (text_of ps) = concat (map split_piece ps)"
  by (induction ps rule: pieces_ok.induct) (simp_all add: read_pieces_lit digit_chars_ok)

lemma split_marks: "marks (concat (map split_piece ps)) = marks ps"
proof -
  have "marks (map (\<lambda>c. Lit [c]) s @ qs) = marks qs" for s qs by (induction s) simp_all
  then show ?thesis by (induction ps rule: marks.induct) simp_all
qed

lemma split_put: "text_of (map (put k a) (concat (map split_piece ps))) = text_of (map (put k a) ps)"
proof -
  have "text_of (map (put k a) (split_piece p)) = piece_text (put k a p)" for p
  proof (cases p)
    case (Lit s)
    then show ?thesis by (induction s arbitrary: p) (simp_all add: put_def)
  qed (simp add: put_def)
  then show ?thesis by (induction ps) simp_all
qed

lemma split_text: "text_of (concat (map split_piece ps)) = text_of ps"
proof -
  have "text_of (split_piece p) = piece_text p" for p
  proof (cases p)
    case (Lit s)
    then show ?thesis by (induction s arbitrary: p) simp_all
  qed simp
  then show ?thesis by (induction ps) simp_all
qed

interpretation qr: qt_arg qarg_ref
proof
  fix ps a assume ok: "pieces_ok ps"
  show "qarg_ref (text_of ps) a = text_of (put_lowest a ps)"
  proof (cases "marks ps = []")
    case True
    then show ?thesis by (simp add: qarg_ref_def read_pieces_text [OF ok] put_lowest_def split_marks split_text)
  qed (simp add: qarg_ref_def read_pieces_text [OF ok] split_put put_lowest_def split_marks del: map_map map_concat)
qed

section \<open>Properties\<close>

text \<open>
  Storing a message with the earlier class: a content without a percent sign gives the statement that
  holds the numbers and the two texts in the order of the columns; what follows it may be anything.
\<close>

theorem q_insert_statement:
  assumes "qt_arg qarg" "percent_free co"
  shows "q_insert_history qarg eng ac (t, f, n, ty, ob, co, ex) st d = q_exec eng
    (''INSERT INTO history_'' @ q_uint ac @ '' VALUES ('' @ q_uint t @ '','' @ q_uint f @ '','' @ q_uint n @ '','' @ q_uint ty
      @ '','' @ q_uint ob @ '','' @ quoted co @ '','' @ quoted ex @ '');'') st d"
proof -
  have "q_args qarg (text_of q_insert_pieces) ([q_uint ac, q_uint t, q_uint f, q_uint n, q_uint ty, q_uint ob, co] @ [ex])
      = text_of (map (fill_piece 1 ([q_uint ac, q_uint t, q_uint f, q_uint n, q_uint ty, q_uint ob, co] @ [ex])) q_insert_pieces)"
    by (rule qt_arg.args_fill [OF assms(1) pieces_good(1,2,3)]) (use assms(2) in simp_all)
  then show ?thesis
    by (simp add: q_insert_history_def pieces_texts q_insert_pieces_def quoted_def)
qed

text \<open>
  A content that holds \<open>%1\<close>: the text of the extension goes into the content, and the column of the
  extension is left with its marker.
\<close>

theorem q_insert_marker:
  assumes "qt_arg qarg" "percent_free a" "percent_free b" "\<not> starts_digit b"
  shows "q_insert_history qarg eng ac (t, f, n, ty, ob, a @ ''%1'' @ b, ex) st d = q_exec eng
    (''INSERT INTO history_'' @ q_uint ac @ '' VALUES ('' @ q_uint t @ '','' @ q_uint f @ '','' @ q_uint n @ '','' @ q_uint ty
      @ '','' @ q_uint ob @ '','' @ quoted (a @ ex @ b) @ '','' @ quoted ''%8'' @ '');'') st d"
proof -
  let ?nums = "[q_uint ac, q_uint t, q_uint f, q_uint n, q_uint ty, q_uint ob]"
  let ?head = "''INSERT INTO history_'' @ q_uint ac @ '' VALUES ('' @ q_uint t @ '','' @ q_uint f @ '','' @ q_uint n @ '','' @ q_uint ty
      @ '','' @ q_uint ob @ '','' @ [CHR 0x27]"
  let ?ps = "map (fill_piece 1 ?nums) q_insert_pieces"
  let ?qs = "[Lit ?head, Lit a, Mark 1, Lit b, Lit (CHR 0x27 # '','' @ [CHR 0x27]), Mark 8, Lit (CHR 0x27 # '');'')]"
  have s: "q_args qarg (text_of q_insert_pieces) (?nums @ [a @ ''%1'' @ b, ex]) = q_args qarg (text_of ?ps) [a @ ''%1'' @ b, ex]"
      "pieces_ok ?ps" "set (marks ?ps) = {7..<9}"
    using qt_arg.args_fill_some [OF assms(1) pieces_good(1,2,3), of 7 ?nums "[a @ ''%1'' @ b, ex]"] by simp_all
  have "qarg (text_of ?ps) (a @ ''%1'' @ b) = text_of (map (put 7 (a @ ''%1'' @ b)) ?ps)"
    using qt_arg.arg_pieces [OF assms(1) s(2)] put_lowest_Min [OF s(3)] by simp
  also have "\<dots> = text_of ?qs"
    by (simp add: q_insert_pieces_def put_def mark_digits)
  finally have 7: "qarg (text_of ?ps) (a @ ''%1'' @ b) = text_of ?qs" .
  have ok: "pieces_ok ?qs"
    using assms percent_free_uint by (auto simp: starts_digit_def percent_free_def is_digit_chars split: list.splits)
  have "put_lowest ex ?qs = map (put 1 ex) ?qs" by (simp add: put_lowest_def)
  then have "qarg (text_of ?qs) ex = text_of (map (put 1 ex) ?qs)"
    using qt_arg.arg_pieces [OF assms(1) ok, of ex] by (simp only:)
  with 7 s(1) have "q_args qarg (text_of q_insert_pieces) (?nums @ [a @ ''%1'' @ b, ex]) = text_of (map (put 1 ex) ?qs)"
    by (simp add: q_args_def)
  then show ?thesis
    by (simp add: q_insert_history_def pieces_texts quoted_def put_def mark_digits)
qed

definition q_demo :: qsqlist_history where
  "q_demo = qsqlist_history_init\<lparr>db := Some ''f''\<rparr>"

lemma q_demo_exec: "q_exec demo_engine sql q_demo d = (True, q_demo, d @ [sql])"
  by (simp add: q_exec_def exec_db_def demo_engine_def q_demo_def qsqlist_history_init_def Let_def)

lemma q_uint_eval: "q_uint 7 = ''7''" "q_uint 5 = ''5''" "q_uint 0 = ''0''" "q_uint 1 = ''1''" "q_uint 2 = ''2''"
  by (simp_all add: q_uint_def digits_eval)

theorem q_insert_statement_witness:
  "q_insert_history qarg_ref demo_engine 7 (5, 5, 1, 1, 2, ''it's'', ''50%'') q_demo []
    = (True, q_demo, [''INSERT INTO history_7 VALUES (5,5,1,1,2,'it's','50%');''])"
proof -
  have "percent_free ''it's''" by (simp add: percent_free_def)
  from q_insert_statement [OF qr.qt_arg_axioms this, of demo_engine 7 5 5 1 1 2 "''50%''" q_demo "[]"]
  show ?thesis by (simp only: q_demo_exec q_uint_eval quoted_def append.simps)
qed

theorem q_insert_marker_witness:
  "q_insert_history qarg_ref demo_engine 7 (5, 5, 1, 1, 2, ''only %1 left'', ''x'') q_demo []
    = (True, q_demo, [''INSERT INTO history_7 VALUES (5,5,1,1,2,'only x left','%8');''])"
proof -
  have "percent_free ''only ''" "percent_free '' left''" "\<not> starts_digit '' left''"
    by (simp_all add: percent_free_def starts_digit_def is_digit_chars)
  from q_insert_marker [OF qr.qt_arg_axioms this, of demo_engine 7 5 5 1 1 2 "''x''" q_demo "[]"]
  show ?thesis by (simp only: q_demo_exec q_uint_eval quoted_def append.simps)
qed

text \<open>
  Opening twice: the template of the file name has lost its marker, so every account opens the file of the first.
\<close>

theorem q_open_again:
  assumes "qt_arg qarg" "name_history st = ''../data/history_%1.db''" "q_open_history qarg eng a st d = (ok, st', d')"
  shows "q_open_history qarg eng b st' d'' = q_open_db eng (''../data/history_'' @ q_uint a @ ''.db'') st' d''"
proof -
  define hist where "hist = ''../data/history_'' @ q_uint a @ ''.db''"
  have "q_args qarg (name_history st) [q_uint a] = hist"
    using qt_arg.arg_pieces [OF assms(1), of "[Lit ''../data/history_'', Mark 1, Lit ''.db'']" "q_uint a"]
    by (simp add: q_args_def put_lowest_def put_def mark_digits starts_digit_def is_digit_chars assms(2) hist_def)
  with assms(3) have "name_history st' = hist"
    by (auto simp: q_open_history_def q_open_db_def Let_def split: prod.splits bool.splits)
  moreover have "q_args qarg hist [q_uint b] = hist"
    using qt_arg.arg_pieces [OF assms(1), of "[Lit hist]" "q_uint b"] percent_free_uint [of a]
    by (simp add: q_args_def put_lowest_def percent_free_def hist_def)
  ultimately have "st'\<lparr>name_history := q_args qarg (name_history st') [q_uint b]\<rparr> = st'" "name_history st' = hist"
    by simp_all
  then show ?thesis unfolding hist_def [symmetric] by (simp add: q_open_history_def Let_def)
qed

theorem q_open_again_witness:
  "\<exists>ok st d. q_open_history qarg_ref demo_engine 1 qsqlist_history_init [] = (ok, st, d)
    \<and> db (fst (snd (q_open_history qarg_ref demo_engine 2 st d))) = Some ''../data/history_1.db''"
proof -
  obtain ok st d where o: "q_open_history qarg_ref demo_engine 1 qsqlist_history_init [] = (ok, st, d)"
    by (metis prod.exhaust)
  have "name_history qsqlist_history_init = ''../data/history_%1.db''" by (simp add: qsqlist_history_init_def)
  from q_open_again [OF qr.qt_arg_axioms this o, of 2 d] o show ?thesis
    by (simp add: q_open_db_def q_uint_eval demo_open)
qed

end
