(* ===== verification/Old_Frame.thy ===== *)
theory Old_Frame
  imports Web_Files
begin

text \<open>
  The frame of the earlier program version: \<open>file_version.h\<close> and \<open>make_json.{h,cpp}\<close>, which write it,
  and \<open>qweb_socket.h\<close>, whose classes open the connections it went over.
\<close>

section \<open>\<open>file_version.h\<close> and \<open>make_json\<close>\<close>

definition CS_HEAD :: string where "CS_HEAD = ''SMCH_HEAD''"
definition CS_VERSION :: int where "CS_VERSION = 1"

text \<open>A member line of a raw string: a name, the spaces after it and a value.\<close>

definition frame_line :: "string \<Rightarrow> nat \<Rightarrow> string \<Rightarrow> string" where
  "frame_line name spaces val = ''    '' @ [CHR 0x22] @ name @ [CHR 0x22] @ replicate spaces (CHR '' '') @ '': '' @ val"

definition quoted_text :: "string \<Rightarrow> string" where
  "quoted_text s = [CHR 0x22] @ s @ [CHR 0x22]"

definition sjson_swap :: string where
  "sjson_swap = [CHR 0x0A, CHR ''{'', CHR 0x0A] @
     frame_line ''head'' 6 (quoted_text []) @ [CHR '','', CHR 0x0A] @
     frame_line ''version'' 3 ''0'' @ [CHR '','', CHR 0x0A] @
     frame_line ''target'' 4 ''0'' @ [CHR '','', CHR 0x0A] @
     frame_line ''source'' 4 ''0'' @ [CHR '','', CHR 0x0A] @
     frame_line ''type'' 6 (quoted_text ''Swap'') @ [CHR '','', CHR 0x0A] @
     frame_line ''task'' 6 (quoted_text []) @ [CHR '','', CHR 0x0A] @
     frame_line ''content'' 3 (quoted_text []) @ [CHR '','', CHR 0x0A] @
     frame_line ''extend'' 4 ''{}'' @ [CHR 0x0A, CHR ''}'', CHR 0x0A]"

definition sjson_login :: string where
  "sjson_login = [CHR 0x0A, CHR ''{'', CHR 0x0A] @
     frame_line ''head'' 6 (quoted_text []) @ [CHR '','', CHR 0x0A] @
     frame_line ''version'' 3 ''0'' @ [CHR '','', CHR 0x0A] @
     frame_line ''account'' 3 ''0'' @ [CHR '','', CHR 0x0A] @
     frame_line ''type'' 6 (quoted_text ''Request'') @ [CHR '','', CHR 0x0A] @
     frame_line ''task'' 6 (quoted_text ''Login'') @ [CHR '','', CHR 0x0A] @
     frame_line ''passwd'' 4 (quoted_text []) @ [CHR '','', CHR 0x0A] @
     frame_line ''extend'' 4 ''{}'' @ [CHR 0x0A, CHR ''}'', CHR 0x0A]"

text \<open>
  \<open>send_swap_json\<close>: the texts emitted by \<open>sn_send_json\<close> are the state. Everything is inside one \<open>try\<close>;
  the receivers of the signal are not part of the class.
\<close>

definition send_swap_json :: "codec \<Rightarrow> int32 \<Rightarrow> int32 \<Rightarrow> string \<Rightarrow> string \<Rightarrow> string list \<Rightarrow> (bool \<times> string list) res" where
  "send_swap_json c ac_to ac_from task content emitted =
     catch_all
       (rbind (parse c sjson_swap) (\<lambda>js.
        rbind (js_assign js ''head'' (JStr CS_HEAD)) (\<lambda>js.
        rbind (js_assign js ''version'' (JInt CS_VERSION)) (\<lambda>js.
        rbind (js_assign js ''target'' (JInt (uint ac_to))) (\<lambda>js.
        rbind (js_assign js ''source'' (JInt (uint ac_from))) (\<lambda>js.
        rbind (js_assign js ''task'' (JStr task)) (\<lambda>js.
        rbind (js_assign js ''content'' (JStr content)) (\<lambda>js.
        rbind (dump c js) (\<lambda>s. Inr (True, emitted @ [s]))))))))))
       (Inr (False, emitted))"

section \<open>\<open>qweb_socket.h\<close>\<close>

text \<open>
  The server class: three callbacks and a port; \<open>run\<close> of the library is an argument. The client class
  opens an address as \<open>inter_client\<close> does, and hands the settings of the reconnection to the library.
\<close>

record 'f socket_server =
  ss_open :: 'f
  ss_message :: 'f
  ss_close :: 'f
  ss_registered :: bool
  ss_port :: int32
  ss_threads :: int32

definition server_bind :: "'f \<Rightarrow> 'f \<Rightarrow> 'f \<Rightarrow> 'f socket_server \<Rightarrow> 'f socket_server" where
  "server_bind op msg cl st = st\<lparr>ss_open := op, ss_message := msg, ss_close := cl\<rparr>"

definition server_open :: "('f socket_server \<Rightarrow> int32) \<Rightarrow> int32 \<Rightarrow> int32 \<Rightarrow> 'f socket_server \<Rightarrow> int32 \<times> 'f socket_server" where
  "server_open run port th_mun st =
     (let st = st\<lparr>ss_registered := True, ss_port := port, ss_threads := th_mun\<rparr> in (run st, st))"

record socket_client =
  sk_rec :: reconn_setting
  sk_reconnect :: "reconn_setting option"
  sk_closes :: nat

definition socket_open :: "(string \<Rightarrow> int32) \<Rightarrow> reconn_setting \<Rightarrow> string \<Rightarrow> int32 \<Rightarrow> string \<Rightarrow> socket_client \<Rightarrow> int32 \<times> socket_client" where
  "socket_open wc_open init ip port txt st =
     (let rec = init\<lparr>min_delay := 1000, max_delay := 2000, delay_policy := 1\<rparr>;
          st = st\<lparr>sk_rec := rec, sk_reconnect := Some rec\<rparr>;
          temp = ''ws://'' @ ip @ '':'' @ int_to_string (sint port) @ ''/'' @ txt
      in (wc_open temp, st))"

text \<open>\<open>close_client\<close>: the calls \<open>closesocket\<close> and \<open>close\<close> of the library, counted.\<close>

definition socket_close :: "socket_client \<Rightarrow> socket_client" where
  "socket_close st = st\<lparr>sk_closes := Suc (Suc (sk_closes st))\<rparr>"

section \<open>Properties\<close>

text \<open>The interface of the text functions with the earlier template.\<close>

locale swap_codec = json_codec +
  assumes swap_template: "js_parse c sjson_swap = Some (JObj
    [(''content'', JStr []), (''extend'', JObj []), (''head'', JStr []), (''source'', JInt 0), (''target'', JInt 0),
     (''task'', JStr []), (''type'', JStr ''Swap''), (''version'', JInt 0)])"

definition swap_frame :: "int32 \<Rightarrow> int32 \<Rightarrow> string \<Rightarrow> string \<Rightarrow> json" where
  "swap_frame ac_to ac_from task content = JObj
     [(''content'', JStr content), (''extend'', JObj []), (''head'', JStr CS_HEAD), (''source'', JInt (uint ac_from)),
      (''target'', JInt (uint ac_to)), (''task'', JStr task), (''type'', JStr ''Swap''), (''version'', JInt CS_VERSION)]"

lemma swap_template_text: "js_parse text_codec sjson_swap = Some (JObj
    [(''content'', JStr []), (''extend'', JObj []), (''head'', JStr []), (''source'', JInt 0), (''target'', JInt 0),
     (''task'', JStr []), (''type'', JStr ''Swap''), (''version'', JInt 0)])"
  by code_simp

interpretation sw: swap_codec text_codec
  by unfold_locales (rule swap_template_text)

lemma uint_range: "- (2 ^ 63) \<le> uint (n :: int32) \<and> uint n < 2 ^ 64"
proof -
  have "0 \<le> uint n" "uint n < 2 ^ 32" using uint_lt2p [of n] by simp_all
  then have "uint n < 2 ^ 64" by simp
  moreover have "- (2 ^ 63) \<le> uint n" by (rule order_trans [of _ 0]) simp_all
  ultimately show ?thesis by blast
qed

lemma swap_frame_wf: "json_wf (swap_frame a b task content)"
  using uint_range [of a] uint_range [of b]
  by (simp add: swap_frame_def obj_sorted_def CS_VERSION_def)

lemma swap_frame_utf8: "json_utf8 (swap_frame a b task content) \<longleftrightarrow> utf8_ok task \<and> utf8_ok content"
  by (auto simp: swap_frame_def CS_HEAD_def)

lemma send_swap_steps:
  assumes "swap_codec c"
  shows "send_swap_json c a b task content emitted
    = catch_all (rbind (dump c (swap_frame a b task content)) (\<lambda>s. Inr (True, emitted @ [s]))) (Inr (False, emitted))"
  using swap_codec.swap_template [OF assms]
  by (simp add: send_swap_json_def parse_def js_assign_def swap_frame_def)

text \<open>
  What \<open>send_swap_json\<close> writes. It emits one text and answers true exactly if both texts are UTF-8; the
  text parses to the frame with the two accounts unsigned, and the protocol of today refuses it.
\<close>

theorem swap_frame_written:
  assumes "swap_codec c"
  shows "if utf8_ok task \<and> utf8_ok content
    then \<exists>s. send_swap_json c a b task content emitted = Inr (True, emitted @ [s])
      \<and> parse c s = Inr (swap_frame a b task content) \<and> check_json c s = Inr None
    else send_swap_json c a b task content emitted = Inr (False, emitted)"
proof -
  have j: "json_codec c" using assms by (simp add: swap_codec_def)
  note w = swap_frame_wf [of a b task content]
  show ?thesis
  proof (cases "utf8_ok task \<and> utf8_ok content")
    case True
    then obtain s where s: "dump c (swap_frame a b task content) = Inr s" "parse c s = Inr (swap_frame a b task content)"
      using json_codec.dump_ok [OF j w] swap_frame_utf8 by blast
    moreover have "check_json c s = Inr None"
      using s(2) by (simp add: check_json_def swap_frame_def js_read_def js_string_def)
    ultimately show ?thesis using True by (simp add: send_swap_steps [OF assms])
  next
    case False
    then show ?thesis
      using json_codec.dump_bad [OF j w] swap_frame_utf8 by (auto simp: send_swap_steps [OF assms])
  qed
qed

theorem swap_frame_written_witness:
  "\<exists>s. send_swap_json text_codec 5 7 ''Text'' ''hi'' [] = Inr (True, [s])
    \<and> parse text_codec s = Inr (swap_frame 5 7 ''Text'' ''hi'') \<and> check_json text_codec s = Inr None"
  using swap_frame_written [OF sw.swap_codec_axioms, of "''Text''" "''hi''" 5 7 "[]"] by simp

end
