(* ===== verification/Spec2Isabelle.thy ===== *)
theory Spec2Isabelle
  imports Icon_Transfer File_Travels Files_Threads Client_Traffic History_Store Chat_Delivery App_Runs Chat_Faults
    Swap_Files Vlog Account_Store Qsqlist Old_Frame
begin

text \<open>
  The program \<open>simple_chat\<close> is a chat client written with Qt. This development models its C++ code as HOL functions
  and proves what makes its parts correct.

  \<^bold>\<open>The program.\<close> \<open>main.cpp\<close> opens a window and calls \<open>test_20\<close> of \<open>wid_test_20.cpp\<close>. That function makes
  a client of the task server (\<open>qweb_client\<close>), which signs in, exchanges messages and keeps a local history
  and the friend requests in SQLite files (\<open>sqlite_op\<close>, \<open>sqlite_read_history\<close>), and the list of friends
  (\<open>wid_friend_list\<close>) with its chat windows and profile pages, and connects their signals. Icons are moved
  by clients of a file server (\<open>qweb_files\<close>), each with the table of the files of its connection
  (\<open>files_channel\<close> over \<open>files_io\<close>). Both servers speak the JSON messages and binary frames of
  \<open>web_protocol.h\<close>; every SQL text is filled in by \<open>format.h\<close>; \<open>Tvlog.h\<close> prints and writes logs.

  \<^bold>\<open>The theories.\<close> They follow the code, each group of definitions in the order of its file.

  \<^item> \<open>Chat_Prelude\<close>: machine integers (\<open>int\<close> and \<open>long long\<close> as words of 32 and 64 bits), exceptions and
    crashes as the type \<open>'a res\<close>, and \<open>std::to_string\<close>, \<open>std::stoi\<close>, \<open>std::stoll\<close>.
  \<^item> \<open>Format\<close> (\<open>format.h\<close>): the class \<open>sformat\<close>. Its scan ends on every text; a template is filled as meant,
    and which texts make it throw.
  \<^item> \<open>Json\<close>, \<open>Json_Text\<close>: the JSON values and operations the code uses; the text functions of the library are
    the locale \<open>json_codec\<close>, interpreted with a printer and a parser.
  \<^item> \<open>Protocol\<close>, \<open>Messages\<close> (\<open>web_protocol.h\<close>): the frame of a message, the 31 message types with the
    functions that write and read them, and the binary frames. Round trips, what \<open>check_json\<close> accepts, and
    each fault.
  \<^item> \<open>Fs_World\<close>, \<open>Files_Transfer\<close>, \<open>Transfer_Laws\<close>, \<open>Files_Channel\<close> (\<open>files_transfer.h\<close>): an explicit file
    system with faults; the tables of files that are sent and received; whole transfers, progress, and
    the files a connection owns. \<open>Files_Threads\<close>: the sending half of the tables run by threads with its mutex, where
    a pass of the loop, run alone, is the \<open>send_step\<close> of \<open>Files_Transfer\<close>. \<open>Swap_Files\<close> (\<open>swap_files.h\<close>): the earlier table, which agrees with \<open>files_io\<close>
    but for the progress, and its queue, which does not do what it should.
  \<^item> \<open>Web_Files\<close>, \<open>Icon_Transfer\<close> (\<open>qweb_files\<close>, \<open>inter_client.h\<close>): the client of the file server, complete
    uploads and downloads against what the server sends, and every way a message can end the program.
    \<open>File_Travels\<close>: a file from the disk of one user to the disk of another, and what a frame that cannot be sent does.
  \<^item> \<open>Sqlite_Op\<close>, \<open>Structs\<close>, \<open>Read_History\<close>: the local databases as the SQL texts they are given, the shared
    records, and reading messages while marking them as read.
  \<^item> \<open>Web_Client\<close>, \<open>Client_Laws\<close>, \<open>Client_Runs\<close>, \<open>Client_Traffic\<close> (\<open>qweb_client\<close>): the requests and the
    handlers of the task client; one message between two clients from the click to the acknowledgement; signing in;
    saved messages; the faults; runs as a step relation \<open>client_step\<close> with invariants; and any number of
    clients with their server as a network that simulates a mailbox event by event, so that each message that
    arrives is shown and acknowledged once. \<open>History_Store\<close>: under the laws of the locale
    \<open>history_sql\<close> the history is a store of tables, and a received message is kept until it is read, if its
    time is free, its type holds no brace and its texts hold no quote.
  \<^item> \<open>Ui_Layout\<close>, \<open>Ui_Widgets\<close>, \<open>Person_Info\<close>, \<open>Friend_List\<close>: positions and line breaks, the elements and the chat
    window, the forms of an account with their checks, and the list of friends as a state machine \<open>list_step\<close>.
  \<^item> \<open>Chat_App\<close> (\<open>wid_test_20.cpp\<close>, \<open>sn_connect.h\<close>): the slots that tie the list to the client, and what a
    message that is sent or received does to both. \<open>Chat_Delivery\<close>: a message from the click in one program to the
    chat and the history of the other and back. \<open>App_Runs\<close>: all that can happen to the program as a step relation
    \<open>app_step\<close> with its invariant. \<open>Chat_Faults\<close>: what a message of an unknown type does.
  \<^item> \<open>Vlog\<close> (\<open>Tvlog.h\<close>): the logs, the rotation of log files, and the singleton run by many threads: its calls
    race on the pointer exactly when no object was made before.
  \<^item> \<open>Account_Server\<close>, \<open>Account_Store\<close> (\<open>tests/web_server\<close>): the accounts of the test server with the earlier
    formatter; under the laws of \<open>account_sql\<close> they are a table, and the output of its \<open>main\<close> is known to the byte.
    \<open>Sql_Text\<close> reads SQL texts for the engines that interpret the laws.
  \<^item> \<open>Qsqlist\<close> (\<open>qsqlist\<close>), \<open>Old_Frame\<close> (\<open>make_json\<close>, \<open>file_version.h\<close>, \<open>qweb_socket.h\<close>): the earlier database
    class, and the earlier frame.

  \<^bold>\<open>How code becomes definitions.\<close> A class is a record of its members, a method a function on it. A
  \<open>throw\<close> is \<open>Inl (Throw e)\<close>, a failed assertion, a null pointer or a division by zero \<open>Inl (Crash e)\<close>,
  and \<open>catch(...)\<close> catches the first only. The signals an object emits are a list in its state, in order;
  a slot is run after the handler that emitted, and callbacks are functions. Strings, \<open>QString\<close> included,
  are byte lists in UTF-8. Numbers are words where the code computes with them; positions and sizes of
  widgets are \<open>int\<close>, no place of the code coming near the bounds.

  \<^bold>\<open>Parameters.\<close> Code that is not in the repository is an argument: the text functions of the JSON library
  (\<open>json_codec\<close>, with the law that parsing gives back what was dumped, and \<open>protocol_codec\<close>, with the
  value of the template), SQLite (the record \<open>engine\<close>, with no law but in
  \<open>History_Store\<close> and \<open>Account_Store\<close>, where \<open>history_sql\<close> and \<open>account_sql\<close> say what the statements of the history and of
  the accounts do on a disk without faults when no text holds a quote; a table of the history is named by an account
  that is not negative, its rows are read in any order, and those of the accounts in the order of the key, in which SQLite
  scans such a table without promising it), the web socket (whether a text could
  be sent), the clock, the dialogs, the widths of characters and the conversions of numbers of Qt
  (\<open>qt_numbers\<close>), and \<open>QString::arg\<close> (\<open>qt_arg\<close>). The locales \<open>file_table\<close>, \<open>channel_table\<close>, \<open>send_observer\<close>,
  \<open>client_trace\<close> and \<open>history_reader\<close> are interfaces between parts of the program itself. Each locale is interpreted: the
  first ones with executable functions, the others with the definitions of the model.

  \<^bold>\<open>Loops and bounds.\<close> Loops are structural or have a termination proof. Those over the names of files
  (\<open>make_none_repeat_file\<close>, \<open>free_name\<close>) and of the earlier formatter are partial functions: for the first
  two it is proved that they return, as a file system has finitely many nodes; for the formatter on
  which texts it does, and on which it does not before its index overflows (\<open>old_turns\<close>). The handler of a message that holds saved messages calls itself on
  each; \<open>sl_message_depth\<close> bounds the depth by the length of the text, and the proof that this bound is never
  reached rests on the law that a string in a JSON text is shorter than the text. File lengths are words of
  64 bits and wrap as in the code. The indices of both formatters are \<open>int\<close> in the code and have no bound in \<open>sformat_loop\<close>
  and \<open>old_sformat_loop\<close>: these are the code for texts below \<open>2 ^ 31\<close> bytes.

  \<^bold>\<open>Simplifications.\<close> A file stream writes through to the disk (\<open>ws_write\<close>): its buffer may hold bytes back until it
  is closed, and an error that shows only then is not seen. A message that arrives and the slots it queues are
  one step of the program (\<open>app_message\<close>), although the handler runs on the thread of the connection and the slots later on
  that of the window. A history file holds tables of this program only.

  \<^bold>\<open>What is proved.\<close> Functional behaviour of each operation on its branches; the round trips of messages,
  frames and files; invariants of the reachable states of the client, of the list of friends, of the
  channel table, of the threads that send files and of the whole program; agreement of the earlier table and formatter with those in use;
  when the singleton is free of data races; the simulation of the mailbox by the network and of the stores of tables by the history and by the accounts; and for the handlers of both clients the complete list of what can end
  the program. Where the code does not do what it means to, a theorem states what it does: texts with
  braces, a missing head of a message, a second login, a history that stays at its first file, the queue of
  \<open>swap_files\<close>, a look-up and a test beside the mutex, a block of a file that is lost, a message of an unknown type.

  \<^bold>\<open>Not modelled.\<close> The vendored libraries under \<open>include\<close>, \<open>third_party\<close> and \<open>lib\<close> are the parameters above.
  Painting, style sheets, fonts, cursors and fixed places of panels have no state that the program reads.
  Threads are modelled for the singleton and for the sending half of \<open>files_io\<close>; the receiving half, whose mutex is
  used in the same way, and the channels run one operation at a time. \<open>main.cpp\<close> and the other pages of \<open>wid_test\<close> are demonstrations of single
  classes; \<open>qlab_line\<close>, \<open>qlab_bubble\<close>, \<open>qbar_line\<close>, \<open>wid_chat_list\<close> and \<open>wid_chat_display\<close> are
  empty or only paint; \<open>types_swap.h\<close> repeats two records; the main program of \<open>tests/web_client\<close> sends a
  constant text. The task server and the file server are not in the repository: what they may send is stated in
  the theorems that need it.
\<close>

end
